(* ===== verification/Prelude.thy ===== *)
theory Prelude
  imports Main "HOL-Library.Word"
begin

section \<open>Prelude: texts, results, machine integers\<close>

text \<open>
  The vocabulary every component shares.

  A Rust \<^verbatim>\<open>String\<close> is a sequence of Unicode scalar values; a \<open>str\<close> is the list of
  their code points. String literals of the source are written \<open>lit ''...''\<close>. A Rust
  \<^verbatim>\<open>Result<T, E>\<close> is a value of \<open>'e + 'a\<close> with \<open>Inl\<close> for \<^verbatim>\<open>Err\<close>. \<^verbatim>\<open>usize\<close> is a 64-bit
  unsigned integer: lengths and indices are \<open>nat\<close>, and the operations of the source that
  saturate, check or wrap are written out with their bound. The lemmas are the generic facts
  on lists, options and results that the components share.
\<close>

named_theorems text_eval \<open>equations that evaluate operations on concrete texts\<close>
named_theorems res_simps \<open>equations of the operations on results\<close>

subsection \<open>Texts\<close>

type_synonym uchar = nat
type_synonym str = "uchar list"

abbreviation lit :: "string \<Rightarrow> str" where
  "lit s \<equiv> map of_char s"

text \<open>A text between backquotes, as the error messages name fields and values.\<close>

definition quoted :: "str \<Rightarrow> str" where
  "quoted s = lit ''`'' @ s @ lit ''`''"

text \<open>The number of bytes of a code point and of a text in UTF-8 (Rust's \<^verbatim>\<open>str::len\<close>).\<close>

definition char_utf8_len :: "uchar \<Rightarrow> nat" where
  "char_utf8_len c = (if c < 128 then 1 else if c < 2048 then 2 else if c < 65536 then 3 else 4)"

definition utf8_len :: "str \<Rightarrow> nat" where
  "utf8_len s = sum_list (map char_utf8_len s)"

definition is_ascii_digit :: "uchar \<Rightarrow> bool" where
  "is_ascii_digit c \<longleftrightarrow> 48 \<le> c \<and> c \<le> 57"

definition is_ascii_lowercase :: "uchar \<Rightarrow> bool" where
  "is_ascii_lowercase c \<longleftrightarrow> 97 \<le> c \<and> c \<le> 122"

definition is_ascii_uppercase :: "uchar \<Rightarrow> bool" where
  "is_ascii_uppercase c \<longleftrightarrow> 65 \<le> c \<and> c \<le> 90"

definition is_ascii_alphanumeric :: "uchar \<Rightarrow> bool" where
  "is_ascii_alphanumeric c \<longleftrightarrow> is_ascii_digit c \<or> is_ascii_lowercase c \<or> is_ascii_uppercase c"

text \<open>The Unicode property \<^verbatim>\<open>White_Space\<close>, which Rust's \<^verbatim>\<open>trim\<close> and \<^verbatim>\<open>split_whitespace\<close> use.\<close>

definition is_whitespace :: "uchar \<Rightarrow> bool" where
  "is_whitespace c \<longleftrightarrow>
     (9 \<le> c \<and> c \<le> 13) \<or> c = 32 \<or> c = 133 \<or> c = 160 \<or> c = 5760 \<or>
     (8192 \<le> c \<and> c \<le> 8202) \<or> c = 8232 \<or> c = 8233 \<or> c = 8239 \<or> c = 8287 \<or> c = 12288"

definition starts_with :: "str \<Rightarrow> str \<Rightarrow> bool" where
  "starts_with p s \<longleftrightarrow> take (length p) s = p"

definition strip_prefix :: "str \<Rightarrow> str \<Rightarrow> str option" where
  "strip_prefix p s = (if starts_with p s then Some (drop (length p) s) else None)"

definition trim_start :: "str \<Rightarrow> str" where
  "trim_start s = dropWhile is_whitespace s"

definition trim_end :: "str \<Rightarrow> str" where
  "trim_end s = rev (dropWhile is_whitespace (rev s))"

definition trim_text :: "str \<Rightarrow> str" where
  "trim_text s = trim_end (trim_start s)"

text \<open>
  Rust's \<^verbatim>\<open>str::replace\<close> with a non-empty pattern: leftmost, non-overlapping matches.
\<close>

function replace_text :: "str \<Rightarrow> str \<Rightarrow> str \<Rightarrow> str" where
  "replace_text p r [] = []"
| "replace_text p r (c # s) =
     (if p \<noteq> [] \<and> starts_with p (c # s)
      then r @ replace_text p r (drop (length p) (c # s))
      else c # replace_text p r s)"
  by pat_completeness auto
termination
  by (relation "measure (\<lambda>(p, r, s). length s)") (auto simp: neq_Nil_conv)

text \<open>\<^verbatim>\<open>str::split\<close> at a character: the pieces between its occurrences, empty ones included.\<close>

fun split_char :: "uchar \<Rightarrow> str \<Rightarrow> str list" where
  "split_char d [] = [[]]"
| "split_char d (c # s) =
     (if c = d then [] # split_char d s
      else (case split_char d s of [] \<Rightarrow> [[c]] | p # ps \<Rightarrow> (c # p) # ps))"

text \<open>\<^verbatim>\<open>str::split_whitespace\<close>: the maximal runs of non-whitespace characters.\<close>

fun split_ws_from :: "str \<Rightarrow> str \<Rightarrow> str list" where
  "split_ws_from cur [] = (if cur = [] then [] else [cur])"
| "split_ws_from cur (c # s) =
     (if \<not> is_whitespace c then split_ws_from (cur @ [c]) s
      else if cur = [] then split_ws_from [] s
      else cur # split_ws_from [] s)"

definition split_whitespace :: "str \<Rightarrow> str list" where
  "split_whitespace s = split_ws_from [] s"

text \<open>\<^verbatim>\<open>split_inclusive\<close>: each piece keeps the character that ends it; no empty last piece.\<close>

fun split_inclusive :: "(uchar \<Rightarrow> bool) \<Rightarrow> str \<Rightarrow> str \<Rightarrow> str list" where
  "split_inclusive P cur [] = (if cur = [] then [] else [cur])"
| "split_inclusive P cur (c # s) =
     (if P c then (cur @ [c]) # split_inclusive P [] s else split_inclusive P (cur @ [c]) s)"

text \<open>\<^verbatim>\<open>str::lines\<close>: pieces up to each line feed, without it and a carriage return before it.\<close>

definition strip_line_end :: "str \<Rightarrow> str" where
  "strip_line_end piece =
     (if piece \<noteq> [] \<and> last piece = 10
      then (if butlast piece \<noteq> [] \<and> last (butlast piece) = 13
            then butlast (butlast piece) else butlast piece)
      else piece)"

definition text_lines :: "str \<Rightarrow> str list" where
  "text_lines s = map strip_line_end (split_inclusive (\<lambda>c. c = 10) [] s)"

text \<open>\<^verbatim>\<open>join\<close> with a separator.\<close>

fun join_text :: "str \<Rightarrow> str list \<Rightarrow> str" where
  "join_text sep [] = []"
| "join_text sep [s] = s"
| "join_text sep (s # ss) = s @ sep @ join_text sep ss"

text \<open>Decimal rendering of integers, as Rust's \<^verbatim>\<open>Display\<close> prints them.\<close>

fun show_nat :: "nat \<Rightarrow> str" where
  "show_nat n = (if n < 10 then [48 + n] else show_nat (n div 10) @ [48 + n mod 10])"

declare show_nat.simps [simp del]

definition show_int :: "int \<Rightarrow> str" where
  "show_int i = (if i < 0 then lit ''-'' @ show_nat (nat (- i)) else show_nat (nat i))"

definition show_int_list :: "int list \<Rightarrow> str" where
  "show_int_list xs = lit ''['' @ join_text (lit '', '') (map show_int xs) @ lit '']''"

lemma split_inclusive_concat: "concat (split_inclusive P cur s) = cur @ s"
  by (induction P cur s rule: split_inclusive.induct) auto

lemma split_inclusive_nonempty: "piece \<in> set (split_inclusive P cur s) \<Longrightarrow> piece \<noteq> []"
  by (induction P cur s rule: split_inclusive.induct) (auto split: if_splits)

lemma show_nat_digits: "set (show_nat n) \<subseteq> {48..57}"
proof (induction n rule: show_nat.induct)
  case (1 n)
  then show ?case by (subst show_nat.simps) auto
qed

lemma show_nat_nonempty [simp]: "show_nat n \<noteq> []"
  by (subst show_nat.simps) simp

lemma length_split_char [simp]: "split_char d s \<noteq> []"
  by (induction s) (auto split: list.splits)

lemma split_char_no_delim: "d \<notin> set s \<Longrightarrow> split_char d s = [s]"
  by (induction s) auto

lemma split_char_append:
  "d \<notin> set s \<Longrightarrow> split_char d (s @ d # t) = s # split_char d t"
  by (induction s) auto

lemma split_char_join:
  assumes "ss \<noteq> []" "\<And>s. s \<in> set ss \<Longrightarrow> d \<notin> set s"
  shows "split_char d (join_text [d] ss) = ss"
  using assms
proof (induction ss rule: induct_list012)
  case (3 s t ss)
  then show ?case by (simp add: split_char_append)
qed (auto simp: split_char_no_delim)

subsection \<open>Results\<close>

definition res_bind :: "'e + 'a \<Rightarrow> ('a \<Rightarrow> 'e + 'b) \<Rightarrow> 'e + 'b" where
  "res_bind r f = (case r of Inl e \<Rightarrow> Inl e | Inr x \<Rightarrow> f x)"

definition res_map :: "('a \<Rightarrow> 'b) \<Rightarrow> 'e + 'a \<Rightarrow> 'e + 'b" where
  "res_map f r = (case r of Inl e \<Rightarrow> Inl e | Inr x \<Rightarrow> Inr (f x))"

definition res_map_err :: "('e \<Rightarrow> 'f) \<Rightarrow> 'e + 'a \<Rightarrow> 'f + 'a" where
  "res_map_err f r = (case r of Inl e \<Rightarrow> Inl (f e) | Inr x \<Rightarrow> Inr x)"

definition ok_or :: "'e \<Rightarrow> 'a option \<Rightarrow> 'e + 'a" where
  "ok_or e x = (case x of None \<Rightarrow> Inl e | Some y \<Rightarrow> Inr y)"

definition unwrap_or :: "'a \<Rightarrow> 'a option \<Rightarrow> 'a" where
  "unwrap_or d x = (case x of None \<Rightarrow> d | Some y \<Rightarrow> y)"

text \<open>
  \<^verbatim>\<open>collect::<Result<Vec<_>, _>>()\<close> over a mapped iterator: the elements in order, stopping
  at the first error.
\<close>

fun collect_map :: "('a \<Rightarrow> 'e + 'b) \<Rightarrow> 'a list \<Rightarrow> 'e + 'b list" where
  "collect_map f [] = Inr []"
| "collect_map f (x # xs) =
     (case f x of Inl e \<Rightarrow> Inl e
      | Inr y \<Rightarrow> (case collect_map f xs of Inl e \<Rightarrow> Inl e | Inr ys \<Rightarrow> Inr (y # ys)))"

lemma res_bind_simps [simp, res_simps]:
  "res_bind (Inl e) f = Inl e" "res_bind (Inr x) f = f x"
  by (simp_all add: res_bind_def)

lemma res_map_simps [simp, res_simps]:
  "res_map f (Inl e) = Inl e" "res_map f (Inr x) = Inr (f x)"
  by (simp_all add: res_map_def)

lemma res_map_err_simps [simp, res_simps]:
  "res_map_err f (Inl e) = Inl (f e)" "res_map_err f (Inr x) = Inr x"
  by (simp_all add: res_map_err_def)

lemma ok_or_simps [simp, res_simps]: "ok_or e None = Inl e" "ok_or e (Some x) = Inr x"
  by (simp_all add: ok_or_def)

lemma unwrap_or_simps [simp, res_simps]: "unwrap_or d None = d" "unwrap_or d (Some x) = x"
  by (simp_all add: unwrap_or_def)

lemma res_bind_eq_Inr: "res_bind r f = Inr y \<longleftrightarrow> (\<exists>x. r = Inr x \<and> f x = Inr y)"
  by (cases r) auto

lemma res_bind_eq_Inl: "res_bind r f = Inl e \<longleftrightarrow> r = Inl e \<or> (\<exists>x. r = Inr x \<and> f x = Inl e)"
  by (cases r) auto

lemma res_map_eq_Inr: "res_map f r = Inr y \<longleftrightarrow> (\<exists>x. r = Inr x \<and> y = f x)"
  by (cases r) auto

lemma ok_or_eq_Inr [simp]: "ok_or e x = Inr y \<longleftrightarrow> x = Some y"
  by (cases x) auto

lemma res_map_eq_Inl: "res_map f r = Inl e \<longleftrightarrow> r = Inl e"
  by (cases r) auto

lemma res_map_err_eq_Inl: "res_map_err f r = Inl e \<longleftrightarrow> (\<exists>e'. r = Inl e' \<and> e = f e')"
  by (cases r) auto

lemma res_map_err_eq_Inr: "res_map_err f r = Inr x \<longleftrightarrow> r = Inr x"
  by (cases r) auto

lemma ok_or_eq_Inl: "ok_or e x = Inl e' \<longleftrightarrow> x = None \<and> e' = e"
  by (cases x) auto

text \<open>How each operation can have failed.\<close>

lemmas res_failed = res_bind_eq_Inl res_map_eq_Inl res_map_err_eq_Inl res_map_err_eq_Inr ok_or_eq_Inl

lemmas res_conv = res_bind_eq_Inr res_bind_eq_Inl res_map_eq_Inr

lemma collect_map_Inr:
  "collect_map f xs = Inr ys \<longleftrightarrow> list_all2 (\<lambda>x y. f x = Inr y) xs ys"
proof (induction xs arbitrary: ys)
  case (Cons x xs)
  show ?case
    by (cases ys; cases "f x") (auto simp: Cons.IH [symmetric] split: sum.splits)
qed auto

lemma collect_map_Inl:
  "collect_map f xs = Inl e \<Longrightarrow> \<exists>x \<in> set xs. f x = Inl e"
  by (induction xs) (auto split: sum.splits)

lemma collect_map_all_ok: "(\<And>x. x \<in> set xs \<Longrightarrow> f x = Inr (g x)) \<Longrightarrow> collect_map f xs = Inr (map g xs)"
  by (induction xs) auto

subsection \<open>Machine integers\<close>

definition usize_max :: nat where "usize_max = 18446744073709551615"

definition usize_sat_add :: "nat \<Rightarrow> nat \<Rightarrow> nat" where
  "usize_sat_add a b = min (a + b) usize_max"

definition usize_sat_mul :: "nat \<Rightarrow> nat \<Rightarrow> nat" where
  "usize_sat_mul a b = min (a * b) usize_max"

definition usize_checked_mul :: "nat \<Rightarrow> nat \<Rightarrow> nat option" where
  "usize_checked_mul a b = (if a * b \<le> usize_max then Some (a * b) else None)"

definition usize_wrap :: "nat \<Rightarrow> nat" where
  "usize_wrap n = n mod 18446744073709551616"

text \<open>Two's complement of a 64-bit pattern: \<^verbatim>\<open>as isize\<close>, and wrapping \<^verbatim>\<open>isize\<close> arithmetic.\<close>

definition isize_wrap :: "int \<Rightarrow> int" where
  "isize_wrap i = (i + 9223372036854775808) mod 18446744073709551616 - 9223372036854775808"

definition in_isize :: "int \<Rightarrow> bool" where
  "in_isize i \<longleftrightarrow> - 9223372036854775808 \<le> i \<and> i < 9223372036854775808"

lemma isize_wrap_id [simp]: "in_isize i \<Longrightarrow> isize_wrap i = i"
  by (simp add: in_isize_def isize_wrap_def)

lemma in_isize_wrap [simp]: "in_isize (isize_wrap i)"
  by (simp add: in_isize_def isize_wrap_def)

lemma usize_wrap_id [simp]: "n \<le> usize_max \<Longrightarrow> usize_wrap n = n"
  by (simp add: usize_wrap_def usize_max_def)

subsection \<open>Lists\<close>

text \<open>Rust's checked indexing \<^verbatim>\<open>xs.get(i)\<close>.\<close>

definition get_at :: "'a list \<Rightarrow> nat \<Rightarrow> 'a option" where
  "get_at xs i = (if i < length xs then Some (xs ! i) else None)"

definition first_of :: "'a list \<Rightarrow> 'a option" where
  "first_of xs = (case xs of [] \<Rightarrow> None | x # _ \<Rightarrow> Some x)"

definition last_of :: "'a list \<Rightarrow> 'a option" where
  "last_of xs = (if xs = [] then None else Some (last xs))"

lemma get_at_simps [simp]:
  "get_at [] i = None" "get_at (x # xs) 0 = Some x" "get_at (x # xs) (Suc i) = get_at xs i"
  by (simp_all add: get_at_def)

lemma get_at_Some: "get_at xs i = Some x \<longleftrightarrow> i < length xs \<and> x = xs ! i"
  by (auto simp: get_at_def)

lemma get_at_None: "get_at xs i = None \<longleftrightarrow> length xs \<le> i"
  by (auto simp: get_at_def)

lemma first_of_simps [simp]: "first_of [] = None" "first_of (x # xs) = Some x"
  by (simp_all add: first_of_def)

lemma last_of_simps [simp]: "last_of [] = None" "last_of (xs @ [x]) = Some x"
  by (simp_all add: last_of_def)

text \<open>\<^verbatim>\<open>(1..=n).rev()\<close>, the widths a longest-match scan tries.\<close>

definition down_from :: "nat \<Rightarrow> nat list" where
  "down_from n = rev [1..<Suc n]"

lemma down_from_simps [simp]: "down_from 0 = []" "down_from (Suc n) = Suc n # down_from n"
  by (simp_all add: down_from_def)

lemma set_down_from [simp]: "set (down_from n) = {1..n}"
  by (auto simp: down_from_def)

fun find_map :: "('a \<Rightarrow> 'b option) \<Rightarrow> 'a list \<Rightarrow> 'b option" where
  "find_map f [] = None"
| "find_map f (x # xs) = (case f x of None \<Rightarrow> find_map f xs | Some y \<Rightarrow> Some y)"

lemma find_map_None: "find_map f xs = None \<longleftrightarrow> (\<forall>x \<in> set xs. f x = None)"
  by (induction xs) (auto split: option.splits)

lemma find_map_Some: "find_map f xs = Some y \<Longrightarrow> \<exists>x \<in> set xs. f x = Some y"
  by (induction xs) (auto split: option.splits)

lemma find_map_append: "find_map f (xs @ ys) = (case find_map f xs of None \<Rightarrow> find_map f ys | Some y \<Rightarrow> Some y)"
  by (induction xs) (auto split: option.splits)

subsection \<open>Errors and values of a computation\<close>

text \<open>Every error of a result satisfies \<open>E\<close> and every value \<open>P\<close>, with rules that follow the code.\<close>

definition res_all :: "('e \<Rightarrow> bool) \<Rightarrow> ('a \<Rightarrow> bool) \<Rightarrow> 'e + 'a \<Rightarrow> bool" where
  "res_all E P r = (case r of Inl e \<Rightarrow> E e | Inr x \<Rightarrow> P x)"

lemma res_all_simps [simp]: "res_all E P (Inl e) = E e" "res_all E P (Inr x) = P x"
  by (simp_all add: res_all_def)

lemma res_allI: "(\<And>e. r = Inl e \<Longrightarrow> E e) \<Longrightarrow> (\<And>x. r = Inr x \<Longrightarrow> P x) \<Longrightarrow> res_all E P r"
  by (cases r) auto

lemma res_all_bind: "res_all E (\<lambda>x. res_all E P (f x)) r \<Longrightarrow> res_all E P (res_bind r f)"
  by (cases r) auto

lemma res_all_map: "res_all E (\<lambda>x. P (f x)) r \<Longrightarrow> res_all E P (res_map f r)"
  by (cases r) auto

lemma res_all_map_err: "res_all (\<lambda>e. E (f e)) P r \<Longrightarrow> res_all E P (res_map_err f r)"
  by (cases r) auto

lemma res_all_if: "(b \<Longrightarrow> res_all E P r) \<Longrightarrow> (\<not> b \<Longrightarrow> res_all E P s) \<Longrightarrow> res_all E P (if b then r else s)"
  by simp

lemma res_all_option:
  "(v = None \<Longrightarrow> res_all E P r) \<Longrightarrow> (\<And>x. v = Some x \<Longrightarrow> res_all E P (f x)) \<Longrightarrow>
   res_all E P (case v of None \<Rightarrow> r | Some x \<Rightarrow> f x)"
  by (cases v) auto

lemmas res_all_rules = res_all_bind res_all_map res_all_map_err res_all_if res_all_option

end
