(* ===== verification/Errors.thy ===== *)
theory Errors
  imports Prelude
begin

section \<open>Errors of the engine\<close>

text \<open>
  \<^verbatim>\<open>crates/dengjen/core/src/lib.rs\<close>: \<open>dengjen_error\<close> with its optional attached cause,
  the category and message accessors and the rendered cause chain. A boxed \<^verbatim>\<open>dyn StdError\<close> is a
  \<open>std_error\<close>: an error of another library (its text and its own source), a \<^verbatim>\<open>DengjenError\<close>,
  or the \<^verbatim>\<open>StackedCause\<close> that \<^verbatim>\<open>with_source\<close> builds. The lemmas show that attaching causes never
  changes what kind of failure is reported, and that earlier causes stay in the chain.
\<close>

datatype dengjen_error =
    FailedToLoadResource str
  | PhonemizationError str
  | InferenceError str
  | InvalidConfiguration str
  | UnsupportedOperation str
  | OperationError str
  | Caused dengjen_error std_error
and std_error =
    ForeignError str "std_error option"
  | DengjenStd dengjen_error
  | StackedCause std_error std_error

datatype error_category =
    CatFailedToLoadResource
  | CatPhonemization
  | CatInference
  | CatInvalidConfiguration
  | CatUnsupportedOperation
  | CatOperation

type_synonym 'a dengjen_result = "dengjen_error + 'a"

definition with_message :: "str \<Rightarrow> dengjen_error" where
  "with_message msg = OperationError msg"

fun with_source :: "dengjen_error \<Rightarrow> std_error \<Rightarrow> dengjen_error" where
  "with_source (Caused err earlier) cause = Caused err (StackedCause cause earlier)"
| "with_source other cause = Caused other cause"

fun kind :: "dengjen_error \<Rightarrow> dengjen_error" where
  "kind (Caused err cause) = kind err"
| "kind other = other"

definition category :: "dengjen_error \<Rightarrow> error_category" where
  "category e =
     (case kind e of
        FailedToLoadResource _ \<Rightarrow> CatFailedToLoadResource
      | PhonemizationError _ \<Rightarrow> CatPhonemization
      | InferenceError _ \<Rightarrow> CatInference
      | InvalidConfiguration _ \<Rightarrow> CatInvalidConfiguration
      | UnsupportedOperation _ \<Rightarrow> CatUnsupportedOperation
      | OperationError _ \<Rightarrow> CatOperation
      | Caused _ _ \<Rightarrow> CatOperation)"

definition message :: "dengjen_error \<Rightarrow> str" where
  "message e =
     (case kind e of
        FailedToLoadResource msg \<Rightarrow> msg
      | PhonemizationError msg \<Rightarrow> msg
      | InferenceError msg \<Rightarrow> msg
      | InvalidConfiguration msg \<Rightarrow> msg
      | UnsupportedOperation msg \<Rightarrow> msg
      | OperationError msg \<Rightarrow> msg
      | Caused _ _ \<Rightarrow> [])"

text \<open>\<^verbatim>\<open>StdError::source\<close> and \<^verbatim>\<open>Display\<close>.\<close>

fun error_source :: "dengjen_error \<Rightarrow> std_error option" where
  "error_source (Caused err cause) = Some cause"
| "error_source other = None"

fun display_error :: "dengjen_error \<Rightarrow> str" where
  "display_error (FailedToLoadResource msg) = lit ''Failed to load resource: '' @ msg"
| "display_error (PhonemizationError msg) = msg"
| "display_error (InferenceError msg) = msg"
| "display_error (InvalidConfiguration msg) = msg"
| "display_error (UnsupportedOperation msg) = msg"
| "display_error (OperationError msg) = msg"
| "display_error (Caused err cause) = display_error err"

fun std_source :: "std_error \<Rightarrow> std_error option" where
  "std_source (ForeignError msg src) = src"
| "std_source (DengjenStd e) = error_source e"
| "std_source (StackedCause cause earlier) = Some earlier"

fun std_display :: "std_error \<Rightarrow> str" where
  "std_display (ForeignError msg src) = msg"
| "std_display (DengjenStd e) = display_error e"
| "std_display (StackedCause cause earlier) = std_display cause"

lemma error_source_size: "error_source e = Some c \<Longrightarrow> size c < size e"
  by (cases e) auto

lemma std_source_size: "std_source c = Some c' \<Longrightarrow> size c' < size c"
  by (cases c) (auto dest: error_source_size)

text \<open>The \<^verbatim>\<open>while let Some(cause) = next\<close> loop of \<^verbatim>\<open>cause_chain\<close>.\<close>

function chain_from :: "std_error option \<Rightarrow> str" where
  "chain_from None = []"
| "chain_from (Some c) = lit '': '' @ std_display c @ chain_from (std_source c)"
  by pat_completeness auto
termination
  by (relation "measure (\<lambda>n. case n of None \<Rightarrow> 0 | Some c \<Rightarrow> Suc (size c))")
     (auto split: option.splits dest: std_source_size)

definition cause_chain :: "dengjen_error \<Rightarrow> str" where
  "cause_chain e = chain_from (error_source e)"

subsection \<open>Attaching causes\<close>

lemma kind_not_caused [simp]: "kind e \<noteq> Caused f c"
  by (induction e) auto

lemma kind_with_source [simp]: "kind (with_source e c) = kind e"
  by (cases e) auto

lemma display_with_source [simp]: "display_error (with_source e c) = display_error e"
  by (cases e) auto

text \<open>
  A voice config error gains the parser's detail as a cause: attaching a cause keeps
  the error's category, its message and its rendering, and puts the new cause in front of
  everything already attached, so no earlier cause is lost from the chain.
\<close>

theorem with_source_keeps_error:
  "category (with_source e c) = category e \<and>
   message (with_source e c) = message e \<and>
   display_error (with_source e c) = display_error e \<and>
   (error_source e \<noteq> None \<or> std_source c = None \<longrightarrow>
      cause_chain (with_source e c) = lit '': '' @ std_display c @ cause_chain e)"
  by (cases e) (auto simp: category_def message_def cause_chain_def)

theorem with_source_keeps_error_witness:
  "cause_chain (with_source (with_source (InvalidConfiguration (lit ''bad''))
       (ForeignError (lit ''older'') None)) (ForeignError (lit ''newer'') None))
   = lit '': newer: older''"
  using with_source_keeps_error
    [of "with_source (InvalidConfiguration (lit ''bad'')) (ForeignError (lit ''older'') None)"
        "ForeignError (lit ''newer'') None"]
  by (simp add: cause_chain_def)

text \<open>The message of an error is the one its innermost constructor carries: never the empty
  fallback of the unreachable \<^verbatim>\<open>Caused\<close> arm.\<close>

lemma message_of_kind:
  "kind e \<in> {FailedToLoadResource m, PhonemizationError m, InferenceError m,
     InvalidConfiguration m, UnsupportedOperation m, OperationError m} \<Longrightarrow> message e = m"
  by (auto simp: message_def)

end
