(* ===== verification/Paths.thy ===== *)
theory Paths
  imports Errors "HOL-Library.Sublist"
begin

section \<open>Paths and confinement\<close>

text \<open>
  \<^verbatim>\<open>crates/core/src/confined_path.rs\<close> and \<^verbatim>\<open>crates/dengjen/core/src/config_path.rs\<close>, over the
  component view of Unix paths that the standard library's \<^verbatim>\<open>Path::components\<close>, \<^verbatim>\<open>Path::join\<close>,
  \<^verbatim>\<open>file_name\<close> and \<^verbatim>\<open>with_file_name\<close> give. The drive prefixes of other systems do not occur.
  The theorem shows that an accepted path stays, lexically, below the directory it is joined onto.
\<close>

type_synonym path = str

datatype path_component = RootDir | CurDir | ParentDir | Normal str

definition slash :: uchar where "slash = 47"

fun piece_components :: "bool \<Rightarrow> str list \<Rightarrow> path_component list" where
  "piece_components first [] = []"
| "piece_components first (p # ps) =
     (if p = [] then []
      else if p = lit ''.'' then (if first then [CurDir] else [])
      else if p = lit ''..'' then [ParentDir]
      else [Normal p]) @ piece_components False ps"

definition is_absolute :: "path \<Rightarrow> bool" where
  "is_absolute s \<longleftrightarrow> starts_with [slash] s"

definition path_components :: "path \<Rightarrow> path_component list" where
  "path_components s =
     (if is_absolute s then RootDir # piece_components False (split_char slash (drop 1 s))
      else piece_components True (split_char slash s))"

definition path_join :: "path \<Rightarrow> path \<Rightarrow> path" where
  "path_join base relative =
     (if is_absolute relative then relative
      else if base = [] \<or> last base = slash then base @ relative
      else base @ slash # relative)"

text \<open>\<^verbatim>\<open>resolve_within\<close> of the shared core, and its \<^verbatim>\<open>DengjenError\<close> wrapper.\<close>

datatype path_escapes_base = PathEscapesBase str

definition display_path_escapes_base :: "path_escapes_base \<Rightarrow> str" where
  "display_path_escapes_base e =
     (case e of PathEscapesBase relative \<Rightarrow>
        quoted relative @ lit '' must be a relative path inside its base directory'')"

fun leaves_base :: "path_component \<Rightarrow> bool" where
  "leaves_base ParentDir = True"
| "leaves_base RootDir = True"
| "leaves_base _ = False"

definition core_resolve_within :: "path \<Rightarrow> str \<Rightarrow> path_escapes_base + path" where
  "core_resolve_within base_dir relative =
     (if list_ex leaves_base (path_components relative) \<or> relative = []
      then Inl (PathEscapesBase relative)
      else Inr (path_join base_dir relative))"

definition resolve_within :: "path \<Rightarrow> str \<Rightarrow> str \<Rightarrow> path dengjen_result" where
  "resolve_within base_dir field relative =
     res_map_err
       (\<lambda>_. InvalidConfiguration
              (quoted field @ lit '' must be a relative path inside the voice directory, got ''
               @ quoted relative))
       (core_resolve_within base_dir relative)"

subsection \<open>Lexical resolution\<close>

fun walk_step :: "path_component \<Rightarrow> path_component list \<Rightarrow> path_component list" where
  "walk_step RootDir st = [RootDir]"
| "walk_step CurDir st = st"
| "walk_step (Normal n) st = st @ [Normal n]"
| "walk_step ParentDir st =
     (if st = [] \<or> last st = ParentDir then st @ [ParentDir]
      else if last st = RootDir then st
      else butlast st)"

definition lexical :: "path \<Rightarrow> path_component list" where
  "lexical p = fold walk_step (path_components p) []"

text \<open>A path that resolves to the directory or to something in it.\<close>

definition below :: "path \<Rightarrow> path \<Rightarrow> bool" where
  "below dir p \<longleftrightarrow> prefix (lexical dir) (lexical p)"

lemma piece_components_append:
  "ps \<noteq> [] \<Longrightarrow> piece_components f (ps @ qs) = piece_components f ps @ piece_components False qs"
  by (induction ps arbitrary: f) (auto split: if_splits, (metis append_Nil piece_components.simps(1))+)

lemma split_char_snoc_sep: "split_char d (s @ d # t) = split_char d s @ split_char d t"
  by (induction s) (auto split: list.splits)

lemma piece_components_empty [simp]: "piece_components f [[]] = []"
  by simp

text \<open>Joining a relative path appends its components, but for a leading \<^verbatim>\<open>.\<close>.\<close>

lemma path_components_sep:
  assumes "b \<noteq> []"
  shows "path_components (b @ slash # r) = path_components b @ piece_components False (split_char slash r)"
proof (cases "is_absolute b")
  case True
  with assms obtain b' where b: "b = slash # b'"
    by (cases b) (auto simp: is_absolute_def starts_with_def)
  then have "is_absolute (b @ slash # r)" by (simp add: is_absolute_def starts_with_def)
  with True show ?thesis
    by (simp add: path_components_def b split_char_snoc_sep piece_components_append)
next
  case False
  with assms have "\<not> is_absolute (b @ slash # r)"
    by (cases b) (auto simp: is_absolute_def starts_with_def)
  with False show ?thesis
    by (simp add: path_components_def split_char_snoc_sep piece_components_append)
qed

lemma path_components_relative:
  "\<not> is_absolute r \<Longrightarrow>
     path_components r = piece_components False (split_char slash r) \<or>
     path_components r = CurDir # piece_components False (split_char slash r)"
  by (cases "split_char slash r") (simp_all add: path_components_def)

lemma path_join_components:
  assumes "\<not> is_absolute r"
  shows "path_components (path_join b r) = path_components b @ piece_components False (split_char slash r)
       \<or> path_components (path_join b r) = path_components r \<and> b = []"
proof (cases "b = []")
  case True
  with assms show ?thesis by (simp add: path_join_def)
next
  case False
  show ?thesis
  proof (cases "last b = slash")
    case True
    with False obtain c where b: "b = c @ [slash]" by (metis append_butlast_last_id)
    show ?thesis
    proof (cases "c = []")
      case True
      with assms b show ?thesis
        by (simp add: path_join_def path_components_def is_absolute_def starts_with_def)
    next
      case False
      have "path_components b = path_components c"
        using path_components_sep [OF False, of "[]"] by (simp add: b)
      with assms b False path_components_sep [OF False, of r] show ?thesis
        by (simp add: path_join_def)
    qed
  next
    case last: False
    with assms False path_components_sep [OF False, of r] show ?thesis
      by (simp add: path_join_def)
  qed
qed

lemma walk_inside:
  "\<not> list_ex leaves_base cs \<Longrightarrow> \<exists>ns. fold walk_step cs st = st @ map Normal ns"
proof (induction cs arbitrary: st)
  case (Cons c cs)
  then show ?case
  proof (cases c)
    case (Normal n)
    with Cons.prems Cons.IH [of "st @ [Normal n]"] obtain ns
      where "fold walk_step cs (st @ [Normal n]) = (st @ [Normal n]) @ map Normal ns" by auto
    with Normal show ?thesis by (intro exI [of _ "n # ns"]) simp
  qed auto
qed simp

lemma resolve_within_below:
  assumes "resolve_within base_dir field relative = Inr p"
  shows "\<exists>names. lexical p = lexical base_dir @ map Normal names"
proof -
  from assms have ok: "\<not> list_ex leaves_base (path_components relative)"
    and p: "p = path_join base_dir relative"
    by (auto simp: resolve_within_def core_resolve_within_def split: if_splits)
  then have rel: "\<not> is_absolute relative"
    by (auto simp: path_components_def split: if_splits)
  have inner: "\<not> list_ex leaves_base (piece_components False (split_char slash relative))"
    using ok path_components_relative [OF rel] by auto
  from path_join_components [OF rel, of base_dir] show ?thesis
  proof
    assume "path_components (path_join base_dir relative)
        = path_components base_dir @ piece_components False (split_char slash relative)"
    with walk_inside [OF inner] show ?thesis by (simp add: lexical_def p)
  next
    assume eq: "path_components (path_join base_dir relative) = path_components relative \<and> base_dir = []"
    obtain names where "fold walk_step (path_components relative) [] = map Normal names"
      using walk_inside [OF ok, of "[]"] by auto
    then have "lexical p = map Normal names"
      unfolding p lexical_def using eq by metis
    moreover have "lexical base_dir = []"
      using eq by (simp add: lexical_def path_components_def is_absolute_def starts_with_def)
    ultimately have "lexical p = lexical base_dir @ map Normal names" by simp
    then show ?thesis ..
  qed
qed

text \<open>
  A path that a voice config may name resolves, lexically, to the voice directory
  followed by plain names: no accepted value leaves the directory.
\<close>

theorem resolve_within_confined:
  assumes "resolve_within base_dir field relative = Inr p"
  shows "\<exists>names. lexical p = lexical base_dir @ map Normal names"
  using assms by (rule resolve_within_below)

lemma resolve_within_is_below: "resolve_within base_dir field relative = Inr p \<Longrightarrow> below base_dir p"
  using resolve_within_below [of base_dir field relative p] by (auto simp: below_def)

lemma below_trans: "below d e \<Longrightarrow> below e p \<Longrightarrow> below d p"
  by (auto simp: below_def)

theorem resolve_within_confined_witness:
  "resolve_within (lit ''/voices/a'') (lit ''model_path'') (lit ''./onnx/m.onnx'')
     = Inr (lit ''/voices/a/./onnx/m.onnx'') \<and>
   (\<exists>names. lexical (lit ''/voices/a/./onnx/m.onnx'') = lexical (lit ''/voices/a'') @ map Normal names)"
proof -
  have "resolve_within (lit ''/voices/a'') (lit ''model_path'') (lit ''./onnx/m.onnx'')
     = Inr (lit ''/voices/a/./onnx/m.onnx'')"
    by (simp add: resolve_within_def core_resolve_within_def path_components_def is_absolute_def
        starts_with_def slash_def path_join_def)
  from this resolve_within_confined [OF this] show ?thesis by (rule conjI)
qed

subsection \<open>File names\<close>

text \<open>\<^verbatim>\<open>Path::file_name\<close>: the last component, when it is a plain name.\<close>

definition file_name :: "path \<Rightarrow> str option" where
  "file_name p =
     (case last_of (path_components p) of Some (Normal n) \<Rightarrow> Some n | _ \<Rightarrow> None)"

text \<open>
  \<^verbatim>\<open>file_stem\<close> and \<^verbatim>\<open>extension\<close>: the file name split at its last dot, unless that dot is its first
  character.
\<close>

definition dot :: uchar where "dot = 46"

fun split_at_last_dot :: "str \<Rightarrow> (str \<times> str) option" where
  "split_at_last_dot [] = None"
| "split_at_last_dot (c # s) =
     (case split_at_last_dot s of
        Some (stem, ext) \<Rightarrow> Some (c # stem, ext)
      | None \<Rightarrow> if c = dot then Some ([], s) else None)"

definition stem_and_extension :: "str \<Rightarrow> str \<times> str option" where
  "stem_and_extension name =
     (case split_at_last_dot name of
        None \<Rightarrow> (name, None)
      | Some (stem, ext) \<Rightarrow> if stem = [] then (name, None) else (stem, Some ext))"

lemma split_at_last_dot_Some:
  "split_at_last_dot s = Some (a, b) \<Longrightarrow> s = a @ dot # b \<and> dot \<notin> set b"
proof (induction s arbitrary: a b)
  case (Cons c s)
  have none: "split_at_last_dot t = None \<Longrightarrow> dot \<notin> set t" for t
    by (induction t) (auto split: option.splits if_splits)
  from Cons show ?case by (auto split: option.splits if_splits dest: none)
qed simp

lemma stem_and_extension_join:
  "stem_and_extension n = (stem, Some ext) \<Longrightarrow> n = stem @ dot # ext"
  by (auto simp: stem_and_extension_def dest: split_at_last_dot_Some split: option.splits if_splits)

text \<open>
  \<^verbatim>\<open>Path::parent\<close> of a path with a file name: without its last component, trailing separators
  and trailing \<^verbatim>\<open>.\<close> components dropped. \<^verbatim>\<open>with_file_name\<close> replaces the file name, or appends one to
  a path that has none.
\<close>

fun trim_right_rev :: "str \<Rightarrow> str" where
  "trim_right_rev (c # d # s) =
     (if c = slash \<or> c = dot \<and> d = slash then trim_right_rev (d # s) else c # d # s)"
| "trim_right_rev s = s"

definition parent_path :: "path \<Rightarrow> path" where
  "parent_path p =
     rev (trim_right_rev (dropWhile (\<lambda>c. c \<noteq> slash) (trim_right_rev (rev p))))"

definition with_file_name :: "path \<Rightarrow> str \<Rightarrow> path" where
  "with_file_name p name =
     path_join (case file_name p of Some _ \<Rightarrow> parent_path p | None \<Rightarrow> p) name"

text \<open>\<^verbatim>\<open>parent().unwrap_or(".")\<close>: the directory of a config file.\<close>

definition config_dir :: "path \<Rightarrow> path" where
  "config_dir p =
     (if path_components p = [] \<or> path_components p = [RootDir] then lit ''.'' else parent_path p)"

lemma piece_components_no_slash:
  "Normal n \<in> set (piece_components f (split_char slash s)) \<Longrightarrow> slash \<notin> set n"
proof -
  have "\<forall>p \<in> set (split_char slash s). slash \<notin> set p"
    by (induction s) (auto split: list.splits)
  moreover have "Normal n \<in> set (piece_components f ps) \<Longrightarrow> n \<in> set ps" for f ps
    by (induction ps arbitrary: f) (auto split: if_splits)
  ultimately show "Normal n \<in> set (piece_components f (split_char slash s)) \<Longrightarrow> slash \<notin> set n"
    by blast
qed

lemma file_name_no_slash: "file_name p = Some n \<Longrightarrow> slash \<notin> set n"
proof -
  assume "file_name p = Some n"
  then have "path_components p \<noteq> []" "last (path_components p) = Normal n"
    by (auto simp: file_name_def last_of_def split: if_splits path_component.splits)
  then have "Normal n \<in> set (path_components p)" by (metis last_in_set)
  then show ?thesis
    by (auto simp: path_components_def dest: piece_components_no_slash split: if_splits)
qed

lemma file_name_path_join:
  assumes "slash \<notin> set n" "n \<noteq> []" "n \<noteq> lit ''.''" "n \<noteq> lit ''..''"
  shows "file_name (path_join d n) = Some n"
proof -
  have rel: "\<not> is_absolute n"
    using assms(1,2) by (cases n) (auto simp: is_absolute_def starts_with_def)
  have one: "piece_components f (split_char slash n) = [Normal n]" for f
    using assms by (simp add: split_char_no_delim)
  have "path_components n = [Normal n]" using rel one by (simp add: path_components_def)
  then have "path_components (path_join d n) = path_components d @ [Normal n] \<or>
      path_components (path_join d n) = [Normal n]"
    using path_join_components [OF rel, of d] one [of False] by metis
  then show ?thesis by (elim disjE) (simp_all add: file_name_def last_of_def)
qed

lemma file_name_with_file_name:
  "slash \<notin> set n \<Longrightarrow> n \<noteq> [] \<Longrightarrow> n \<noteq> lit ''.'' \<Longrightarrow> n \<noteq> lit ''..'' \<Longrightarrow>
     file_name (with_file_name p n) = Some n"
  by (simp add: with_file_name_def file_name_path_join)

end
