(* ===== verification/Runtime.thy ===== *)
theory Runtime
  imports Errors Paths
begin

section \<open>Shared runtime helpers\<close>

text \<open>
  \<^verbatim>\<open>crates/core/src\<close>: the cancellation token, the locks that ignore poisoning, the text of a
  caught panic and the execution providers of ONNX Runtime, with the opening of an inference session
  that every backend starts from. The locale \<open>cancellation\<close> states what the rest of the engine relies
  on in a token; it is proved here for the shared flags and, with the C interface, for the numbered
  tokens of its cancellation slot.
\<close>

subsection \<open>Cancellation tokens\<close>

text \<open>
  A token is a reference to a flag that its clones share: the flags made so far are a list and a
  token is a position in it.
\<close>

type_synonym cancel_flags = "bool list"
type_synonym cancellation_token = nat

definition new_token :: "cancel_flags \<Rightarrow> cancellation_token \<times> cancel_flags" where
  "new_token flags = (length flags, flags @ [False])"

definition cancel_token :: "cancellation_token \<Rightarrow> cancel_flags \<Rightarrow> cancel_flags" where
  "cancel_token t flags = flags[t := True]"

definition token_cancelled :: "cancellation_token \<Rightarrow> cancel_flags \<Rightarrow> bool" where
  "token_cancelled t flags \<longleftrightarrow> get_at flags t = Some True"

definition points_to_same_flag :: "cancellation_token \<Rightarrow> cancellation_token \<Rightarrow> bool" where
  "points_to_same_flag t u \<longleftrightarrow> t = u"

datatype 't token_op = NewToken | CancelToken 't

locale cancellation =
  fixes fresh :: "'st \<Rightarrow> 't \<times> 'st"
    and cancel :: "'t \<Rightarrow> 'st \<Rightarrow> 'st"
    and is_cancelled :: "'t \<Rightarrow> 'st \<Rightarrow> bool"
    and live :: "'t \<Rightarrow> 'st \<Rightarrow> bool"
    and tokens_ok :: "'st \<Rightarrow> bool"
  assumes fresh_token: "tokens_ok s \<Longrightarrow> fresh s = (t, s') \<Longrightarrow>
        tokens_ok s' \<and> \<not> live t s \<and> live t s' \<and> \<not> is_cancelled t s'"
    and fresh_frame: "tokens_ok s \<Longrightarrow> fresh s = (t, s') \<Longrightarrow> live u s \<Longrightarrow>
        live u s' \<and> is_cancelled u s' = is_cancelled u s"
    and cancel_frame: "tokens_ok s \<Longrightarrow> live t s \<Longrightarrow> live u s \<Longrightarrow>
        tokens_ok (cancel t s) \<and> live u (cancel t s) \<and>
        is_cancelled u (cancel t s) = (u = t \<or> is_cancelled u s)"
begin

fun token_run :: "'t token_op list \<Rightarrow> 'st \<Rightarrow> 'st" where
  "token_run [] s = s"
| "token_run (NewToken # ops) s = token_run ops (snd (fresh s))"
| "token_run (CancelToken t # ops) s = token_run ops (if live t s then cancel t s else s)"

text \<open>
  Whatever is made and cancelled in between, a token is cancelled exactly if it was before or one of
  its holders cancelled it.
\<close>

lemma cancelled_iff:
  "tokens_ok s \<Longrightarrow> live u s \<Longrightarrow>
     is_cancelled u (token_run ops s) = (is_cancelled u s \<or> CancelToken u \<in> set ops)"
proof (induction ops s rule: token_run.induct)
  case (2 ops s)
  obtain t s' where f: "fresh s = (t, s')" by (cases "fresh s")
  with 2 fresh_token [OF _ f] fresh_frame [OF _ f, of u] show ?case by simp
next
  case (3 t ops s)
  show ?case
  proof (cases "live t s")
    case True
    from cancel_frame [OF 3(2) True 3(3)] 3(1) True show ?thesis by auto
  qed (use 3 in auto)
qed simp

end

definition token_live :: "cancellation_token \<Rightarrow> cancel_flags \<Rightarrow> bool" where
  "token_live t flags \<longleftrightarrow> t < length flags"

interpretation shared_flags: cancellation new_token cancel_token token_cancelled token_live "\<lambda>_. True"
  by unfold_locales
    (auto simp: new_token_def cancel_token_def token_cancelled_def token_live_def get_at_def nth_append
      nth_list_update)

text \<open>Two tokens point to the same flag exactly if cancelling one cancels the other.\<close>

lemma same_flag_is_shared:
  "token_live t flags \<Longrightarrow> token_live u flags \<Longrightarrow> \<not> token_cancelled u flags \<Longrightarrow>
     points_to_same_flag t u \<longleftrightarrow> token_cancelled u (cancel_token t flags)"
  using shared_flags.cancel_frame [OF TrueI, of t flags u] by (auto simp: points_to_same_flag_def)

subsection \<open>Locks that ignore poisoning\<close>

text \<open>
  A lock holds a value and remembers whether a holder panicked. \<^verbatim>\<open>Mutex::lock\<close>, \<^verbatim>\<open>RwLock::read\<close> and
  \<^verbatim>\<open>RwLock::write\<close> answer the guard, inside an error if the lock is poisoned; a guard is the value it
  gives access to. A critical section leaves a value behind, and it may do so by panicking half-way.
\<close>

record 'a lock =
  held :: 'a
  poisoned :: bool

definition new_lock :: "'a \<Rightarrow> 'a lock" where
  "new_lock x = \<lparr>held = x, poisoned = False\<rparr>"

definition lock_result :: "'a lock \<Rightarrow> 'a + 'a" where
  "lock_result l = (if poisoned l then Inl (held l) else Inr (held l))"

definition into_inner_guard :: "'a + 'a \<Rightarrow> 'a" where
  "into_inner_guard r = (case r of Inl guard \<Rightarrow> guard | Inr guard \<Rightarrow> guard)"

definition lock_ignoring_poison :: "'a lock \<Rightarrow> 'a" where
  "lock_ignoring_poison l = into_inner_guard (lock_result l)"

definition read_ignoring_poison :: "'a lock \<Rightarrow> 'a" where
  "read_ignoring_poison l = into_inner_guard (lock_result l)"

definition write_ignoring_poison :: "'a lock \<Rightarrow> 'a" where
  "write_ignoring_poison l = into_inner_guard (lock_result l)"

datatype ('a, 'b) section_end = Finishes 'b 'a | Panics 'a

definition critical_section :: "('a \<Rightarrow> ('a, 'b) section_end) \<Rightarrow> 'a lock \<Rightarrow> 'b option \<times> 'a lock" where
  "critical_section body l =
     (case body (lock_ignoring_poison l) of
        Finishes y x \<Rightarrow> (Some y, l\<lparr>held := x\<rparr>)
      | Panics x \<Rightarrow> (None, l\<lparr>held := x, poisoned := True\<rparr>))"

fun left_behind :: "('a, 'b) section_end \<Rightarrow> 'a" where
  "left_behind (Finishes y x) = x"
| "left_behind (Panics x) = x"

fun lock_run :: "('a \<Rightarrow> ('a, 'b) section_end) list \<Rightarrow> 'a lock \<Rightarrow> 'b option list \<times> 'a lock" where
  "lock_run [] l = ([], l)"
| "lock_run (body # bodies) l =
     (case critical_section body l of (y, l') \<Rightarrow> map_prod (\<lambda>ys. y # ys) id (lock_run bodies l'))"

fun plain_run :: "('a \<Rightarrow> ('a, 'b) section_end) list \<Rightarrow> 'a \<Rightarrow> 'b option list \<times> 'a" where
  "plain_run [] x = ([], x)"
| "plain_run (body # bodies) x =
     (case body x of
        Finishes y x' \<Rightarrow> map_prod (\<lambda>ys. Some y # ys) id (plain_run bodies x')
      | Panics x' \<Rightarrow> map_prod (\<lambda>ys. None # ys) id (plain_run bodies x'))"

lemma guards_give_the_value [simp]:
  "lock_ignoring_poison l = held l" "read_ignoring_poison l = held l" "write_ignoring_poison l = held l"
  by (simp_all add: lock_ignoring_poison_def read_ignoring_poison_def write_ignoring_poison_def
      lock_result_def into_inner_guard_def)

text \<open>
  A value behind such a lock is a plain value passed from one critical section to the next: sections
  that panicked only leave their half-done value, and no later section is refused or changed by the
  poison. This is what the other theories use when they pass the state of a lock explicitly.
\<close>

theorem locks_are_plain_state:
  "fst (lock_run bodies l) = fst (plain_run bodies (held l)) \<and>
   held (snd (lock_run bodies l)) = snd (plain_run bodies (held l)) \<and>
   poisoned (snd (lock_run bodies l)) =
     (poisoned l \<or> None \<in> set (fst (plain_run bodies (held l))))"
  by (induction bodies arbitrary: l)
    (auto simp: critical_section_def split: prod.splits section_end.splits)

subsection \<open>Panics\<close>

datatype panic_payload = PayloadStr str | PayloadString str | PayloadOther

definition downcast_str :: "panic_payload \<Rightarrow> str option" where
  "downcast_str p = (case p of PayloadStr s \<Rightarrow> Some s | _ \<Rightarrow> None)"

definition downcast_string :: "panic_payload \<Rightarrow> str option" where
  "downcast_string p = (case p of PayloadString s \<Rightarrow> Some s | _ \<Rightarrow> None)"

definition panic_message :: "panic_payload \<Rightarrow> str" where
  "panic_message p =
     unwrap_or (lit ''non-string panic payload'')
       (case downcast_str p of Some s \<Rightarrow> Some s | None \<Rightarrow> downcast_string p)"

lemma panic_message_simps [simp]:
  "panic_message (PayloadStr s) = s" "panic_message (PayloadString s) = s"
  "panic_message PayloadOther = lit ''non-string panic payload''"
  by (simp_all add: panic_message_def downcast_str_def downcast_string_def)

subsection \<open>Inference sessions\<close>

datatype execution_provider = CUDA | DirectML | CoreML

record provider_features =
  ft_cuda :: bool
  ft_directml :: bool
  ft_coreml :: bool

definition execution_providers :: "provider_features \<Rightarrow> execution_provider list" where
  "execution_providers ft =
     (if ft_cuda ft then [CUDA] else []) @ (if ft_directml ft then [DirectML] else []) @
     (if ft_coreml ft then [CoreML] else [])"

text \<open>
  ONNX Runtime's session builder, where each step may fail with a message: \<^verbatim>\<open>Session::builder\<close>,
  \<^verbatim>\<open>with_execution_providers\<close> and \<^verbatim>\<open>commit_from_file\<close>.
\<close>

record ('b, 's) onnx =
  ox_builder :: "str + 'b"
  ox_with_providers :: "execution_provider list \<Rightarrow> 'b \<Rightarrow> str + 'b"
  ox_commit_from_file :: "'b \<Rightarrow> path \<Rightarrow> str + 's"

text \<open>\<^verbatim>\<open>create_inference_session\<close> and \<^verbatim>\<open>session_init_error\<close> of the Piper backend.\<close>

definition create_inference_session :: "provider_features \<Rightarrow> ('b, 's) onnx \<Rightarrow> path \<Rightarrow> str + 's" where
  "create_inference_session ft ox model_path =
     res_bind (ox_builder ox) (\<lambda>b.
     res_bind (ox_with_providers ox (execution_providers ft) b) (\<lambda>b.
     ox_commit_from_file ox b model_path))"

definition session_init_error :: "str \<Rightarrow> dengjen_error" where
  "session_init_error cause =
     InferenceError (lit ''Failed to initialize onnxruntime inference session: '' @ quoted cause)"

text \<open>The session of Kokoro and of MeloTTS, which name themselves in the last error.\<close>

definition create_named_session ::
  "str \<Rightarrow> provider_features \<Rightarrow> ('b, 's) onnx \<Rightarrow> path \<Rightarrow> 's dengjen_result" where
  "create_named_session name ft ox model_path =
     res_bind (res_map_err FailedToLoadResource (ox_builder ox)) (\<lambda>b.
     res_bind (res_map_err FailedToLoadResource (ox_with_providers ox (execution_providers ft) b)) (\<lambda>b.
     res_map_err (\<lambda>why. FailedToLoadResource
         (lit ''Failed to load '' @ name @ lit '' ONNX model at '' @ quoted model_path @ lit '': '' @ why))
       (ox_commit_from_file ox b model_path)))"

lemma created_session_was_committed:
  "create_inference_session ft ox p = Inr s \<Longrightarrow> \<exists>b. ox_commit_from_file ox b p = Inr s"
  "create_named_session name ft ox p = Inr s \<Longrightarrow> \<exists>b. ox_commit_from_file ox b p = Inr s"
  by (auto simp: create_inference_session_def create_named_session_def res_conv res_map_err_def
      split: sum.splits)

end
