(* ===== verification/F32.thy ===== *)
theory F32
  imports Prelude Complex_Main
begin

section \<open>Single-precision floating point\<close>

text \<open>
  The samples of the engine are \<^verbatim>\<open>f32\<close>. A value is a NaN (with its sign bit, which
  \<^verbatim>\<open>total_cmp\<close> reads; the payload is not represented), a signed infinity, or a finite number as sign
  and magnitude, so that both zeros exist. Arithmetic is the exact rational result rounded to
  the nearest binary32 number, ties to even, with overflow to infinity, as IEEE 754 and Rust
  prescribe. Everything computes. The lemmas that carry the component proofs are that rounding
  is monotone and keeps representable numbers.
\<close>

datatype f32 = F_NaN bool | F_Inf bool | F_Fin bool rat

subsection \<open>Rounding\<close>

fun ilog2_nat :: "nat \<Rightarrow> nat" where
  "ilog2_nat n = (if n < 2 then 0 else Suc (ilog2_nat (n div 2)))"

declare ilog2_nat.simps [simp del]

definition pow2 :: "int \<Rightarrow> rat" where
  "pow2 e = (if 0 \<le> e then 2 ^ nat e else 1 / 2 ^ nat (- e))"

text \<open>The exponent of a positive rational: \<open>pow2 e \<le> x < pow2 (e + 1)\<close>.\<close>

definition ilog2 :: "rat \<Rightarrow> int" where
  "ilog2 x =
     (case quotient_of x of (n, d) \<Rightarrow>
        (case int (ilog2_nat (nat n)) - int (ilog2_nat (nat d)) of e \<Rightarrow>
           if pow2 e \<le> x then e else e - 1))"

definition round_half_even :: "rat \<Rightarrow> int" where
  "round_half_even x =
     (if x - of_int \<lfloor>x\<rfloor> < 1 / 2 then \<lfloor>x\<rfloor>
      else if 1 / 2 < x - of_int \<lfloor>x\<rfloor> then \<lfloor>x\<rfloor> + 1
      else if even \<lfloor>x\<rfloor> then \<lfloor>x\<rfloor> else \<lfloor>x\<rfloor> + 1)"

text \<open>The unit in the last place at a magnitude: 24 significant bits, exponents from -126.\<close>

definition ulp_exp :: "rat \<Rightarrow> int" where
  "ulp_exp x = max (ilog2 x) (- 126) - 23"

definition rnd :: "rat \<Rightarrow> rat" where
  "rnd x = (if x = 0 then 0
            else of_int (round_half_even (x / pow2 (ulp_exp x))) * pow2 (ulp_exp x))"

definition f32_max :: rat where
  "f32_max = 16777215 * 2 ^ 104"

definition mk_f32 :: "bool \<Rightarrow> rat \<Rightarrow> f32" where
  "mk_f32 s m = (if f32_max < rnd m then F_Inf s else F_Fin s (rnd m))"

text \<open>A decimal literal of the source, or the conversion \<^verbatim>\<open>as f32\<close> of an integer.\<close>

definition f_lit :: "rat \<Rightarrow> f32" where
  "f_lit r = mk_f32 (r < 0) \<bar>r\<bar>"

abbreviation f_of_nat :: "nat \<Rightarrow> f32" where
  "f_of_nat n \<equiv> f_lit (of_nat n)"

subsection \<open>Arithmetic\<close>

fun f_signed :: "f32 \<Rightarrow> rat" where
  "f_signed (F_Fin s m) = (if s then - m else m)"
| "f_signed _ = 0"

fun f_neg :: "f32 \<Rightarrow> f32" where
  "f_neg (F_NaN s) = F_NaN (\<not> s)"
| "f_neg (F_Inf s) = F_Inf (\<not> s)"
| "f_neg (F_Fin s m) = F_Fin (\<not> s) m"

fun f_abs :: "f32 \<Rightarrow> f32" where
  "f_abs (F_NaN s) = F_NaN False"
| "f_abs (F_Inf s) = F_Inf False"
| "f_abs (F_Fin s m) = F_Fin False m"

fun f_mul :: "f32 \<Rightarrow> f32 \<Rightarrow> f32" where
  "f_mul (F_Fin s a) (F_Fin t b) = mk_f32 (s \<noteq> t) (a * b)"
| "f_mul (F_Inf s) (F_Inf t) = F_Inf (s \<noteq> t)"
| "f_mul (F_Inf s) (F_Fin t b) = (if b = 0 then F_NaN False else F_Inf (s \<noteq> t))"
| "f_mul (F_Fin s a) (F_Inf t) = (if a = 0 then F_NaN False else F_Inf (s \<noteq> t))"
| "f_mul _ _ = F_NaN False"

fun f_div :: "f32 \<Rightarrow> f32 \<Rightarrow> f32" where
  "f_div (F_Fin s a) (F_Fin t b) =
     (if b = 0 then (if a = 0 then F_NaN False else F_Inf (s \<noteq> t)) else mk_f32 (s \<noteq> t) (a / b))"
| "f_div (F_Inf s) (F_Fin t b) = F_Inf (s \<noteq> t)"
| "f_div (F_Fin s a) (F_Inf t) = F_Fin (s \<noteq> t) 0"
| "f_div _ _ = F_NaN False"

fun f_add :: "f32 \<Rightarrow> f32 \<Rightarrow> f32" where
  "f_add (F_Fin s a) (F_Fin t b) =
     (case (if s then - a else a) + (if t then - b else b) of v \<Rightarrow>
        if v = 0 then F_Fin (s \<and> t) 0 else mk_f32 (v < 0) \<bar>v\<bar>)"
| "f_add (F_Inf s) (F_Inf t) = (if s = t then F_Inf s else F_NaN False)"
| "f_add (F_Inf s) (F_Fin t b) = F_Inf s"
| "f_add (F_Fin s a) (F_Inf t) = F_Inf t"
| "f_add _ _ = F_NaN False"

definition f_sub :: "f32 \<Rightarrow> f32 \<Rightarrow> f32" where
  "f_sub a b = f_add a (f_neg b)"

subsection \<open>Classification and comparison\<close>

fun is_finite :: "f32 \<Rightarrow> bool" where
  "is_finite (F_Fin s m) = True"
| "is_finite _ = False"

fun is_nan :: "f32 \<Rightarrow> bool" where
  "is_nan (F_NaN s) = True"
| "is_nan _ = False"

fun f_le :: "f32 \<Rightarrow> f32 \<Rightarrow> bool" where
  "f_le (F_Fin s a) (F_Fin t b) = ((if s then - a else a) \<le> (if t then - b else b))"
| "f_le (F_Inf s) (F_Inf t) = (s \<or> \<not> t)"
| "f_le (F_Inf s) (F_Fin t b) = s"
| "f_le (F_Fin s a) (F_Inf t) = (\<not> t)"
| "f_le _ _ = False"

definition f_lt :: "f32 \<Rightarrow> f32 \<Rightarrow> bool" where
  "f_lt a b \<longleftrightarrow> f_le a b \<and> \<not> f_le b a"

definition f_eq :: "f32 \<Rightarrow> f32 \<Rightarrow> bool" where
  "f_eq a b \<longleftrightarrow> f_le a b \<and> f_le b a"

text \<open>\<^verbatim>\<open>f32::max\<close>: a NaN loses to a number.\<close>

definition f_max :: "f32 \<Rightarrow> f32 \<Rightarrow> f32" where
  "f_max a b = (if is_nan a then b else if is_nan b then a else if f_lt a b then b else a)"

text \<open>\<^verbatim>\<open>f32::clamp\<close>: a NaN stays.\<close>

definition f_clamp :: "f32 \<Rightarrow> f32 \<Rightarrow> f32 \<Rightarrow> f32" where
  "f_clamp lo hi x = (if f_lt x lo then lo else if f_lt hi x then hi else x)"

text \<open>The saturating cast \<^verbatim>\<open>as\<close> to a signed integer with the given bounds: towards zero, NaN to 0.\<close>

definition trunc_rat :: "rat \<Rightarrow> int" where
  "trunc_rat r = (if r < 0 then \<lceil>r\<rceil> else \<lfloor>r\<rfloor>)"

fun f_to_int :: "int \<Rightarrow> int \<Rightarrow> f32 \<Rightarrow> int" where
  "f_to_int lo hi (F_NaN s) = 0"
| "f_to_int lo hi (F_Inf s) = (if s then lo else hi)"
| "f_to_int lo hi (F_Fin s m) = max lo (min hi (trunc_rat (if s then - m else m)))"

text \<open>
  \<^verbatim>\<open>f32::total_cmp\<close>: negative NaN, negative infinity, finite numbers with -0 below +0,
  infinity, NaN. \<open>total_le\<close> is \<^verbatim>\<open>total_cmp(a, b) != Greater\<close>.
\<close>

fun total_rank :: "f32 \<Rightarrow> nat" where
  "total_rank (F_NaN True) = 0"
| "total_rank (F_Inf True) = 1"
| "total_rank (F_Fin _ _) = 2"
| "total_rank (F_Inf False) = 3"
| "total_rank (F_NaN False) = 4"

fun total_le :: "f32 \<Rightarrow> f32 \<Rightarrow> bool" where
  "total_le (F_Fin s a) (F_Fin t b) =
     (if f_signed (F_Fin s a) = f_signed (F_Fin t b) then t \<longrightarrow> s
      else f_signed (F_Fin s a) < f_signed (F_Fin t b))"
| "total_le x y = (total_rank x \<le> total_rank y)"

text \<open>Well-formed values: the magnitude is a non-negative \<^verbatim>\<open>f32\<close> value in range.\<close>

fun f_wf :: "f32 \<Rightarrow> bool" where
  "f_wf (F_Fin s m) = (0 \<le> m \<and> m \<le> f32_max \<and> rnd m = m)"
| "f_wf _ = True"

subsection \<open>Powers of two and exponents\<close>

lemma pow2_pos [simp]: "0 < pow2 e"
  by (simp add: pow2_def)

lemma pow2_nonneg [simp]: "0 \<le> pow2 e"
  by (simp add: less_imp_le)

lemma pow2_nonzero [simp]: "pow2 e \<noteq> 0"
  by (metis less_irrefl pow2_pos)

lemma pow2_Suc: "pow2 (e + 1) = 2 * pow2 e"
proof -
  consider "0 \<le> e" | "e = -1" | "e < -1" by linarith
  then show ?thesis
  proof cases
    case 3
    then have "nat (- e) = Suc (nat (- (e + 1)))" by simp
    with 3 show ?thesis by (simp add: pow2_def del: minus_add_distrib)
  qed (simp_all add: pow2_def nat_add_distrib)
qed

lemma pow2_add_nat: "pow2 (e + int n) = 2 ^ n * pow2 e"
proof (induction n)
  case (Suc n)
  have "pow2 (e + int (Suc n)) = pow2 ((e + int n) + 1)" by (simp add: algebra_simps)
  also have "\<dots> = 2 * pow2 (e + int n)" by (rule pow2_Suc)
  finally show ?case using Suc by simp
qed simp

lemma pow2_mono: "e \<le> f \<Longrightarrow> pow2 e \<le> pow2 f"
proof -
  assume "e \<le> f"
  then obtain n where "f = e + int n" by (metis zle_iff_zadd)
  moreover have "1 * pow2 e \<le> 2 ^ n * pow2 e"
    by (rule mult_right_mono) simp_all
  ultimately show ?thesis by (simp add: pow2_add_nat)
qed

lemma ilog2_nat_bounds: "0 < n \<Longrightarrow> 2 ^ ilog2_nat n \<le> n \<and> n < 2 ^ Suc (ilog2_nat n)"
proof (induction n rule: ilog2_nat.induct)
  case (1 n)
  show ?case
  proof (cases "n < 2")
    case True
    with 1 show ?thesis by (simp add: ilog2_nat.simps [of n])
  next
    case False
    with 1 have "2 ^ ilog2_nat (n div 2) \<le> n div 2 \<and> n div 2 < 2 ^ Suc (ilog2_nat (n div 2))"
      by simp
    with False show ?thesis
      by (subst (1 2) ilog2_nat.simps) (simp, linarith)
  qed
qed

lemma pow2_diff: "pow2 (int a - int b) = 2 ^ a / 2 ^ b"
proof (cases "b \<le> a")
  case True
  then have "pow2 (int a - int b) = 2 ^ (a - b)" by (simp add: pow2_def nat_diff_distrib)
  with True show ?thesis by (simp add: power_diff)
next
  case False
  then have "nat (- (int a - int b)) = b - a" by simp
  with False have "pow2 (int a - int b) = 1 / 2 ^ (b - a)" by (simp add: pow2_def)
  with False show ?thesis by (simp add: power_diff)
qed

lemma ilog2_bounds:
  assumes "0 < x"
  shows "pow2 (ilog2 x) \<le> x" and "x < pow2 (ilog2 x + 1)"
proof -
  obtain n d where q: "quotient_of x = (n, d)" by (cases "quotient_of x") auto
  from q have d: "0 < d" and x: "x = of_int n / of_int d"
    by (rule quotient_of_denom_pos, rule quotient_of_div)
  with assms have n: "0 < n" by (simp add: zero_less_divide_iff)
  define a b where "a = ilog2_nat (nat n)" and "b = ilog2_nat (nat d)"
  have "2 ^ a \<le> nat n" "nat n < 2 ^ Suc a" "2 ^ b \<le> nat d" "nat d < 2 ^ Suc b"
    using ilog2_nat_bounds [of "nat n"] ilog2_nat_bounds [of "nat d"] n d
    by (auto simp: a_def b_def)
  then have "of_nat (2 ^ a) \<le> (of_nat (nat n) :: rat)" "of_nat (nat n) < (of_nat (2 ^ Suc a) :: rat)"
      "of_nat (2 ^ b) \<le> (of_nat (nat d) :: rat)" "of_nat (nat d) < (of_nat (2 ^ Suc b) :: rat)"
    by (simp_all only: of_nat_le_iff of_nat_less_iff)
  then have bounds: "2 ^ a \<le> (of_int n :: rat)" "of_int n < (2 * 2 ^ a :: rat)"
      "2 ^ b \<le> (of_int d :: rat)" "of_int d < (2 * 2 ^ b :: rat)"
    using n d by simp_all
  have hi: "x < pow2 (int a - int b + 1)"
  proof -
    have "x < (2 * 2 ^ a) / of_int d"
      using bounds(2) d by (simp add: x divide_strict_right_mono)
    also have "\<dots> \<le> (2 * 2 ^ a) / 2 ^ b"
      using bounds(3) by (intro divide_left_mono) (use d in simp_all)
    finally show ?thesis by (simp add: pow2_Suc pow2_diff)
  qed
  have lo: "pow2 (int a - int b - 1) \<le> x"
  proof -
    have "2 * pow2 (int a - int b - 1) = pow2 (int a - int b)"
      using pow2_Suc [of "int a - int b - 1"] by simp
    then have "pow2 (int a - int b - 1) = 2 ^ a / (2 * 2 ^ b)"
      by (simp add: pow2_diff field_simps)
    also have "\<dots> \<le> 2 ^ a / of_int d"
      using bounds(4) d by (intro divide_left_mono) simp_all
    also have "\<dots> \<le> x"
      using bounds(1) d by (simp add: x divide_right_mono)
    finally show ?thesis .
  qed
  have e: "ilog2 x = (if pow2 (int a - int b) \<le> x then int a - int b else int a - int b - 1)"
    by (simp add: ilog2_def q a_def b_def)
  show "pow2 (ilog2 x) \<le> x" using lo by (auto simp: e)
  show "x < pow2 (ilog2 x + 1)" using hi by (auto simp: e)
qed

lemma ilog2_ge: "0 < x \<Longrightarrow> pow2 e \<le> x \<Longrightarrow> e \<le> ilog2 x"
proof (rule ccontr)
  assume "0 < x" "pow2 e \<le> x" "\<not> e \<le> ilog2 x"
  then have "pow2 (ilog2 x + 1) \<le> pow2 e" by (intro pow2_mono) simp
  with \<open>0 < x\<close> \<open>pow2 e \<le> x\<close> ilog2_bounds(2) [of x] show False by linarith
qed

lemma ilog2_mono: "0 < x \<Longrightarrow> x \<le> y \<Longrightarrow> ilog2 x \<le> ilog2 y"
  using ilog2_bounds(1) [of x] ilog2_ge [of y "ilog2 x"] by linarith

subsection \<open>Rounding is monotone and keeps integers\<close>

lemma round_half_even_int [simp]: "round_half_even (of_int i) = i"
  by (simp add: round_half_even_def)

lemma round_half_even_bounds: "\<lfloor>x\<rfloor> \<le> round_half_even x" "round_half_even x \<le> \<lfloor>x\<rfloor> + 1"
  by (simp_all add: round_half_even_def)

lemma round_half_even_mono: "x \<le> y \<Longrightarrow> round_half_even x \<le> round_half_even y"
proof (cases "\<lfloor>x\<rfloor> = \<lfloor>y\<rfloor>")
  case True
  then show "x \<le> y \<Longrightarrow> ?thesis" by (auto simp: round_half_even_def)
next
  case False
  assume "x \<le> y"
  with False have "\<lfloor>x\<rfloor> + 1 \<le> \<lfloor>y\<rfloor>" using floor_mono [of x y] by simp
  then show ?thesis using round_half_even_bounds [of x] round_half_even_bounds [of y] by linarith
qed

lemma round_half_even_le_int: "x \<le> of_int i \<Longrightarrow> round_half_even x \<le> i"
  using round_half_even_mono [of x "of_int i"] by simp

lemma round_half_even_ge_int: "of_int i \<le> x \<Longrightarrow> i \<le> round_half_even x"
  using round_half_even_mono [of "of_int i" x] by simp

lemma rnd_zero [simp]: "rnd 0 = 0"
  by (simp add: rnd_def)

lemma rnd_nonneg [simp]: "0 \<le> x \<Longrightarrow> 0 \<le> rnd x"
  using round_half_even_ge_int [of 0 "x / pow2 (ulp_exp x)"] by (simp add: rnd_def)

text \<open>A power of two that bounds a number also bounds its rounding.\<close>

lemma rnd_le_pow2:
  assumes "0 < x" "x \<le> pow2 (ulp_exp x + int n)"
  shows "rnd x \<le> pow2 (ulp_exp x + int n)"
proof -
  have "x / pow2 (ulp_exp x) \<le> of_int (2 ^ n)"
    using assms(2) by (simp add: pow2_add_nat divide_le_eq)
  then have "round_half_even (x / pow2 (ulp_exp x)) \<le> 2 ^ n" by (rule round_half_even_le_int)
  then have "of_int (round_half_even (x / pow2 (ulp_exp x))) \<le> (2 ^ n :: rat)"
    by (metis of_int_le_iff of_int_numeral of_int_power)
  with assms(1) show ?thesis by (simp add: rnd_def pow2_add_nat mult_right_mono)
qed

lemma rnd_ge_pow2:
  assumes "0 < x" "pow2 (ulp_exp x + int n) \<le> x"
  shows "pow2 (ulp_exp x + int n) \<le> rnd x"
proof -
  have "of_int (2 ^ n) \<le> x / pow2 (ulp_exp x)"
    using assms(2) by (simp add: pow2_add_nat le_divide_eq)
  then have "2 ^ n \<le> round_half_even (x / pow2 (ulp_exp x))" by (rule round_half_even_ge_int)
  then have "(2 ^ n :: rat) \<le> of_int (round_half_even (x / pow2 (ulp_exp x)))"
    by (metis of_int_le_iff of_int_numeral of_int_power)
  with assms(1) show ?thesis by (simp add: rnd_def pow2_add_nat mult_right_mono)
qed

lemma rnd_mono:
  assumes "0 \<le> x" "x \<le> y"
  shows "rnd x \<le> rnd y"
proof (cases "x = 0")
  case True
  with assms show ?thesis by simp
next
  case False
  with assms have pos: "0 < x" "0 < y" by simp_all
  have le: "ulp_exp x \<le> ulp_exp y" using ilog2_mono [OF pos(1) assms(2)] by (simp add: ulp_exp_def)
  show ?thesis
  proof (cases "ulp_exp x = ulp_exp y")
    case True
    have "round_half_even (x / pow2 (ulp_exp y)) \<le> round_half_even (y / pow2 (ulp_exp y))"
      using assms(2) by (intro round_half_even_mono divide_right_mono) simp_all
    with True pos show ?thesis by (simp add: rnd_def mult_right_mono)
  next
    case False
    with le have ey: "ilog2 y = ulp_exp y + 23" and lt: "ulp_exp x + 24 \<le> ulp_exp y + 23"
      by (auto simp: ulp_exp_def max_def split: if_splits)
    have "x < pow2 (ilog2 x + 1)" using pos(1) by (rule ilog2_bounds)
    also have "\<dots> \<le> pow2 (ulp_exp x + int 24)" by (intro pow2_mono) (simp add: ulp_exp_def)
    finally have "rnd x \<le> pow2 (ulp_exp x + int 24)" using pos(1) by (intro rnd_le_pow2) simp_all
    also have "\<dots> \<le> pow2 (ulp_exp y + int 23)" using lt by (intro pow2_mono) simp
    also have "\<dots> \<le> rnd y"
      using ilog2_bounds(1) [OF pos(2)] pos(2) by (intro rnd_ge_pow2) (simp_all add: ey)
    finally show ?thesis .
  qed
qed

lemma pow2_minus_nat: "pow2 (- int k) = 1 / 2 ^ k"
  by (cases "k = 0") (simp_all add: pow2_def)

subsection \<open>Exact values\<close>

text \<open>Values with at most 24 significant bits and no bit below \<^verbatim>\<open>2^-149\<close> are exact.\<close>

lemma rnd_exact:
  assumes "n < 2 ^ 24" "- 149 \<le> e"
  shows "rnd (of_nat n * pow2 e) = of_nat n * pow2 e"
proof (cases "n = 0")
  case False
  define x where "x = of_nat n * pow2 e"
  have pos: "0 < x" using False by (simp add: x_def)
  have "of_nat n < (of_nat (2 ^ 24) :: rat)" using assms(1) by (simp only: of_nat_less_iff)
  then have "x < 2 ^ 24 * pow2 e" unfolding x_def by (intro mult_strict_right_mono) simp_all
  then have "x < pow2 (e + int 24)" by (simp only: pow2_add_nat)
  then have "ilog2 x < e + int 24"
    using ilog2_bounds(1) [OF pos] pow2_mono [of "e + int 24" "ilog2 x"] by force
  then have "0 \<le> e - ulp_exp x" using assms(2) by (simp add: ulp_exp_def)
  then obtain m where "e - ulp_exp x = int m" by (metis nonneg_int_cases)
  then have e: "e = ulp_exp x + int m" by simp
  have "x = of_int (int n * 2 ^ m) * pow2 (ulp_exp x)"
    by (subst x_def, subst e) (simp add: pow2_add_nat)
  then have "round_half_even (x / pow2 (ulp_exp x)) = int n * 2 ^ m"
    using round_half_even_int [of "int n * 2 ^ m"]
    by (metis nonzero_mult_div_cancel_right pow2_nonzero)
  with pos \<open>x = of_int (int n * 2 ^ m) * pow2 (ulp_exp x)\<close> have "rnd x = x"
    by (simp add: rnd_def)
  then show ?thesis by (simp only: x_def)
qed simp

lemma rnd_dyadic: "n < 2 ^ 24 \<Longrightarrow> k \<le> 149 \<Longrightarrow> rnd (of_nat n / 2 ^ k) = of_nat n / 2 ^ k"
  using rnd_exact [of n "- int k"] by (simp add: pow2_minus_nat)

lemma rnd_idem: "0 \<le> x \<Longrightarrow> rnd (rnd x) = rnd x"
proof (cases "x = 0")
  case False
  assume "0 \<le> x"
  with False have pos: "0 < x" by simp
  have ge: "- 149 \<le> ulp_exp x" by (simp add: ulp_exp_def)
  have "0 \<le> round_half_even (x / pow2 (ulp_exp x))"
    using pos by (intro round_half_even_ge_int) simp
  then obtain k where k: "round_half_even (x / pow2 (ulp_exp x)) = int k" by (metis nonneg_int_cases)
  then have r: "rnd x = of_nat k * pow2 (ulp_exp x)" using pos by (simp add: rnd_def)
  have "x < pow2 (ilog2 x + 1)" using pos by (rule ilog2_bounds)
  also have "\<dots> \<le> pow2 (ulp_exp x + int 24)" by (intro pow2_mono) (simp add: ulp_exp_def)
  finally have "rnd x \<le> pow2 (ulp_exp x + int 24)" using pos by (intro rnd_le_pow2) simp_all
  then have "of_nat k * pow2 (ulp_exp x) \<le> 2 ^ 24 * pow2 (ulp_exp x)"
    by (simp only: r pow2_add_nat)
  then have "of_nat k \<le> (2 ^ 24 :: rat)" by (rule mult_right_le_imp_le) simp
  then have "of_nat k \<le> (of_nat (2 ^ 24) :: rat)" by simp
  then have "k \<le> 2 ^ 24" by (simp only: of_nat_le_iff)
  then consider "k < 2 ^ 24" | "k = 2 ^ 24" by linarith
  then show ?thesis
  proof cases
    case 1
    with ge show ?thesis by (simp add: r rnd_exact)
  next
    case 2
    then have "rnd x = of_nat (2 ^ 23) * pow2 (ulp_exp x + 1)" by (simp add: r pow2_Suc)
    with ge show ?thesis using rnd_exact [of "2 ^ 23" "ulp_exp x + 1"] by simp
  qed
qed simp

lemma mk_f32_dyadic:
  assumes "n < 2 ^ 24" "k \<le> 149"
  shows "mk_f32 s (of_nat n / 2 ^ k) = F_Fin s (of_nat n / 2 ^ k)"
proof -
  have "of_nat n < (of_nat (2 ^ 24) :: rat)" using assms(1) by (simp only: of_nat_less_iff)
  then have "of_nat n / 2 ^ k \<le> (2 ^ 24 :: rat) / 1"
    by (intro frac_le) simp_all
  also have "\<dots> \<le> f32_max" by (simp add: f32_max_def)
  finally show ?thesis using rnd_dyadic [OF assms] by (simp add: mk_f32_def)
qed

lemma f_of_nat_exact: "n < 2 ^ 24 \<Longrightarrow> f_of_nat n = F_Fin False (of_nat n)"
  using mk_f32_dyadic [of n 0] by (simp add: f_lit_def)

lemma f_lit_numeral: "numeral n < (2 ^ 24 :: nat) \<Longrightarrow> f_lit (numeral n) = F_Fin False (numeral n)"
  using f_of_nat_exact [of "numeral n"] by simp

lemma f_lit_neg_numeral: "numeral n < (2 ^ 24 :: nat) \<Longrightarrow> f_lit (- numeral n) = F_Fin True (numeral n)"
  using mk_f32_dyadic [of "numeral n" 0] by (simp add: f_lit_def)

lemma f_lit_zero [simp]: "f_lit 0 = F_Fin False 0"
  using f_of_nat_exact [of 0] by simp

lemma f_lit_one [simp]: "f_lit 1 = F_Fin False 1"
  using f_of_nat_exact [of 1] by simp

lemma f_lit_dyadic:
  "numeral n < (2 ^ 24 :: nat) \<Longrightarrow> k \<le> 149 \<Longrightarrow>
     f_lit (numeral n / 2 ^ k) = F_Fin False (numeral n / 2 ^ k)"
  using mk_f32_dyadic [of "numeral n" k] by (simp add: f_lit_def)

subsection \<open>Order\<close>

lemma mk_f32_wf [simp]: "0 \<le> m \<Longrightarrow> f_wf (mk_f32 s m)"
  by (simp add: mk_f32_def rnd_idem)

lemma f_wf_lit [simp]: "f_wf (f_lit r)"
  by (simp add: f_lit_def)

lemma f_le_refl [simp]: "f_le x x \<longleftrightarrow> \<not> is_nan x"
  by (cases x) auto

lemma f_le_trans [trans]: "f_le x y \<Longrightarrow> f_le y z \<Longrightarrow> f_le x z"
  by (cases x; cases y; cases z) (auto split: if_splits)

lemma f_le_linear: "\<not> is_nan x \<Longrightarrow> \<not> is_nan y \<Longrightarrow> f_le x y \<or> f_le y x"
  by (cases x; cases y) auto

lemma f_le_not_nan: "f_le x y \<Longrightarrow> \<not> is_nan x \<and> \<not> is_nan y"
  by (cases x; cases y) auto

lemma finite_not_nan [simp]: "is_finite x \<Longrightarrow> \<not> is_nan x"
  by (cases x) auto

lemma not_f_lt: "\<not> is_nan x \<Longrightarrow> \<not> is_nan y \<Longrightarrow> \<not> f_lt x y \<longleftrightarrow> f_le y x"
  using f_le_linear [of x y] by (auto simp: f_lt_def)

lemma f_lt_le: "f_lt x y \<Longrightarrow> f_le x y"
  by (simp add: f_lt_def)

lemma mk_f32_not_nan [simp]: "\<not> is_nan (mk_f32 s m)"
  by (simp add: mk_f32_def)

lemma f_lit_not_nan [simp]: "\<not> is_nan (f_lit r)"
  by (simp add: f_lit_def)

text \<open>Rounding the values of two products keeps their order.\<close>

lemma mk_f32_mono:
  assumes "0 \<le> a" "0 \<le> b" "(if s then - a else a) \<le> (if t then - b else b)"
  shows "f_le (mk_f32 s a) (mk_f32 t b)"
proof -
  have nonneg: "0 \<le> rnd a" "0 \<le> rnd b" using assms(1,2) by simp_all
  consider "\<not> s" "\<not> t" | "s" "t" | "s" "\<not> t" | "\<not> s" "t" by blast
  then show ?thesis
  proof cases
    case 1
    with assms have "rnd a \<le> rnd b" by (simp add: rnd_mono)
    with 1 show ?thesis by (auto simp: mk_f32_def)
  next
    case 2
    with assms have "rnd b \<le> rnd a" by (simp add: rnd_mono)
    with 2 show ?thesis by (auto simp: mk_f32_def)
  next
    case 3
    with nonneg show ?thesis by (auto simp: mk_f32_def)
  next
    case 4
    with assms have "a = 0" "b = 0" by auto
    with 4 show ?thesis by (simp add: mk_f32_def f32_max_def)
  qed
qed

lemma f_mul_mono:
  assumes "f_le x y" "f_wf x" "f_wf y" "0 < k"
  shows "f_le (f_mul x (F_Fin False k)) (f_mul y (F_Fin False k))"
proof (cases x; cases y)
  fix s a t b assume xy: "x = F_Fin s a" "y = F_Fin t b"
  have "(if s then - a else a) * k \<le> (if t then - b else b) * k"
    using assms xy by (intro mult_right_mono) simp_all
  then have "(if s then - (a * k) else a * k) \<le> (if t then - (b * k) else b * k)"
    by (simp split: if_splits)
  with assms xy show ?thesis by (simp add: mk_f32_mono)
qed (use assms in \<open>auto simp: mk_f32_def\<close>)

lemma f_wf_mul [simp]: "f_wf x \<Longrightarrow> f_wf y \<Longrightarrow> f_wf (f_mul x y)"
  by (cases x; cases y) auto

lemma f_clamp_mono: "f_le x y \<Longrightarrow> f_le lo hi \<Longrightarrow> f_le (f_clamp lo hi x) (f_clamp lo hi y)"
  using f_le_not_nan [of x y] f_le_not_nan [of lo hi]
  by (auto simp: f_clamp_def f_lt_le intro: f_le_trans) (auto simp: f_lt_def intro: f_le_trans dest: f_le_linear)

lemma f_clamp_bounds:
  "\<not> is_nan x \<Longrightarrow> f_le lo hi \<Longrightarrow> f_le lo (f_clamp lo hi x) \<and> f_le (f_clamp lo hi x) hi"
  using f_le_not_nan [of lo hi] by (auto simp: f_clamp_def not_f_lt f_lt_le)

lemma trunc_rat_mono: "r \<le> s \<Longrightarrow> trunc_rat r \<le> trunc_rat s"
  by (auto simp: trunc_rat_def ceiling_mono floor_mono) (metis ceiling_le_zero dual_order.trans less_eq_rat_def linorder_not_le zero_le_floor)

lemma f_to_int_mono: "f_le x y \<Longrightarrow> lo \<le> hi \<Longrightarrow> f_to_int lo hi x \<le> f_to_int lo hi y"
proof (cases x; cases y)
  fix s a t b assume "f_le x y" "lo \<le> hi" and xy: "x = F_Fin s a" "y = F_Fin t b"
  then have "trunc_rat (if s then - a else a) \<le> trunc_rat (if t then - b else b)"
    by (intro trunc_rat_mono) simp
  with xy \<open>lo \<le> hi\<close> show ?thesis by auto
qed auto

lemma f_to_int_bounds: "lo \<le> 0 \<Longrightarrow> 0 \<le> hi \<Longrightarrow> lo \<le> f_to_int lo hi x \<and> f_to_int lo hi x \<le> hi"
  by (cases x) auto

subsection \<open>Monotone division and addition\<close>

lemma f_div_mono:
  assumes "f_le (F_Fin False a) (F_Fin False b)" "0 \<le> a" "0 < k"
  shows "f_le (f_div (F_Fin False a) (F_Fin False k)) (f_div (F_Fin False b) (F_Fin False k))"
  using assms mk_f32_mono [of "a / k" "b / k" False False] by (simp add: divide_right_mono)

lemma f_add_mono:
  assumes "f_le x y" "is_finite c"
  shows "f_le (f_add c x) (f_add c y)"
proof -
  obtain s a where c: "c = F_Fin s a" using assms(2) by (cases c) auto
  define e where "e v z = (if v = 0 then F_Fin z 0 else mk_f32 (v < 0) \<bar>v\<bar>)" for v z
  have mk0: "mk_f32 z 0 = F_Fin z 0" for z by (simp add: mk_f32_def f32_max_def)
  have eq: "e v z = mk_f32 (if v = 0 then z else v < 0) \<bar>v\<bar>" for v z by (simp add: e_def mk0)
  have mono: "f_le (e v z) (e w z')" if "v \<le> w" for v w z z'
    unfolding eq by (rule mk_f32_mono) (use that in auto)
  have fin: "f_add c (F_Fin t b) = e ((if s then - a else a) + (if t then - b else b)) (s \<and> t)" for t b
    by (simp add: c e_def)
  show ?thesis
  proof (cases x; cases y)
    fix t b u d assume xy: "x = F_Fin t b" "y = F_Fin u d"
    show ?thesis unfolding xy fin using assms(1) xy by (intro mono) simp
  qed (use assms(1) in \<open>auto simp: c mk_f32_def\<close>)
qed

lemma f_le_of_nat: "m \<le> n \<Longrightarrow> n < 2 ^ 24 \<Longrightarrow> f_le (f_of_nat m) (f_of_nat n)"
  using f_of_nat_exact [of m] f_of_nat_exact [of n] by simp

subsection \<open>The greatest element of a list\<close>

text \<open>\<^verbatim>\<open>max_by\<close> with \<^verbatim>\<open>total_cmp\<close>: of the greatest elements, the last.\<close>

definition max_step :: "(nat \<times> f32) option \<Rightarrow> nat \<times> f32 \<Rightarrow> (nat \<times> f32) option" where
  "max_step best x =
     (case best of None \<Rightarrow> Some x | Some b \<Rightarrow> if total_le (snd b) (snd x) then Some x else Some b)"

definition argmax_row :: "f32 list \<Rightarrow> nat" where
  "argmax_row row =
     (case foldl max_step None (enumerate 0 row) of None \<Rightarrow> 0 | Some (i, x) \<Rightarrow> i)"

lemma total_le_total: "total_le x y \<or> total_le y x"
  by (cases "(x, y)" rule: total_le.cases) auto

lemma total_le_refl: "total_le x x"
  using total_le_total [of x x] by simp

lemma total_le_trans: "total_le x y \<Longrightarrow> total_le y z \<Longrightarrow> total_le x z"
  by (cases x rule: total_rank.cases; cases y rule: total_rank.cases; cases z rule: total_rank.cases)
    (auto split: if_splits)

text \<open>The best entry of a prefix: greater or equal to all, greater than the later ones.\<close>

definition best_of :: "(nat \<times> f32) option \<Rightarrow> f32 list \<Rightarrow> bool" where
  "best_of b xs \<longleftrightarrow>
     (case b of
        None \<Rightarrow> xs = []
      | Some (k, x) \<Rightarrow> k < length xs \<and> x = xs ! k \<and> (\<forall>j<length xs. total_le (xs ! j) x) \<and>
          (\<forall>j. k < j \<and> j < length xs \<longrightarrow> \<not> total_le x (xs ! j)))"

lemma best_of_step:
  assumes "best_of b xs"
  shows "best_of (max_step b (length xs, y)) (xs @ [y])"
proof (cases b)
  case None
  then show ?thesis using assms by (simp add: best_of_def max_step_def total_le_refl)
next
  case (Some kx)
  obtain k x where kx: "kx = (k, x)" by force
  have inv: "k < length xs" "x = xs ! k" "\<forall>j<length xs. total_le (xs ! j) x"
    "\<forall>j. k < j \<and> j < length xs \<longrightarrow> \<not> total_le x (xs ! j)"
    using assms by (auto simp: best_of_def Some kx)
  show ?thesis
  proof (cases "total_le x y")
    case True
    then show ?thesis using inv
      by (auto simp: best_of_def max_step_def Some kx nth_append less_Suc_eq total_le_refl
          intro: total_le_trans)
  next
    case False
    then have "total_le y x" using total_le_total by blast
    then show ?thesis using inv False
      by (auto simp: best_of_def max_step_def Some kx nth_append less_Suc_eq)
  qed
qed

lemma best_of_fold:
  "best_of b xs \<Longrightarrow> best_of (foldl max_step b (enumerate (length xs) ys)) (xs @ ys)"
proof (induction ys arbitrary: b xs)
  case (Cons y ys)
  from Cons.IH [OF best_of_step [OF Cons.prems, of y]] show ?case by simp
qed simp

lemma argmax_row_best:
  assumes "row \<noteq> []"
  shows "best_of (Some (argmax_row row, row ! argmax_row row)) row"
proof -
  have "best_of (foldl max_step None (enumerate 0 row)) row"
    using best_of_fold [of None "[]" row] by (simp add: best_of_def)
  then show ?thesis using assms
    by (cases "foldl max_step None (enumerate 0 row)") (auto simp: argmax_row_def best_of_def)
qed

end
