(* ===== verification/Samples.thy ===== *)
theory Samples
  imports F32
begin

section \<open>Audio samples\<close>

text \<open>
  \<^verbatim>\<open>crates/audio/ops/src/samples.rs\<close> and \<^verbatim>\<open>hanning_window.rs\<close>. An \<^verbatim>\<open>AudioSamples\<close> is its
  vector of samples, a \<open>f32 list\<close>; a method that takes \<^verbatim>\<open>&mut self\<close> returns the new vector.
  An \<^verbatim>\<open>i16\<close> is a \<open>16 word\<close> read with \<open>sint\<close>. The precision of \<^verbatim>\<open>f32::sin\<close>, \<^verbatim>\<open>cos\<close> and
  \<^verbatim>\<open>log10\<close> is not specified by Rust, so these three are function arguments of the
  operations that call them. The lemmas show lengths and bounds of every operation, saturation and
  monotonicity of the PCM conversion, the round trip of its bytes, and the shape of the windows.
\<close>

type_synonym samples = "f32 list"
type_synonym i16 = "16 word"
type_synonym byte = "8 word"

record audio_info =
  sample_rate :: nat
  num_channels :: nat
  sample_width :: nat

definition HALF_TURN :: f32 where "HALF_TURN = f_lit (13176795 / 4194304)"
definition I16_MIN_AS_F32 :: f32 where "I16_MIN_AS_F32 = f_lit (- 32768)"
definition I16_MAX_AS_F32 :: f32 where "I16_MAX_AS_F32 = f_lit 32767"
definition REFERENCE_OUTPUT_GAIN :: f32 where "REFERENCE_OUTPUT_GAIN = f_lit (5 / 4)"

subsection \<open>Hann windows\<close>

datatype audio_ops_error = InvalidWindowLength nat

definition PRECOMPUTED_HANN_WINDOW_LENGTHS :: "nat list" where
  "PRECOMPUTED_HANN_WINDOW_LENGTHS = [64, 128, 256, 512, 1024, 2048, 4096]"

definition angular_step :: "nat \<Rightarrow> f32" where
  "angular_step len = f_div (f_mul (f_lit 2) HALF_TURN) (f_of_nat (len - 1))"

definition hann_window_values :: "(f32 \<Rightarrow> f32) \<Rightarrow> nat \<Rightarrow> f32 list" where
  "hann_window_values cos32 len =
     map (\<lambda>n. f_sub (f_lit (1 / 2))
              (f_mul (f_lit (1 / 2))
                (cos32 (f_mul (angular_step len) (f_of_nat (min n (len - 1 - n)))))))
       [0..<len]"

definition build_hann_window_lookup_table :: "(f32 \<Rightarrow> f32) \<Rightarrow> (nat \<times> f32 list) list" where
  "build_hann_window_lookup_table cos32 =
     map (\<lambda>len. (len, hann_window_values cos32 len)) PRECOMPUTED_HANN_WINDOW_LENGTHS"

definition get_hann_window :: "(f32 \<Rightarrow> f32) \<Rightarrow> nat \<Rightarrow> audio_ops_error + f32 list" where
  "get_hann_window cos32 len =
     (if len \<le> 1 then Inl (InvalidWindowLength len)
      else Inr (case map_of (build_hann_window_lookup_table cos32) len of
                  Some w \<Rightarrow> w
                | None \<Rightarrow> hann_window_values cos32 len))"

subsection \<open>Operations on samples\<close>

text \<open>\<^verbatim>\<open>take_range\<close>: the drained samples and the samples left.\<close>

definition take_range :: "samples \<Rightarrow> nat \<Rightarrow> nat \<Rightarrow> samples \<times> samples" where
  "take_range xs start stop =
     (case min stop (length xs) of clamped_end \<Rightarrow>
        (case min start clamped_end of clamped_start \<Rightarrow>
           (drop clamped_start (take clamped_end xs), take clamped_start xs @ drop clamped_end xs)))"

definition sample_to_i16 :: "f32 \<Rightarrow> i16" where
  "sample_to_i16 x =
     (if is_finite x
      then of_int (f_to_int (- 32768) 32767
             (f_clamp I16_MIN_AS_F32 I16_MAX_AS_F32
               (f_mul (f_mul x REFERENCE_OUTPUT_GAIN) I16_MAX_AS_F32)))
      else 0)"

definition to_i16_vec :: "samples \<Rightarrow> i16 list" where
  "to_i16_vec xs = (if xs = [] then [] else map sample_to_i16 xs)"

definition i16_to_le_bytes :: "i16 \<Rightarrow> byte list" where
  "i16_to_le_bytes w = [ucast w, ucast (drop_bit 8 w)]"

definition as_wave_bytes :: "samples \<Rightarrow> byte list" where
  "as_wave_bytes xs = concat (map i16_to_le_bytes (to_i16_vec xs))"

definition merge_samples :: "samples \<Rightarrow> samples \<Rightarrow> samples" where
  "merge_samples xs ys = xs @ ys"

definition peak_magnitude :: "samples \<Rightarrow> f32" where
  "peak_magnitude xs = fold (\<lambda>x acc. f_max acc x) (map f_abs (filter is_finite xs)) (f_lit 0)"

definition normalize_divisor :: "samples \<Rightarrow> f32 \<Rightarrow> f32" where
  "normalize_divisor xs max_value = f_div (f_max (peak_magnitude xs) max_value) (f_abs max_value)"

definition normalize_samples :: "samples \<Rightarrow> f32 \<Rightarrow> samples" where
  "normalize_samples xs max_value =
     (if xs = [] then xs
      else map (\<lambda>x. if is_finite x then f_div x (normalize_divisor xs max_value) else f_lit 0) xs)"

definition apply_hanning_window :: "(f32 \<Rightarrow> f32) \<Rightarrow> samples \<Rightarrow> audio_ops_error + samples" where
  "apply_hanning_window cos32 xs =
     (if xs = [] then Inr xs
      else res_map (\<lambda>window. map2 f_mul xs window @ drop (length window) xs)
             (get_hann_window cos32 (length xs)))"

definition overlap_gain :: "nat \<Rightarrow> nat \<Rightarrow> f32" where
  "overlap_gain overlap_len offset =
     (if overlap_len = 1 then f_lit (1 / 2)
      else f_div (f_of_nat offset) (f_of_nat (overlap_len - 1)))"

definition overlap_mix :: "nat \<Rightarrow> nat \<Rightarrow> f32 \<Rightarrow> f32 \<Rightarrow> f32" where
  "overlap_mix overlap_len offset mine theirs =
     f_add (f_mul mine (f_sub (f_lit 1) (overlap_gain overlap_len offset)))
           (f_mul theirs (overlap_gain overlap_len offset))"

definition overlap_with :: "samples \<Rightarrow> samples \<Rightarrow> nat \<Rightarrow> samples" where
  "overlap_with xs ys wanted =
     (case min (min wanted (length xs)) (length ys) of n \<Rightarrow>
        take (length xs - n) xs
        @ map (\<lambda>i. overlap_mix n i (xs ! (length xs - n + i)) (ys ! i)) [0..<n]
        @ drop n ys)"

text \<open>Scales the first \<open>n\<close> samples by a gain of their index.\<close>

definition scale_front :: "(nat \<Rightarrow> f32) \<Rightarrow> nat \<Rightarrow> samples \<Rightarrow> samples" where
  "scale_front gain n xs = map2 (\<lambda>i x. f_mul x (gain i)) [0..<n] (take n xs) @ drop n xs"

definition fade_gain :: "(f32 \<Rightarrow> f32) \<Rightarrow> f32 \<Rightarrow> nat \<Rightarrow> f32" where
  "fade_gain sin32 width i =
     sin32 (f_div (f_mul (f_div (f_of_nat i) width) HALF_TURN) (f_lit 2))"

definition fade_in :: "(f32 \<Rightarrow> f32) \<Rightarrow> samples \<Rightarrow> nat \<Rightarrow> samples" where
  "fade_in sin32 xs fade_samples =
     (case min fade_samples (length xs) of width \<Rightarrow>
        scale_front (fade_gain sin32 (f_of_nat width)) width xs)"

definition fade_out :: "(f32 \<Rightarrow> f32) \<Rightarrow> samples \<Rightarrow> nat \<Rightarrow> samples" where
  "fade_out sin32 xs fade_samples =
     (case min fade_samples (length xs) of width \<Rightarrow>
        rev (scale_front (fade_gain sin32 (f_of_nat width)) width (rev xs)))"

definition crossfade :: "(f32 \<Rightarrow> f32) \<Rightarrow> samples \<Rightarrow> nat \<Rightarrow> samples" where
  "crossfade sin32 xs fade_samples =
     (case min fade_samples (length xs div 2) of width \<Rightarrow>
        if width < 2 then xs
        else rev (scale_front (fade_gain sin32 (f_of_nat (width - 1))) width
               (rev (scale_front (fade_gain sin32 (f_of_nat (width - 1))) width xs))))"

text \<open>\<^verbatim>\<open>skip(start).take(count).for_each\<close>.\<close>

definition map_span :: "nat \<Rightarrow> nat \<Rightarrow> (f32 \<Rightarrow> f32) \<Rightarrow> samples \<Rightarrow> samples" where
  "map_span start count f xs =
     take start xs @ map f (take count (drop start xs)) @ drop (start + count) xs"

definition zero_samples_above :: "samples \<Rightarrow> nat \<Rightarrow> nat \<Rightarrow> f32 \<Rightarrow> samples" where
  "zero_samples_above xs start stop cutoff =
     map_span start (stop - start) (\<lambda>x. if f_lt x cutoff then x else f_lit 0) xs"

definition zero_samples_below :: "samples \<Rightarrow> nat \<Rightarrow> nat \<Rightarrow> f32 \<Rightarrow> samples" where
  "zero_samples_below xs start stop cutoff =
     map_span start (stop - start) (\<lambda>x. if f_lt cutoff x then x else f_lit 0) xs"

definition strip_silence :: "samples \<Rightarrow> nat \<Rightarrow> nat \<Rightarrow> f32 \<Rightarrow> samples" where
  "strip_silence xs start stop silence_threshold =
     (case min stop (length xs) of e \<Rightarrow>
        (case min start e of s \<Rightarrow>
           if s = e then xs
           else take s xs @ filter (\<lambda>x. f_lt silence_threshold (f_abs x)) (take (e - s) (drop s xs))
                @ drop e xs))"

definition is_active :: "f32 \<Rightarrow> f32 \<Rightarrow> bool" where
  "is_active threshold x \<longleftrightarrow> is_finite x \<and> f_lt threshold (f_abs x)"

text \<open>
  \<^verbatim>\<open>chunks_exact(n).rposition(any active)\<close>: the last of the first \<open>k\<close> frames of width \<open>n\<close>
  that holds an active sample.
\<close>

fun last_active_frame :: "f32 \<Rightarrow> nat \<Rightarrow> samples \<Rightarrow> nat \<Rightarrow> nat option" where
  "last_active_frame threshold n xs 0 = None"
| "last_active_frame threshold n xs (Suc k) =
     (if list_ex (is_active threshold) (take n (drop (k * n) xs)) then Some k
      else last_active_frame threshold n xs k)"

definition trim_trailing_silence :: "samples \<Rightarrow> f32 \<Rightarrow> nat \<Rightarrow> samples" where
  "trim_trailing_silence xs threshold channels =
     (case max channels 1 of n \<Rightarrow>
        (case last_active_frame threshold n xs (length xs div n) of
           Some frame \<Rightarrow> take ((frame + 1) * n) xs
         | None \<Rightarrow> []))"

definition to_decibel :: "(f32 \<Rightarrow> f32) \<Rightarrow> samples \<Rightarrow> f32 list" where
  "to_decibel log10_32 xs = map (\<lambda>x. f_mul (f_lit 20) (log10_32 (f_abs x))) xs"

subsection \<open>Audio\<close>

record audio =
  samples :: samples
  info :: audio_info
  inference_ms :: "f32 option"

definition new_audio :: "samples \<Rightarrow> nat \<Rightarrow> f32 option \<Rightarrow> audio" where
  "new_audio xs rate ms =
     \<lparr>samples = xs, info = \<lparr>sample_rate = rate, num_channels = 1, sample_width = 2\<rparr>,
      inference_ms = ms\<rparr>"

definition duration_ms :: "audio \<Rightarrow> f32" where
  "duration_ms a =
     f_mul (f_div (f_of_nat (length (samples a))) (f_of_nat (sample_rate (info a)))) (f_lit 1000)"

definition real_time_factor :: "audio \<Rightarrow> f32 option" where
  "real_time_factor a =
     (case inference_ms a of
        None \<Rightarrow> None
      | Some ms \<Rightarrow>
          if f_eq (duration_ms a) (f_lit 0) then Some (f_lit 0)
          else Some (f_div ms (duration_ms a)))"

subsection \<open>PCM conversion\<close>

lemma pcm_constants:
  "I16_MIN_AS_F32 = F_Fin True 32768" "I16_MAX_AS_F32 = F_Fin False 32767"
  "REFERENCE_OUTPUT_GAIN = F_Fin False (5 / 4)"
  using f_lit_dyadic [of "num.Bit1 (num.Bit0 num.One)" 2]
  by (simp_all add: I16_MIN_AS_F32_def I16_MAX_AS_F32_def REFERENCE_OUTPUT_GAIN_def
      f_lit_numeral f_lit_neg_numeral)

lemma pcm_constants_wf [simp]: "f_wf I16_MIN_AS_F32" "f_wf I16_MAX_AS_F32" "f_wf REFERENCE_OUTPUT_GAIN"
  by (simp_all add: I16_MIN_AS_F32_def I16_MAX_AS_F32_def REFERENCE_OUTPUT_GAIN_def)

lemma pcm_range_le: "f_le I16_MIN_AS_F32 I16_MAX_AS_F32"
  by (simp add: pcm_constants)

definition pcm_value :: "f32 \<Rightarrow> int" where
  "pcm_value x =
     f_to_int (- 32768) 32767
       (f_clamp I16_MIN_AS_F32 I16_MAX_AS_F32
         (f_mul (f_mul x REFERENCE_OUTPUT_GAIN) I16_MAX_AS_F32))"

lemma pcm_value_range: "- 32768 \<le> pcm_value x" "pcm_value x \<le> 32767"
  unfolding pcm_value_def using f_to_int_bounds [of "- 32768" 32767] by simp_all

lemma sint_sample_to_i16: "is_finite x \<Longrightarrow> sint (sample_to_i16 x) = pcm_value x"
  using pcm_value_range [of x]
  by (simp add: sample_to_i16_def pcm_value_def [symmetric] sint_sbintrunc' signed_take_bit_int_eq_self)

lemma f_mul_mono_gain:
  "f_le x y \<Longrightarrow> f_wf x \<Longrightarrow> f_wf y \<Longrightarrow> f_le (f_mul x REFERENCE_OUTPUT_GAIN) (f_mul y REFERENCE_OUTPUT_GAIN)"
  by (simp add: pcm_constants f_mul_mono)

lemma f_mul_mono_max:
  "f_le x y \<Longrightarrow> f_wf x \<Longrightarrow> f_wf y \<Longrightarrow> f_le (f_mul x I16_MAX_AS_F32) (f_mul y I16_MAX_AS_F32)"
  by (simp add: pcm_constants f_mul_mono)

lemma pcm_value_mono: "f_le x y \<Longrightarrow> f_wf x \<Longrightarrow> f_wf y \<Longrightarrow> pcm_value x \<le> pcm_value y"
  unfolding pcm_value_def
  by (intro f_to_int_mono f_clamp_mono pcm_range_le f_mul_mono_gain f_mul_mono_max) simp_all

text \<open>From \<^verbatim>\<open>1 / 1.25\<close> on, the gain reaches full scale.\<close>

lemma pcm_value_loud:
  assumes "f_wf (F_Fin s m)" "4 / 5 \<le> m"
  shows "if s then pcm_value (F_Fin s m) \<le> - 32767 else pcm_value (F_Fin s m) = 32767"
proof -
  have one: "mk_f32 s 1 = F_Fin s 1" for s using mk_f32_dyadic [of 1 0 s] by simp
  have top: "mk_f32 s 32767 = F_Fin s 32767" for s using mk_f32_dyadic [of 32767 0 s] by simp
  have wf1: "f_wf (F_Fin s 1)" for s by (metis mk_f32_wf one zero_le_one)
  show ?thesis
  proof (cases s)
    case False
    have "f_le (F_Fin False 1) (mk_f32 False (m * (5 / 4)))"
      using mk_f32_mono [of 1 "m * (5 / 4)" False False] assms by (simp add: one)
    then have "f_le (F_Fin False 1) (f_mul (F_Fin False m) REFERENCE_OUTPUT_GAIN)"
      by (simp add: pcm_constants)
    then have "f_le (f_mul (F_Fin False 1) I16_MAX_AS_F32)
                 (f_mul (f_mul (F_Fin False m) REFERENCE_OUTPUT_GAIN) I16_MAX_AS_F32)"
      by (rule f_mul_mono_max) (use wf1 assms False in \<open>simp_all del: f_wf.simps f_mul.simps\<close>)
    then have "f_le (F_Fin False 32767) (f_mul (f_mul (F_Fin False m) REFERENCE_OUTPUT_GAIN) I16_MAX_AS_F32)"
      by (simp add: pcm_constants top)
    then have "f_to_int (- 32768) 32767 (f_clamp I16_MIN_AS_F32 I16_MAX_AS_F32 (F_Fin False 32767))
        \<le> pcm_value (F_Fin False m)"
      unfolding pcm_value_def by (intro f_to_int_mono f_clamp_mono pcm_range_le) simp_all
    then have "32767 \<le> pcm_value (F_Fin False m)"
      by (simp add: pcm_constants f_clamp_def f_lt_def trunc_rat_def)
    with pcm_value_range(2) [of "F_Fin False m"] False show ?thesis by simp
  next
    case True
    have "f_le (mk_f32 True (m * (5 / 4))) (F_Fin True 1)"
      using mk_f32_mono [of "m * (5 / 4)" 1 True True] assms by (simp add: one)
    then have "f_le (f_mul (F_Fin True m) REFERENCE_OUTPUT_GAIN) (F_Fin True 1)"
      by (simp add: pcm_constants)
    then have "f_le (f_mul (f_mul (F_Fin True m) REFERENCE_OUTPUT_GAIN) I16_MAX_AS_F32)
                 (f_mul (F_Fin True 1) I16_MAX_AS_F32)"
      by (rule f_mul_mono_max) (use wf1 assms True in \<open>simp_all del: f_wf.simps f_mul.simps\<close>)
    then have "f_le (f_mul (f_mul (F_Fin True m) REFERENCE_OUTPUT_GAIN) I16_MAX_AS_F32) (F_Fin True 32767)"
      by (simp add: pcm_constants top)
    then have "pcm_value (F_Fin True m)
        \<le> f_to_int (- 32768) 32767 (f_clamp I16_MIN_AS_F32 I16_MAX_AS_F32 (F_Fin True 32767))"
      unfolding pcm_value_def by (intro f_to_int_mono f_clamp_mono pcm_range_le) simp_all
    then show ?thesis using True
      by (simp add: pcm_constants f_clamp_def f_lt_def trunc_rat_def)
  qed
qed

text \<open>
  \<^bold>\<open>C38\<close>: converting finite samples to 16-bit PCM keeps their order, and every sample whose
  magnitude reaches \<^verbatim>\<open>1 / REFERENCE_OUTPUT_GAIN\<close> is clamped to full scale instead of wrapping
  around; a sample that is not finite becomes silence.
\<close>

theorem pcm_conversion:
  assumes "f_wf x" "f_wf y" "is_finite x" "is_finite y" "f_le x y"
  shows "sint (sample_to_i16 x) \<le> sint (sample_to_i16 y) \<and>
         (f_le (F_Fin False (4 / 5)) y \<longrightarrow> sint (sample_to_i16 y) = 32767) \<and>
         (f_le x (F_Fin True (4 / 5)) \<longrightarrow> sint (sample_to_i16 x) \<le> - 32767) \<and>
         (\<not> is_finite z \<longrightarrow> sample_to_i16 z = 0)"
proof -
  obtain s m where y: "y = F_Fin s m" using assms by (cases y) auto
  obtain t n where x: "x = F_Fin t n" using assms by (cases x) auto
  have "f_le (F_Fin False (4 / 5)) y \<Longrightarrow> pcm_value y = 32767"
    using pcm_value_loud [of s m] assms y by (auto split: if_splits)
  moreover have "f_le x (F_Fin True (4 / 5)) \<Longrightarrow> pcm_value x \<le> - 32767"
    using pcm_value_loud [of t n] assms x by (auto split: if_splits)
  ultimately show ?thesis
    using assms by (auto simp: sint_sample_to_i16 pcm_value_mono) (simp add: sample_to_i16_def)
qed

theorem pcm_conversion_witness:
  "sint (sample_to_i16 (F_Fin True 1)) \<le> - 32767 \<and> sint (sample_to_i16 (F_Fin False 1)) = 32767
   \<and> sample_to_i16 (F_NaN True) = 0"
  using pcm_conversion [of "F_Fin True 1" "F_Fin False 1" "F_NaN True"]
    f_wf_lit [of 1] mk_f32_wf [of 1 True] mk_f32_dyadic [of 1 0 True]
  by simp

text \<open>Decoding of little-endian byte pairs.\<close>

unbundle bit_operations_syntax

fun le_decode :: "byte list \<Rightarrow> i16 list" where
  "le_decode (a # b # bs) = (ucast a OR push_bit 8 (ucast b)) # le_decode bs"
| "le_decode _ = []"

lemma le_decode_i16: "le_decode (i16_to_le_bytes w @ bs) = w # le_decode bs"
proof -
  have "ucast (ucast w :: byte) OR push_bit 8 (ucast (ucast (drop_bit 8 w) :: byte)) = w"
    by (rule bit_word_eqI) (auto simp: bit_simps)
  then show ?thesis by (simp add: i16_to_le_bytes_def)
qed

lemma le_decode_concat: "le_decode (concat (map i16_to_le_bytes ws)) = ws"
  by (induction ws) (simp_all add: le_decode_i16)

text \<open>
  The PCM bytes of a waveform are two little-endian bytes per sample, from which the
  16-bit samples can be read back.
\<close>

theorem wave_bytes_roundtrip:
  "le_decode (as_wave_bytes xs) = map sample_to_i16 xs \<and> length (as_wave_bytes xs) = 2 * length xs"
proof -
  have "length (concat (map i16_to_le_bytes ws)) = 2 * length ws" for ws
    by (induction ws) (simp_all add: i16_to_le_bytes_def)
  then show ?thesis by (simp add: as_wave_bytes_def le_decode_concat to_i16_vec_def)
qed

subsection \<open>Trimming and silence\<close>

lemma last_active_frame_Some:
  "last_active_frame th n xs k = Some j \<Longrightarrow>
     j < k \<and> list_ex (is_active th) (take n (drop (j * n) xs)) \<and>
     \<not> list_ex (is_active th) (take ((k - Suc j) * n) (drop (Suc j * n) xs))"
proof (induction k)
  case (Suc k)
  show ?case
  proof (cases "list_ex (is_active th) (take n (drop (k * n) xs))")
    case True
    with Suc.prems show ?thesis by simp
  next
    case False
    with Suc have j: "j < k" "list_ex (is_active th) (take n (drop (j * n) xs))"
      "\<not> list_ex (is_active th) (take ((k - Suc j) * n) (drop (Suc j * n) xs))" by auto
    from j(1) obtain d where k: "k = Suc j + d" by (metis Suc_leI le_iff_add)
    have "(Suc k - Suc j) * n = d * n + n" by (simp add: k)
    then have "take ((Suc k - Suc j) * n) (drop (Suc j * n) xs)
        = take (d * n) (drop (Suc j * n) xs) @ take n (drop (d * n) (drop (Suc j * n) xs))"
      by (simp only: take_add)
    moreover have "drop (d * n) (drop (Suc j * n) xs) = drop (k * n) xs"
      by (simp add: k algebra_simps)
    ultimately show ?thesis using j False Suc.prems by (simp add: k)
  qed
qed simp

lemma last_active_frame_None:
  "last_active_frame th n xs k = None \<Longrightarrow> \<not> list_ex (is_active th) (take (k * n) xs)"
proof (induction k)
  case (Suc k)
  have "take (Suc k * n) xs = take (k * n) xs @ take n (drop (k * n) xs)"
    using take_add [of "k * n" n xs] by (simp add: add.commute)
  with Suc show ?case by (auto split: if_splits)
qed simp

text \<open>
  Trimming keeps a prefix of whole frames; the last frame it keeps holds an audible
  sample, and none of the whole frames it drops does. In a multi-channel signal it never splits
  a frame.
\<close>

theorem trim_trailing_silence_correct:
  "case max channels 1 of n \<Rightarrow> (case trim_trailing_silence xs th channels of r \<Rightarrow>
     r = take (length r) xs \<and> n dvd length r \<and>
     (r = [] \<or> list_ex (is_active th) (drop (length r - n) r)) \<and>
     \<not> list_ex (is_active th) (drop (length r) (take (length xs div n * n) xs)))"
proof -
  define n where "n = max channels 1"
  have n: "0 < n" by (simp add: n_def)
  define q where "q = length xs div n"
  have q: "q * n \<le> length xs" by (simp add: q_def)
  define r where "r = trim_trailing_silence xs th channels"
  have "r = take (length r) xs \<and> n dvd length r \<and>
     (r = [] \<or> list_ex (is_active th) (drop (length r - n) r)) \<and>
     \<not> list_ex (is_active th) (drop (length r) (take (q * n) xs))"
  proof (cases "last_active_frame th n xs q")
    case None
    then have "r = []"
      unfolding r_def trim_trailing_silence_def by (simp add: n_def q_def)
    with last_active_frame_None [OF None] show ?thesis by simp
  next
    case (Some j)
    then have r: "r = take (Suc j * n) xs"
      unfolding r_def trim_trailing_silence_def by (simp add: n_def q_def)
    from last_active_frame_Some [OF Some]
    have j: "j < q" "list_ex (is_active th) (take n (drop (j * n) xs))"
      and rest: "\<not> list_ex (is_active th) (take ((q - Suc j) * n) (drop (Suc j * n) xs))" by auto
    have "Suc j * n \<le> q * n" using j(1) by (intro mult_le_mono1) simp
    with q r have len: "length r = Suc j * n" by (simp add: min_def)
    have "length r - n = j * n" unfolding len by simp
    moreover have "drop (j * n) r = take n (drop (j * n) xs)"
      unfolding r by (simp add: drop_take)
    ultimately have "drop (length r - n) r = take n (drop (j * n) xs)" by simp
    moreover have "drop (length r) (take (q * n) xs) = take ((q - Suc j) * n) (drop (Suc j * n) xs)"
      unfolding len by (simp only: drop_take diff_mult_distrib)
    moreover have "n dvd length r" unfolding len by simp
    ultimately show ?thesis using r len j rest by (metis (no_types))
  qed
  then show ?thesis by (simp add: n_def r_def q_def)
qed

lemma strip_silence_subset: "set (strip_silence xs s e th) \<subseteq> set xs"
  unfolding strip_silence_def
  by (auto dest: in_set_takeD in_set_dropD split: if_splits)

subsection \<open>Lengths\<close>

lemma length_scale_front [simp]: "length (scale_front g n xs) = length xs"
  by (simp add: scale_front_def)

lemma length_map_span [simp]: "length (map_span s c f xs) = length xs"
  by (simp add: map_span_def)

lemma length_zero_samples [simp]:
  "length (zero_samples_above xs s e c) = length xs" "length (zero_samples_below xs s e c) = length xs"
  by (simp_all add: zero_samples_above_def zero_samples_below_def)

lemma length_fades [simp]:
  "length (fade_in sn xs n) = length xs" "length (fade_out sn xs n) = length xs"
  "length (crossfade sn xs n) = length xs"
  by (simp_all add: fade_in_def fade_out_def crossfade_def)

lemma length_normalize [simp]: "length (normalize_samples xs m) = length xs"
  by (simp add: normalize_samples_def)

lemma take_range_partition:
  "take_range xs s e = (d, rest) \<Longrightarrow> length d + length rest = length xs"
  by (auto simp: take_range_def min_def)

lemma length_hann [simp]: "length (hann_window_values c n) = n"
  by (simp add: hann_window_values_def)

lemma hann_table:
  "map_of (build_hann_window_lookup_table c) n = Some w \<Longrightarrow> w = hann_window_values c n"
  by (auto simp: build_hann_window_lookup_table_def dest: map_of_SomeD)

lemma get_hann_window_eq:
  "get_hann_window c n = (if n \<le> 1 then Inl (InvalidWindowLength n) else Inr (hann_window_values c n))"
  by (auto simp: get_hann_window_def dest: hann_table split: option.splits)

lemma hann_window_symmetric: "rev (hann_window_values c n) = hann_window_values c n"
  by (rule nth_equalityI) (auto simp: hann_window_values_def rev_nth min.commute)

lemma apply_hanning_window_eq:
  "apply_hanning_window c xs =
     (if xs = [] then Inr []
      else if length xs = 1 then Inl (InvalidWindowLength 1)
      else Inr (map2 f_mul xs (hann_window_values c (length xs))))"
  by (cases xs) (auto simp: apply_hanning_window_def get_hann_window_eq)

text \<open>
  A cross-fade of two signals keeps the head of the first and the tail of the second
  as they are, and is shorter than their concatenation by exactly the samples it mixes, however
  long the requested overlap is.
\<close>

theorem overlap_with_shape:
  "case min (min wanted (length xs)) (length ys) of n \<Rightarrow>
     (case overlap_with xs ys wanted of r \<Rightarrow>
        length r + n = length xs + length ys \<and>
        take (length xs - n) r = take (length xs - n) xs \<and>
        drop (length xs) r = drop n ys)"
proof -
  define n where "n = min (min wanted (length xs)) (length ys)"
  have n: "n \<le> length xs" "n \<le> length ys" by (simp_all add: n_def)
  have "overlap_with xs ys wanted = take (length xs - n) xs
        @ map (\<lambda>i. overlap_mix n i (xs ! (length xs - n + i)) (ys ! i)) [0..<n] @ drop n ys"
    by (simp add: overlap_with_def n_def)
  with n show ?thesis by (simp add: n_def [symmetric])
qed

end
