(* ===== verification/ModelApi.thy ===== *)
theory ModelApi
  imports Errors Samples
begin

section \<open>The model interface\<close>

text \<open>
  The trait \<^verbatim>\<open>DengjenModel\<close> of \<^verbatim>\<open>crates/dengjen/core/src/lib.rs\<close> with its default methods, and
  \<^verbatim>\<open>SynthesisConfig\<close>. A trait object is a record of its methods: what a backend answers while its
  configuration does not change. A \<^verbatim>\<open>HashMap<i64, String>\<close> of speakers is the list of its entries
  in the order the map iterates them. An audio stream iterator is the list of items it yields.
\<close>

record synthesis_config =
  speaker :: "int option"
  parameters :: "str \<Rightarrow> f32 option"

definition default_synthesis_config :: synthesis_config where
  "default_synthesis_config = \<lparr>speaker = None, parameters = Map.empty\<rparr>"

text \<open>
  \<open>own_name_to_id\<close> is a backend's own \<^verbatim>\<open>speaker_name_to_id\<close>; None where it keeps the one of the trait.
\<close>

record dengjen_model =
  audio_output_info :: "audio_info dengjen_result"
  phonemize_text :: "str \<Rightarrow> str list dengjen_result"
  speak_batch :: "str list \<Rightarrow> audio list dengjen_result"
  speak_one_sentence :: "str \<Rightarrow> audio dengjen_result"
  get_language :: "str option dengjen_result"
  get_speakers :: "(int \<times> str) list option dengjen_result"
  own_name_to_id :: "(str \<Rightarrow> int option) option"
  supports_streaming_output :: bool
  stream_synthesis :: "str \<Rightarrow> nat \<Rightarrow> nat \<Rightarrow> samples dengjen_result list dengjen_result"

definition default_stream_synthesis ::
  "str \<Rightarrow> nat \<Rightarrow> nat \<Rightarrow> samples dengjen_result list dengjen_result" where
  "default_stream_synthesis phonemes chunk_size chunk_padding =
     Inl (UnsupportedOperation (lit ''Streaming synthesis is not supported for this model''))"

definition speaker_id_to_name :: "dengjen_model \<Rightarrow> int \<Rightarrow> str option dengjen_result" where
  "speaker_id_to_name m sid =
     res_map (\<lambda>speakers. case speakers of None \<Rightarrow> None | Some sp \<Rightarrow> map_of sp sid) (get_speakers m)"

definition speaker_name_to_id :: "dengjen_model \<Rightarrow> str \<Rightarrow> int option dengjen_result" where
  "speaker_name_to_id m name =
     (case own_name_to_id m of
        Some look_up \<Rightarrow> Inr (look_up name)
      | None \<Rightarrow>
          res_map (\<lambda>speakers. case speakers of
                     None \<Rightarrow> None
                   | Some sp \<Rightarrow> find_map (\<lambda>(sid, n). if n = name then Some sid else None) sp)
            (get_speakers m))"

text \<open>\<^verbatim>\<open>Display\<close> of a list of phoneme sentences.\<close>

definition display_phonemes :: "str list \<Rightarrow> str" where
  "display_phonemes sentences = join_text (lit '' '') sentences"

lemma find_speaker_by_name:
  assumes "distinct (map fst sp)" "distinct (map snd sp)"
  shows "find_map (\<lambda>(sid, n). if n = name then Some sid else None) sp = Some sid
     \<longleftrightarrow> map_of sp sid = Some name"
  using assms
proof (induction sp)
  case (Cons e sp)
  obtain i n where e: "e = (i, n)" by (cases e)
  show ?case
  proof (cases "n = name")
    case True
    then have "map_of sp sid \<noteq> Some name"
      using Cons.prems e by (auto dest!: map_of_SomeD simp: image_iff)
    with True e show ?thesis by auto
  next
    case False
    have "i \<noteq> sid" if "map_of sp sid = Some name"
      using that Cons.prems e by (auto dest!: map_of_SomeD simp: image_iff)
    with False Cons e show ?thesis by auto
  qed
qed simp

lemma find_speaker_absent:
  "name \<notin> snd ` set sp \<Longrightarrow> find_map (\<lambda>(sid, n). if n = name then Some sid else None) sp = None"
  by (induction sp) auto

text \<open>
  When the speaker names of a voice are unique, the trait's way of looking a speaker up by name is the
  inverse of naming a speaker id.
\<close>

theorem speaker_lookup_inverse:
  assumes "get_speakers m = Inr (Some sp)" "distinct (map fst sp)" "distinct (map snd sp)"
    "own_name_to_id m = None"
  shows "speaker_name_to_id m name = Inr (Some sid) \<longleftrightarrow> speaker_id_to_name m sid = Inr (Some name)"
  using find_speaker_by_name [OF assms(2,3)]
  by (simp add: speaker_name_to_id_def speaker_id_to_name_def assms(1,4))

definition two_speaker_model :: dengjen_model where
  "two_speaker_model =
     \<lparr>audio_output_info = Inr \<lparr>sample_rate = 22050, num_channels = 1, sample_width = 2\<rparr>,
      phonemize_text = (\<lambda>t. Inr [t]), speak_batch = (\<lambda>_. Inr []),
      speak_one_sentence = (\<lambda>t. Inr (new_audio [f_lit 1] 22050 None)),
      get_language = Inr None,
      get_speakers = Inr (Some [(0, lit ''amy''), (1, lit ''joe'')]),
      own_name_to_id = None, supports_streaming_output = False, stream_synthesis = default_stream_synthesis\<rparr>"

theorem speaker_lookup_inverse_witness:
  "speaker_name_to_id two_speaker_model (lit ''joe'') = Inr (Some 1) \<longleftrightarrow>
   speaker_id_to_name two_speaker_model 1 = Inr (Some (lit ''joe''))"
  by (rule speaker_lookup_inverse [where sp = "[(0, lit ''amy''), (1, lit ''joe'')]"])
     (simp_all add: two_speaker_model_def)

end
