(* ===== verification/WaveWriter.thy ===== *)
theory WaveWriter
  imports Samples Paths
begin

section \<open>Writing wave files\<close>

text \<open>
  \<^verbatim>\<open>crates/audio/ops/src/wave_writer.rs\<close>. The RIFF encoder is a third-party crate and is a
  \<open>riff\<close> argument: how it opens a stream, takes a sample and fixes up its header. The file
  system is a map from paths to contents, and a record of \<open>io_faults\<close> says which of the calls
  of one save the operating system lets fail, so that every error branch is modelled. The theorems
  show what is rejected before any sample is written, and that a save either replaces the target
  by the complete encoding or leaves it alone.
\<close>

datatype wave_writer_error = WaveWriterError str

record 'w riff =
  riff_new :: "nat \<Rightarrow> nat \<Rightarrow> nat \<Rightarrow> 'w option"
  riff_write_sample :: "i16 \<Rightarrow> 'w \<Rightarrow> 'w option"
  riff_sync_header :: "'w \<Rightarrow> byte list option"

definition PCM_I16_SAMPLE_WIDTH :: nat where "PCM_I16_SAMPLE_WIDTH = 2"

fun write_samples :: "'w riff \<Rightarrow> i16 list \<Rightarrow> 'w \<Rightarrow> wave_writer_error + 'w" where
  "write_samples rf [] w = Inr w"
| "write_samples rf (x # xs) w =
     (case riff_write_sample rf x w of
        None \<Rightarrow> Inl (WaveWriterError (lit ''could not append a PCM sample to the WAVE stream''))
      | Some w' \<Rightarrow> write_samples rf xs w')"

definition write_wave_samples_to_buffer ::
  "'w riff \<Rightarrow> i16 list \<Rightarrow> nat \<Rightarrow> nat \<Rightarrow> nat \<Rightarrow> wave_writer_error + byte list" where
  "write_wave_samples_to_buffer rf xs rate channels width =
     (if width \<noteq> PCM_I16_SAMPLE_WIDTH
      then Inl (WaveWriterError (lit ''unsupported sample width '' @ show_nat width
                                 @ lit '': samples are written as 16-bit PCM''))
      else if channels = 0 \<or> 65535 < channels
      then Inl (WaveWriterError (lit ''unsupported channel count '' @ show_nat channels
                                 @ lit '': expected 1..='' @ show_nat 65535))
      else case riff_new rf channels rate (PCM_I16_SAMPLE_WIDTH * 8) of
        None \<Rightarrow> Inl (WaveWriterError (lit ''could not open the RIFF/WAVE stream for writing''))
      | Some w \<Rightarrow>
          res_bind (write_samples rf xs w)
            (\<lambda>w'. case riff_sync_header rf w' of
                None \<Rightarrow> Inl (WaveWriterError (lit ''could not finalize the RIFF/WAVE chunk sizes''))
              | Some bytes \<Rightarrow> Inr bytes))"

subsection \<open>The file system\<close>

type_synonym fs = "path \<Rightarrow> byte list option"

record io_faults =
  create_fault :: "str option"
  write_fault :: "(str \<times> nat) option"
  rename_fault :: "str option"
  remove_fails :: bool

text \<open>\<^verbatim>\<open>create_new\<close> refuses an existing file; a failed \<^verbatim>\<open>write_all\<close> may leave a prefix behind.\<close>

definition fs_create_new :: "io_faults \<Rightarrow> path \<Rightarrow> fs \<Rightarrow> str + fs" where
  "fs_create_new io p fs =
     (case create_fault io of
        Some why \<Rightarrow> Inl why
      | None \<Rightarrow> if fs p \<noteq> None then Inl (lit ''File exists (os error 17)'') else Inr (fs(p \<mapsto> [])))"

definition fs_write_all :: "io_faults \<Rightarrow> path \<Rightarrow> byte list \<Rightarrow> fs \<Rightarrow> fs \<times> str option" where
  "fs_write_all io p bytes fs =
     (case write_fault io of
        Some (why, n) \<Rightarrow> (fs(p \<mapsto> take n bytes), Some why)
      | None \<Rightarrow> (fs(p \<mapsto> bytes), None))"

definition fs_remove :: "io_faults \<Rightarrow> path \<Rightarrow> fs \<Rightarrow> fs" where
  "fs_remove io p fs = (if remove_fails io then fs else fs(p := None))"

definition fs_rename :: "io_faults \<Rightarrow> path \<Rightarrow> path \<Rightarrow> fs \<Rightarrow> str + fs" where
  "fs_rename io a b fs =
     (case rename_fault io of
        Some why \<Rightarrow> Inl why
      | None \<Rightarrow> Inr (fs(a := None, b := fs a)))"

text \<open>
  \<^verbatim>\<open>TEMP_FILE_COUNTER\<close> is a process-wide 64-bit counter: \<open>fetch_add\<close> hands out its value and
  wraps.
\<close>

definition temp_sibling_path :: "nat \<Rightarrow> nat \<Rightarrow> path \<Rightarrow> path" where
  "temp_sibling_path pid unique p =
     with_file_name p (lit ''.'' @ unwrap_or [] (file_name p) @ lit ''.'' @ show_nat pid
                       @ lit ''.'' @ show_nat unique @ lit ''.tmp'')"

definition next_temp :: "nat \<Rightarrow> nat" where
  "next_temp counter = usize_wrap (counter + 1)"

record save_world =
  files :: fs
  temp_counter :: nat

definition save_error :: "str \<Rightarrow> path \<Rightarrow> str \<Rightarrow> wave_writer_error" where
  "save_error action p why = WaveWriterError (lit ''could not '' @ action @ quoted p @ lit '': '' @ why)"

definition store_encoded ::
  "io_faults \<Rightarrow> path \<Rightarrow> path \<Rightarrow> byte list \<Rightarrow> fs \<Rightarrow> fs \<times> (wave_writer_error + unit)" where
  "store_encoded io temp p encoded fs =
     (case fs_create_new io temp fs of
        Inl why \<Rightarrow> (fs, Inl (save_error (lit ''create wave file '') temp why))
      | Inr fs1 \<Rightarrow>
          (case fs_write_all io temp encoded fs1 of
             (fs2, Some why) \<Rightarrow>
               (fs_remove io temp fs2, Inl (save_error (lit ''write wave bytes to '') temp why))
           | (fs2, None) \<Rightarrow>
               (case fs_rename io temp p fs2 of
                  Inl why \<Rightarrow>
                    (fs_remove io temp fs2, Inl (save_error (lit ''finalize wave file '') p why))
                | Inr fs3 \<Rightarrow> (fs3, Inr ()))))"

definition write_wave_samples_to_file ::
  "'w riff \<Rightarrow> io_faults \<Rightarrow> nat \<Rightarrow> path \<Rightarrow> i16 list \<Rightarrow> nat \<Rightarrow> nat \<Rightarrow> nat \<Rightarrow> save_world
     \<Rightarrow> save_world \<times> (wave_writer_error + unit)" where
  "write_wave_samples_to_file rf io pid p xs rate channels width st =
     (case write_wave_samples_to_buffer rf xs rate channels width of
        Inl e \<Rightarrow> (st, Inl e)
      | Inr encoded \<Rightarrow>
          (case store_encoded io (temp_sibling_path pid (temp_counter st) p) p encoded (files st) of
             (fs', r) \<Rightarrow> (\<lparr>files = fs', temp_counter = next_temp (temp_counter st)\<rparr>, r)))"

definition save_to_file ::
  "'w riff \<Rightarrow> io_faults \<Rightarrow> nat \<Rightarrow> path \<Rightarrow> audio \<Rightarrow> save_world
     \<Rightarrow> save_world \<times> (wave_writer_error + unit)" where
  "save_to_file rf io pid p a st =
     write_wave_samples_to_file rf io pid p (to_i16_vec (samples a))
       (sample_rate (info a) mod 2 ^ 32) (num_channels (info a) mod 2 ^ 32)
       (sample_width (info a) mod 2 ^ 32) st"

subsection \<open>Temporary names\<close>

lemma show_nat_no_slash [simp]: "slash \<notin> set (show_nat n)"
  using show_nat_digits [of n] by (auto simp: slash_def)

lemma temp_name_differs: "temp_sibling_path pid k p \<noteq> p"
proof
  assume eq: "temp_sibling_path pid k p = p"
  define n where "n = lit ''.'' @ unwrap_or [] (file_name p) @ lit ''.'' @ show_nat pid
                       @ lit ''.'' @ show_nat k @ lit ''.tmp''"
  have "slash \<notin> set (unwrap_or [] (file_name p))"
    by (cases "file_name p") (auto dest: file_name_no_slash)
  then have "slash \<notin> set n" using show_nat_no_slash unfolding n_def by (simp add: slash_def)
  moreover have "n \<noteq> []" "n \<noteq> lit ''.''" "n \<noteq> lit ''..''" by (simp_all add: n_def)
  ultimately have "file_name (temp_sibling_path pid k p) = Some n"
    unfolding temp_sibling_path_def n_def [symmetric] by (rule file_name_with_file_name)
  with eq have "file_name p = Some n" by simp
  then have "length n = length n + 6 + length (show_nat pid) + length (show_nat k) + 1"
    using arg_cong [OF n_def, of length] by simp
  then show False by simp
qed

text \<open>
  \<^bold>\<open>C27\<close>: saving a wave file is atomic. When it succeeds, the target holds the complete
  encoding and no temporary file is left; when it fails, the target still holds what it held, and
  with it every other file, except that a temporary file may stay behind if removing it fails too.
\<close>

theorem save_is_atomic:
  "case write_wave_samples_to_file rf io pid p xs rate channels width st of
     (st', Inr _) \<Rightarrow>
       (\<exists>encoded. write_wave_samples_to_buffer rf xs rate channels width = Inr encoded \<and>
                  files st' = (files st)(p \<mapsto> encoded))
   | (st', Inl _) \<Rightarrow>
       files st' p = files st p \<and>
       (files st' = files st \<or>
        remove_fails io \<and>
        files st (temp_sibling_path pid (temp_counter st) p) = None \<and>
        (files st') (temp_sibling_path pid (temp_counter st) p := None) = files st)"
  using temp_name_differs [of pid "temp_counter st" p]
  by (auto simp: write_wave_samples_to_file_def store_encoded_def fs_create_new_def
      fs_write_all_def fs_remove_def fs_rename_def fun_upd_idem fun_upd_twist
      split: sum.splits option.splits if_splits)

text \<open>The checks before the encoder is opened.\<close>

lemma write_buffer_accepts:
  "write_wave_samples_to_buffer rf xs rate channels width = Inr bytes \<Longrightarrow>
     width = 2 \<and> 1 \<le> channels \<and> channels \<le> 65535"
  by (auto simp: write_wave_samples_to_buffer_def PCM_I16_SAMPLE_WIDTH_def split: if_splits)

lemma write_samples_all:
  assumes "\<And>x w. riff_write_sample rf x w = Some (push x w)"
  shows "write_samples rf xs w = Inr (fold push xs w)"
  by (induction xs arbitrary: w) (simp_all add: assms)

end
