(* ===== verification/Synth.thy ===== *)
theory Synth
  imports ModelApi WaveWriter
begin

section \<open>The synthesizer: output shaping and sentence streams\<close>

text \<open>
  \<^verbatim>\<open>crates/dengjen/synth/src/lib.rs\<close> and \<^verbatim>\<open>utils.rs\<close>: percentages, the post-processing of raw
  samples, and the lazy, parallel and batched streams of one request. The Sonic time stretcher is a
  third-party crate and is a \<open>sonic\<close> argument; \<^verbatim>\<open>f32::sin\<close> is the argument \<open>sin32\<close>. A rayon
  \<^verbatim>\<open>collect\<close> keeps the order of its input, so a parallel map is \<open>map\<close>. The shared pool is a
  once-cell whose stored result is the argument \<open>pool\<close>. The locale \<open>audio_stream\<close> is the contract
  of an iterator, interpreted on the three streams of the code.
\<close>

subsection \<open>Percentages\<close>

definition percent_to_param :: "nat \<Rightarrow> f32 \<Rightarrow> f32 \<Rightarrow> f32" where
  "percent_to_param v lo hi =
     f_add lo (f_mul (f_div (f_of_nat (min v 100)) (f_lit 100)) (f_sub hi lo))"

text \<open>\<^verbatim>\<open>f32::round\<close>: half away from zero; the cast to \<^verbatim>\<open>u8\<close> saturates and maps NaN to 0.\<close>

definition round_half_away :: "rat \<Rightarrow> int" where
  "round_half_away r = (if r < 0 then - \<lfloor>- r + 1 / 2\<rfloor> else \<lfloor>r + 1 / 2\<rfloor>)"

fun f_round_to_u8 :: "f32 \<Rightarrow> nat" where
  "f_round_to_u8 (F_NaN s) = 0"
| "f_round_to_u8 (F_Inf s) = (if s then 0 else 255)"
| "f_round_to_u8 (F_Fin s m) = nat (max 0 (min 255 (round_half_away (if s then - m else m))))"

definition param_to_percent :: "f32 \<Rightarrow> f32 \<Rightarrow> f32 \<Rightarrow> nat" where
  "param_to_percent v lo hi =
     f_round_to_u8 (f_mul (f_div (f_sub v lo) (f_sub hi lo)) (f_lit 100))"

record param_range =
  range_min :: f32
  range_max :: f32

definition SPEED_PARAM_RANGE :: param_range where
  "SPEED_PARAM_RANGE = \<lparr>range_min = f_lit (1 / 2), range_max = f_lit (11 / 2)\<rparr>"
definition VOLUME_PARAM_RANGE :: param_range where
  "VOLUME_PARAM_RANGE = \<lparr>range_min = f_lit 0, range_max = f_lit 1\<rparr>"
definition PITCH_PARAM_RANGE :: param_range where
  "PITCH_PARAM_RANGE = \<lparr>range_min = f_lit (1 / 2), range_max = f_lit (3 / 2)\<rparr>"

definition TRAILING_SILENCE_THRESHOLD :: f32 where
  "TRAILING_SILENCE_THRESHOLD = f_lit (15 / 1000)"
definition TAIL_FADE_MS :: nat where "TAIL_FADE_MS = 5"
definition MAX_APPENDED_SILENCE_MS :: nat where "MAX_APPENDED_SILENCE_MS = 60000"
definition MAX_SILENCE_SAMPLES :: nat where "MAX_SILENCE_SAMPLES = 64 * 1024 * 1024"

subsection \<open>The thread pool\<close>

text \<open>\<^verbatim>\<open>OnceLock::get_or_init\<close> of the pool or of its construction error.\<close>

definition synthesis_thread_pool ::
  "(str + unit) \<Rightarrow> (str + unit) option \<Rightarrow> (str + unit) option \<times> unit dengjen_result" where
  "synthesis_thread_pool built cell =
     (case (case cell of Some r \<Rightarrow> r | None \<Rightarrow> built) of
        Inl why \<Rightarrow> (Some (Inl why), Inl (OperationError why))
      | Inr _ \<Rightarrow> (Some (Inr ()), Inr ()))"

definition default_batch_size :: "nat option \<Rightarrow> nat" where
  "default_batch_size available_parallelism = min (unwrap_or 1 available_parallelism) 4"

lemma pool_is_stable:
  "synthesis_thread_pool b cell = (cell', r) \<Longrightarrow> synthesis_thread_pool b' cell' = (cell', r)"
  by (auto simp: synthesis_thread_pool_def split: sum.splits option.splits)

subsection \<open>Output configuration\<close>

record 's sonic =
  sonic_new :: "nat \<Rightarrow> nat \<Rightarrow> str + 's"
  sonic_set_speed :: "f32 \<Rightarrow> 's \<Rightarrow> 's"
  sonic_set_volume :: "f32 \<Rightarrow> 's \<Rightarrow> 's"
  sonic_set_pitch :: "f32 \<Rightarrow> 's \<Rightarrow> 's"
  sonic_write :: "samples \<Rightarrow> 's \<Rightarrow> 's"
  sonic_flush :: "'s \<Rightarrow> 's"
  sonic_available :: "'s \<Rightarrow> nat"
  sonic_read :: "nat \<Rightarrow> 's \<Rightarrow> samples"

record audio_output_config =
  rate :: "nat option"
  volume :: "nat option"
  pitch :: "nat option"
  appended_silence_ms :: "nat option"

definition sonic_error :: "str \<Rightarrow> dengjen_error" where
  "sonic_error what = OperationError (lit ''Sonic Error: '' @ what)"

definition i32_max :: nat where "i32_max = 2147483647"

definition new_sonic_stream :: "'s sonic \<Rightarrow> int \<Rightarrow> int \<Rightarrow> 's dengjen_result" where
  "new_sonic_stream sn srate channels =
     (if srate < 0 then Inl (sonic_error (lit ''sample rate is out of range''))
      else if channels < 0 then Inl (sonic_error (lit ''channel count is out of range''))
      else res_map_err sonic_error (sonic_new sn (nat srate) (nat channels)))"

definition sonic_stream_dimensions :: "nat \<Rightarrow> nat \<Rightarrow> nat \<Rightarrow> (int \<times> int \<times> int) dengjen_result" where
  "sonic_stream_dimensions sample_len srate channels =
     (if channels = 0 then Inl (sonic_error (lit ''audio has zero channels''))
      else if i32_max < srate then Inl (sonic_error (lit ''sample rate is out of range''))
      else if i32_max < channels then Inl (sonic_error (lit ''channel count is out of range''))
      else if i32_max < sample_len div channels
      then Inl (sonic_error (lit ''frame count is out of range''))
      else Inr (int srate, int channels, int (sample_len div channels)))"

definition set_when :: "nat option \<Rightarrow> (f32 \<Rightarrow> 's \<Rightarrow> 's) \<Rightarrow> param_range \<Rightarrow> 's \<Rightarrow> 's" where
  "set_when pct setter pr s =
     (case pct of
        None \<Rightarrow> s
      | Some p \<Rightarrow> setter (percent_to_param p (range_min pr) (range_max pr)) s)"

definition configure_sonic :: "'s sonic \<Rightarrow> audio_output_config \<Rightarrow> 's \<Rightarrow> 's" where
  "configure_sonic sn cfg s =
     set_when (pitch cfg) (sonic_set_pitch sn) PITCH_PARAM_RANGE
       (set_when (if volume cfg = Some 0 then None else volume cfg)
          (sonic_set_volume sn) VOLUME_PARAM_RANGE
          (set_when (rate cfg) (sonic_set_speed sn) SPEED_PARAM_RANGE s))"

definition apply_to_raw_samples ::
  "'s sonic \<Rightarrow> audio_output_config \<Rightarrow> samples \<Rightarrow> nat \<Rightarrow> nat \<Rightarrow> samples dengjen_result" where
  "apply_to_raw_samples sn cfg xs srate channels =
     (if xs = [] then Inr xs
      else res_bind (sonic_stream_dimensions (length xs) srate channels) (\<lambda>(r, c, _).
           res_bind (new_sonic_stream sn r c) (\<lambda>s0.
             (case sonic_flush sn (sonic_write sn xs (configure_sonic sn cfg s0)) of s \<Rightarrow>
                if sonic_available sn s = 0
                then Inl (sonic_error (lit ''failed to apply audio config. Invalid parameter value for rate, volume, or pitch''))
                else Inr (if volume cfg = Some 0
                          then map (\<lambda>_. f_lit 0) (sonic_read sn (sonic_available sn s) s)
                          else sonic_read sn (sonic_available sn s) s)))))"

definition silence_sample_count :: "nat \<Rightarrow> nat \<Rightarrow> nat \<Rightarrow> nat option" where
  "silence_sample_count time_ms srate channels =
     (case usize_checked_mul time_ms srate of
        None \<Rightarrow> None
      | Some n \<Rightarrow>
          (case usize_checked_mul n channels of
             None \<Rightarrow> None
           | Some k \<Rightarrow> if k div 1000 \<le> MAX_SILENCE_SAMPLES then Some (k div 1000) else None))"

definition generate_silence ::
  "'s sonic \<Rightarrow> audio_output_config \<Rightarrow> nat \<Rightarrow> nat \<Rightarrow> nat \<Rightarrow> samples dengjen_result" where
  "generate_silence sn cfg time_ms srate channels =
     (if MAX_APPENDED_SILENCE_MS < time_ms
      then Inl (InvalidConfiguration (lit ''appended_silence_ms '' @ show_nat time_ms
                @ lit '' exceeds the maximum of '' @ show_nat MAX_APPENDED_SILENCE_MS))
      else case silence_sample_count time_ms srate channels of
        None \<Rightarrow> Inl (InvalidConfiguration (lit ''appended silence exceeds the maximum sample budget''))
      | Some n \<Rightarrow> apply_to_raw_samples sn cfg (replicate n (f_lit 0)) srate channels)"

definition apply_config :: "'s sonic \<Rightarrow> audio_output_config \<Rightarrow> audio \<Rightarrow> audio dengjen_result" where
  "apply_config sn cfg a =
     res_bind (apply_to_raw_samples sn cfg (samples a) (sample_rate (info a)) (num_channels (info a)))
       (\<lambda>processed.
          case appended_silence_ms cfg of
            None \<Rightarrow> Inr (a\<lparr>samples := processed\<rparr>)
          | Some ms \<Rightarrow>
              res_map (\<lambda>silence. a\<lparr>samples := merge_samples processed silence\<rparr>)
                (generate_silence sn cfg ms (sample_rate (info a)) (num_channels (info a))))"

subsection \<open>One request\<close>

record 's task_provider =
  model :: dengjen_model
  text_input :: str
  output_config :: "audio_output_config option"
  sonic_port :: "'s sonic"
  sin32 :: "f32 \<Rightarrow> f32"

definition get_phonemes :: "'s task_provider \<Rightarrow> str list dengjen_result" where
  "get_phonemes p = phonemize_text (model p) (text_input p)"

definition tail_fade_samples :: "audio_info \<Rightarrow> nat" where
  "tail_fade_samples i =
     usize_wrap (usize_wrap (sample_rate i * TAIL_FADE_MS) div 1000 * num_channels i)"

definition shape_tail :: "(f32 \<Rightarrow> f32) \<Rightarrow> audio \<Rightarrow> audio" where
  "shape_tail sn a =
     a\<lparr>samples := fade_out sn
         (trim_trailing_silence (samples a) TRAILING_SILENCE_THRESHOLD (num_channels (info a)))
         (tail_fade_samples (info a))\<rparr>"

definition shape_output :: "'s task_provider \<Rightarrow> audio \<Rightarrow> audio dengjen_result" where
  "shape_output p a =
     (case output_config p of
        Some cfg \<Rightarrow> apply_config (sonic_port p) cfg (shape_tail (sin32 p) a)
      | None \<Rightarrow> Inr (shape_tail (sin32 p) a))"

definition process_one_sentence :: "'s task_provider \<Rightarrow> str \<Rightarrow> audio dengjen_result" where
  "process_one_sentence p sentence =
     res_bind (speak_one_sentence (model p) sentence) (shape_output p)"

definition process_batches :: "'s task_provider \<Rightarrow> str list \<Rightarrow> audio list dengjen_result" where
  "process_batches p sentences =
     res_bind (speak_batch (model p) sentences) (collect_map (shape_output p))"

subsection \<open>The iterator contract\<close>

text \<open>
  \<^verbatim>\<open>Iterator::next\<close> of a stream yields an item and the stream left, or ends. \<open>drain\<close> takes up
  to \<open>n\<close> items; \<open>try_collect\<close> is the loop \<^verbatim>\<open>for chunk in stream { out.extend(chunk?) }\<close>.
\<close>

fun drain :: "('s \<Rightarrow> ('x \<times> 's) option) \<Rightarrow> nat \<Rightarrow> 's \<Rightarrow> 'x list" where
  "drain next 0 s = []"
| "drain next (Suc n) s =
     (case next s of None \<Rightarrow> [] | Some (x, s') \<Rightarrow> x # drain next n s')"

fun try_collect :: "('s \<Rightarrow> (('e + 'a) \<times> 's) option) \<Rightarrow> nat \<Rightarrow> 's \<Rightarrow> 'e + 'a list" where
  "try_collect next 0 s = Inr []"
| "try_collect next (Suc n) s =
     (case next s of
        None \<Rightarrow> Inr []
      | Some (Inl e, s') \<Rightarrow> Inl e
      | Some (Inr x, s') \<Rightarrow> res_map (\<lambda>xs. x # xs) (try_collect next n s'))"

locale audio_stream =
  fixes next_item :: "'s \<Rightarrow> ('x \<times> 's) option"
    and remaining :: "'s \<Rightarrow> 'x list"
    and stream_inv :: "'s \<Rightarrow> bool"
  assumes ends: "stream_inv s \<Longrightarrow> next_item s = None \<Longrightarrow> remaining s = []"
    and yields: "stream_inv s \<Longrightarrow> next_item s = Some (x, s') \<Longrightarrow>
        remaining s = x # remaining s' \<and> stream_inv s'"
begin

lemma drain_take: "stream_inv s \<Longrightarrow> drain next_item n s = take n (remaining s)"
proof (induction n arbitrary: s)
  case (Suc n)
  show ?case
  proof (cases "next_item s")
    case None
    with Suc.prems ends show ?thesis by simp
  next
    case (Some p)
    obtain x s' where p: "p = (x, s')" by (cases p)
    with Some Suc.prems yields have "remaining s = x # remaining s'" "stream_inv s'" by auto
    with Some p Suc.IH show ?thesis by simp
  qed
qed simp

lemma drain_all: "stream_inv s \<Longrightarrow> length (remaining s) \<le> n \<Longrightarrow> drain next_item n s = remaining s"
  by (simp add: drain_take)

end

text \<open>A stream of results, consumed up to its first error.\<close>

locale result_stream = audio_stream next_item remaining stream_inv
  for next_item :: "'s \<Rightarrow> (('e + 'a) \<times> 's) option" and remaining stream_inv
begin

lemma try_collect_take:
  "stream_inv s \<Longrightarrow> try_collect next_item n s = collect_map id (take n (remaining s))"
proof (induction n arbitrary: s)
  case (Suc n)
  show ?case
  proof (cases "next_item s")
    case None
    with Suc.prems ends show ?thesis by simp
  next
    case (Some p)
    obtain x s' where p: "p = (x, s')" by (cases p)
    with Some Suc.prems yields have "remaining s = x # remaining s'" "stream_inv s'" by auto
    with Some p Suc.IH [of s'] show ?thesis
      by (cases x) (auto simp: res_map_def split: sum.splits)
  qed
qed simp

lemma try_collect_all:
  "stream_inv s \<Longrightarrow> length (remaining s) \<le> n \<Longrightarrow>
     try_collect next_item n s = collect_map id (remaining s)"
  by (simp add: try_collect_take)

end

subsection \<open>The lazy stream\<close>

record 's lazy_stream =
  lz_provider :: "'s task_provider"
  pending_sentences :: "str list"
  lz_next_chunk_index :: nat

definition lazy_new :: "'s task_provider \<Rightarrow> 's lazy_stream dengjen_result" where
  "lazy_new p =
     res_map (\<lambda>ss. \<lparr>lz_provider = p, pending_sentences = ss, lz_next_chunk_index = 0\<rparr>)
       (get_phonemes p)"

definition lazy_next :: "'s lazy_stream \<Rightarrow> (audio dengjen_result \<times> 's lazy_stream) option" where
  "lazy_next s =
     (case pending_sentences s of
        [] \<Rightarrow> None
      | sentence # rest \<Rightarrow>
          Some (process_one_sentence (lz_provider s) sentence,
                s\<lparr>pending_sentences := rest, lz_next_chunk_index := Suc (lz_next_chunk_index s)\<rparr>))"

definition lazy_remaining :: "'s lazy_stream \<Rightarrow> audio dengjen_result list" where
  "lazy_remaining s = map (process_one_sentence (lz_provider s)) (pending_sentences s)"

subsection \<open>The parallel stream\<close>

record parallel_stream =
  finished :: "audio dengjen_result list"

definition parallel_new ::
  "unit dengjen_result \<Rightarrow> 's task_provider \<Rightarrow> parallel_stream dengjen_result" where
  "parallel_new pool p =
     res_bind (get_phonemes p) (\<lambda>sentences.
       res_map (\<lambda>_. \<lparr>finished = map (process_one_sentence p) sentences\<rparr>) pool)"

definition parallel_next ::
  "parallel_stream \<Rightarrow> (audio dengjen_result \<times> parallel_stream) option" where
  "parallel_next s = (case finished s of [] \<Rightarrow> None | x # xs \<Rightarrow> Some (x, s\<lparr>finished := xs\<rparr>))"

subsection \<open>The batched stream\<close>

record 's batched_stream =
  bt_provider :: "'s task_provider"
  bt_pending :: "str list"
  batch_size :: nat
  buffered :: "audio dengjen_result list"
  bt_next_chunk_index :: nat

definition batched_new :: "'s task_provider \<Rightarrow> nat \<Rightarrow> 's batched_stream dengjen_result" where
  "batched_new p n =
     res_map (\<lambda>ss. \<lparr>bt_provider = p, bt_pending = ss, batch_size = n, buffered = [],
                    bt_next_chunk_index = 0\<rparr>)
       (get_phonemes p)"

definition compute_next_group ::
  "unit dengjen_result \<Rightarrow> 's batched_stream \<Rightarrow>
     (audio dengjen_result list \<times> 's batched_stream) option" where
  "compute_next_group pool s =
     (case take (batch_size s) (bt_pending s) of grp \<Rightarrow>
        if grp = [] then None
        else (case pool of
            Inr _ \<Rightarrow> Some (map (process_one_sentence (bt_provider s)) grp,
                s\<lparr>bt_pending := drop (batch_size s) (bt_pending s),
                  bt_next_chunk_index := bt_next_chunk_index s + length grp\<rparr>)
          | Inl e \<Rightarrow> Some ([Inl e],
                s\<lparr>bt_pending := [], bt_next_chunk_index := bt_next_chunk_index s + length grp\<rparr>)))"

definition batched_next ::
  "unit dengjen_result \<Rightarrow> 's batched_stream \<Rightarrow>
     (audio dengjen_result \<times> 's batched_stream) option" where
  "batched_next pool s =
     (case buffered s of
        x # xs \<Rightarrow> Some (x, s\<lparr>buffered := xs\<rparr>)
      | [] \<Rightarrow>
          (case compute_next_group pool s of
             None \<Rightarrow> None
           | Some (grp, s') \<Rightarrow>
               (case grp of
                  [] \<Rightarrow> None
                | x # xs \<Rightarrow> Some (x, s'\<lparr>buffered := xs\<rparr>))))"

definition batched_remaining ::
  "unit dengjen_result \<Rightarrow> 's batched_stream \<Rightarrow> audio dengjen_result list" where
  "batched_remaining pool s =
     buffered s @
     (if bt_pending s = [] then []
      else case pool of
        Inl e \<Rightarrow> [Inl e]
      | Inr _ \<Rightarrow> map (process_one_sentence (bt_provider s)) (bt_pending s))"

interpretation lazy: result_stream lazy_next lazy_remaining "\<lambda>_. True"
  by unfold_locales (auto simp: lazy_next_def lazy_remaining_def split: list.splits)

interpretation parallel: result_stream parallel_next finished "\<lambda>_. True"
  by unfold_locales (auto simp: parallel_next_def split: list.splits)

lemma batched_yields:
  assumes "0 < batch_size s" "batched_next pool s = Some (x, s')"
  shows "batched_remaining pool s = x # batched_remaining pool s' \<and> 0 < batch_size s'"
proof (cases "buffered s")
  case Cons
  with assms show ?thesis
    by (auto simp: batched_next_def batched_remaining_def split: sum.splits)
next
  case Nil
  show ?thesis
  proof (cases pool)
    case Inl
    with Nil assms show ?thesis
      by (auto simp: batched_next_def batched_remaining_def compute_next_group_def split: if_splits)
  next
    case (Inr u)
    obtain n where n: "batch_size s = Suc n" using assms(1) by (cases "batch_size s") auto
    obtain y ys where ys: "bt_pending s = y # ys"
      using assms Nil Inr n
      by (cases "bt_pending s") (auto simp: batched_next_def compute_next_group_def)
    have "map f ys = map f (take n ys) @ map f (drop n ys)" for f :: "str \<Rightarrow> audio dengjen_result"
      by (simp flip: map_append)
    with Nil Inr n ys assms show ?thesis
      by (auto simp: batched_next_def batched_remaining_def compute_next_group_def)
  qed
qed

interpretation batched: result_stream "batched_next pool" "batched_remaining pool" "\<lambda>s. 0 < batch_size s"
proof
  fix s :: "'a batched_stream"
  assume "0 < batch_size s" "batched_next pool s = None"
  then show "batched_remaining pool s = []"
    by (cases "bt_pending s"; cases "batch_size s"; cases pool)
       (auto simp: batched_next_def batched_remaining_def compute_next_group_def split: list.splits)
next
  fix s :: "'a batched_stream" and x s'
  assume "0 < batch_size s" "batched_next pool s = Some (x, s')"
  then show "batched_remaining pool s = x # batched_remaining pool s' \<and> 0 < batch_size s'"
    by (rule batched_yields)
qed

subsection \<open>The three modes agree\<close>

text \<open>The items a stream yields when it is drained, or the error of building it.\<close>

definition lazy_items :: "nat \<Rightarrow> 's task_provider \<Rightarrow> audio dengjen_result list dengjen_result" where
  "lazy_items n p = res_map (drain lazy_next n) (lazy_new p)"

definition parallel_items ::
  "unit dengjen_result \<Rightarrow> nat \<Rightarrow> 's task_provider \<Rightarrow> audio dengjen_result list dengjen_result" where
  "parallel_items pool n p = res_map (drain parallel_next n) (parallel_new pool p)"

definition batched_items ::
  "unit dengjen_result \<Rightarrow> nat \<Rightarrow> nat \<Rightarrow> 's task_provider
     \<Rightarrow> audio dengjen_result list dengjen_result" where
  "batched_items pool bsize n p = res_map (drain (batched_next pool) n) (batched_new p bsize)"

lemma lazy_items_eq:
  "lazy_items n p = res_map (\<lambda>ss. take n (map (process_one_sentence p) ss)) (get_phonemes p)"
  by (cases "get_phonemes p")
     (simp_all add: lazy_items_def lazy_new_def lazy.drain_take lazy_remaining_def)

lemma parallel_items_eq:
  "parallel_items (Inr ()) n p =
     res_map (\<lambda>ss. take n (map (process_one_sentence p) ss)) (get_phonemes p)"
  by (cases "get_phonemes p") (simp_all add: parallel_items_def parallel_new_def parallel.drain_take)

lemma batched_items_eq:
  "0 < bsize \<Longrightarrow> batched_items (Inr ()) bsize n p =
     res_map (\<lambda>ss. take n (map (process_one_sentence p) ss)) (get_phonemes p)"
  by (cases "get_phonemes p")
     (simp_all add: batched_items_def batched_new_def batched.drain_take batched_remaining_def)

text \<open>
  \<^bold>\<open>C15\<close>: whichever of the lazy, parallel and batched modes a client picks, and whatever the
  batch size, it sees the same audio and the same errors in the order of the sentences, and the
  same error when the text cannot be phonemized. One item per sentence comes out, and a failed
  sentence does not hide the ones after it.
\<close>

theorem modes_agree:
  assumes "0 < bsize"
  shows "parallel_items (Inr ()) n p = lazy_items n p \<and>
         batched_items (Inr ()) bsize n p = lazy_items n p \<and>
         lazy_items n p = res_map (\<lambda>ss. take n (map (process_one_sentence p) ss)) (get_phonemes p)"
  using assms by (simp add: lazy_items_eq parallel_items_eq batched_items_eq)

definition silent_sonic :: "nat sonic" where
  "silent_sonic =
     \<lparr>sonic_new = (\<lambda>r c. Inr 0), sonic_set_speed = (\<lambda>_ s. s), sonic_set_volume = (\<lambda>_ s. s),
      sonic_set_pitch = (\<lambda>_ s. s), sonic_write = (\<lambda>xs s. s + length xs), sonic_flush = (\<lambda>s. s),
      sonic_available = (\<lambda>s. s), sonic_read = (\<lambda>n s. replicate n (f_lit 0))\<rparr>"

definition two_sentence_provider :: "nat task_provider" where
  "two_sentence_provider =
     \<lparr>model = two_speaker_model\<lparr>phonemize_text := \<lambda>t. Inr [t, t, t]\<rparr>, text_input = lit ''hi'',
      output_config = None, sonic_port = silent_sonic, sin32 = (\<lambda>x. x)\<rparr>"

theorem modes_agree_witness:
  "batched_items (Inr ()) 2 5 two_sentence_provider = lazy_items 5 two_sentence_provider \<and>
   lazy_items 5 two_sentence_provider
     = Inr (replicate 3 (process_one_sentence two_sentence_provider (lit ''hi'')))"
  using modes_agree [of 2 5 two_sentence_provider]
  by (simp add: get_phonemes_def two_sentence_provider_def numeral_eq_Suc)

subsection \<open>Percentages stay in range\<close>

lemma percent_fraction_mono:
  assumes "a \<le> b"
  shows "f_le (f_div (f_of_nat (min a 100)) (f_lit 100)) (f_div (f_of_nat (min b 100)) (f_lit 100))"
proof -
  have "f_of_nat (min a 100) = F_Fin False (of_nat (min a 100))"
       "f_of_nat (min b 100) = F_Fin False (of_nat (min b 100))"
    by (rule f_of_nat_exact, simp)+
  moreover have "f_lit 100 = F_Fin False 100" by (simp add: f_lit_numeral)
  moreover have "(of_nat (min a 100) :: rat) \<le> of_nat (min b 100)"
    using assms by (simp only: of_nat_le_iff)
  ultimately show ?thesis by (simp only: f_div_mono f_le.simps simp_thms if_False zero_less_numeral of_nat_0_le_iff)
qed

lemma percent_fraction_wf: "f_wf (f_div (f_of_nat (min a 100)) (f_lit 100))"
proof -
  have "f_of_nat (min a 100) = F_Fin False (of_nat (min a 100))"
    by (rule f_of_nat_exact) simp
  moreover have "f_lit 100 = F_Fin False 100" by (simp add: f_lit_numeral)
  moreover have "0 \<le> (of_nat (min a 100) / 100 :: rat)" by simp
  ultimately show ?thesis by (simp only: f_div.simps mk_f32_wf) simp
qed

lemma percent_to_param_mono:
  assumes "a \<le> b" "f_sub hi lo = F_Fin False k" "0 < k" "is_finite lo"
  shows "f_le (percent_to_param a lo hi) (percent_to_param b lo hi)"
  unfolding percent_to_param_def assms(2)
  using assms by (intro f_add_mono f_mul_mono percent_fraction_mono percent_fraction_wf)

lemma percent_capped: "percent_to_param v lo hi = percent_to_param (min v 100) lo hi"
  by (simp add: percent_to_param_def)

lemma mk_f32_exact:
  "mk_f32 s 0 = F_Fin s 0" "mk_f32 s 1 = F_Fin s 1" "mk_f32 s 5 = F_Fin s 5"
  "mk_f32 s (1 / 2) = F_Fin s (1 / 2)" "mk_f32 s (3 / 2) = F_Fin s (3 / 2)"
  "mk_f32 s (11 / 2) = F_Fin s (11 / 2)"
  using mk_f32_dyadic [of 0 0 s] mk_f32_dyadic [of 1 0 s] mk_f32_dyadic [of 5 0 s]
    mk_f32_dyadic [of 1 1 s] mk_f32_dyadic [of 3 1 s] mk_f32_dyadic [of 11 1 s]
  by simp_all

lemmas range_consts = SPEED_PARAM_RANGE_def VOLUME_PARAM_RANGE_def PITCH_PARAM_RANGE_def

lemma f_lit_halves:
  "f_lit (1 / 2) = F_Fin False (1 / 2)" "f_lit (3 / 2) = F_Fin False (3 / 2)"
  "f_lit (11 / 2) = F_Fin False (11 / 2)"
  by (simp_all add: f_lit_def mk_f32_exact)

lemma percent_ends:
  assumes "r = SPEED_PARAM_RANGE \<or> r = VOLUME_PARAM_RANGE \<or> r = PITCH_PARAM_RANGE"
  shows "f_le (range_min r) (percent_to_param 0 (range_min r) (range_max r))"
    and "f_le (percent_to_param 100 (range_min r) (range_max r)) (range_max r)"
    and "\<exists>k > 0. f_sub (range_max r) (range_min r) = F_Fin False k"
    and "is_finite (range_min r)"
  using assms
  by (auto simp: percent_to_param_def range_consts f_sub_def f_lit_halves mk_f32_exact f_lit_numeral)

text \<open>
  The speed, volume and pitch percentages of a request, whatever byte they are, give
  a parameter inside the range of the time stretcher, and a larger percentage never gives a smaller
  parameter, rounding included.
\<close>

theorem percent_in_range:
  assumes "r = SPEED_PARAM_RANGE \<or> r = VOLUME_PARAM_RANGE \<or> r = PITCH_PARAM_RANGE" "a \<le> b"
  shows "f_le (range_min r) (percent_to_param a (range_min r) (range_max r)) \<and>
         f_le (percent_to_param a (range_min r) (range_max r))
              (percent_to_param b (range_min r) (range_max r)) \<and>
         f_le (percent_to_param b (range_min r) (range_max r)) (range_max r)"
proof -
  from percent_ends [OF assms(1)] obtain k
    where k: "f_sub (range_max r) (range_min r) = F_Fin False k" "0 < k" by auto
  note mono = percent_to_param_mono [OF _ k percent_ends(4) [OF assms(1)]]
  have "f_le (percent_to_param b (range_min r) (range_max r))
             (percent_to_param 100 (range_min r) (range_max r))"
    by (subst percent_capped) (rule mono, simp)
  with percent_ends [OF assms(1)] mono [OF assms(2)] mono [of 0 a] show ?thesis
    by (auto intro: f_le_trans)
qed

theorem percent_in_range_witness:
  "f_le (f_lit (1 / 2)) (percent_to_param 37 (f_lit (1 / 2)) (f_lit (11 / 2))) \<and>
   f_le (percent_to_param 255 (f_lit (1 / 2)) (f_lit (11 / 2))) (f_lit (11 / 2))"
  using percent_in_range [of SPEED_PARAM_RANGE 37 255] by (simp add: SPEED_PARAM_RANGE_def)

subsection \<open>Silence and shaping\<close>

lemma dimensions_ok:
  "sonic_stream_dimensions len srate channels = Inr (r, c, f) \<Longrightarrow>
     0 < channels \<and> r = int srate \<and> c = int channels \<and> f = int (len div channels) \<and>
     srate \<le> i32_max \<and> channels \<le> i32_max \<and> len div channels \<le> i32_max"
  by (auto simp: sonic_stream_dimensions_def split: if_splits)

text \<open>
  Appended silence is bounded: an accepted request for silence asks the time stretcher for at
  most \<^verbatim>\<open>MAX_SILENCE_SAMPLES\<close> zero samples, and the product that counts them does not overflow.
\<close>

lemma silence_budget:
  assumes "generate_silence sn cfg ms srate channels = Inr xs"
  shows "ms \<le> MAX_APPENDED_SILENCE_MS \<and> ms * srate * channels \<le> usize_max \<and>
         ms * srate * channels div 1000 \<le> MAX_SILENCE_SAMPLES"
  using assms
  by (auto simp: generate_silence_def silence_sample_count_def usize_checked_mul_def
      split: if_splits option.splits)

text \<open>A muted request is silent whatever the time stretcher returns.\<close>

lemma muted_output:
  assumes "volume cfg = Some 0" "apply_to_raw_samples sn cfg xs srate channels = Inr ys" "xs \<noteq> []"
  shows "set ys \<subseteq> {f_lit 0}"
  using assms by (auto simp: apply_to_raw_samples_def res_conv split: if_splits)

text \<open>The stretcher sees only in-range parameters, set in the order speed, volume, pitch.\<close>

lemma configure_sonic_unset:
  "rate cfg = None \<Longrightarrow> pitch cfg = None \<Longrightarrow> volume cfg \<in> {None, Some 0} \<Longrightarrow>
     configure_sonic sn cfg s = s"
  by (auto simp: configure_sonic_def set_when_def)

end
