(* ===== verification/Realtime.thy ===== *)
theory Realtime
  imports Synth
begin

section \<open>The realtime stream: a producer, a channel and a cancellable consumer\<close>

text \<open>
  \<^verbatim>\<open>RealtimeSpeechStream\<close> of \<^verbatim>\<open>crates/dengjen/synth/src/lib.rs\<close> and \<^verbatim>\<open>CancellationToken\<close> of
  \<^verbatim>\<open>crates/core/src/cancellation.rs\<close>. The worker on the pool, the unbounded channel, the consumer
  that calls \<^verbatim>\<open>next\<close> and whoever holds a clone of the token run concurrently: \<open>rt_step\<close> is
  one atomic step of one of them. A backend's chunk stream is the items it yields, possibly cut
  short by a panic. The invariant relates what was received, what is queued and what the worker
  still has to send to a sequential specification of the whole request.
\<close>

subsection \<open>Chunk sizes\<close>

definition MAX_STREAM_CHUNK_SIZE :: nat where "MAX_STREAM_CHUNK_SIZE = 1000000"

definition next_chunk_size :: "nat \<Rightarrow> nat \<Rightarrow> nat" where
  "next_chunk_size base_chunk_size sentences_seen =
     min (usize_sat_add base_chunk_size (usize_sat_mul base_chunk_size (min sentences_seen 4)))
         MAX_STREAM_CHUNK_SIZE"

text \<open>
  The chunk size of the n-th sentence is the base size times one more than n, at
  most five, capped at a million and computed without overflow. It never shrinks from one sentence
  to the next, and is positive when the base is.
\<close>

theorem next_chunk_size_growth:
  assumes "base \<le> usize_max"
  shows "next_chunk_size base n = min (base * (1 + min n 4)) MAX_STREAM_CHUNK_SIZE \<and>
         next_chunk_size base n \<le> next_chunk_size base (Suc n) \<and>
         (0 < base \<longrightarrow> 0 < next_chunk_size base n)"
proof -
  have eq: "next_chunk_size base m = min (base * (1 + min m 4)) MAX_STREAM_CHUNK_SIZE" for m
    by (simp add: next_chunk_size_def usize_sat_add_def usize_sat_mul_def usize_max_def
        MAX_STREAM_CHUNK_SIZE_def min_def)
  have "base * (1 + min n 4) \<le> base * (1 + min (Suc n) 4)"
    by (intro mult_le_mono2) simp
  then show ?thesis by (auto simp: eq MAX_STREAM_CHUNK_SIZE_def)
qed

theorem next_chunk_size_growth_witness:
  "next_chunk_size 72 2 = 216 \<and> next_chunk_size 72 9 = 360 \<and> next_chunk_size 900000 3 = 1000000 \<and>
   next_chunk_size 72 2 \<le> next_chunk_size 72 3"
  using next_chunk_size_growth [of 72 2] next_chunk_size_growth [of 72 9]
    next_chunk_size_growth [of 900000 3]
  by (simp add: usize_max_def MAX_STREAM_CHUNK_SIZE_def)

subsection \<open>The worker\<close>

datatype chunk_source =
    SourceErr dengjen_error
  | SourcePanic str
  | SourceItems "samples dengjen_result list" "str option"

record rt_request =
  rt_source :: "str \<Rightarrow> nat \<Rightarrow> nat \<Rightarrow> chunk_source"
  rt_shape :: "samples \<Rightarrow> samples dengjen_result"
  rt_silence :: "samples dengjen_result option"
  rt_chunk_size :: nat
  rt_chunk_padding :: nat

text \<open>What \<^verbatim>\<open>process_rt_stream\<close> applies, from an output configuration.\<close>

definition rt_request_of ::
  "'s sonic \<Rightarrow> audio_output_config option \<Rightarrow> (str \<Rightarrow> nat \<Rightarrow> nat \<Rightarrow> chunk_source) \<Rightarrow>
     nat \<Rightarrow> nat \<Rightarrow> nat \<Rightarrow> nat \<Rightarrow> rt_request" where
  "rt_request_of sn cfg source chunk_size chunk_padding srate channels =
     \<lparr>rt_source = source,
      rt_shape = (\<lambda>xs. case cfg of None \<Rightarrow> Inr xs
                   | Some c \<Rightarrow> apply_to_raw_samples sn c xs srate channels),
      rt_silence = (case cfg of None \<Rightarrow> None
                   | Some c \<Rightarrow> (case appended_silence_ms c of None \<Rightarrow> None
                       | Some ms \<Rightarrow> Some (generate_silence sn c ms srate channels))),
      rt_chunk_size = chunk_size, rt_chunk_padding = chunk_padding\<rparr>"

definition shape_chunk :: "rt_request \<Rightarrow> samples dengjen_result \<Rightarrow> samples dengjen_result" where
  "shape_chunk rq chunk = res_bind chunk (rt_shape rq)"

definition panic_error :: "str \<Rightarrow> dengjen_error" where
  "panic_error msg = InferenceError (lit ''synthesis worker panicked: '' @ msg)"

definition open_sentence :: "rt_request \<Rightarrow> nat \<Rightarrow> str \<Rightarrow> chunk_source" where
  "open_sentence rq i phonemes =
     rt_source rq phonemes (next_chunk_size (rt_chunk_size rq) i) (rt_chunk_padding rq)"

text \<open>
  The points at which the worker stands between two atomic actions. It reads the token in one action
  and opens a sentence or sends an item in a later one, so the token may be set in between:
  \<open>OpenSentence\<close> and \<open>Sending\<close> are the points past the check.
\<close>

datatype worker =
    AtSentence nat "str list"
  | OpenSentence nat str "str list"
  | InChunks "samples dengjen_result list" "str option" nat "str list"
  | AfterChunks nat "str list"
  | Sending "samples dengjen_result" worker
  | WorkerDone

text \<open>\<open>in_next\<close>: a call of \<^verbatim>\<open>next\<close> has found the token not cancelled and has not returned yet.\<close>

record rt_state =
  worker :: worker
  queue :: "samples dengjen_result list"
  received :: "samples dengjen_result list"
  cancelled :: bool
  receiver_alive :: bool
  in_next :: bool
  stream_ended :: bool

text \<open>\<^verbatim>\<open>tx.send\<close> fails exactly when the receiver is gone; the panic and open errors ignore that.\<close>

definition send_then :: "samples dengjen_result \<Rightarrow> worker \<Rightarrow> rt_state \<Rightarrow> rt_state" where
  "send_then x w s =
     (if receiver_alive s then s\<lparr>queue := queue s @ [x], worker := w\<rparr>
      else s\<lparr>worker := WorkerDone\<rparr>)"

fun worker_step :: "rt_request \<Rightarrow> rt_state \<Rightarrow> worker \<Rightarrow> rt_state" where
  "worker_step rq s (AtSentence i []) = s\<lparr>worker := WorkerDone\<rparr>"
| "worker_step rq s (AtSentence i (p # ps)) =
     s\<lparr>worker := (if cancelled s then WorkerDone else OpenSentence i p ps)\<rparr>"
| "worker_step rq s (OpenSentence i p ps) =
     (case open_sentence rq i p of
        SourceErr e \<Rightarrow> send_then (Inl e) WorkerDone s
      | SourcePanic msg \<Rightarrow> send_then (Inl (panic_error msg)) WorkerDone s
      | SourceItems items panic \<Rightarrow> s\<lparr>worker := InChunks items panic i ps\<rparr>)"
| "worker_step rq s (InChunks [] panic i ps) =
     (case panic of
        Some msg \<Rightarrow> send_then (Inl (panic_error msg)) WorkerDone s
      | None \<Rightarrow> s\<lparr>worker := AfterChunks i ps\<rparr>)"
| "worker_step rq s (InChunks (x # xs) panic i ps) =
     s\<lparr>worker := (if cancelled s then AtSentence (Suc i) ps
                  else Sending (shape_chunk rq x) (InChunks xs panic i ps))\<rparr>"
| "worker_step rq s (AfterChunks i ps) =
     s\<lparr>worker := (if cancelled s then AtSentence (Suc i) ps
                  else case rt_silence rq of
                      None \<Rightarrow> AtSentence (Suc i) ps
                    | Some x \<Rightarrow> Sending x (AtSentence (Suc i) ps))\<rparr>"
| "worker_step rq s (Sending x w) = send_then x w s"
| "worker_step rq s WorkerDone = s"

text \<open>
  The two actions of \<^verbatim>\<open>next\<close>. It looks at the token; then it receives, where None is no answer yet.
\<close>

definition next_begin :: "rt_state \<Rightarrow> rt_state" where
  "next_begin s =
     (if cancelled s then s\<lparr>stream_ended := True\<rparr> else s\<lparr>in_next := True\<rparr>)"

definition next_receive ::
  "rt_state \<Rightarrow> (samples dengjen_result option \<times> rt_state) option" where
  "next_receive s =
     (case queue s of
        x # xs \<Rightarrow> Some (Some x, s\<lparr>queue := xs, received := received s @ [x], in_next := False\<rparr>)
      | [] \<Rightarrow> if worker s = WorkerDone then Some (None, s\<lparr>in_next := False, stream_ended := True\<rparr>)
              else None)"

text \<open>
  One atomic step of the worker, of the consumer, of whoever cancels, or the consumer dropping the
  stream, which it cannot do inside \<^verbatim>\<open>next\<close>. The backend holds the token too: once it is cancelled,
  a chunk stream may end early.
\<close>

inductive rt_step :: "rt_request \<Rightarrow> rt_state \<Rightarrow> rt_state \<Rightarrow> bool" for rq where
  work: "worker s \<noteq> WorkerDone \<Longrightarrow> rt_step rq s (worker_step rq s (worker s))"
| backend_stops: "cancelled s \<Longrightarrow> worker s = InChunks items panic i ps \<Longrightarrow>
    rt_step rq s (s\<lparr>worker := AfterChunks i ps\<rparr>)"
| begins: "receiver_alive s \<Longrightarrow> \<not> in_next s \<Longrightarrow> rt_step rq s (next_begin s)"
| receives: "in_next s \<Longrightarrow> next_receive s = Some (r, s') \<Longrightarrow> rt_step rq s s'"
| cancel: "rt_step rq s (s\<lparr>cancelled := True\<rparr>)"
| hang_up: "\<not> in_next s \<Longrightarrow> rt_step rq s (s\<lparr>receiver_alive := False\<rparr>)"

inductive rt_reach :: "rt_request \<Rightarrow> rt_state \<Rightarrow> rt_state \<Rightarrow> bool" for rq s0 where
  start: "rt_reach rq s0 s0"
| more: "rt_reach rq s0 s \<Longrightarrow> rt_step rq s s' \<Longrightarrow> rt_reach rq s0 s'"

definition rt_init :: "str list \<Rightarrow> rt_state" where
  "rt_init sentences =
     \<lparr>worker = AtSentence 0 sentences, queue = [], received = [], cancelled = False,
      receiver_alive = True, in_next = False, stream_ended = False\<rparr>"

definition rt_new :: "unit dengjen_result \<Rightarrow> 's task_provider \<Rightarrow> rt_state dengjen_result" where
  "rt_new pool p = res_bind (get_phonemes p) (\<lambda>ss. res_map (\<lambda>_. rt_init ss) pool)"

subsection \<open>The sequential specification\<close>

fun rt_spec :: "rt_request \<Rightarrow> nat \<Rightarrow> str list \<Rightarrow> samples dengjen_result list" where
  "rt_spec rq i [] = []"
| "rt_spec rq i (p # ps) =
     (case open_sentence rq i p of
        SourceErr e \<Rightarrow> [Inl e]
      | SourcePanic msg \<Rightarrow> [Inl (panic_error msg)]
      | SourceItems items None \<Rightarrow>
          map (shape_chunk rq) items
          @ (case rt_silence rq of None \<Rightarrow> [] | Some x \<Rightarrow> [x]) @ rt_spec rq (Suc i) ps
      | SourceItems items (Some msg) \<Rightarrow> map (shape_chunk rq) items @ [Inl (panic_error msg)])"

fun worker_todo :: "rt_request \<Rightarrow> worker \<Rightarrow> samples dengjen_result list" where
  "worker_todo rq (AtSentence i ps) = rt_spec rq i ps"
| "worker_todo rq (OpenSentence i p ps) = rt_spec rq i (p # ps)"
| "worker_todo rq (InChunks items None i ps) =
     map (shape_chunk rq) items
     @ (case rt_silence rq of None \<Rightarrow> [] | Some x \<Rightarrow> [x]) @ rt_spec rq (Suc i) ps"
| "worker_todo rq (InChunks items (Some msg) i ps) =
     map (shape_chunk rq) items @ [Inl (panic_error msg)]"
| "worker_todo rq (AfterChunks i ps) =
     (case rt_silence rq of None \<Rightarrow> [] | Some x \<Rightarrow> [x]) @ rt_spec rq (Suc i) ps"
| "worker_todo rq (Sending x w) = x # worker_todo rq w"
| "worker_todo rq WorkerDone = []"

text \<open>
  What the worker will still send whatever happens to the token: the item it has in hand, the error
  of opening a sentence, the report of a panic.
\<close>

fun in_hand :: "rt_request \<Rightarrow> worker \<Rightarrow> samples dengjen_result list" where
  "in_hand rq (OpenSentence i p ps) =
     (case open_sentence rq i p of
        SourceErr e \<Rightarrow> [Inl e]
      | SourcePanic msg \<Rightarrow> [Inl (panic_error msg)]
      | SourceItems [] (Some msg) \<Rightarrow> [Inl (panic_error msg)]
      | SourceItems _ _ \<Rightarrow> [])"
| "in_hand rq (InChunks [] (Some msg) i ps) = [Inl (panic_error msg)]"
| "in_hand rq (Sending x w) = x # in_hand rq w"
| "in_hand rq _ = []"

inductive_cases rt_stepE: "rt_step rq s s'"

text \<open>
  While nobody cancelled and the receiver lives, nothing is lost; afterwards what was received stays
  a prefix of the specification.
\<close>

definition sure_to_come :: "rt_request \<Rightarrow> rt_state \<Rightarrow> samples dengjen_result list" where
  "sure_to_come rq s = queue s @ (if receiver_alive s then in_hand rq (worker s) else [])"

definition rt_inv :: "rt_request \<Rightarrow> samples dengjen_result list \<Rightarrow> rt_state \<Rightarrow> bool" where
  "rt_inv rq whole s \<longleftrightarrow>
     (\<exists>lost. received s @ sure_to_come rq s @ lost = whole) \<and>
     (receiver_alive s \<and> \<not> cancelled s \<longrightarrow> received s @ queue s @ worker_todo rq (worker s) = whole) \<and>
     (stream_ended s \<longrightarrow> cancelled s \<or> queue s = [] \<and> worker s = WorkerDone) \<and>
     (in_next s \<longrightarrow> receiver_alive s)"

lemma worker_todo_Cons [simp]:
  "worker_todo rq (InChunks (x # xs) panic i ps)
     = shape_chunk rq x # worker_todo rq (InChunks xs panic i ps)"
  by (cases panic) simp_all

lemma in_hand_todo: "\<exists>later. worker_todo rq w = in_hand rq w @ later"
proof (induction w)
  case (OpenSentence i p ps)
  show ?case
    by (cases "open_sentence rq i p") (auto split: list.splits option.splits)
next
  case (InChunks items panic i ps)
  show ?case by (cases items; cases panic) auto
qed auto

lemma rt_inv_init: "rt_inv rq (rt_spec rq 0 ss) (rt_init ss)"
  by (simp add: rt_inv_def rt_init_def sure_to_come_def)

lemma worker_step_keeps [simp]:
  "received (worker_step rq s w) = received s" "cancelled (worker_step rq s w) = cancelled s"
  "receiver_alive (worker_step rq s w) = receiver_alive s" "in_next (worker_step rq s w) = in_next s"
  "stream_ended (worker_step rq s w) = stream_ended s"
  by (induction rq s w rule: worker_step.induct)
     (auto simp: send_then_def split: chunk_source.splits option.splits)

text \<open>A step of the worker: exact while the receiver lives and nobody cancelled, else it only drops.\<close>

lemma worker_step_todo:
  assumes "worker s = w" "w \<noteq> WorkerDone" "receiver_alive s" "\<not> cancelled s"
  shows "queue (worker_step rq s w) @ worker_todo rq (worker (worker_step rq s w))
       = queue s @ worker_todo rq w"
  using assms
  by (induction rq s w rule: worker_step.induct)
     (auto simp: send_then_def split: chunk_source.splits option.splits)

lemma worker_step_cancelled:
  assumes "worker s = w" "cancelled s"
  shows "\<exists>dropped. queue (worker_step rq s w) @ in_hand rq (worker (worker_step rq s w)) @ dropped
       = queue s @ in_hand rq w"
  using assms
  by (induction rq s w rule: worker_step.induct)
     (auto simp: send_then_def split: chunk_source.splits option.splits list.splits)

lemma worker_step_dead:
  "\<not> receiver_alive s \<Longrightarrow> queue (worker_step rq s w) = queue s"
  by (induction rq s w rule: worker_step.induct)
     (auto simp: send_then_def split: chunk_source.splits option.splits)

lemma worker_step_sure:
  assumes "worker s \<noteq> WorkerDone" "\<not> receiver_alive s \<or> cancelled s"
  shows "\<exists>dropped. sure_to_come rq (worker_step rq s (worker s)) @ dropped = sure_to_come rq s"
  using assms worker_step_cancelled [OF refl, of s rq] worker_step_dead [of s rq "worker s"]
  by (auto simp: sure_to_come_def)

lemma rt_inv_work:
  assumes inv: "rt_inv rq whole s" and w: "worker s \<noteq> WorkerDone"
  shows "rt_inv rq whole (worker_step rq s (worker s))"
proof (cases "\<not> receiver_alive s \<or> cancelled s")
  case True
  from inv obtain lost where "received s @ sure_to_come rq s @ lost = whole"
    by (auto simp: rt_inv_def)
  moreover from worker_step_sure [OF w True, of rq] obtain dropped
    where "sure_to_come rq (worker_step rq s (worker s)) @ dropped = sure_to_come rq s" ..
  ultimately have "\<exists>lost. received s @ sure_to_come rq (worker_step rq s (worker s)) @ lost = whole"
    by (metis append.assoc)
  with inv w True show ?thesis by (auto simp: rt_inv_def)
next
  case False
  obtain later where "worker_todo rq (worker (worker_step rq s (worker s)))
      = in_hand rq (worker (worker_step rq s (worker s))) @ later"
    using in_hand_todo by blast
  with False inv w worker_step_todo [OF refl w, of rq] show ?thesis
    by (auto simp: rt_inv_def sure_to_come_def)
qed

lemma rt_inv_step: "rt_step rq s s' \<Longrightarrow> rt_inv rq whole s \<Longrightarrow> rt_inv rq whole s'"
proof (induction rule: rt_step.induct)
  case (work s)
  then show ?case by (simp add: rt_inv_work)
next
  case (backend_stops s items panic i ps)
  then show ?case by (auto simp: rt_inv_def sure_to_come_def)
next
  case (begins s)
  then show ?case by (auto simp: rt_inv_def sure_to_come_def next_begin_def)
next
  case (receives s r s')
  then show ?case
    by (auto simp: rt_inv_def sure_to_come_def next_receive_def split: if_splits list.splits)
next
  case (cancel s)
  then show ?case by (auto simp: rt_inv_def sure_to_come_def)
next
  case (hang_up s)
  then show ?case by (auto simp: rt_inv_def sure_to_come_def)
qed

lemma rt_inv_reach: "rt_reach rq s0 s \<Longrightarrow> rt_inv rq whole s0 \<Longrightarrow> rt_inv rq whole s"
  by (induction rule: rt_reach.induct) (auto intro: rt_inv_step)

text \<open>After a cancellation only the call of \<^verbatim>\<open>next\<close> that is past its check can still deliver.\<close>

definition nothing_but_the_call_in_progress :: "rt_state \<Rightarrow> rt_state \<Rightarrow> bool" where
  "nothing_but_the_call_in_progress s s' \<longleftrightarrow>
     cancelled s' \<and>
     (received s' = received s \<and> (in_next s' \<longrightarrow> in_next s) \<or>
      in_next s \<and> \<not> in_next s' \<and> (\<exists>x. received s' = received s @ [x]))"

lemma cancelled_step:
  "rt_step rq s s' \<Longrightarrow> cancelled s \<Longrightarrow> nothing_but_the_call_in_progress s s'"
  by (induction rule: rt_step.induct)
     (auto simp: nothing_but_the_call_in_progress_def next_begin_def next_receive_def
       split: if_splits list.splits)

lemma cancelled_reach:
  "rt_reach rq s s' \<Longrightarrow> cancelled s \<Longrightarrow> nothing_but_the_call_in_progress s s'"
proof (induction rule: rt_reach.induct)
  case start
  then show ?case by (simp add: nothing_but_the_call_in_progress_def)
next
  case (more t u)
  then have "nothing_but_the_call_in_progress s t" "nothing_but_the_call_in_progress t u"
    using cancelled_step [OF more(2)] by (auto simp: nothing_but_the_call_in_progress_def)
  then show ?case by (auto simp: nothing_but_the_call_in_progress_def)
qed

text \<open>
  \<^bold>\<open>C4\<close>: in every interleaving of worker, consumer and canceller, what the consumer received is a prefix of
  the items of the sentences in order, with the errors where they occurred. If the stream ends
  without a cancellation, it received all of them. A call of \<^verbatim>\<open>next\<close> that begins after a cancellation
  delivers nothing, so after one at most one more item is received: that of the call already past
  its look at the token, if there is one.
\<close>

theorem realtime_order:
  assumes "rt_reach rq (rt_init sentences) s"
  shows "(\<exists>rest. received s @ rest = rt_spec rq 0 sentences) \<and>
         (stream_ended s \<and> \<not> cancelled s \<and> receiver_alive s \<longrightarrow>
            received s = rt_spec rq 0 sentences) \<and>
         (cancelled s \<and> rt_reach rq s s' \<longrightarrow>
            received s' = received s \<or>
            in_next s \<and> \<not> in_next s' \<and> (\<exists>x. received s' = received s @ [x]))"
proof -
  have inv: "rt_inv rq (rt_spec rq 0 sentences) s"
    using assms rt_inv_init by (rule rt_inv_reach)
  then have "\<exists>rest. received s @ rest = rt_spec rq 0 sentences"
    by (auto simp: rt_inv_def)
  moreover have "stream_ended s \<and> \<not> cancelled s \<and> receiver_alive s \<longrightarrow>
      received s = rt_spec rq 0 sentences"
    using inv by (auto simp: rt_inv_def)
  moreover have "cancelled s \<and> rt_reach rq s s' \<longrightarrow> received s' = received s \<or>
      in_next s \<and> \<not> in_next s' \<and> (\<exists>x. received s' = received s @ [x])"
    using cancelled_reach [of rq s s'] by (auto simp: nothing_but_the_call_in_progress_def)
  ultimately show ?thesis by blast
qed

subsection \<open>Progress\<close>

fun sentences_size :: "rt_request \<Rightarrow> nat \<Rightarrow> str list \<Rightarrow> nat" where
  "sentences_size rq i [] = 1"
| "sentences_size rq i (p # ps) =
     (case open_sentence rq i p of SourceItems items panic \<Rightarrow> 2 * length items + 5 | _ \<Rightarrow> 2)
     + sentences_size rq (Suc i) ps"

fun worker_size :: "rt_request \<Rightarrow> worker \<Rightarrow> nat" where
  "worker_size rq (AtSentence i ps) = sentences_size rq i ps"
| "worker_size rq (OpenSentence i p ps) = sentences_size rq i (p # ps) - 1"
| "worker_size rq (InChunks items panic i ps) = 2 * length items + 3 + sentences_size rq (Suc i) ps"
| "worker_size rq (AfterChunks i ps) = 2 + sentences_size rq (Suc i) ps"
| "worker_size rq (Sending x w) = Suc (worker_size rq w)"
| "worker_size rq WorkerDone = 0"

definition rt_measure :: "rt_request \<Rightarrow> rt_state \<Rightarrow> nat" where
  "rt_measure rq s =
     3 * worker_size rq (worker s) + 2 * length (queue s)
     + (if stream_ended s then 0 else if in_next s then 1 else 2)"

lemma sentences_size_pos [simp]: "0 < sentences_size rq i ps"
  by (cases ps) (auto split: chunk_source.splits)

lemma worker_step_smaller:
  assumes "worker s = w" "w \<noteq> WorkerDone"
  shows "worker_size rq (worker (worker_step rq s w)) < worker_size rq w \<and>
         length (queue (worker_step rq s w)) \<le> Suc (length (queue s))"
  using assms
  by (induction rq s w rule: worker_step.induct)
     (auto simp: send_then_def split: chunk_source.splits option.splits)

lemma work_decreases:
  "worker s \<noteq> WorkerDone \<Longrightarrow> rt_measure rq (worker_step rq s (worker s)) < rt_measure rq s"
  using worker_step_smaller [OF refl, of s rq] by (auto simp: rt_measure_def)

lemma begin_decreases:
  "\<not> stream_ended s \<Longrightarrow> \<not> in_next s \<Longrightarrow> rt_measure rq (next_begin s) < rt_measure rq s"
  by (simp add: next_begin_def rt_measure_def)

lemma receive_decreases:
  "\<not> stream_ended s \<Longrightarrow> in_next s \<Longrightarrow> next_receive s = Some (r, s') \<Longrightarrow>
     rt_measure rq s' < rt_measure rq s"
  by (auto simp: next_receive_def rt_measure_def split: if_splits list.splits)

lemma rt_progress:
  assumes "receiver_alive s" "\<not> cancelled s" "\<not> stream_ended s"
  obtains s' where "rt_step rq s s'" "receiver_alive s'" "\<not> cancelled s'"
    "rt_measure rq s' < rt_measure rq s"
proof (cases "worker s = WorkerDone")
  case False
  with assms show ?thesis
    by (intro that [of "worker_step rq s (worker s)"]) (auto intro: rt_step.work work_decreases)
next
  case worker: True
  show ?thesis
  proof (cases "in_next s")
    case False
    then have "rt_step rq s (next_begin s)" using assms by (intro rt_step.begins)
    moreover have "receiver_alive (next_begin s)" "\<not> cancelled (next_begin s)"
      using assms by (simp_all add: next_begin_def)
    ultimately show ?thesis using begin_decreases [OF assms(3) False] by (rule that)
  next
    case True
    from worker obtain r s' where nx: "next_receive s = Some (r, s')"
      by (cases "queue s") (auto simp: next_receive_def)
    with assms have "receiver_alive s'" "\<not> cancelled s'"
      by (auto simp: next_receive_def split: if_splits list.splits)
    with nx assms True show ?thesis
      by (intro that [of s']) (auto intro: rt_step.receives receive_decreases)
  qed
qed

lemma rt_finishes:
  "rt_reach rq s0 s \<Longrightarrow> receiver_alive s \<Longrightarrow> \<not> cancelled s \<Longrightarrow>
     \<exists>t. rt_reach rq s0 t \<and> receiver_alive t \<and> \<not> cancelled t \<and> stream_ended t"
proof (induction "rt_measure rq s" arbitrary: s rule: less_induct)
  case less
  show ?case
  proof (cases "stream_ended s")
    case True
    with less.prems show ?thesis by blast
  next
    case False
    from rt_progress [OF less.prems(2,3) False] obtain s'
      where s': "rt_step rq s s'" "receiver_alive s'" "\<not> cancelled s'"
        "rt_measure rq s' < rt_measure rq s" .
    then have "rt_reach rq s0 s'" using less.prems(1) by (blast intro: rt_reach.more)
    with less.hyps s' show ?thesis by blast
  qed
qed


definition demo_request :: rt_request where
  "demo_request =
     \<lparr>rt_source = (\<lambda>p n pad. if p = lit ''bad'' then SourcePanic (lit ''boom'')
                    else SourceItems [Inr [f_lit 1], Inr [f_lit 0]] None),
      rt_shape = Inr, rt_silence = Some (Inr [f_lit 0]), rt_chunk_size = 72, rt_chunk_padding = 3\<rparr>"

lemma demo_spec:
  "rt_spec demo_request 0 [lit ''ok'', lit ''bad'', lit ''never''] =
     [Inr [f_lit 1], Inr [f_lit 0], Inr [f_lit 0], Inl (panic_error (lit ''boom''))]"
  by (simp add: demo_request_def open_sentence_def shape_chunk_def)


theorem realtime_order_witness:
  "\<exists>t. rt_reach demo_request (rt_init [lit ''ok'', lit ''bad'', lit ''never'']) t \<and>
       received t = [Inr [f_lit 1], Inr [f_lit 0], Inr [f_lit 0], Inl (panic_error (lit ''boom''))]"
proof -
  obtain t where t: "rt_reach demo_request (rt_init [lit ''ok'', lit ''bad'', lit ''never'']) t"
      "receiver_alive t" "\<not> cancelled t" "stream_ended t"
    using rt_finishes [OF rt_reach.start, of "rt_init [lit ''ok'', lit ''bad'', lit ''never'']" demo_request]
    by (auto simp: rt_init_def)
  with realtime_order [OF t(1)] show ?thesis unfolding demo_spec by blast
qed

subsection \<open>The stream as an iterator\<close>

text \<open>
  A caller that drains the stream and never cancels. The worker runs ahead of it by as many actions
  as the scheduler likes, which is the argument \<open>ahead\<close>; a receive on an empty queue then waits for
  the worker. Whatever the schedule, the iterator yields the same items.
\<close>

fun run_worker :: "rt_request \<Rightarrow> nat \<Rightarrow> rt_state \<Rightarrow> rt_state" where
  "run_worker rq 0 s = s"
| "run_worker rq (Suc n) s = run_worker rq n (worker_step rq s (worker s))"

lemma waiting_worker_busy: "next_receive s = None \<Longrightarrow> worker s \<noteq> WorkerDone"
  by (auto simp: next_receive_def split: list.splits if_splits)

function await_item :: "rt_request \<Rightarrow> rt_state \<Rightarrow> samples dengjen_result option \<times> rt_state" where
  "await_item rq s =
     (case next_receive s of
        Some answer \<Rightarrow> answer
      | None \<Rightarrow> await_item rq (worker_step rq s (worker s)))"
  by auto
termination
  by (relation "measure (\<lambda>(rq, s). rt_measure rq s)") (auto dest: waiting_worker_busy intro: work_decreases)

declare await_item.simps [simp del]

definition rt_next ::
  "(rt_state \<Rightarrow> nat) \<Rightarrow> rt_request \<Rightarrow> rt_state \<Rightarrow> (samples dengjen_result \<times> rt_state) option" where
  "rt_next ahead rq s =
     (case next_begin (run_worker rq (ahead s) s) of
        s1 \<Rightarrow> if \<not> in_next s1 then None
              else case await_item rq s1 of
                  (None, s') \<Rightarrow> None
                | (Some x, s') \<Rightarrow> Some (x, s'))"

text \<open>It is one way the concurrent stream can run: some steps of the worker and one call of \<^verbatim>\<open>next\<close>.\<close>

lemma rt_reach_trans: "rt_reach rq s t \<Longrightarrow> rt_reach rq r s \<Longrightarrow> rt_reach rq r t"
  by (induction rule: rt_reach.induct) (auto intro: rt_reach.more)

lemma run_worker_reach: "rt_reach rq r s \<Longrightarrow> rt_reach rq r (run_worker rq n s)"
proof (induction n arbitrary: s)
  case (Suc n)
  have "rt_reach rq r (worker_step rq s (worker s))"
    using Suc.prems by (cases "worker s = WorkerDone") (auto intro: rt_reach.more rt_step.work)
  from Suc.IH [OF this] show ?case by simp
qed simp

lemma await_item_reach:
  "await_item rq s = (a, s') \<Longrightarrow> in_next s \<Longrightarrow> rt_reach rq r s \<Longrightarrow> rt_reach rq r s'"
proof (induction rq s rule: await_item.induct)
  case (1 rq s)
  show ?case
  proof (cases "next_receive s")
    case None
    then have "rt_reach rq r (worker_step rq s (worker s))"
      using 1(4) waiting_worker_busy by (auto intro: rt_reach.more rt_step.work)
    with 1 None show ?thesis by (simp add: await_item.simps [of rq s])
  next
    case (Some answer)
    with 1 have "next_receive s = Some (a, s')" by (simp add: await_item.simps)
    with 1 show ?thesis by (auto intro: rt_reach.more rt_step.receives)
  qed
qed

lemma rt_next_reach:
  assumes "rt_next ahead rq s = Some (x, s')" "receiver_alive s" "\<not> in_next s"
  shows "rt_reach rq s s'"
proof -
  let ?s = "run_worker rq (ahead s) s"
  have keeps: "receiver_alive (run_worker rq n t) = receiver_alive t \<and> in_next (run_worker rq n t) = in_next t" for n t
    by (induction n arbitrary: t) simp_all
  have "rt_reach rq s (next_begin ?s)"
    using assms keeps [of "ahead s" s] run_worker_reach [OF rt_reach.start]
    by (blast intro: rt_reach.more rt_step.begins)
  moreover have "in_next (next_begin ?s)" "await_item rq (next_begin ?s) = (Some x, s')"
    using assms(1) by (auto simp: rt_next_def split: if_splits prod.splits option.splits)
  ultimately show ?thesis by (blast intro: await_item_reach)
qed

definition rt_remaining :: "rt_request \<Rightarrow> rt_state \<Rightarrow> samples dengjen_result list" where
  "rt_remaining rq s = queue s @ worker_todo rq (worker s)"

definition rt_live :: "rt_state \<Rightarrow> bool" where
  "rt_live s \<longleftrightarrow> receiver_alive s \<and> \<not> cancelled s"

lemma worker_step_remaining:
  "rt_live s \<Longrightarrow> rt_live (worker_step rq s (worker s)) \<and>
     rt_remaining rq (worker_step rq s (worker s)) = rt_remaining rq s"
  using worker_step_todo [OF refl, of s rq]
  by (cases "worker s = WorkerDone") (auto simp: rt_live_def rt_remaining_def)

lemma run_worker_remaining:
  "rt_live s \<Longrightarrow> rt_live (run_worker rq n s) \<and> rt_remaining rq (run_worker rq n s) = rt_remaining rq s"
proof (induction n arbitrary: s)
  case (Suc n)
  with worker_step_remaining [OF Suc.prems, of rq] show ?case by simp
qed simp

lemma await_item_remaining:
  "rt_live s \<Longrightarrow>
     (case await_item rq s of
        (None, s') \<Rightarrow> rt_remaining rq s = []
      | (Some x, s') \<Rightarrow> rt_remaining rq s = x # rt_remaining rq s' \<and> rt_live s')"
proof (induction rq s rule: await_item.induct)
  case (1 rq s)
  show ?case
  proof (cases "next_receive s")
    case None
    have next_step: "await_item rq s = await_item rq (worker_step rq s (worker s))"
      by (subst await_item.simps) (simp add: None)
    from worker_step_remaining [OF 1(2), of rq] 1(1) [OF None] show ?thesis
      unfolding next_step by (auto split: prod.splits option.splits)
  next
    case (Some answer)
    with 1(2) show ?thesis
      by (subst await_item.simps)
         (auto simp: next_receive_def rt_live_def rt_remaining_def split: if_splits list.splits)
  qed
qed

lemma next_begin_remaining:
  "rt_live s \<Longrightarrow> in_next (next_begin s) \<and> rt_live (next_begin s) \<and>
     rt_remaining rq (next_begin s) = rt_remaining rq s"
  by (simp add: next_begin_def rt_live_def rt_remaining_def)

lemma rt_next_remaining:
  assumes "rt_live s"
  shows "case rt_next ahead rq s of
           None \<Rightarrow> rt_remaining rq s = []
         | Some (x, s') \<Rightarrow> rt_remaining rq s = x # rt_remaining rq s' \<and> rt_live s'"
proof -
  let ?s = "run_worker rq (ahead s) s"
  have "rt_live ?s" "rt_remaining rq ?s = rt_remaining rq s"
    using run_worker_remaining [OF assms] by auto
  with next_begin_remaining [of ?s rq] await_item_remaining [of "next_begin ?s" rq] show ?thesis
    by (auto simp: rt_next_def split: prod.splits option.splits)
qed

interpretation rt: result_stream "rt_next ahead rq" "rt_remaining rq" rt_live
proof
  fix s assume "rt_live s" "rt_next ahead rq s = None"
  then show "rt_remaining rq s = []" using rt_next_remaining [of s rq ahead] by simp
next
  fix s s' x assume "rt_live s" "rt_next ahead rq s = Some (x, s')"
  then show "rt_remaining rq s = x # rt_remaining rq s' \<and> rt_live s'"
    using rt_next_remaining [of s rq ahead] by simp
qed

lemma rt_init_live [simp]: "rt_live (rt_init ss)"
  by (simp add: rt_live_def rt_init_def)

lemma rt_init_remaining [simp]: "rt_remaining rq (rt_init ss) = rt_spec rq 0 ss"
  by (simp add: rt_remaining_def rt_init_def)

end
