(* ===== verification/Synthesizer.thy ===== *)
theory Synthesizer
  imports Realtime
begin

section \<open>The synthesizer front door and voice detection\<close>

text \<open>
  \<^verbatim>\<open>DengjenSpeechSynthesizer\<close> and \<^verbatim>\<open>AudioChunkStream\<close> of \<^verbatim>\<open>crates/dengjen/synth/src/lib.rs\<close>, and
  \<^verbatim>\<open>model_type.rs\<close>: how a request is dispatched to a stream, how a whole request is written to a
  file, and how a voice config selects a backend. Reading a file and parsing JSON are arguments;
  a parsed document is a \<open>json\<close> value with \<^verbatim>\<open>serde_json\<close>'s constructors.
\<close>

subsection \<open>Dispatch to a stream\<close>

datatype stream_mode =
    ModeLazy
  | ModeParallel
  | ModeRealtime nat nat
  | ModeBatched nat

datatype 's audio_chunk_stream =
    LazyChunks "'s lazy_stream"
  | ParallelChunks parallel_stream
  | RealtimeChunks rt_request rt_state
  | BatchedChunks "'s batched_stream"

definition samples_of :: "audio dengjen_result \<Rightarrow> samples dengjen_result" where
  "samples_of r = res_map samples r"

definition synthesize_streamed ::
  "unit dengjen_result \<Rightarrow> (str \<Rightarrow> nat \<Rightarrow> nat \<Rightarrow> chunk_source) \<Rightarrow> 's task_provider \<Rightarrow> nat \<Rightarrow> nat
     \<Rightarrow> (rt_request \<times> rt_state) dengjen_result" where
  "synthesize_streamed pool source p chunk_size chunk_padding =
     res_bind (audio_output_info (model p)) (\<lambda>i.
       res_map (\<lambda>st. (rt_request_of (sonic_port p) (output_config p) source chunk_size chunk_padding
                        (sample_rate i) (num_channels i), st))
         (rt_new pool p))"

fun synthesize_samples ::
  "unit dengjen_result \<Rightarrow> (str \<Rightarrow> nat \<Rightarrow> nat \<Rightarrow> chunk_source) \<Rightarrow> 's task_provider \<Rightarrow> stream_mode
     \<Rightarrow> 's audio_chunk_stream dengjen_result" where
  "synthesize_samples pool source p ModeLazy = res_map LazyChunks (lazy_new p)"
| "synthesize_samples pool source p ModeParallel = res_map ParallelChunks (parallel_new pool p)"
| "synthesize_samples pool source p (ModeBatched n) = res_map BatchedChunks (batched_new p n)"
| "synthesize_samples pool source p (ModeRealtime chunk_size chunk_padding) =
     res_map (\<lambda>(rq, st). RealtimeChunks rq st)
       (synthesize_streamed pool source p chunk_size chunk_padding)"

subsection \<open>Writing a request to a file\<close>

definition wave_error :: "wave_writer_error \<Rightarrow> dengjen_error" where
  "wave_error e = (case e of WaveWriterError msg \<Rightarrow> OperationError msg)"

definition to_u32 :: "str \<Rightarrow> nat \<Rightarrow> nat dengjen_result" where
  "to_u32 what v =
     (if v < 4294967296 then Inr v
      else Inl (OperationError (what @ lit '' '' @ show_nat v @ lit '' is out of range'')))"

definition collect_speech :: "unit dengjen_result \<Rightarrow> 's task_provider \<Rightarrow> samples dengjen_result" where
  "collect_speech pool p =
     res_bind (parallel_new pool p) (\<lambda>s.
       res_map (\<lambda>chunks. concat (map samples chunks))
         (try_collect parallel_next (length (finished s)) s))"

definition synthesize_to_file ::
  "unit dengjen_result \<Rightarrow> 'w riff \<Rightarrow> io_faults \<Rightarrow> nat \<Rightarrow> path \<Rightarrow> 's task_provider \<Rightarrow> save_world
     \<Rightarrow> save_world \<times> unit dengjen_result" where
  "synthesize_to_file pool rf io pid filename p st =
     (case collect_speech pool p of
        Inl e \<Rightarrow> (st, Inl e)
      | Inr collected \<Rightarrow>
          if collected = [] then (st, Inl (OperationError (lit ''No speech data to write'')))
          else case res_bind (audio_output_info (model p)) (\<lambda>i.
                 res_bind (to_u32 (lit ''sample rate'') (sample_rate i)) (\<lambda>r.
                 res_bind (to_u32 (lit ''channel count'') (num_channels i)) (\<lambda>c.
                 res_map (\<lambda>w. (r, c, w)) (to_u32 (lit ''sample width'') (sample_width i))))) of
              Inl e \<Rightarrow> (st, Inl e)
            | Inr (r, c, w) \<Rightarrow>
                (case write_wave_samples_to_file rf io pid filename (to_i16_vec collected) r c w st of
                   (st', r') \<Rightarrow> (st', res_map_err wave_error r')))"

lemma collect_speech_eq:
  "collect_speech (Inr ()) p =
     res_bind (get_phonemes p) (\<lambda>ss.
       res_map (\<lambda>chunks. concat (map samples chunks)) (collect_map (process_one_sentence p) ss))"
proof (cases "get_phonemes p")
  case (Inr ss)
  have "collect_map id (map f xs) = collect_map f xs" for f :: "str \<Rightarrow> audio dengjen_result" and xs
    by (induction xs) (auto split: sum.splits)
  with Inr show ?thesis
    by (simp add: collect_speech_def parallel_new_def parallel.try_collect_all)
qed (simp add: collect_speech_def parallel_new_def)

lemma write_ok_content:
  assumes "write_wave_samples_to_file rf io pid f xs r c w st = (st', Inr u)"
  shows "\<exists>enc. write_wave_samples_to_buffer rf xs r c w = Inr enc \<and> files st' f = Some enc"
  using assms
  by (auto simp: write_wave_samples_to_file_def store_encoded_def fs_create_new_def fs_write_all_def
      fs_rename_def split: sum.splits option.splits prod.splits if_splits)

lemma write_err_target:
  assumes "write_wave_samples_to_file rf io pid f xs r c w st = (st', Inl e)"
  shows "files st' f = files st f"
  using assms temp_name_differs [of pid "temp_counter st" f]
  by (auto simp: write_wave_samples_to_file_def store_encoded_def fs_create_new_def fs_write_all_def
      fs_rename_def fs_remove_def split: sum.splits option.splits prod.splits if_splits)

text \<open>
  \<^bold>\<open>C16\<close>: writing a request to a file is all or nothing. On success every sentence was
  synthesized and the file is the encoding of all of their samples, in order, of which there is at
  least one; if any sentence fails, or the text cannot be phonemized, or the file cannot be stored,
  the file at that path is what it was.
\<close>

theorem synthesize_to_file_all_or_nothing:
  "case synthesize_to_file (Inr ()) rf io pid filename p st of
     (st', Inr _) \<Rightarrow>
       (\<exists>ss chunks i encoded.
          get_phonemes p = Inr ss \<and> collect_map (process_one_sentence p) ss = Inr chunks \<and>
          concat (map samples chunks) \<noteq> [] \<and> audio_output_info (model p) = Inr i \<and>
          write_wave_samples_to_buffer rf (to_i16_vec (concat (map samples chunks)))
            (sample_rate i) (num_channels i) (sample_width i) = Inr encoded \<and>
          files st' filename = Some encoded)
   | (st', Inl _) \<Rightarrow> files st' filename = files st filename"
proof -
  obtain st' r where run: "synthesize_to_file (Inr ()) rf io pid filename p st = (st', r)"
    by (cases "synthesize_to_file (Inr ()) rf io pid filename p st")
  show ?thesis
  proof (cases r)
    case (Inl e)
    with run have "files st' filename = files st filename"
      by (auto simp: synthesize_to_file_def res_map_err_def dest: write_err_target
          split: sum.splits if_splits prod.splits)
    with run Inl show ?thesis by simp
  next
    case (Inr u)
    with run obtain collected i where c: "collect_speech (Inr ()) p = Inr collected" "collected \<noteq> []"
      "audio_output_info (model p) = Inr i"
      "write_wave_samples_to_file rf io pid filename (to_i16_vec collected)
         (sample_rate i) (num_channels i) (sample_width i) st = (st', Inr u)"
      by (auto simp: synthesize_to_file_def res_map_err_def res_conv to_u32_def
          split: sum.splits if_splits prod.splits)
    from c(1) obtain ss chunks where "get_phonemes p = Inr ss"
      "collect_map (process_one_sentence p) ss = Inr chunks" "collected = concat (map samples chunks)"
      by (auto simp: collect_speech_eq res_conv)
    with c write_ok_content [OF c(4)] run Inr show ?thesis by fastforce
  qed
qed

subsection \<open>The backend of a voice config\<close>

datatype json =
    JNull
  | JBool bool
  | JInteger int
  | JNumber f32
  | JString str
  | JArray "json list"
  | JObject "(str \<times> json) list"

fun json_get :: "str \<Rightarrow> json \<Rightarrow> json option" where
  "json_get k (JObject kvs) = map_of kvs k"
| "json_get k _ = None"

fun json_as_str :: "json \<Rightarrow> str option" where
  "json_as_str (JString s) = Some s"
| "json_as_str _ = None"

datatype model_type = Piper | Kokoro | MeloTts

fun model_type_as_str :: "model_type \<Rightarrow> str" where
  "model_type_as_str Piper = lit ''piper''"
| "model_type_as_str Kokoro = lit ''kokoro''"
| "model_type_as_str MeloTts = lit ''melotts''"

definition model_type_from_str :: "str \<Rightarrow> model_type dengjen_result" where
  "model_type_from_str v =
     (if v = lit ''piper'' \<or> v = lit ''vits'' then Inr Piper
      else if v = lit ''kokoro'' then Inr Kokoro
      else if v = lit ''melotts'' then Inr MeloTts
      else Inl (InvalidConfiguration
        (lit ''Unsupported model_type '' @ quoted v @ lit '': expected one of ''
         @ quoted (lit ''piper'') @ lit '', '' @ quoted (lit ''vits'') @ lit '', ''
         @ quoted (lit ''kokoro'') @ lit '', '' @ quoted (lit ''melotts''))))"

definition load_error :: "str \<Rightarrow> path \<Rightarrow> str \<Rightarrow> dengjen_error" where
  "load_error what p why =
     FailedToLoadResource (what @ quoted p @ lit ''. Caused by: '' @ quoted why)"

definition detect_model_type ::
  "(path \<Rightarrow> str + str) \<Rightarrow> (str \<Rightarrow> str + json) \<Rightarrow> path \<Rightarrow> str dengjen_result" where
  "detect_model_type read parse p =
     res_bind (res_map_err (load_error (lit ''Failed to read model config: '') p) (read p)) (\<lambda>raw.
     res_map (\<lambda>doc. unwrap_or (lit ''piper'')
                (case json_get (lit ''model_type'') doc of None \<Rightarrow> None | Some v \<Rightarrow> json_as_str v))
       (res_map_err (load_error (lit ''Failed to parse model config from file: '') p) (parse raw)))"

definition read_model_type ::
  "(path \<Rightarrow> str + str) \<Rightarrow> (str \<Rightarrow> str + json) \<Rightarrow> path \<Rightarrow> model_type dengjen_result" where
  "read_model_type read parse p = res_bind (detect_model_type read parse p) model_type_from_str"

definition load_voice_with ::
  "(path \<Rightarrow> str + str) \<Rightarrow> (str \<Rightarrow> str + json) \<Rightarrow> path \<Rightarrow>
     (model_type \<Rightarrow> path \<Rightarrow> 'v dengjen_result) \<Rightarrow> 'v dengjen_result" where
  "load_voice_with read parse p load = res_bind (read_model_type read parse p) (\<lambda>mt. load mt p)"

text \<open>
  A backend is chosen exactly by its spellings. Every backend's canonical name parses
  back to it, a name parses only if it is one of the four spellings, a config without the field is
  a Piper voice, and a config that names an unknown backend never reaches the loader.
\<close>

theorem model_type_selection:
  "model_type_from_str (model_type_as_str mt) = Inr mt \<and>
   (model_type_from_str v = Inr mt \<longleftrightarrow> v = model_type_as_str mt \<or> mt = Piper \<and> v = lit ''vits'') \<and>
   (read p = Inr raw \<and> parse raw = Inr doc \<and> json_get (lit ''model_type'') doc = None \<longrightarrow>
      load_voice_with read parse p load = load Piper p) \<and>
   (read p = Inr raw \<and> parse raw = Inr doc \<and> json_get (lit ''model_type'') doc = Some (JString v) \<and>
      v \<notin> {lit ''piper'', lit ''vits'', lit ''kokoro'', lit ''melotts''} \<longrightarrow>
      (\<exists>msg. load_voice_with read parse p load = Inl (InvalidConfiguration msg)))"
proof -
  have piper: "model_type_from_str (lit ''piper'') = Inr Piper"
    by (simp add: model_type_from_str_def)
  show ?thesis
    by (intro conjI; cases mt)
       (auto simp: load_voice_with_def read_model_type_def detect_model_type_def piper
         model_type_from_str_def)
qed

theorem model_type_selection_witness:
  "load_voice_with (\<lambda>_. Inr (lit ''{}'')) (\<lambda>_. Inr (JObject [])) (lit ''c.json'') (\<lambda>mt _. Inr mt) = Inr Piper
   \<and> (\<exists>msg. load_voice_with (\<lambda>_. Inr []) (\<lambda>_. Inr (JObject [(lit ''model_type'', JString (lit ''bark''))]))
        (lit ''c.json'') (\<lambda>mt _. Inr mt) = Inl (InvalidConfiguration msg))"
  using model_type_selection [of Piper "[]" "\<lambda>_. Inr (lit ''{}'')" "lit ''c.json''" "lit ''{}''"
      "\<lambda>_. Inr (JObject [])" "JObject []" "\<lambda>mt _. Inr mt"]
    model_type_selection [of Piper "lit ''bark''" "\<lambda>_. Inr []" "lit ''c.json''" "[]"
      "\<lambda>_. Inr (JObject [(lit ''model_type'', JString (lit ''bark''))])"
      "JObject [(lit ''model_type'', JString (lit ''bark''))]" "\<lambda>mt _. Inr mt"]
  by simp

subsection \<open>Draining the samples of a request\<close>

text \<open>
  \<^verbatim>\<open>AudioChunkStream::next\<close> as its callers see it, who never cancel: an iterator of samples. Only a
  realtime stream has a worker, which runs ahead as \<open>ahead\<close> says.
\<close>

fun samples_next ::
  "unit dengjen_result \<Rightarrow> (rt_state \<Rightarrow> nat) \<Rightarrow> 's audio_chunk_stream
     \<Rightarrow> (samples dengjen_result \<times> 's audio_chunk_stream) option" where
  "samples_next pool ahead (RealtimeChunks rq s) =
     map_option (\<lambda>(r, s'). (r, RealtimeChunks rq s')) (rt_next ahead rq s)"
| "samples_next pool ahead (LazyChunks s) = map_option (\<lambda>(r, s'). (samples_of r, LazyChunks s')) (lazy_next s)"
| "samples_next pool ahead (ParallelChunks s) =
     map_option (\<lambda>(r, s'). (samples_of r, ParallelChunks s')) (parallel_next s)"
| "samples_next pool ahead (BatchedChunks s) =
     map_option (\<lambda>(r, s'). (samples_of r, BatchedChunks s')) (batched_next pool s)"

fun samples_remaining :: "unit dengjen_result \<Rightarrow> 's audio_chunk_stream \<Rightarrow> samples dengjen_result list" where
  "samples_remaining pool (RealtimeChunks rq s) = rt_remaining rq s"
| "samples_remaining pool (LazyChunks s) = map samples_of (lazy_remaining s)"
| "samples_remaining pool (ParallelChunks s) = map samples_of (finished s)"
| "samples_remaining pool (BatchedChunks s) = map samples_of (batched_remaining pool s)"

fun samples_inv :: "'s audio_chunk_stream \<Rightarrow> bool" where
  "samples_inv (RealtimeChunks rq s) = rt_live s"
| "samples_inv (BatchedChunks s) = (0 < batch_size s)"
| "samples_inv _ = True"

interpretation chunks: result_stream "samples_next pool ahead" "samples_remaining pool" samples_inv
proof
  fix s :: "'a audio_chunk_stream"
  assume "samples_inv s" "samples_next pool ahead s = None"
  then show "samples_remaining pool s = []"
    by (cases s) (auto dest: lazy.ends [OF TrueI] parallel.ends [OF TrueI] batched.ends rt.ends)
next
  fix s s' :: "'a audio_chunk_stream" and x
  assume "samples_inv s" "samples_next pool ahead s = Some (x, s')"
  then show "samples_remaining pool s = x # samples_remaining pool s' \<and> samples_inv s'"
    by (cases s)
       (auto dest: lazy.yields [OF TrueI] parallel.yields [OF TrueI] batched.yields rt.yields)
qed

text \<open>What each mode should deliver of a request.\<close>

fun mode_items ::
  "(str \<Rightarrow> nat \<Rightarrow> nat \<Rightarrow> chunk_source) \<Rightarrow> 's task_provider \<Rightarrow> stream_mode \<Rightarrow> samples dengjen_result list dengjen_result" where
  "mode_items source p (ModeRealtime chunk_size chunk_padding) =
     res_bind (audio_output_info (model p)) (\<lambda>i.
       res_map (rt_spec (rt_request_of (sonic_port p) (output_config p) source chunk_size chunk_padding
           (sample_rate i) (num_channels i)) 0) (get_phonemes p))"
| "mode_items source p _ =
     res_map (map (\<lambda>sentence. samples_of (process_one_sentence p sentence))) (get_phonemes p)"

fun mode_ok :: "stream_mode \<Rightarrow> bool" where
  "mode_ok (ModeBatched n) = (0 < n)"
| "mode_ok _ = True"

lemma synthesize_samples_items:
  assumes "mode_ok mode"
  shows "res_map (samples_remaining (Inr ())) (synthesize_samples (Inr ()) source p mode) = mode_items source p mode"
    and "synthesize_samples (Inr ()) source p mode = Inr st \<Longrightarrow> samples_inv st"
  using assms
  by (cases mode; cases "get_phonemes p"; cases "audio_output_info (model p)";
      auto simp: lazy_new_def parallel_new_def batched_new_def lazy_remaining_def batched_remaining_def
        synthesize_streamed_def rt_new_def)+

lemma realtime_items:
  "res_map (\<lambda>(rq, st). rt_remaining rq st) (synthesize_streamed (Inr ()) source p chunk_size chunk_padding) =
     mode_items source p (ModeRealtime chunk_size chunk_padding)"
  "synthesize_streamed (Inr ()) source p chunk_size chunk_padding = Inr (rq, st) \<Longrightarrow> rt_live st"
  using synthesize_samples_items [of "ModeRealtime chunk_size chunk_padding" source p]
  by (cases "synthesize_streamed (Inr ()) source p chunk_size chunk_padding"; auto)+

end
