(* ===== verification/ConfigStore.thy ===== *)
theory ConfigStore
  imports ModelApi
begin

section \<open>The synthesis-config store of a backend\<close>

text \<open>
  Every backend keeps a fallback synthesis config that its front ends read and replace
  (\<^verbatim>\<open>get_fallback_synthesis_config\<close> and \<^verbatim>\<open>set_fallback_synthesis_config\<close>). The locale states what the
  front ends rely on, whichever backend they talk to: a config is accepted exactly when its speaker
  is known, a named parameter that was set is read back, and the speaker in force is always a known
  one. Piper, Kokoro and MeloTTS interpret it.
\<close>

definition unknown_speaker :: "int \<Rightarrow> dengjen_error" where
  "unknown_speaker sid =
     InvalidConfiguration (lit ''No speaker was found with the given id '' @ quoted (show_int sid))"

definition speaker_known :: "(int \<Rightarrow> bool) \<Rightarrow> synthesis_config \<Rightarrow> bool" where
  "speaker_known known c \<longleftrightarrow> (case speaker c of None \<Rightarrow> True | Some sid \<Rightarrow> known sid)"

text \<open>
  What a front end holds of a voice: the synthesizer hands each call on to the model behind it.
  \<open>'m\<close> is the state of the voice, and a backend that keeps its config in the state and cannot fail
  to read it is a \<open>store_backend\<close>.
\<close>

record 'm backend =
  be_model :: "'m \<Rightarrow> dengjen_model"
  be_default :: "'m \<Rightarrow> synthesis_config option dengjen_result"
  be_fallback :: "'m \<Rightarrow> synthesis_config option dengjen_result"
  be_set_fallback :: "synthesis_config \<Rightarrow> 'm \<Rightarrow> 'm dengjen_result"

definition store_backend ::
  "('m \<Rightarrow> dengjen_model) \<Rightarrow> ('m \<Rightarrow> synthesis_config option) \<Rightarrow> ('m \<Rightarrow> synthesis_config option)
     \<Rightarrow> (synthesis_config \<Rightarrow> 'm \<Rightarrow> 'm dengjen_result) \<Rightarrow> 'm backend" where
  "store_backend model_of dflt get_cfg set_cfg =
     \<lparr>be_model = model_of, be_default = (\<lambda>m. Inr (dflt m)), be_fallback = (\<lambda>m. Inr (get_cfg m)),
      be_set_fallback = set_cfg\<rparr>"

lemma store_backend_simps [simp]:
  "be_model (store_backend mo d g s) = mo" "be_default (store_backend mo d g s) m = Inr (d m)"
  "be_fallback (store_backend mo d g s) m = Inr (g m)" "be_set_fallback (store_backend mo d g s) = s"
  by (simp_all add: store_backend_def)

text \<open>The read-modify-write of one named parameter, as the front ends do it.\<close>

definition update_parameter ::
  "('m \<Rightarrow> synthesis_config option) \<Rightarrow> (synthesis_config \<Rightarrow> 'm \<Rightarrow> 'm dengjen_result)
     \<Rightarrow> str \<Rightarrow> f32 \<Rightarrow> 'm \<Rightarrow> 'm dengjen_result" where
  "update_parameter get_cfg set_cfg n v m =
     (case unwrap_or default_synthesis_config (get_cfg m) of c \<Rightarrow>
        set_cfg (c\<lparr>parameters := (parameters c)(n \<mapsto> v)\<rparr>) m)"

locale config_store =
  fixes get_cfg :: "'m \<Rightarrow> synthesis_config option"
    and set_cfg :: "synthesis_config \<Rightarrow> 'm \<Rightarrow> 'm dengjen_result"
    and known :: "'m \<Rightarrow> int \<Rightarrow> bool"
    and names :: "str set"
  assumes accepts: "(\<exists>m'. set_cfg c m = Inr m') \<longleftrightarrow> speaker_known (known m) c"
    and keeps_known: "set_cfg c m = Inr m' \<Longrightarrow> known m' = known m"
    and reads_back: "set_cfg c m = Inr m' \<Longrightarrow>
        \<exists>c'. get_cfg m' = Some c' \<and>
             (\<forall>n v. n \<in> names \<and> parameters c n = Some v \<longrightarrow> parameters c' n = Some v) \<and>
             (speaker c' = speaker c \<or>
              speaker c = None \<and> (\<exists>c0. get_cfg m = Some c0 \<and> speaker c' = speaker c0))"
begin

definition valid :: "'m \<Rightarrow> bool" where
  "valid m \<longleftrightarrow> (\<forall>c. get_cfg m = Some c \<longrightarrow> speaker_known (known m) c)"

lemma set_keeps_valid: "valid m \<Longrightarrow> set_cfg c m = Inr m' \<Longrightarrow> valid m'"
proof -
  assume v: "valid m" and s: "set_cfg c m = Inr m'"
  obtain c' where c': "get_cfg m' = Some c'"
    "speaker c' = speaker c \<or> speaker c = None \<and> (\<exists>c0. get_cfg m = Some c0 \<and> speaker c' = speaker c0)"
    using reads_back [OF s] by blast
  have "speaker_known (known m) c" using accepts s by blast
  with c'(2) v have "speaker_known (known m) c'" by (auto simp: valid_def speaker_known_def)
  with c'(1) keeps_known [OF s] show ?thesis by (simp add: valid_def)
qed

lemma set_speaker: "set_cfg c m = Inr m' \<Longrightarrow> speaker c = Some sid \<Longrightarrow>
    known m sid \<and> (\<exists>c'. get_cfg m' = Some c' \<and> speaker c' = Some sid)"
  using accepts [of c m] reads_back [of c m m'] by (auto simp: speaker_known_def)

lemma update_succeeds:
  assumes "valid m" "n \<in> names"
  shows "\<exists>m' c'. update_parameter get_cfg set_cfg n v m = Inr m' \<and> valid m' \<and>
           get_cfg m' = Some c' \<and> parameters c' n = Some v"
proof -
  define c where "c = unwrap_or default_synthesis_config (get_cfg m)"
  have "speaker_known (known m) (c\<lparr>parameters := (parameters c)(n \<mapsto> v)\<rparr>)"
    using assms(1)
    by (cases "get_cfg m") (auto simp: c_def valid_def speaker_known_def default_synthesis_config_def)
  then obtain m' where m': "set_cfg (c\<lparr>parameters := (parameters c)(n \<mapsto> v)\<rparr>) m = Inr m'"
    using accepts by blast
  with reads_back [OF m'] assms set_keeps_valid [OF assms(1) m'] show ?thesis
    by (auto simp: update_parameter_def c_def)
qed

lemma update_keeps:
  assumes "update_parameter get_cfg set_cfg n v m = Inr m'" "get_cfg m = Some c"
  shows "\<exists>c'. get_cfg m' = Some c' \<and> speaker c' = speaker c \<and>
           (\<forall>k w. k \<in> names \<and> k \<noteq> n \<and> parameters c k = Some w \<longrightarrow> parameters c' k = Some w)"
  using assms reads_back [of "c\<lparr>parameters := (parameters c)(n \<mapsto> v)\<rparr>" m m']
  by (auto simp: update_parameter_def)

end

end
