(* ===== verification/Greedy.thy ===== *)
theory Greedy
  imports Prelude
begin

section \<open>Longest-match scanning\<close>

text \<open>
  The three backends turn phoneme text into ids with the same scan: at each position take the
  widest entry of a table that matches there, or skip one character. They differ in how they bound
  the widths they try. \<open>greedy_scan\<close> is the scan with such a bound, \<open>longest_tokens\<close> its
  specification, and the locale says what a bound must satisfy for the scan to meet it. Piper, MeloTTS
  and Kokoro interpret the locale on their own tables.
\<close>

definition match_at :: "(str \<Rightarrow> 'i option) \<Rightarrow> str \<Rightarrow> nat \<Rightarrow> (nat \<times> 'i) option" where
  "match_at lookup s w = map_option (\<lambda>i. (w, i)) (lookup (take w s))"

definition widest_match :: "(str \<Rightarrow> 'i option) \<Rightarrow> nat \<Rightarrow> str \<Rightarrow> (nat \<times> 'i) option" where
  "widest_match lookup widest s = find_map (match_at lookup s) (down_from widest)"

lemma find_map_down_from:
  "find_map f (down_from n) = Some y \<longleftrightarrow>
     (\<exists>w. 1 \<le> w \<and> w \<le> n \<and> f w = Some y \<and> (\<forall>v. w < v \<and> v \<le> n \<longrightarrow> f v = None))"
proof (induction n)
  case (Suc n)
  show ?case
  proof (cases "f (Suc n)")
    case None
    with Suc show ?thesis by (auto simp: le_Suc_eq)
  next
    case (Some z)
    show ?thesis
    proof
      assume "find_map f (down_from (Suc n)) = Some y"
      with Some show "\<exists>w. 1 \<le> w \<and> w \<le> Suc n \<and> f w = Some y \<and> (\<forall>v. w < v \<and> v \<le> Suc n \<longrightarrow> f v = None)"
        by (intro exI [of _ "Suc n"]) auto
    next
      assume "\<exists>w. 1 \<le> w \<and> w \<le> Suc n \<and> f w = Some y \<and> (\<forall>v. w < v \<and> v \<le> Suc n \<longrightarrow> f v = None)"
      then obtain w where w: "1 \<le> w" "w \<le> Suc n" "f w = Some y"
        "\<And>v. w < v \<Longrightarrow> v \<le> Suc n \<Longrightarrow> f v = None" by blast
      have "w = Suc n"
      proof (rule ccontr)
        assume "w \<noteq> Suc n"
        with w(2) have "f (Suc n) = None" by (intro w(4)) auto
        with Some show False by simp
      qed
      with w(3) show "find_map f (down_from (Suc n)) = Some y" by simp
    qed
  qed
qed auto

lemma widest_match_Some:
  "widest_match lookup n s = Some (w, i) \<longleftrightarrow>
     1 \<le> w \<and> w \<le> n \<and> lookup (take w s) = Some i \<and> (\<forall>v. w < v \<and> v \<le> n \<longrightarrow> lookup (take v s) = None)"
  unfolding widest_match_def find_map_down_from by (auto simp: match_at_def)

lemma widest_match_None:
  "widest_match lookup n s = None \<longleftrightarrow> (\<forall>w. 1 \<le> w \<and> w \<le> n \<longrightarrow> lookup (take w s) = None)"
  by (auto simp: widest_match_def find_map_None match_at_def down_from_def)

function greedy_scan :: "(str \<Rightarrow> nat) \<Rightarrow> (str \<Rightarrow> 'i option) \<Rightarrow> str \<Rightarrow> (nat \<times> 'i) list" where
  "greedy_scan bound lookup [] = []"
| "greedy_scan bound lookup (c # s) =
     (case widest_match lookup (min (bound (c # s)) (length (c # s))) (c # s) of
        Some (w, i) \<Rightarrow> (w, i) # greedy_scan bound lookup (drop w (c # s))
      | None \<Rightarrow> greedy_scan bound lookup s)"
  by pat_completeness auto
termination
  by (relation "measure (\<lambda>(_, _, s). length s)") (auto simp: widest_match_Some)

text \<open>The specification: the widest entry at the front, or one character skipped.\<close>

inductive longest_tokens :: "(str \<Rightarrow> 'i option) \<Rightarrow> str \<Rightarrow> (nat \<times> 'i) list \<Rightarrow> bool" for lookup where
  finish: "longest_tokens lookup [] []"
| take_widest:
    "1 \<le> w \<Longrightarrow> w \<le> length s \<Longrightarrow> lookup (take w s) = Some i \<Longrightarrow>
     (\<And>v. w < v \<Longrightarrow> v \<le> length s \<Longrightarrow> lookup (take v s) = None) \<Longrightarrow>
     longest_tokens lookup (drop w s) ts \<Longrightarrow> longest_tokens lookup s ((w, i) # ts)"
| skip: "(\<And>v. 1 \<le> v \<Longrightarrow> v \<le> length (c # s) \<Longrightarrow> lookup (take v (c # s)) = None) \<Longrightarrow>
     longest_tokens lookup s ts \<Longrightarrow> longest_tokens lookup (c # s) ts"

text \<open>The unbounded scan, which tries every width.\<close>

definition reference_scan :: "(str \<Rightarrow> 'i option) \<Rightarrow> str \<Rightarrow> (nat \<times> 'i) list" where
  "reference_scan lookup s = greedy_scan length lookup s"

lemma reference_scan_sound: "longest_tokens lookup s (reference_scan lookup s)"
  unfolding reference_scan_def
proof (induction "length :: str \<Rightarrow> nat" lookup s rule: greedy_scan.induct)
  case (1 lookup)
  then show ?case by (simp add: longest_tokens.finish)
next
  case (2 lookup c s)
  show ?case
  proof (cases "widest_match lookup (length (c # s)) (c # s)")
    case None
    then have "longest_tokens lookup s (greedy_scan length lookup s)" by (intro 2) simp
    moreover have "\<And>v. 1 \<le> v \<Longrightarrow> v \<le> length (c # s) \<Longrightarrow> lookup (take v (c # s)) = None"
      using None unfolding widest_match_None by blast
    ultimately have "longest_tokens lookup (c # s) (greedy_scan length lookup s)"
      by (intro longest_tokens.skip)
    with None show ?thesis by simp
  next
    case (Some p)
    obtain w i where p: "p = (w, i)" by (cases p)
    with Some have "longest_tokens lookup (drop w (c # s)) (greedy_scan length lookup (drop w (c # s)))"
      by (intro 2) simp_all
    moreover have "1 \<le> w" "w \<le> length (c # s)" "lookup (take w (c # s)) = Some i"
      "\<And>v. w < v \<Longrightarrow> v \<le> length (c # s) \<Longrightarrow> lookup (take v (c # s)) = None"
      using Some unfolding p widest_match_Some by blast+
    ultimately have "longest_tokens lookup (c # s)
        ((w, i) # greedy_scan length lookup (drop w (c # s)))"
      by (intro longest_tokens.take_widest)
    with Some p show ?thesis by simp
  qed
qed

lemma longest_tokens_unique: "longest_tokens lookup s ts \<Longrightarrow> longest_tokens lookup s us \<Longrightarrow> ts = us"
proof (induction arbitrary: us rule: longest_tokens.induct)
  case finish
  then show ?case by (cases rule: longest_tokens.cases) auto
next
  case (take_widest w s i ts)
  from take_widest.prems show ?case
  proof (cases rule: longest_tokens.cases)
    case (take_widest v j us')
    with take_widest.hyps have "v = w"
      by (metis linorder_neqE_nat option.distinct(1))
    with take_widest take_widest.hyps take_widest.IH show ?thesis by auto
  next
    case (skip c s')
    with take_widest.hyps show ?thesis by fastforce
  qed (use take_widest.hyps in simp)
next
  case (skip c s ts)
  from skip.prems show ?case
  proof (cases rule: longest_tokens.cases)
    case (take_widest v j us')
    with skip.hyps show ?thesis by fastforce
  qed (use skip.IH in auto)
qed

locale longest_match =
  fixes bound :: "str \<Rightarrow> nat" and lookup :: "str \<Rightarrow> 'i option"
  assumes bound_covers: "lookup (take w s) = Some i \<Longrightarrow> 1 \<le> w \<Longrightarrow> w \<le> length s \<Longrightarrow> w \<le> bound s"
begin

lemma widest_match_bound:
  "widest_match lookup (min (bound s) (length s)) s = widest_match lookup (length s) s"
proof (cases "widest_match lookup (length s) s")
  case None
  then have "widest_match lookup (min (bound s) (length s)) s = None"
    by (auto simp: widest_match_None)
  with None show ?thesis by simp
next
  case (Some p)
  obtain w i where p: "p = (w, i)" by (cases p)
  have "w \<le> bound s" using Some bound_covers [of w s i] by (simp add: p widest_match_Some)
  with Some have "widest_match lookup (min (bound s) (length s)) s = Some (w, i)"
    unfolding p widest_match_Some by simp
  with Some p show ?thesis by simp
qed

lemma scan_is_reference: "greedy_scan bound lookup s = reference_scan lookup s"
  unfolding reference_scan_def
proof (induction s rule: length_induct)
  case (1 s)
  show ?case
  proof (cases s)
    case (Cons c r)
    show ?thesis
    proof (cases "widest_match lookup (length s) s")
      case None
      have "greedy_scan bound lookup r = greedy_scan length lookup r"
        using 1 by (simp add: Cons)
      with None widest_match_bound [of s] show ?thesis by (simp add: Cons)
    next
      case (Some p)
      obtain w i where p: "p = (w, i)" by (cases p)
      with Some have "length (drop w s) < length s"
        using widest_match_Some [of lookup "length s" s w i] Cons by simp
      then have "greedy_scan bound lookup (drop w s) = greedy_scan length lookup (drop w s)"
        using 1 by blast
      with Some p widest_match_bound [of s] show ?thesis by (simp add: Cons)
    qed
  qed simp
qed

lemma scan_meets_spec: "longest_tokens lookup s ts \<longleftrightarrow> ts = greedy_scan bound lookup s"
  using reference_scan_sound [of lookup s] longest_tokens_unique [of lookup s]
  by (auto simp: scan_is_reference)

end

lemma reference_scan_in_table:
  "(w, i) \<in> set (reference_scan lookup s) \<Longrightarrow> \<exists>key. lookup key = Some i \<and> length key \<le> length s"
proof -
  have "longest_tokens lookup s ts \<Longrightarrow> (w, i) \<in> set ts \<Longrightarrow>
      \<exists>key. lookup key = Some i \<and> length key \<le> length s" for ts
    by (induction rule: longest_tokens.induct) (auto 4 3 intro: exI [of _ "take w _"])
  then show "(w, i) \<in> set (reference_scan lookup s) \<Longrightarrow> ?thesis" using reference_scan_sound by blast
qed

lemma scan_no_longer: "length (greedy_scan bound lookup s) \<le> length s"
proof (induction bound lookup s rule: greedy_scan.induct)
  case (2 bound lookup c s)
  show ?case
  proof (cases "widest_match lookup (min (bound (c # s)) (length (c # s))) (c # s)")
    case None
    with 2(1) [OF None] show ?thesis by (simp del: greedy_scan.simps(2) add: greedy_scan.simps(2) [of bound lookup c s])
  next
    case (Some wi)
    obtain w i where wi: "wi = (w, i)" by (cases wi)
    with Some have "1 \<le> w" by (simp add: widest_match_Some)
    with 2(2) [OF Some wi [symmetric]] Some wi show ?thesis by simp
  qed
qed simp

end
