(* ===== verification/Piper.thy ===== *)
theory Piper
  imports ConfigStore Greedy Paths
begin

section \<open>The Piper (VITS) backend\<close>

text \<open>
  \<^verbatim>\<open>crates/dengjen/models/piper/src\<close> without the streaming model: \<^verbatim>\<open>config.rs\<close>,
  \<^verbatim>\<open>synth_config.rs\<close>, \<^verbatim>\<open>lib.rs\<close>, \<^verbatim>\<open>phonemize.rs\<close> and \<^verbatim>\<open>inference.rs\<close>. A hash map read from
  the config is the list of its entries. The inference session, the phonemizer engines and
  libtashkeel are arguments. The cargo features that select a branch at build time are a record of
  flags. The interpretations show that the id scan is the longest-match tokenizer and that the voice
  keeps the config-store contract.
\<close>

subsection \<open>Configuration\<close>

record inference_config =
  ic_noise_scale :: f32
  ic_length_scale :: f32
  ic_noise_w :: f32

datatype phoneme_type = PtEspeak | PtText | PtPinyin | PtHebrew

record model_config =
  mc_language :: "str option"
  mc_sample_rate :: nat
  mc_quality :: "str option"
  mc_num_speakers :: nat
  mc_speaker_id_map :: "(str \<times> int) list"
  mc_streaming :: "bool option"
  mc_espeak_voice :: str
  mc_inference :: inference_config
  mc_phoneme_id_map :: "(str \<times> int list) list"
  mc_phoneme_type :: "phoneme_type option"
  mc_default_speaker_id :: "int option"
  mc_hop_length :: "nat option"
  mc_hebrew_model_path :: "path option"
  mc_pinyin_model_dir :: "path option"

record piper_synthesis_config =
  ps_speaker :: "int option"
  ps_length_scale :: f32
  ps_noise_scale :: f32
  ps_noise_w :: f32

definition NOISE_SCALE :: str where "NOISE_SCALE = lit ''noise_scale''"
definition LENGTH_SCALE :: str where "LENGTH_SCALE = lit ''length_scale''"
definition NOISE_W :: str where "NOISE_W = lit ''noise_w''"
definition DEFAULT_NOISE_SCALE :: f32 where "DEFAULT_NOISE_SCALE = f_lit (667 / 1000)"
definition DEFAULT_LENGTH_SCALE :: f32 where "DEFAULT_LENGTH_SCALE = f_lit 1"
definition DEFAULT_NOISE_W :: f32 where "DEFAULT_NOISE_W = f_lit (8 / 10)"

definition piper_to_synthesis_config :: "piper_synthesis_config \<Rightarrow> synthesis_config" where
  "piper_to_synthesis_config c =
     \<lparr>speaker = ps_speaker c,
      parameters = [LENGTH_SCALE \<mapsto> ps_length_scale c, NOISE_SCALE \<mapsto> ps_noise_scale c,
                    NOISE_W \<mapsto> ps_noise_w c]\<rparr>"

definition piper_of_synthesis_config :: "synthesis_config \<Rightarrow> piper_synthesis_config" where
  "piper_of_synthesis_config c =
     \<lparr>ps_speaker = speaker c,
      ps_length_scale = unwrap_or DEFAULT_LENGTH_SCALE (parameters c LENGTH_SCALE),
      ps_noise_scale = unwrap_or DEFAULT_NOISE_SCALE (parameters c NOISE_SCALE),
      ps_noise_w = unwrap_or DEFAULT_NOISE_W (parameters c NOISE_W)\<rparr>"

definition load_model_config ::
  "(path \<Rightarrow> str + 'f) \<Rightarrow> ('f \<Rightarrow> str + model_config) \<Rightarrow> path
     \<Rightarrow> (model_config \<times> piper_synthesis_config) dengjen_result" where
  "load_model_config open_file parse config_path =
     res_bind (res_map_err (\<lambda>why. FailedToLoadResource
         (lit ''Failed to load model config: '' @ quoted config_path @ lit ''. Caused by: '' @ quoted why))
       (open_file config_path)) (\<lambda>f.
     res_map (\<lambda>cfg. (cfg, \<lparr>ps_speaker = None, ps_length_scale = ic_length_scale (mc_inference cfg),
                          ps_noise_scale = ic_noise_scale (mc_inference cfg),
                          ps_noise_w = ic_noise_w (mc_inference cfg)\<rparr>))
       (res_map_err (\<lambda>why. FailedToLoadResource
           (lit ''Failed to parse model config from file: '' @ quoted config_path
            @ lit ''. Caused by: '' @ quoted why))
         (parse f)))"

definition resolve_default_speaker_id :: "model_config \<Rightarrow> int" where
  "resolve_default_speaker_id cfg = unwrap_or 0 (mc_default_speaker_id cfg)"

text \<open>The files that \<^verbatim>\<open>from_config_path\<close> loads: an encoder and a decoder, or one model.\<close>

datatype vits_files = StreamingFiles path path | SingleFile path

definition vits_model_files :: "model_config \<Rightarrow> path \<Rightarrow> vits_files dengjen_result" where
  "vits_model_files cfg config_path =
     (if unwrap_or False (mc_streaming cfg)
      then Inr (StreamingFiles (with_file_name config_path (lit ''encoder.onnx''))
                               (with_file_name config_path (lit ''decoder.onnx'')))
      else case file_name config_path of
          None \<Rightarrow> Inl (InvalidConfiguration
                    (lit ''Invalid config filename format '' @ quoted config_path))
        | Some n \<Rightarrow>
            Inr (SingleFile (with_file_name config_path (fst (stem_and_extension n)))))"

subsection \<open>Phoneme ids\<close>

text \<open>\<^verbatim>\<open>longest_entry_by_first_char\<close>: built by one pass over the keys.\<close>

definition note_entry :: "str \<Rightarrow> (uchar \<Rightarrow> nat option) \<Rightarrow> uchar \<Rightarrow> nat option" where
  "note_entry entry m =
     (case entry of
        [] \<Rightarrow> m
      | first # rest \<Rightarrow> m(first \<mapsto> max (unwrap_or 0 (m first)) (1 + length rest)))"

definition longest_entry_by_first_char :: "(str \<times> int list) list \<Rightarrow> uchar \<Rightarrow> nat option" where
  "longest_entry_by_first_char kvs = fold (\<lambda>(k, _). note_entry k) kvs Map.empty"

definition phoneme_bound :: "(str \<times> int list) list \<Rightarrow> str \<Rightarrow> nat" where
  "phoneme_bound kvs s =
     (case s of [] \<Rightarrow> 0 | c # _ \<Rightarrow> unwrap_or 0 (longest_entry_by_first_char kvs c))"

definition first_id :: "(str \<times> int list) list \<Rightarrow> str \<Rightarrow> int option" where
  "first_id kvs key = (case map_of kvs key of Some ids \<Rightarrow> first_of ids | None \<Rightarrow> None)"

definition map_phonemes_to_ids ::
  "(str \<times> int list) list \<Rightarrow> str \<Rightarrow> int \<Rightarrow> int \<Rightarrow> int \<Rightarrow> int list" where
  "map_phonemes_to_ids kvs phonemes pad_id bos_id eos_id =
     bos_id # concat (map (\<lambda>(w, i). [i, pad_id])
                       (greedy_scan (phoneme_bound kvs) (first_id kvs) phonemes)) @ [eos_id]"

definition PAD :: str where "PAD = lit ''_''"
definition BOS :: str where "BOS = lit ''^''"
definition EOS :: str where "EOS = lit ''$''"

definition required_id :: "(str \<times> int list) list \<Rightarrow> str \<Rightarrow> int dengjen_result" where
  "required_id kvs token =
     ok_or (InvalidConfiguration
       (lit ''Voice config's '' @ quoted (lit ''phoneme_id_map'')
        @ lit '' has no id for the required token '' @ quoted token)) (first_id kvs token)"

definition get_meta_ids :: "model_config \<Rightarrow> (int \<times> int \<times> int) dengjen_result" where
  "get_meta_ids cfg =
     res_bind (required_id (mc_phoneme_id_map cfg) PAD) (\<lambda>pad.
     res_bind (required_id (mc_phoneme_id_map cfg) BOS) (\<lambda>bos.
     res_map (\<lambda>eos. (pad, bos, eos)) (required_id (mc_phoneme_id_map cfg) EOS)))"

lemma note_entry_covers:
  "(\<exists>n. note_entry k m c = Some n \<and> unwrap_or 0 (m c) \<le> n) \<or> note_entry k m c = m c"
  by (cases k) (auto simp: note_entry_def)

lemma fold_note_entry_grows:
  "unwrap_or 0 (m c) \<le> unwrap_or 0 (fold (\<lambda>(k, _). note_entry k) kvs m c)"
proof (induction kvs arbitrary: m)
  case (Cons e kvs)
  obtain k v where e: "e = (k, v)" by (cases e)
  have "unwrap_or 0 (m c) \<le> unwrap_or 0 (note_entry k m c)"
    using note_entry_covers [of k m c] by auto
  with Cons.IH [of "note_entry k m"] show ?case by (simp add: e)
qed simp

lemma fold_note_entry_covers:
  "(c # r, v) \<in> set kvs \<Longrightarrow>
     Suc (length r) \<le> unwrap_or 0 (fold (\<lambda>(k, _). note_entry k) kvs m c)"
proof (induction kvs arbitrary: m)
  case (Cons e kvs)
  show ?case
  proof (cases "e = (c # r, v)")
    case True
    have "Suc (length r) \<le> unwrap_or 0 (note_entry (c # r) m c)" by (simp add: note_entry_def)
    with fold_note_entry_grows [of "note_entry (c # r) m" c kvs] True show ?thesis by simp
  next
    case False
    with Cons show ?thesis by (auto split: prod.splits)
  qed
qed simp

interpretation piper_scan: longest_match "phoneme_bound kvs" "first_id kvs"
proof
  fix w s i assume m: "first_id kvs (take w s) = Some i" "1 \<le> w" "w \<le> length s"
  then obtain c r where s: "s = c # r" by (cases s) auto
  obtain u where w: "w = Suc u" using m(2) by (cases w) auto
  from m(1) obtain ids where "map_of kvs (take w s) = Some ids"
    by (auto simp: first_id_def split: option.splits)
  then have "(c # take u r, ids) \<in> set kvs" by (auto simp: s w dest: map_of_SomeD)
  from fold_note_entry_covers [OF this, of Map.empty] m(3) show "w \<le> phoneme_bound kvs s"
    by (auto simp: phoneme_bound_def longest_entry_by_first_char_def s w min_def split: if_splits)
qed

text \<open>
  \<^bold>\<open>C28\<close>: bounding the width of a match by the longest entry that starts with the current
  character loses nothing: the ids sent to the model are those of the plain longest-match
  tokenization of the phonemes, each followed by the padding id, between the start and end ids.
\<close>

theorem piper_ids_are_longest_match:
  "map_phonemes_to_ids kvs phonemes pad bos eos =
     bos # concat (map (\<lambda>(w, i). [i, pad]) (reference_scan (first_id kvs) phonemes)) @ [eos] \<and>
   longest_tokens (first_id kvs) phonemes (greedy_scan (phoneme_bound kvs) (first_id kvs) phonemes)"
  using piper_scan.scan_is_reference [of kvs phonemes] piper_scan.scan_meets_spec [of kvs phonemes]
  by (simp add: map_phonemes_to_ids_def)

lemma piper_ids_example:
  "map_phonemes_to_ids [(lit ''a'', [3]), (lit ''ab'', [7, 8]), (lit ''b'', [4])] (lit ''abxa'') 0 1 2
     = [1, 7, 0, 3, 0, 2]"
  by (simp add: map_phonemes_to_ids_def phoneme_bound_def longest_entry_by_first_char_def
      note_entry_def widest_match_def match_at_def first_id_def numeral_eq_Suc)

subsection \<open>The voice and its config store\<close>

text \<open>\<^verbatim>\<open>collect\<close> into a hash map keeps the last entry of a key.\<close>

definition reversed_mapping :: "('k \<times> 'v) list \<Rightarrow> 'v \<Rightarrow> 'k option" where
  "reversed_mapping kvs = map_of (rev (map (\<lambda>(k, v). (v, k)) kvs))"

record piper_voice =
  pv_config :: model_config
  pv_speaker_map :: "int \<Rightarrow> str option"
  pv_synth_config :: piper_synthesis_config

definition piper_voice_of :: "model_config \<Rightarrow> piper_synthesis_config \<Rightarrow> piper_voice" where
  "piper_voice_of cfg sc =
     \<lparr>pv_config = cfg, pv_speaker_map = reversed_mapping (mc_speaker_id_map cfg),
      pv_synth_config = sc\<rparr>"

definition factory_synthesis_config :: "model_config \<Rightarrow> piper_synthesis_config" where
  "factory_synthesis_config cfg =
     \<lparr>ps_speaker = (if 1 < mc_num_speakers cfg then Some (resolve_default_speaker_id cfg) else None),
      ps_length_scale = ic_length_scale (mc_inference cfg),
      ps_noise_scale = ic_noise_scale (mc_inference cfg),
      ps_noise_w = ic_noise_w (mc_inference cfg)\<rparr>"

definition do_set_default_synth_config ::
  "piper_synthesis_config \<Rightarrow> piper_voice \<Rightarrow> piper_voice dengjen_result" where
  "do_set_default_synth_config new v =
     (case ps_speaker new of
        Some sid \<Rightarrow>
          if pv_speaker_map v sid = None then Inl (unknown_speaker sid)
          else Inr (v\<lparr>pv_synth_config := new\<rparr>)
      | None \<Rightarrow>
          Inr (v\<lparr>pv_synth_config := new\<lparr>ps_speaker := ps_speaker (pv_synth_config v)\<rparr>\<rparr>))"

definition piper_get_default :: "piper_voice \<Rightarrow> synthesis_config option" where
  "piper_get_default v = Some (piper_to_synthesis_config (factory_synthesis_config (pv_config v)))"

definition piper_get_fallback :: "piper_voice \<Rightarrow> synthesis_config option" where
  "piper_get_fallback v = Some (piper_to_synthesis_config (pv_synth_config v))"

definition piper_set_fallback :: "synthesis_config \<Rightarrow> piper_voice \<Rightarrow> piper_voice dengjen_result" where
  "piper_set_fallback c v = do_set_default_synth_config (piper_of_synthesis_config c) v"

definition piper_speaker_name_to_id :: "piper_voice \<Rightarrow> str \<Rightarrow> int option" where
  "piper_speaker_name_to_id v name = map_of (mc_speaker_id_map (pv_config v)) name"

definition piper_language :: "model_config \<Rightarrow> str option" where
  "piper_language cfg =
     (case mc_language cfg of Some code \<Rightarrow> Some code | None \<Rightarrow> Some (mc_espeak_voice cfg))"

definition piper_properties :: "model_config \<Rightarrow> (str \<times> str) list" where
  "piper_properties cfg = [(lit ''quality'', unwrap_or (lit ''unknown'') (mc_quality cfg))]"

definition piper_audio_output_info :: "model_config \<Rightarrow> audio_info" where
  "piper_audio_output_info cfg =
     \<lparr>sample_rate = mc_sample_rate cfg, num_channels = 1, sample_width = 2\<rparr>"

definition piper_names :: "str set" where
  "piper_names = {NOISE_SCALE, LENGTH_SCALE, NOISE_W}"

lemma piper_names_distinct [simp]:
  "NOISE_SCALE \<noteq> LENGTH_SCALE" "NOISE_SCALE \<noteq> NOISE_W" "LENGTH_SCALE \<noteq> NOISE_W"
  "LENGTH_SCALE \<noteq> NOISE_SCALE" "NOISE_W \<noteq> NOISE_SCALE" "NOISE_W \<noteq> LENGTH_SCALE"
  by (simp_all add: NOISE_SCALE_def LENGTH_SCALE_def NOISE_W_def)

lemma piper_config_roundtrip: "piper_of_synthesis_config (piper_to_synthesis_config c) = c"
  by (simp add: piper_of_synthesis_config_def piper_to_synthesis_config_def)

interpretation piper_store: config_store piper_get_fallback piper_set_fallback
    "\<lambda>v sid. pv_speaker_map v sid \<noteq> None" piper_names
proof
  fix c v
  show "(\<exists>v'. piper_set_fallback c v = Inr v') \<longleftrightarrow>
      speaker_known (\<lambda>sid. pv_speaker_map v sid \<noteq> None) c"
    by (auto simp: piper_set_fallback_def do_set_default_synth_config_def speaker_known_def
        piper_of_synthesis_config_def split: option.splits)
next
  fix c v v' assume "piper_set_fallback c v = Inr v'"
  then show "(\<lambda>sid. pv_speaker_map v' sid \<noteq> None) = (\<lambda>sid. pv_speaker_map v sid \<noteq> None)"
    by (auto simp: piper_set_fallback_def do_set_default_synth_config_def split: option.splits if_splits)
next
  fix c v v' assume "piper_set_fallback c v = Inr v'"
  then show "\<exists>c'. piper_get_fallback v' = Some c' \<and>
      (\<forall>n x. n \<in> piper_names \<and> parameters c n = Some x \<longrightarrow> parameters c' n = Some x) \<and>
      (speaker c' = speaker c \<or>
       speaker c = None \<and> (\<exists>c0. piper_get_fallback v = Some c0 \<and> speaker c' = speaker c0))"
    by (auto simp: piper_set_fallback_def do_set_default_synth_config_def piper_get_fallback_def
        piper_of_synthesis_config_def piper_to_synthesis_config_def piper_names_def
        split: option.splits if_splits)
qed

text \<open>Every speaker that a config can select by name can also be selected by id.\<close>

lemma piper_named_speaker_known:
  "piper_speaker_name_to_id (piper_voice_of cfg sc) name = Some sid \<Longrightarrow>
     pv_speaker_map (piper_voice_of cfg sc) sid \<noteq> None"
proof -
  assume "piper_speaker_name_to_id (piper_voice_of cfg sc) name = Some sid"
  then have "(name, sid) \<in> set (mc_speaker_id_map cfg)"
    by (simp add: piper_speaker_name_to_id_def piper_voice_of_def map_of_SomeD)
  then have "sid \<in> fst ` set (rev (map (\<lambda>(k, v). (v, k)) (mc_speaker_id_map cfg)))"
    by (force simp: image_iff)
  then show ?thesis
    by (simp only: piper_voice_of_def piper_voice.simps reversed_mapping_def map_of_eq_None_iff simp_thms)
qed

subsection \<open>Phonemization dispatch\<close>

record piper_features =
  ft_espeak :: bool
  ft_tashkeel :: bool
  ft_hebrew :: bool
  ft_pinyin :: bool

definition should_diacritize :: "piper_features \<Rightarrow> str \<Rightarrow> bool" where
  "should_diacritize ft voice \<longleftrightarrow> ft_tashkeel ft \<and> voice = lit ''ar''"

definition engine_dispatch ::
  "bool \<Rightarrow> str \<Rightarrow> str \<Rightarrow> ('e \<Rightarrow> str \<Rightarrow> str list dengjen_result) \<Rightarrow> 'e option \<Rightarrow> str
     \<Rightarrow> str list dengjen_result" where
  "engine_dispatch enabled disabled_msg missing_msg run engine text =
     (if \<not> enabled then Inl (PhonemizationError disabled_msg)
      else case engine of
          Some e \<Rightarrow> run e text
        | None \<Rightarrow> Inl (PhonemizationError missing_msg))"

definition phonemize_dispatch ::
  "piper_features \<Rightarrow> phoneme_type \<Rightarrow> str \<Rightarrow> ('h \<Rightarrow> str \<Rightarrow> str list dengjen_result) \<Rightarrow> 'h option
     \<Rightarrow> ('p \<Rightarrow> str \<Rightarrow> str list dengjen_result) \<Rightarrow> 'p option \<Rightarrow> str list dengjen_result option" where
  "phonemize_dispatch ft pt text hebrew hebrew_engine pinyin pinyin_engine =
     (case pt of
        PtEspeak \<Rightarrow> None
      | PtText \<Rightarrow> Some (Inr [text])
      | PtHebrew \<Rightarrow> Some (engine_dispatch (ft_hebrew ft)
          (lit ''Phonemization for phoneme_type `Hebrew` requires the `hebrew` feature'')
          (lit ''This voice's phoneme_type is `hebrew` but no Hebrew engine was initialized'')
          hebrew hebrew_engine text)
      | PtPinyin \<Rightarrow> Some (engine_dispatch (ft_pinyin ft)
          (lit ''Phonemization for phoneme_type `Pinyin` requires the `pinyin` feature'')
          (lit ''This voice's phoneme_type is `pinyin` but no pinyin engine was initialized'')
          pinyin pinyin_engine text))"

definition diacritize_text ::
  "('t \<Rightarrow> str \<Rightarrow> str + str) \<Rightarrow> 't option \<Rightarrow> str \<Rightarrow> str dengjen_result" where
  "diacritize_text tashkeel engine text =
     (case engine of
        None \<Rightarrow> Inl (PhonemizationError
          (lit ''tashkeel engine missing for a voice that needs diacritization''))
      | Some e \<Rightarrow> res_map_err (\<lambda>msg. InferenceError
          (lit ''Failed to diacritize text using libtashkeel. '' @ msg)) (tashkeel e text))"

definition do_phonemize_text ::
  "piper_features \<Rightarrow> (str \<Rightarrow> str \<Rightarrow> str + str list) \<Rightarrow> ('t \<Rightarrow> str \<Rightarrow> str + str) \<Rightarrow> 't option
     \<Rightarrow> ('h \<Rightarrow> str \<Rightarrow> str list dengjen_result) \<Rightarrow> 'h option
     \<Rightarrow> ('p \<Rightarrow> str \<Rightarrow> str list dengjen_result) \<Rightarrow> 'p option \<Rightarrow> model_config \<Rightarrow> str
     \<Rightarrow> str list dengjen_result" where
  "do_phonemize_text ft espeak tashkeel tashkeel_engine hebrew hebrew_engine pinyin pinyin_engine cfg text =
     (case phonemize_dispatch ft (unwrap_or PtEspeak (mc_phoneme_type cfg)) text
             hebrew hebrew_engine pinyin pinyin_engine of
        Some handled \<Rightarrow> handled
      | None \<Rightarrow>
          if \<not> ft_espeak ft
          then Inl (PhonemizationError (lit ''This voice requires espeak-based phonemization, but the `espeak` feature (GPL-3.0-or-later, via espeak-ng) is disabled''))
          else res_bind (if should_diacritize ft (mc_espeak_voice cfg)
                         then diacritize_text tashkeel tashkeel_engine text else Inr text) (\<lambda>source.
               res_map_err (\<lambda>e. PhonemizationError
                   (lit ''Failed to phonemize given text using espeak-ng. Error: '' @ e))
                 (espeak source (mc_espeak_voice cfg))))"

text \<open>
  Setting the fallback config of a Piper voice is refused exactly for an unknown
  speaker; otherwise the three scales read back as given, a missing scale gets its default,
  and a config without a speaker keeps the speaker in force.
\<close>

theorem piper_set_then_get:
  "(case piper_set_fallback c v of
      Inl e \<Rightarrow> (\<exists>sid. speaker c = Some sid \<and> pv_speaker_map v sid = None \<and> e = unknown_speaker sid)
    | Inr v' \<Rightarrow>
        pv_config v' = pv_config v \<and> pv_speaker_map v' = pv_speaker_map v \<and>
        (\<exists>c'. piper_get_fallback v' = Some c' \<and>
           speaker c' = (case speaker c of Some sid \<Rightarrow> Some sid | None \<Rightarrow> ps_speaker (pv_synth_config v)) \<and>
           parameters c' NOISE_SCALE = Some (unwrap_or DEFAULT_NOISE_SCALE (parameters c NOISE_SCALE)) \<and>
           parameters c' LENGTH_SCALE = Some (unwrap_or DEFAULT_LENGTH_SCALE (parameters c LENGTH_SCALE)) \<and>
           parameters c' NOISE_W = Some (unwrap_or DEFAULT_NOISE_W (parameters c NOISE_W))))"
  by (auto simp: piper_set_fallback_def do_set_default_synth_config_def piper_get_fallback_def
      piper_of_synthesis_config_def piper_to_synthesis_config_def split: option.splits)

subsection \<open>Inference inputs\<close>

text \<open>
  A tensor is its shape and its elements. Building the \<^verbatim>\<open>(1, n)\<close> id array from \<open>n\<close> ids cannot
  fail, and the runtime's own failures are those of the \<open>run\<close> argument.
\<close>

datatype tensor = TensorI64 "nat list" "int list" | TensorF32 "nat list" "f32 list"

definition inference_error :: "str \<Rightarrow> dengjen_error" where
  "inference_error why = InferenceError (lit ''Failed to run model inference. Error: '' @ why)"

definition snapshot_scales_and_speaker ::
  "piper_synthesis_config \<Rightarrow> nat \<Rightarrow> int \<Rightarrow> f32 list \<times> int option" where
  "snapshot_scales_and_speaker sc num_speakers default_speaker_id =
     ([ps_noise_scale sc, ps_length_scale sc, ps_noise_w sc],
      if 1 < num_speakers then Some (unwrap_or default_speaker_id (ps_speaker sc)) else None)"

definition build_vits_inputs :: "int list \<Rightarrow> f32 list \<Rightarrow> int option \<Rightarrow> tensor list" where
  "build_vits_inputs ids scales speaker_id =
     [TensorI64 [1, length ids] ids, TensorI64 [1] [int (length ids)], TensorF32 [3] scales]
     @ (case speaker_id of None \<Rightarrow> [] | Some sid \<Rightarrow> [TensorI64 [1] [sid]])"

definition first_output :: "tensor list \<Rightarrow> tensor dengjen_result" where
  "first_output outputs =
     ok_or (inference_error (lit ''model returned no outputs'')) (first_of outputs)"

fun extract_f32 :: "str \<Rightarrow> tensor \<Rightarrow> samples dengjen_result" where
  "extract_f32 why (TensorF32 shape xs) = Inr xs"
| "extract_f32 why (TensorI64 shape xs) = Inl (inference_error why)"

definition infer_with_values ::
  "(tensor list \<Rightarrow> str + tensor list) \<Rightarrow> str \<Rightarrow> f32 \<Rightarrow> piper_voice \<Rightarrow> int list \<Rightarrow> audio dengjen_result" where
  "infer_with_values run type_why elapsed_ms v ids =
     (case snapshot_scales_and_speaker (pv_synth_config v) (mc_num_speakers (pv_config v))
             (resolve_default_speaker_id (pv_config v)) of
        (scales, sid) \<Rightarrow>
          res_bind (res_map_err inference_error (run (build_vits_inputs ids scales sid))) (\<lambda>outputs.
          res_bind (first_output outputs) (\<lambda>out.
          res_map (\<lambda>xs. new_audio xs (mc_sample_rate (pv_config v)) (Some elapsed_ms))
            (extract_f32 type_why out))))"

definition piper_speak_one_sentence ::
  "(tensor list \<Rightarrow> str + tensor list) \<Rightarrow> str \<Rightarrow> f32 \<Rightarrow> piper_voice \<Rightarrow> str \<Rightarrow> audio dengjen_result" where
  "piper_speak_one_sentence run type_why elapsed_ms v phonemes =
     res_bind (get_meta_ids (pv_config v)) (\<lambda>(pad, bos, eos).
       infer_with_values run type_why elapsed_ms v
         (map_phonemes_to_ids (mc_phoneme_id_map (pv_config v)) phonemes pad bos eos))"

definition piper_speak_batch ::
  "(tensor list \<Rightarrow> str + tensor list) \<Rightarrow> str \<Rightarrow> f32 \<Rightarrow> piper_voice \<Rightarrow> str list
     \<Rightarrow> audio list dengjen_result" where
  "piper_speak_batch run type_why elapsed_ms v batches =
     res_bind (get_meta_ids (pv_config v)) (\<lambda>(pad, bos, eos).
       collect_map (\<lambda>phonemes. infer_with_values run type_why elapsed_ms v
           (map_phonemes_to_ids (mc_phoneme_id_map (pv_config v)) phonemes pad bos eos)) batches)"

text \<open>A batch is its sentences, one by one, up to the first failure.\<close>

lemma speak_batch_is_sentences:
  "batches \<noteq> [] \<Longrightarrow> piper_speak_batch run why ms v batches =
     collect_map (piper_speak_one_sentence run why ms v) batches"
proof (cases "get_meta_ids (pv_config v)")
  case (Inl e)
  then show "batches \<noteq> [] \<Longrightarrow> ?thesis"
    by (cases batches) (simp_all add: piper_speak_batch_def piper_speak_one_sentence_def)
next
  case (Inr m)
  obtain pad bos eos where m: "m = (pad, bos, eos)" by (cases m)
  have "piper_speak_one_sentence run why ms v = (\<lambda>phonemes. infer_with_values run why ms v
      (map_phonemes_to_ids (mc_phoneme_id_map (pv_config v)) phonemes pad bos eos))"
    by (rule ext) (simp add: piper_speak_one_sentence_def Inr m)
  with Inr m show ?thesis by (simp add: piper_speak_batch_def)
qed

subsection \<open>Engines of a voice\<close>

definition create_tashkeel_engine ::
  "piper_features \<Rightarrow> (unit \<Rightarrow> str + 't) \<Rightarrow> model_config \<Rightarrow> 't option dengjen_result" where
  "create_tashkeel_engine ft create cfg =
     (if \<not> should_diacritize ft (mc_espeak_voice cfg) then Inr None
      else res_map Some (res_map_err (\<lambda>msg. InferenceError
             (lit ''Failed to create inference engine for libtashkeel. '' @ msg)) (create ())))"

definition create_path_engine ::
  "bool \<Rightarrow> phoneme_type \<Rightarrow> str \<Rightarrow> (path \<Rightarrow> 'e dengjen_result) \<Rightarrow> model_config \<Rightarrow> path option \<Rightarrow> path
     \<Rightarrow> 'e option dengjen_result" where
  "create_path_engine enabled pt missing create cfg model_path config_path =
     (if \<not> enabled \<or> mc_phoneme_type cfg \<noteq> Some pt then Inr None
      else case model_path of
          None \<Rightarrow> Inl (InvalidConfiguration missing)
        | Some p \<Rightarrow> res_map Some (create (with_file_name config_path p)))"

definition create_hebrew_engine ::
  "piper_features \<Rightarrow> (path \<Rightarrow> 'h dengjen_result) \<Rightarrow> model_config \<Rightarrow> path \<Rightarrow> 'h option dengjen_result" where
  "create_hebrew_engine ft create cfg config_path =
     create_path_engine (ft_hebrew ft) PtHebrew
       (lit ''This voice's phoneme_type is `hebrew` but no Nakdimon model path was configured'')
       create cfg (mc_hebrew_model_path cfg) config_path"

definition create_pinyin_engine ::
  "piper_features \<Rightarrow> (path \<Rightarrow> 'p dengjen_result) \<Rightarrow> model_config \<Rightarrow> path \<Rightarrow> 'p option dengjen_result" where
  "create_pinyin_engine ft create cfg config_path =
     create_path_engine (ft_pinyin ft) PtPinyin
       (lit ''This voice's phoneme_type is `pinyin` but no g2pW model directory was configured'')
       create cfg (mc_pinyin_model_dir cfg) config_path"

text \<open>
  A voice whose engines could be created never reports a missing engine when it
  phonemizes: whatever its phoneme type, the engine that the dispatch asks for is there.
\<close>

theorem created_engines_suffice:
  assumes "create_tashkeel_engine ft mk_t cfg = Inr te"
    "create_hebrew_engine ft mk_h cfg config_path = Inr he"
    "create_pinyin_engine ft mk_p cfg config_path = Inr pe"
    "ft_hebrew ft" "ft_pinyin ft" "ft_espeak ft"
  shows "do_phonemize_text ft espeak tashkeel te hebrew he pinyin pe cfg text =
    (case unwrap_or PtEspeak (mc_phoneme_type cfg) of
       PtText \<Rightarrow> Inr [text]
     | PtHebrew \<Rightarrow> hebrew (the he) text
     | PtPinyin \<Rightarrow> pinyin (the pe) text
     | PtEspeak \<Rightarrow>
         res_bind (if should_diacritize ft (mc_espeak_voice cfg)
                   then res_map_err (\<lambda>msg. InferenceError
                       (lit ''Failed to diacritize text using libtashkeel. '' @ msg)) (tashkeel (the te) text)
                   else Inr text)
           (\<lambda>source. res_map_err (\<lambda>e. PhonemizationError
               (lit ''Failed to phonemize given text using espeak-ng. Error: '' @ e))
             (espeak source (mc_espeak_voice cfg))))"
proof -
  have h: "\<exists>e. he = Some e" if "mc_phoneme_type cfg = Some PtHebrew"
    using assms that
    by (auto simp: create_hebrew_engine_def create_path_engine_def res_conv split: option.splits)
  have p: "\<exists>e. pe = Some e" if "mc_phoneme_type cfg = Some PtPinyin"
    using assms that
    by (auto simp: create_pinyin_engine_def create_path_engine_def res_conv split: option.splits)
  have t: "\<exists>e. te = Some e" if "should_diacritize ft (mc_espeak_voice cfg)"
    using assms that by (auto simp: create_tashkeel_engine_def res_conv)
  show ?thesis
  proof (cases "mc_phoneme_type cfg")
    case None
    with t assms show ?thesis
      by (auto simp: do_phonemize_text_def phonemize_dispatch_def diacritize_text_def)
  next
    case (Some pt)
    with h p t assms show ?thesis
      by (cases pt) (auto simp: do_phonemize_text_def phonemize_dispatch_def diacritize_text_def
          engine_dispatch_def)
  qed
qed

definition demo_config :: model_config where
  "demo_config =
     \<lparr>mc_language = None, mc_sample_rate = 22050, mc_quality = None, mc_num_speakers = 1,
      mc_speaker_id_map = [], mc_streaming = None, mc_espeak_voice = lit ''ar'',
      mc_inference = \<lparr>ic_noise_scale = f_lit 1, ic_length_scale = f_lit 1, ic_noise_w = f_lit 1\<rparr>,
      mc_phoneme_id_map = [], mc_phoneme_type = Some PtHebrew, mc_default_speaker_id = None,
      mc_hop_length = None, mc_hebrew_model_path = Some (lit ''nakdimon.onnx''),
      mc_pinyin_model_dir = None\<rparr>"

theorem created_engines_suffice_witness:
  "do_phonemize_text \<lparr>ft_espeak = True, ft_tashkeel = True, ft_hebrew = True, ft_pinyin = True\<rparr>
     (\<lambda>_ _. Inl []) (\<lambda>_ _. Inl []) (Some ()) (\<lambda>p t. Inr [p, t]) (Some (lit ''v/nakdimon.onnx''))
     (\<lambda>_ _. Inl (OperationError [])) (None :: unit option) demo_config (lit ''x'')
   = Inr [lit ''v/nakdimon.onnx'', lit ''x'']"
proof -
  have "with_file_name (lit ''v/c.json'') (lit ''nakdimon.onnx'') = lit ''v/nakdimon.onnx''"
    by (simp add: with_file_name_def file_name_def path_components_def is_absolute_def
        starts_with_def slash_def dot_def parent_path_def path_join_def last_of_def)
  then show ?thesis
    using created_engines_suffice
      [where ft = "\<lparr>ft_espeak = True, ft_tashkeel = True, ft_hebrew = True, ft_pinyin = True\<rparr>"
        and cfg = demo_config and mk_t = "\<lambda>_. Inr ()" and te = "Some ()" and mk_h = Inr
        and config_path = "lit ''v/c.json''" and he = "Some (lit ''v/nakdimon.onnx'')"
        and mk_p = "\<lambda>_. Inr ()" and pe = None]
    by (simp add: create_tashkeel_engine_def create_hebrew_engine_def create_pinyin_engine_def
        create_path_engine_def should_diacritize_def demo_config_def)
qed

end
