(* ===== verification/PiperStreaming.thy ===== *)
theory PiperStreaming
  imports Piper Synth
begin

section \<open>Streaming Piper voices\<close>

text \<open>
  \<^verbatim>\<open>crates/dengjen/models/piper/src/streaming.rs\<close>: the encoder outputs, the chunker that cuts the
  mel frames of a sentence into overlapping windows, and the iterator that decodes them. \<^verbatim>\<open>isize\<close>
  arithmetic wraps at 64 bits. A slice along the time axis is kept as the start and end index that
  the code builds; what the array library takes from them is an argument, constrained by its
  documentation (\<open>slices_as_documented\<close>): a negative index counts from the back, no end means
  the end of the axis. The theorems show that the audible windows tile the sentence, and what
  happens without padding.
\<close>

definition MIN_CHUNK_SIZE :: int where "MIN_CHUNK_SIZE = 44"
definition MAX_CHUNK_SIZE :: nat where "MAX_CHUNK_SIZE = 1024"
definition CHUNK_CROSSFADE_SAMPLES :: nat where "CHUNK_CROSSFADE_SAMPLES = 42"
definition DEFAULT_HOP_LENGTH :: nat where "DEFAULT_HOP_LENGTH = 256"

subsection \<open>The chunker\<close>

record nd_slice =
  sl_start :: int
  sl_end :: "int option"

record mel_chunker =
  num_frames :: int
  base_chunk_size :: nat
  padding :: int
  hop_length :: int
  cursor :: "int option"
  chunks_emitted :: nat

definition new_chunker :: "int \<Rightarrow> int \<Rightarrow> int \<Rightarrow> int \<Rightarrow> mel_chunker" where
  "new_chunker frames chunk_size chunk_padding hop =
     \<lparr>num_frames = frames, base_chunk_size = nat (chunk_size mod 18446744073709551616),
      padding = chunk_padding, hop_length = hop, cursor = Some 0, chunks_emitted = 0\<rparr>"

definition consume :: "mel_chunker \<Rightarrow> mel_chunker" where
  "consume c = c\<lparr>cursor := None\<rparr>"

definition current_chunk_width :: "mel_chunker \<Rightarrow> int" where
  "current_chunk_width c =
     int (min (usize_sat_mul (max (base_chunk_size c) 1) (chunks_emitted c + 1)) MAX_CHUNK_SIZE)"

definition padded_end :: "mel_chunker \<Rightarrow> int \<Rightarrow> int" where
  "padded_end c region_start =
     isize_wrap (isize_wrap (region_start + current_chunk_width c) + padding c)"

definition is_final :: "mel_chunker \<Rightarrow> int \<Rightarrow> bool" where
  "is_final c region_start \<longleftrightarrow>
     isize_wrap (num_frames c - padded_end c region_start) \<le> MIN_CHUNK_SIZE"

definition mel_slice :: "mel_chunker \<Rightarrow> int \<Rightarrow> nd_slice" where
  "mel_slice c region_start =
     \<lparr>sl_start = (if region_start = 0 then 0
                  else isize_wrap (region_start - isize_wrap (padding c * 2))),
      sl_end = (if is_final c region_start then None else Some (padded_end c region_start))\<rparr>"

definition audio_slice :: "mel_chunker \<Rightarrow> int \<Rightarrow> nd_slice" where
  "audio_slice c region_start =
     \<lparr>sl_start = isize_wrap ((if region_start = 0 then 0 else padding c) * hop_length c),
      sl_end = (if is_final c region_start then None
                else Some (isize_wrap (isize_wrap (- padding c) * hop_length c)))\<rparr>"

definition chunker_next :: "mel_chunker \<Rightarrow> ((nd_slice \<times> nd_slice) \<times> mel_chunker) option" where
  "chunker_next c =
     (case cursor c of
        None \<Rightarrow> None
      | Some region_start \<Rightarrow>
          Some ((mel_slice c region_start, audio_slice c region_start),
                c\<lparr>chunks_emitted := chunks_emitted c + 1,
                  cursor := (if is_final c region_start then None
                             else Some (padded_end c region_start))\<rparr>))"

subsection \<open>The audible windows tile the sentence\<close>

text \<open>The samples of the whole sentence that a chunk contributes, from the slices it carries.\<close>

definition audible :: "int \<Rightarrow> int \<Rightarrow> nd_slice \<times> nd_slice \<Rightarrow> int \<times> int" where
  "audible frames hop ch =
     (sl_start (fst ch) * hop + sl_start (snd ch),
      unwrap_or frames (sl_end (fst ch)) * hop + unwrap_or 0 (sl_end (snd ch)))"

fun tiles :: "int \<Rightarrow> (int \<times> int) list \<Rightarrow> int \<Rightarrow> bool" where
  "tiles a [] b \<longleftrightarrow> a = b"
| "tiles a ((x, y) # r) b \<longleftrightarrow> x = a \<and> x < y \<and> tiles y r b"

definition in_frames :: "int \<Rightarrow> nd_slice \<Rightarrow> bool" where
  "in_frames frames s \<longleftrightarrow> 0 \<le> sl_start s \<and> sl_start s < unwrap_or frames (sl_end s) \<and>
     unwrap_or frames (sl_end s) \<le> frames"

text \<open>Sizes at which no index wraps, with a padding that is positive and within the first window.\<close>

definition chunker_ok :: "mel_chunker \<Rightarrow> bool" where
  "chunker_ok c \<longleftrightarrow>
     0 < num_frames c \<and> num_frames c \<le> 2 ^ 40 \<and> 0 < hop_length c \<and> hop_length c \<le> 2 ^ 20 \<and>
     0 < padding c \<and> padding c \<le> int (min (max (base_chunk_size c) 1) MAX_CHUNK_SIZE)"

definition cursor_ok :: "mel_chunker \<Rightarrow> int \<Rightarrow> bool" where
  "cursor_ok c k \<longleftrightarrow> (k = 0 \<or> 2 * padding c \<le> k) \<and> k < num_frames c"

lemma width_bounds:
  "int (min (max (base_chunk_size c) 1) MAX_CHUNK_SIZE) \<le> current_chunk_width c"
  "current_chunk_width c \<le> 1024" "1 \<le> current_chunk_width c"
proof -
  let ?b = "max (base_chunk_size c) 1"
  have "?b \<le> ?b * (chunks_emitted c + 1)" by simp
  then have "min ?b MAX_CHUNK_SIZE \<le> min (usize_sat_mul ?b (chunks_emitted c + 1)) MAX_CHUNK_SIZE"
    by (auto simp: usize_sat_mul_def usize_max_def MAX_CHUNK_SIZE_def min_def)
  then show w: "int (min ?b MAX_CHUNK_SIZE) \<le> current_chunk_width c"
    by (simp only: current_chunk_width_def of_nat_le_iff)
  show "current_chunk_width c \<le> 1024" by (simp add: current_chunk_width_def MAX_CHUNK_SIZE_def)
  have "1 \<le> int (min ?b MAX_CHUNK_SIZE)" by (simp add: MAX_CHUNK_SIZE_def)
  with w show "1 \<le> current_chunk_width c" by linarith
qed

lemma small_in_isize: "- (2 ^ 62) \<le> i \<Longrightarrow> i \<le> 2 ^ 62 \<Longrightarrow> isize_wrap i = i"
  by (rule isize_wrap_id) (simp add: in_isize_def)

lemma chunk_bounds:
  assumes "chunker_ok c" "cursor_ok c k"
  shows "padded_end c k = k + current_chunk_width c + padding c"
    and "isize_wrap (num_frames c - padded_end c k) = num_frames c - padded_end c k"
    and "isize_wrap (k - isize_wrap (padding c * 2)) = k - padding c * 2"
    and "isize_wrap (padding c * hop_length c) = padding c * hop_length c"
    and "isize_wrap (isize_wrap (- padding c) * hop_length c) = - padding c * hop_length c"
    and "padding c \<le> current_chunk_width c"
proof -
  have p: "0 < padding c" "padding c \<le> 1024" "padding c \<le> current_chunk_width c"
    using assms(1) width_bounds(1) [of c] by (auto simp: chunker_ok_def MAX_CHUNK_SIZE_def)
  have k: "0 \<le> k" "k < 2 ^ 40" "num_frames c \<le> 2 ^ 40" "0 < num_frames c"
    using assms p by (auto simp: cursor_ok_def chunker_ok_def)
  have h: "0 < hop_length c" "hop_length c \<le> 2 ^ 20" using assms(1) by (auto simp: chunker_ok_def)
  have ph: "0 \<le> padding c * hop_length c" "padding c * hop_length c \<le> 1024 * 2 ^ 20"
    using p h mult_mono [of "padding c" 1024 "hop_length c" "2 ^ 20"] by simp_all
  note w = width_bounds [of c]
  show pe: "padded_end c k = k + current_chunk_width c + padding c"
    using p k w by (simp add: padded_end_def small_in_isize)
  show "isize_wrap (num_frames c - padded_end c k) = num_frames c - padded_end c k"
    unfolding pe using p k w by (intro small_in_isize) simp_all
  show "isize_wrap (k - isize_wrap (padding c * 2)) = k - padding c * 2"
    using p k by (simp add: small_in_isize)
  show "isize_wrap (padding c * hop_length c) = padding c * hop_length c"
    using ph by (intro small_in_isize) simp_all
  have "isize_wrap (- padding c) = - padding c" using p by (intro small_in_isize) simp_all
  moreover have "isize_wrap (- (padding c * hop_length c)) = - (padding c * hop_length c)"
    using ph by (intro small_in_isize) simp_all
  ultimately show "isize_wrap (isize_wrap (- padding c) * hop_length c) = - padding c * hop_length c"
    by simp
  show "padding c \<le> current_chunk_width c" by (rule p)
qed

lemma final_iff:
  "chunker_ok c \<Longrightarrow> cursor_ok c k \<Longrightarrow>
     is_final c k \<longleftrightarrow> num_frames c - (k + current_chunk_width c + padding c) \<le> 44"
  using chunk_bounds(1,2) [of c k] by (simp add: is_final_def MIN_CHUNK_SIZE_def)

lemma chunk_audible:
  assumes "chunker_ok c" "cursor_ok c k"
  shows "audible (num_frames c) (hop_length c) (mel_slice c k, audio_slice c k)
       = ((if k = 0 then 0 else k - padding c) * hop_length c,
          (if is_final c k then num_frames c else padded_end c k - padding c) * hop_length c)"
proof -
  note b = chunk_bounds [OF assms]
  have "isize_wrap 0 = 0" by (simp add: small_in_isize)
  then show ?thesis
    by (cases "k = 0"; cases "is_final c k")
       (simp_all add: audible_def mel_slice_def audio_slice_def b(3,4,5) left_diff_distrib)
qed

lemma chunk_in_frames:
  assumes "chunker_ok c" "cursor_ok c k"
  shows "in_frames (num_frames c) (mel_slice c k)"
proof -
  note b = chunk_bounds [OF assms] width_bounds(3) [of c]
  have p: "0 < padding c" using assms(1) by (simp add: chunker_ok_def)
  have "0 \<le> (if k = 0 then 0 else k - padding c * 2)" "k < num_frames c" "0 \<le> k"
    using assms p by (auto simp: cursor_ok_def)
  then show ?thesis
    using b p final_iff [OF assms] by (auto simp: in_frames_def mel_slice_def)
qed

lemma chunks_tile:
  assumes "chunker_ok c" "cursor c = Some k" "cursor_ok c k" "nat (num_frames c - k) \<le> n"
  shows "tiles ((if k = 0 then 0 else k - padding c) * hop_length c)
           (map (audible (num_frames c) (hop_length c)) (drain chunker_next n c))
           (num_frames c * hop_length c) \<and>
         (\<forall>ch \<in> set (drain chunker_next n c). in_frames (num_frames c) (fst ch))"
  using assms
proof (induction n arbitrary: c k)
  case 0
  then show ?case by (simp add: cursor_ok_def)
next
  case (Suc n)
  define c' where "c' = c\<lparr>chunks_emitted := chunks_emitted c + 1,
      cursor := (if is_final c k then None else Some (padded_end c k))\<rparr>"
  note ok = Suc.prems(1,3)
  have step: "chunker_next c = Some ((mel_slice c k, audio_slice c k), c')"
    by (simp add: chunker_next_def Suc.prems(2) c'_def)
  note b = chunk_bounds [OF ok] width_bounds(3) [of c]
  have p: "0 < padding c" "0 < hop_length c" using ok(1) by (auto simp: chunker_ok_def)
  have k: "0 \<le> k" "k < num_frames c" using ok p by (auto simp: cursor_ok_def)
  have lt: "(if k = 0 then 0 else k - padding c) * hop_length c
      < (if is_final c k then num_frames c else padded_end c k - padding c) * hop_length c"
    using p b k by (intro mult_strict_right_mono) auto
  show ?case
  proof (cases "is_final c k")
    case True
    then have "drain chunker_next n c' = []"
      by (cases n) (simp_all add: chunker_next_def c'_def)
    with True step lt chunk_audible [OF ok] chunk_in_frames [OF ok] show ?thesis by simp
  next
    case False
    then have pe: "padded_end c k < num_frames c" "2 * padding c \<le> padded_end c k" "k < padded_end c k"
      using final_iff [OF ok] b p k by auto
    have same: "num_frames c' = num_frames c" "hop_length c' = hop_length c" "padding c' = padding c"
      by (simp_all add: c'_def)
    have "tiles ((if padded_end c k = 0 then 0 else padded_end c k - padding c') * hop_length c')
           (map (audible (num_frames c') (hop_length c')) (drain chunker_next n c'))
           (num_frames c' * hop_length c') \<and>
         (\<forall>ch \<in> set (drain chunker_next n c'). in_frames (num_frames c') (fst ch))"
    proof (rule Suc.IH)
      show "chunker_ok c'" using ok(1) by (simp add: c'_def chunker_ok_def)
      show "cursor c' = Some (padded_end c k)" using False by (simp add: c'_def)
      show "cursor_ok c' (padded_end c k)" using pe by (simp add: c'_def cursor_ok_def)
      show "nat (num_frames c' - padded_end c k) \<le> n" using pe Suc.prems(4) same by simp
    qed
    with False step lt pe p same chunk_audible [OF ok] chunk_in_frames [OF ok] show ?thesis by simp
  qed
qed

text \<open>
  With a positive padding that the first window can hold, the chunks of a sentence
  are finitely many, every one decodes frames that exist, and after trimming their padding they cover
  the samples of the sentence from the first to the last, each exactly once and in order.
\<close>

theorem chunks_cover_sentence:
  assumes "0 < frames" "frames \<le> 2 ^ 40" "0 < hop" "hop \<le> 2 ^ 20"
    "0 < pad" "pad \<le> chunk_size" "pad \<le> 1024" "chunk_size < 2 ^ 63" "nat frames \<le> n"
  shows "tiles 0 (map (audible frames hop) (drain chunker_next n (new_chunker frames chunk_size pad hop)))
           (frames * hop) \<and>
         (\<forall>ch \<in> set (drain chunker_next n (new_chunker frames chunk_size pad hop)).
            in_frames frames (fst ch))"
proof -
  define c where "c = new_chunker frames chunk_size pad hop"
  have "chunker_ok c"
    using assms by (auto simp: c_def new_chunker_def chunker_ok_def MAX_CHUNK_SIZE_def min_def max_def)
  moreover have "cursor c = Some 0" "cursor_ok c 0" "nat (num_frames c - 0) \<le> n"
    using assms by (simp_all add: c_def new_chunker_def cursor_ok_def)
  ultimately show ?thesis
    using chunks_tile [of c 0 n] by (simp add: c_def new_chunker_def)
qed

theorem chunks_cover_sentence_witness:
  "tiles 0 (map (audible 200 256) (drain chunker_next 200 (new_chunker 200 40 3 256))) (200 * 256)"
  using chunks_cover_sentence [of 200 256 3 40 200] by simp

subsection \<open>Slices and decoded chunks\<close>

definition slices_as_documented :: "('a list \<Rightarrow> nd_slice \<Rightarrow> 'a list) \<Rightarrow> bool" where
  "slices_as_documented slc \<longleftrightarrow>
     (\<forall>xs s. case (if sl_start s < 0 then int (length xs) + sl_start s else sl_start s,
                   case sl_end s of None \<Rightarrow> int (length xs)
                   | Some e \<Rightarrow> if e < 0 then int (length xs) + e else e) of
        (a, b) \<Rightarrow> 0 \<le> a \<and> a \<le> int (length xs) \<and> 0 \<le> b \<and> b \<le> int (length xs) \<longrightarrow>
          slc xs s = drop (nat a) (take (nat b) xs))"

definition trim_chunk_padding ::
  "(f32 list \<Rightarrow> nd_slice \<Rightarrow> f32 list) \<Rightarrow> (f32 \<Rightarrow> f32) \<Rightarrow> samples \<Rightarrow> nd_slice \<Rightarrow> samples" where
  "trim_chunk_padding slc sn waveform audio_index =
     crossfade sn (slc waveform audio_index) CHUNK_CROSSFADE_SAMPLES"

text \<open>
  With a padding of zero, every chunk but the last is silent: its end index
  \<^verbatim>\<open>-0\<close> is not "no trimming" but the start of the axis, so all of its decoded audio is dropped.
\<close>

theorem zero_padding_drops_audio:
  assumes "slices_as_documented slc" "chunker_next c = Some ((mel, aud), c')"
    "padding c = 0" "cursor c' = Some k"
  shows "trim_chunk_padding slc sn waveform aud = []"
proof -
  have z: "isize_wrap 0 = 0" by (simp add: small_in_isize)
  from assms(2,3,4) have "aud = \<lparr>sl_start = 0, sl_end = Some 0\<rparr>"
    by (auto simp: chunker_next_def audio_slice_def z split: option.splits if_splits)
  then have "slc waveform aud = []"
    using assms(1) unfolding slices_as_documented_def by (auto dest: spec [of _ waveform])
  then show ?thesis by (simp add: trim_chunk_padding_def crossfade_def)
qed

definition back_slice :: "'a list \<Rightarrow> nd_slice \<Rightarrow> 'a list" where
  "back_slice xs s =
     drop (nat (if sl_start s < 0 then int (length xs) + sl_start s else sl_start s))
       (take (nat (case sl_end s of None \<Rightarrow> int (length xs)
                   | Some e \<Rightarrow> if e < 0 then int (length xs) + e else e)) xs)"

lemma back_slice_documented: "slices_as_documented back_slice"
  by (auto simp: slices_as_documented_def back_slice_def)

theorem zero_padding_drops_audio_witness:
  "\<exists>mel aud c'. chunker_next (new_chunker 500 40 0 256) = Some ((mel, aud), c') \<and>
     trim_chunk_padding back_slice id [f_lit 1, f_lit 1] aud = []"
proof -
  define c where "c = new_chunker 500 40 0 256"
  obtain mel aud c' where s: "chunker_next c = Some ((mel, aud), c')"
    by (simp add: chunker_next_def c_def new_chunker_def)
  have "current_chunk_width c = 40"
    by (simp add: c_def new_chunker_def current_chunk_width_def usize_sat_mul_def usize_max_def
        MAX_CHUNK_SIZE_def)
  then have "padded_end c 0 = 40" "\<not> is_final c 0"
    by (simp_all add: padded_end_def is_final_def small_in_isize MIN_CHUNK_SIZE_def)
       (simp_all add: c_def new_chunker_def small_in_isize)
  with s have "cursor c' = Some 40"
    by (auto simp: chunker_next_def c_def new_chunker_def)
  moreover have "padding c = 0" by (simp add: c_def new_chunker_def)
  ultimately have "trim_chunk_padding back_slice id [f_lit 1, f_lit 1] aud = []"
    using zero_padding_drops_audio [OF back_slice_documented s] by blast
  with s show ?thesis unfolding c_def by blast
qed

subsection \<open>Encoder outputs and the streamer\<close>

record nd_array =
  nd_shape :: "nat list"
  nd_data :: "f32 list"

record encoder_outputs =
  eo_z :: nd_array
  eo_y_mask :: nd_array
  eo_p_duration :: "nd_array option"
  eo_g :: nd_array

definition extract_named_array ::
  "str \<Rightarrow> str \<Rightarrow> (str \<times> tensor) list \<Rightarrow> str \<Rightarrow> nd_array dengjen_result" where
  "extract_named_array type_why shape_why outs name =
     (case map_of outs name of
        None \<Rightarrow> Inl (InferenceError (lit ''Encoder output '' @ quoted name @ lit '' is missing''))
      | Some (TensorI64 sh xs) \<Rightarrow> Inl (inference_error type_why)
      | Some (TensorF32 sh xs) \<Rightarrow>
          if prod_list sh = length xs then Inr \<lparr>nd_shape = sh, nd_data = xs\<rparr>
          else Inl (inference_error shape_why))"

definition show_shape :: "nat list \<Rightarrow> str" where
  "show_shape sh = show_int_list (map int sh)"

definition check_dims :: "str \<Rightarrow> nd_array \<Rightarrow> unit dengjen_result" where
  "check_dims name a =
     (if length (nd_shape a) < 3
      then Inl (with_message (lit ''Encoder output '' @ quoted name
             @ lit '' must have at least 3 dimensions, got shape '' @ show_shape (nd_shape a)))
      else Inr ())"

definition optional_array ::
  "str \<Rightarrow> str \<Rightarrow> (str \<times> tensor) list \<Rightarrow> str \<Rightarrow> nd_array option dengjen_result" where
  "optional_array type_why shape_why outs name =
     (if map_of outs name = None then Inr None
      else res_map Some (extract_named_array type_why shape_why outs name))"

definition encoder_outputs_from_values ::
  "str \<Rightarrow> str \<Rightarrow> (str \<times> tensor) list \<Rightarrow> encoder_outputs dengjen_result" where
  "encoder_outputs_from_values tw sw outs =
     res_bind (extract_named_array tw sw outs (lit ''z'')) (\<lambda>z.
     res_bind (extract_named_array tw sw outs (lit ''y_mask'')) (\<lambda>y_mask.
     res_bind (check_dims (lit ''z'') z) (\<lambda>_.
     res_bind (check_dims (lit ''y_mask'') y_mask) (\<lambda>_.
     res_bind (optional_array tw sw outs (lit ''p_duration'')) (\<lambda>p_duration.
     res_map (\<lambda>g. \<lparr>eo_z = z, eo_y_mask = y_mask, eo_p_duration = p_duration,
                    eo_g = unwrap_or \<lparr>nd_shape = [0], nd_data = []\<rparr> g\<rparr>)
       (optional_array tw sw outs (lit ''g'')))))))"

definition decoder_inputs :: "encoder_outputs \<Rightarrow> nd_array \<Rightarrow> nd_array \<Rightarrow> nd_array list" where
  "decoder_inputs eo z y_mask =
     [z, y_mask] @ (if nd_data (eo_g eo) = [] then [] else [eo_g eo])"

definition run_decoder ::
  "(nd_array list \<Rightarrow> str + tensor list) \<Rightarrow> str \<Rightarrow> nd_array list \<Rightarrow> samples dengjen_result" where
  "run_decoder run type_why inputs =
     res_bind (res_map_err inference_error (run inputs)) (\<lambda>outputs.
     res_bind (first_output outputs) (extract_f32 type_why))"

definition infer_decoder ::
  "(nd_array list \<Rightarrow> str + tensor list) \<Rightarrow> str \<Rightarrow> encoder_outputs \<Rightarrow> samples dengjen_result" where
  "infer_decoder run type_why eo = run_decoder run type_why (decoder_inputs eo (eo_z eo) (eo_y_mask eo))"

record array_ops =
  slice_axis2 :: "nd_array \<Rightarrow> nd_slice \<Rightarrow> nd_array"
  slice_wave :: "f32 list \<Rightarrow> nd_slice \<Rightarrow> f32 list"

definition synthesize_chunk ::
  "array_ops \<Rightarrow> (f32 \<Rightarrow> f32) \<Rightarrow> (nd_array list \<Rightarrow> str + tensor list) \<Rightarrow> str \<Rightarrow> encoder_outputs
     \<Rightarrow> nd_slice \<Rightarrow> nd_slice \<Rightarrow> samples dengjen_result" where
  "synthesize_chunk ops sn run type_why eo mel_index audio_index =
     res_map (\<lambda>wave. trim_chunk_padding (slice_wave ops) sn wave audio_index)
       (run_decoder run type_why
          (decoder_inputs eo (slice_axis2 ops (eo_z eo) mel_index)
                             (slice_axis2 ops (eo_y_mask eo) mel_index)))"

record speech_streamer =
  st_chunker :: mel_chunker
  st_one_shot :: bool
  st_cancelled :: bool

definition new_streamer ::
  "encoder_outputs \<Rightarrow> nat \<Rightarrow> nat \<Rightarrow> nat \<Rightarrow> bool \<Rightarrow> speech_streamer dengjen_result" where
  "new_streamer eo chunk_size chunk_padding hop cancelled =
     res_map (\<lambda>frames.
        \<lparr>st_chunker = new_chunker (isize_wrap (int frames)) (isize_wrap (int chunk_size))
                        (isize_wrap (int chunk_padding)) (isize_wrap (int hop)),
         st_one_shot = frames \<le> usize_wrap (usize_wrap (chunk_size * 2) + usize_wrap (chunk_padding * 2)),
         st_cancelled = cancelled\<rparr>)
       (ok_or (with_message (lit ''Invalid encoder output: expected a time axis''))
          (get_at (nd_shape (eo_z eo)) 2))"

definition streamer_next ::
  "samples dengjen_result \<Rightarrow> (nd_slice \<Rightarrow> nd_slice \<Rightarrow> samples dengjen_result) \<Rightarrow> speech_streamer
     \<Rightarrow> (samples dengjen_result \<times> speech_streamer) option" where
  "streamer_next whole chunk s =
     (if st_cancelled s then None
      else case chunker_next (st_chunker s) of
          None \<Rightarrow> None
        | Some ((mel_index, audio_index), c') \<Rightarrow>
            if st_one_shot s then Some (whole, s\<lparr>st_chunker := consume c'\<rparr>)
            else Some (chunk mel_index audio_index, s\<lparr>st_chunker := c'\<rparr>))"

definition piper_stream_synthesis ::
  "(tensor list \<Rightarrow> str + (str \<times> tensor) list) \<Rightarrow> str \<Rightarrow> str \<Rightarrow> piper_voice \<Rightarrow> bool \<Rightarrow> str \<Rightarrow> nat \<Rightarrow> nat
     \<Rightarrow> (encoder_outputs \<times> speech_streamer) option dengjen_result" where
  "piper_stream_synthesis run_encoder tw sw v cancelled phonemes chunk_size chunk_padding =
     (if cancelled then Inr None
      else res_bind (get_meta_ids (pv_config v)) (\<lambda>(pad, bos, eos).
        (case snapshot_scales_and_speaker (pv_synth_config v) (mc_num_speakers (pv_config v))
                (resolve_default_speaker_id (pv_config v)) of
           (scales, sid) \<Rightarrow>
             res_bind (res_map_err inference_error (run_encoder (build_vits_inputs
               (map_phonemes_to_ids (mc_phoneme_id_map (pv_config v)) phonemes pad bos eos) scales sid)))
               (\<lambda>outs. res_bind (encoder_outputs_from_values tw sw outs) (\<lambda>eo.
                  res_map (\<lambda>st. Some (eo, st))
                    (new_streamer eo chunk_size chunk_padding
                       (unwrap_or DEFAULT_HOP_LENGTH (mc_hop_length (pv_config v))) cancelled))))))"

text \<open>A sentence no longer than two chunks and their padding is decoded whole, in one item.\<close>

lemma one_shot_items:
  assumes "st_one_shot s" "\<not> st_cancelled s" "cursor (st_chunker s) = Some k" "0 < n"
  shows "drain (streamer_next whole chunk) n s = [whole]"
proof -
  obtain m where n: "n = Suc m" using assms(4) by (cases n) auto
  obtain ch c' where nx: "chunker_next (st_chunker s) = Some (ch, c')"
    by (simp add: chunker_next_def assms(3))
  have "streamer_next whole chunk (s\<lparr>st_chunker := consume c'\<rparr>) = None"
    by (simp add: streamer_next_def chunker_next_def consume_def)
  then have "drain (streamer_next whole chunk) m (s\<lparr>st_chunker := consume c'\<rparr>) = []"
    by (cases m) simp_all
  with nx assms show ?thesis by (cases ch) (simp add: n streamer_next_def)
qed

lemma streamed_items:
  "\<not> st_one_shot s \<Longrightarrow> \<not> st_cancelled s \<Longrightarrow>
     drain (streamer_next whole chunk) n s
       = map (\<lambda>(mel, aud). chunk mel aud) (drain chunker_next n (st_chunker s))"
proof (induction n arbitrary: s)
  case (Suc n)
  then show ?case
    by (cases "chunker_next (st_chunker s)") (auto simp: streamer_next_def)
qed simp

lemma drain_prefix: "drain nxt k s = take k (drain nxt (k + n) s)"
proof (induction k arbitrary: s)
  case (Suc k)
  show ?case
  proof (cases "nxt s")
    case (Some p)
    then show ?thesis using Suc.IH [of "snd p"] by (cases p) simp
  qed simp
qed simp

text \<open>A consumer that asks k times, then cancels the stream and asks n times more.\<close>

fun drain_cancelling ::
  "samples dengjen_result \<Rightarrow> (nd_slice \<Rightarrow> nd_slice \<Rightarrow> samples dengjen_result) \<Rightarrow> nat \<Rightarrow> nat \<Rightarrow> speech_streamer
     \<Rightarrow> samples dengjen_result list" where
  "drain_cancelling whole chunk 0 n s = drain (streamer_next whole chunk) n (s\<lparr>st_cancelled := True\<rparr>)"
| "drain_cancelling whole chunk (Suc k) n s =
     (case streamer_next whole chunk s of
        None \<Rightarrow> drain (streamer_next whole chunk) n (s\<lparr>st_cancelled := True\<rparr>)
      | Some (x, s') \<Rightarrow> x # drain_cancelling whole chunk k n s')"

lemma cancelled_streamer: "st_cancelled s \<Longrightarrow> drain (streamer_next whole chunk) n s = []"
  by (cases n) (simp_all add: streamer_next_def)

lemma drain_cancelling_take:
  "drain_cancelling whole chunk k n s = drain (streamer_next whole chunk) k s"
proof (induction k arbitrary: s)
  case 0
  show ?case by (simp add: cancelled_streamer)
next
  case (Suc k)
  show ?case
  proof (cases "streamer_next whole chunk s")
    case (Some p)
    then show ?thesis using Suc.IH [of "snd p"] by (cases p) simp
  qed (simp add: cancelled_streamer)
qed

text \<open>
  \<^bold>\<open>C24\<close>: a streamed sentence, for a positive padding no larger than the chunk size and 1024. Uncancelled it is
  decoded whole when it fits two chunks with their padding, else it is the list of its decoded windows,
  and those windows tile the sentence: together they are heard from its first sample to its last, none
  twice. Cancelled when it was opened, it yields nothing; cancelled after k items, it yields the first k items and
  nothing more. Sizes are bounded so that no index leaves its integer type.
\<close>

theorem streamed_sentence:
  assumes "new_streamer eo cs pad hop cancelled = Inr s" "get_at (nd_shape (eo_z eo)) 2 = Some frames"
    "0 < frames" "frames \<le> 2 ^ 40" "0 < hop" "hop \<le> 2 ^ 20" "0 < pad" "pad \<le> cs" "pad \<le> 1024"
    "cs < 2 ^ 62" "frames \<le> n" "k \<le> n"
  shows "drain (streamer_next whole chunk) n s =
           (if cancelled then []
            else if frames \<le> cs * 2 + pad * 2 then [whole]
            else map (\<lambda>(mel, aud). chunk mel aud) (drain chunker_next n (st_chunker s))) \<and>
         tiles 0 (map (audible (int frames) (int hop)) (drain chunker_next n (st_chunker s)))
           (int frames * int hop) \<and>
         drain_cancelling whole chunk k m s = take k (drain (streamer_next whole chunk) n s)"
proof -
  have le: "int frames \<le> 2 ^ 40" "int hop \<le> 2 ^ 20" "int cs < 2 ^ 62"
    using assms(4,6,10) by simp_all
  have ids: "isize_wrap (int frames) = int frames" "isize_wrap (int cs) = int cs"
    "isize_wrap (int pad) = int pad" "isize_wrap (int hop) = int hop"
    using le assms(8) by (intro small_in_isize; simp)+
  have one: "usize_wrap (usize_wrap (cs * 2) + usize_wrap (pad * 2)) = cs * 2 + pad * 2"
    using assms(9,10) by (simp add: usize_max_def)
  have s: "s = \<lparr>st_chunker = new_chunker (int frames) (int cs) (int pad) (int hop),
                st_one_shot = frames \<le> cs * 2 + pad * 2, st_cancelled = cancelled\<rparr>"
    using assms(1,2) by (simp add: new_streamer_def ids one)
  have "tiles 0 (map (audible (int frames) (int hop))
      (drain chunker_next n (new_chunker (int frames) (int cs) (int pad) (int hop)))) (int frames * int hop)"
    using chunks_tile [of "new_chunker (int frames) (int cs) (int pad) (int hop)" 0 n] le assms
    by (auto simp: new_chunker_def chunker_ok_def cursor_ok_def MAX_CHUNK_SIZE_def min_def max_def)
  moreover have "drain (streamer_next whole chunk) n s = []" if "cancelled"
    using that by (cases n) (simp_all add: s streamer_next_def)
  moreover have "drain (streamer_next whole chunk) n s = [whole]"
    if "\<not> cancelled" "frames \<le> cs * 2 + pad * 2"
    using that assms(3,11) by (intro one_shot_items [where k = 0]) (simp_all add: s new_chunker_def)
  moreover have "drain (streamer_next whole chunk) n s =
      map (\<lambda>(mel, aud). chunk mel aud) (drain chunker_next n (st_chunker s))"
    if "\<not> cancelled" "\<not> frames \<le> cs * 2 + pad * 2"
    using that by (intro streamed_items) (simp_all add: s)
  moreover have "drain_cancelling whole chunk k m s = take k (drain (streamer_next whole chunk) n s)"
    using drain_prefix [of _ k s "n - k"] assms(12) by (simp add: drain_cancelling_take)
  ultimately show ?thesis by (simp add: s)
qed

theorem streamed_sentence_witness:
  "\<exists>s. new_streamer \<lparr>eo_z = \<lparr>nd_shape = [1, 192, 300], nd_data = []\<rparr>,
        eo_y_mask = \<lparr>nd_shape = [1, 1, 300], nd_data = []\<rparr>, eo_p_duration = None,
        eo_g = \<lparr>nd_shape = [0], nd_data = []\<rparr>\<rparr> 72 3 256 False = Inr s \<and>
     drain (streamer_next (Inr []) (\<lambda>_ _. Inr [f_lit 1])) 300 s
       = map (\<lambda>_. Inr [f_lit 1]) (drain chunker_next 300 (st_chunker s))"
proof -
  define eo where "eo = \<lparr>eo_z = \<lparr>nd_shape = [1, 192, 300], nd_data = []\<rparr>,
        eo_y_mask = \<lparr>nd_shape = [1, 1, 300], nd_data = []\<rparr>, eo_p_duration = None,
        eo_g = \<lparr>nd_shape = [0], nd_data = []\<rparr>\<rparr>"
  have g: "get_at (nd_shape (eo_z eo)) 2 = Some 300" by (simp add: eo_def get_at_def)
  then obtain s where s: "new_streamer eo 72 3 256 False = Inr s" by (simp add: new_streamer_def)
  have "drain (streamer_next (Inr []) (\<lambda>_ _. Inr [f_lit 1])) 300 s
      = map (\<lambda>(mel, aud). Inr [f_lit 1]) (drain chunker_next 300 (st_chunker s))"
    using streamed_sentence [OF s g, of 300 0 "Inr []" "\<lambda>_ _. Inr [f_lit 1]"] by simp
  with s show ?thesis unfolding eo_def by (auto simp: case_prod_beta)
qed

text \<open>
  Why the padding has to be at most the chunk size: beyond it the second window begins before the first frame, and a
  negative index counts from the end of the axis.
\<close>

lemma large_padding_leaves_sentence:
  "map (\<lambda>w. (sl_start (fst w), sl_end (fst w))) (drain chunker_next 3 (new_chunker 200 10 20 256)) =
     [(0, Some 30), (- 10, Some 70), (30, Some 120)]"
  by (simp add: chunker_next_def new_chunker_def mel_slice_def audio_slice_def is_final_def padded_end_def
      current_chunk_width_def isize_wrap_def usize_sat_mul_def usize_max_def MAX_CHUNK_SIZE_def MIN_CHUNK_SIZE_def
      numeral_3_eq_3)

text \<open>
  The chunker ends: within the bounds that keep its indices from wrapping, and for any padding,
  asking more often than there are frames gives no further chunk.
\<close>

definition chunker_small :: "mel_chunker \<Rightarrow> bool" where
  "chunker_small c \<longleftrightarrow> 0 \<le> num_frames c \<and> num_frames c \<le> 2 ^ 40 \<and> 0 \<le> padding c \<and> padding c \<le> 2 ^ 40 \<and>
     (case cursor c of None \<Rightarrow> True | Some k \<Rightarrow> 0 \<le> k \<and> k \<le> 2 ^ 40)"

definition chunks_left :: "mel_chunker \<Rightarrow> nat" where
  "chunks_left c = (case cursor c of None \<Rightarrow> 0 | Some k \<Rightarrow> Suc (nat (num_frames c - k)))"

lemma chunker_advances:
  assumes "chunker_small c" "chunker_next c = Some (ch, c')"
  shows "chunker_small c' \<and> chunks_left c' < chunks_left c \<and> num_frames c' = num_frames c"
proof -
  obtain k where k: "cursor c = Some k" "0 \<le> k" "k \<le> 2 ^ 40"
    using assms by (auto simp: chunker_small_def chunker_next_def split: option.splits)
  note w = width_bounds(2,3) [of c]
  have b: "0 \<le> num_frames c" "num_frames c \<le> 2 ^ 40" "0 \<le> padding c" "padding c \<le> 2 ^ 40"
    using assms(1) by (auto simp: chunker_small_def)
  have pe: "padded_end c k = k + current_chunk_width c + padding c"
    using k w b by (simp add: padded_end_def small_in_isize)
  have c': "c' = c\<lparr>chunks_emitted := chunks_emitted c + 1,
      cursor := (if is_final c k then None else Some (padded_end c k))\<rparr>"
    using assms(2) by (auto simp: chunker_next_def k(1))
  show ?thesis
  proof (cases "is_final c k")
    case True
    then show ?thesis using assms(1) by (simp add: c' chunker_small_def chunks_left_def k(1))
  next
    case False
    have "isize_wrap (num_frames c - padded_end c k) = num_frames c - padded_end c k"
      using k w b unfolding pe by (intro small_in_isize) simp_all
    with False have "44 < num_frames c - padded_end c k"
      by (simp add: is_final_def MIN_CHUNK_SIZE_def)
    with False k w b pe show ?thesis by (simp add: c' chunker_small_def chunks_left_def)
  qed
qed

lemma drain_fuel:
  assumes "\<And>s x s'. P s \<Longrightarrow> nxt s = Some (x, s') \<Longrightarrow> P s' \<and> m s' < (m s :: nat)"
    "P s" "m s \<le> n" "m s \<le> k"
  shows "drain nxt n s = drain nxt k s"
  using assms(2-4)
proof (induction n arbitrary: s k)
  case 0
  have "nxt s = None"
  proof (cases "nxt s")
    case (Some p)
    then show ?thesis using assms(1) [of s "fst p" "snd p"] 0 by simp
  qed simp
  then show ?case by (cases k) simp_all
next
  case (Suc n)
  show ?case
  proof (cases "nxt s")
    case None
    then show ?thesis by (cases k) simp_all
  next
    case (Some p)
    obtain x s' where p: "p = (x, s')" by (cases p)
    with assms(1) [of s x s'] Suc.prems Some have s': "P s'" "m s' < m s" by auto
    then obtain j where j: "k = Suc j" using Suc.prems by (cases k) auto
    with Some p s' Suc.prems Suc.IH [of s' j] show ?thesis by simp
  qed
qed

lemma streamer_advances:
  assumes "chunker_small (st_chunker s)" "streamer_next whole chunk s = Some (x, s')"
  shows "chunker_small (st_chunker s') \<and> chunks_left (st_chunker s') < chunks_left (st_chunker s)"
proof -
  obtain ch c' where n: "chunker_next (st_chunker s) = Some (ch, c')"
    "s' = s\<lparr>st_chunker := (if st_one_shot s then consume c' else c')\<rparr>"
    using assms(2) by (auto simp: streamer_next_def split: option.splits if_splits)
  with chunker_advances [OF assms(1) n(1)] show ?thesis
    by (auto simp: consume_def chunker_small_def chunks_left_def)
qed

lemma streaming_fuel:
  assumes "new_streamer eo cs pad hop stopped = Inr st" "get_at (nd_shape (eo_z eo)) 2 = Some frames"
    "frames \<le> 2 ^ 40" "pad \<le> 2 ^ 40" "frames < n"
  shows "drain (streamer_next whole chunk) n st =
     drain (streamer_next whole chunk) (Suc (nat (num_frames (st_chunker st)))) st"
proof (rule drain_fuel [where P = "\<lambda>s. chunker_small (st_chunker s)" and m = "\<lambda>s. chunks_left (st_chunker s)"])
  have le: "int frames \<le> 2 ^ 40" "int pad \<le> 2 ^ 40" using assms(3,4) by simp_all
  then have ids: "isize_wrap (int frames) = int frames" "isize_wrap (int pad) = int pad"
    by (intro small_in_isize; simp)+
  with assms(1,2) le show "chunker_small (st_chunker st)"
    by (auto simp: new_streamer_def new_chunker_def chunker_small_def)
  show "chunks_left (st_chunker st) \<le> Suc (nat (num_frames (st_chunker st)))" "chunks_left (st_chunker st) \<le> n"
    using assms(1,2,5) ids by (auto simp: new_streamer_def new_chunker_def chunks_left_def)
qed (rule streamer_advances)

end
