(* ===== verification/Kokoro.thy ===== *)
theory Kokoro
  imports ConfigStore Greedy Paths Synth Synthesizer
begin

section \<open>The Kokoro backend\<close>

text \<open>
  \<^verbatim>\<open>crates/dengjen/models/kokoro/src\<close>: \<^verbatim>\<open>vocab.rs\<close>, \<^verbatim>\<open>voice_style.rs\<close>, \<^verbatim>\<open>config.rs\<close>,
  \<^verbatim>\<open>phonemize.rs\<close> and \<^verbatim>\<open>inference.rs\<close>. Files are read through arguments, a parsed document is a
  \<open>json\<close> value or the record it deserializes to, and the inference session, eSpeak and the Japanese
  dictionary are arguments. The theorems show that the token scan is the longest match, that long
  inputs are cut losslessly within the context of the model, that a style row always exists for a
  loaded voice and its file lies in the voices directory, and that streaming loses no sample.
\<close>

subsection \<open>Vocabulary\<close>

record vocab =
  vc_map :: "(str \<times> int) list"
  vc_bos_id :: int
  vc_max_token_chars :: nat

fun json_as_i64 :: "json \<Rightarrow> int option" where
  "json_as_i64 (JInteger i) = (if in_isize i then Some i else None)"
| "json_as_i64 _ = None"

fun json_as_object :: "json \<Rightarrow> (str \<times> json) list option" where
  "json_as_object (JObject kvs) = Some kvs"
| "json_as_object _ = None"

definition load_failed :: "str \<Rightarrow> dengjen_error" where
  "load_failed msg = FailedToLoadResource msg"

definition vocab_object :: "json \<Rightarrow> (str \<times> json) list option" where
  "vocab_object doc =
     Option.bind (json_get (lit ''model'') doc)
       (\<lambda>m. Option.bind (json_get (lit ''vocab'') m) json_as_object)"

definition longest_key :: "(str \<times> int) list \<Rightarrow> nat" where
  "longest_key kvs = (if kvs = [] then 1 else fold max (map (\<lambda>(k, _). length k) kvs) 0)"

definition load_vocab ::
  "(path \<Rightarrow> str + 'f) \<Rightarrow> ('f \<Rightarrow> str + json) \<Rightarrow> path \<Rightarrow> vocab dengjen_result" where
  "load_vocab open_file parse p =
     res_bind (res_map_err (\<lambda>e. load_failed
         (lit ''Failed to open Kokoro vocab at '' @ quoted p @ lit '': '' @ e)) (open_file p)) (\<lambda>f.
     res_bind (res_map_err (\<lambda>e. load_failed
         (lit ''Failed to parse Kokoro vocab at '' @ quoted p @ lit '': '' @ e)) (parse f)) (\<lambda>doc.
     res_bind (ok_or (load_failed (lit ''No `model.vocab` object found in '' @ quoted p))
         (vocab_object doc)) (\<lambda>obj.
     res_bind (collect_map (\<lambda>(token, v). ok_or (load_failed
           (lit ''Vocab entry '' @ quoted token @ lit '' has a non-integer id in '' @ quoted p))
           (map_option (\<lambda>i. (token, i)) (json_as_i64 v))) obj) (\<lambda>kvs.
     res_map (\<lambda>bos. \<lparr>vc_map = kvs, vc_bos_id = bos, vc_max_token_chars = longest_key kvs\<rparr>)
       (ok_or (load_failed (lit ''BOS token `$` not found in vocab '' @ quoted p))
          (map_of kvs (lit ''$'')))))))"

definition vocab_tokenize :: "vocab \<Rightarrow> str \<Rightarrow> int list" where
  "vocab_tokenize v phonemes =
     map snd (greedy_scan (\<lambda>_. vc_max_token_chars v) (map_of (vc_map v)) phonemes)"

text \<open>A vocabulary whose longest key is the recorded one, as \<open>load_vocab\<close> builds it.\<close>

definition vocab_ok :: "vocab \<Rightarrow> bool" where
  "vocab_ok v \<longleftrightarrow> vc_max_token_chars v = longest_key (vc_map v)"

lemma fold_max_ge: "x \<in> set xs \<Longrightarrow> (x :: nat) \<le> fold max xs m"
proof (induction xs arbitrary: m)
  case (Cons y ys)
  have grow: "k \<le> fold max zs k" for k :: nat and zs
    by (induction zs arbitrary: k) (auto intro: order_trans [OF max.cobounded2])
  from Cons grow [of "max y m" ys] show ?case by auto
qed simp

lemma longest_key_ge: "map_of kvs k = Some i \<Longrightarrow> length k \<le> longest_key kvs"
  by (force simp: longest_key_def dest!: map_of_SomeD intro!: fold_max_ge)

lemma load_vocab_ok: "load_vocab open_file parse p = Inr v \<Longrightarrow> vocab_ok v \<and> map_of (vc_map v) (lit ''$'') = Some (vc_bos_id v)"
  by (auto simp: load_vocab_def res_conv vocab_ok_def)

lemma vocab_longest_match:
  assumes "vocab_ok v"
  shows "longest_match (\<lambda>_. vc_max_token_chars v) (map_of (vc_map v))"
proof
  fix w s i
  assume "map_of (vc_map v) (take w s) = Some i" "1 \<le> w" "w \<le> length s"
  with longest_key_ge [of "vc_map v" "take w s" i] show "w \<le> vc_max_token_chars v"
    using assms by (simp add: vocab_ok_def min_def split: if_splits)
qed

interpretation kokoro_scan: longest_match "\<lambda>_. longest_key kvs" "map_of kvs"
  using vocab_longest_match [of "\<lparr>vc_map = kvs, vc_bos_id = 0, vc_max_token_chars = longest_key kvs\<rparr>"]
  by (simp add: vocab_ok_def)

text \<open>
  A loaded vocabulary tokenizes phonemes to the ids of the longest-match tokenization,
  and its begin and end token is the id of \<^verbatim>\<open>$\<close>.
\<close>

theorem kokoro_tokens_are_longest_match:
  assumes "load_vocab open_file parse p = Inr v"
  shows "vocab_tokenize v phonemes = map snd (reference_scan (map_of (vc_map v)) phonemes) \<and>
         longest_tokens (map_of (vc_map v)) phonemes (reference_scan (map_of (vc_map v)) phonemes) \<and>
         map_of (vc_map v) (lit ''$'') = Some (vc_bos_id v)"
  using load_vocab_ok [OF assms] kokoro_scan.scan_is_reference [of "vc_map v" phonemes]
    reference_scan_sound
  by (simp add: vocab_tokenize_def vocab_ok_def)

definition demo_vocab_json :: json where
  "demo_vocab_json =
     JObject [(lit ''model'', JObject [(lit ''vocab'',
       JObject [(lit ''$'', JInteger 0), (lit ''a'', JInteger 1), (lit ''ab'', JInteger 2)])])]"

theorem kokoro_tokens_are_longest_match_witness:
  "\<exists>v. load_vocab (\<lambda>_. Inr ()) (\<lambda>_. Inr demo_vocab_json) (lit ''vocab.json'') = Inr v \<and>
       vocab_tokenize v (lit ''xaba'') = [2, 1]"
proof -
  obtain v where v: "load_vocab (\<lambda>_. Inr ()) (\<lambda>_. Inr demo_vocab_json) (lit ''vocab.json'') = Inr v"
      "vc_map v = [(lit ''$'', 0), (lit ''a'', 1), (lit ''ab'', 2)]"
    by (simp add: load_vocab_def demo_vocab_json_def vocab_object_def in_isize_def)
  have "reference_scan (map_of (vc_map v)) (lit ''xaba'') = [(2, 2), (1, 1)]"
    unfolding v(2)
    by (simp add: reference_scan_def widest_match_def match_at_def numeral_eq_Suc)
  with v kokoro_tokens_are_longest_match [OF v(1), of "lit ''xaba''"] show ?thesis by auto
qed

subsection \<open>Cutting long inputs\<close>

definition rposition :: "('a \<Rightarrow> bool) \<Rightarrow> 'a list \<Rightarrow> nat option" where
  "rposition P xs = find_map (\<lambda>i. if P (xs ! i) then Some i else None) (rev [0..<length xs])"

definition cut_point :: "int list \<Rightarrow> nat \<Rightarrow> int option \<Rightarrow> nat" where
  "cut_point rest max_len break_id =
     (case break_id of
        None \<Rightarrow> max_len
      | Some i \<Rightarrow>
          (case rposition (\<lambda>token. token = i) (take max_len rest) of
             None \<Rightarrow> max_len
           | Some position \<Rightarrow> position + 1))"

text \<open>With a maximal length of zero the loop would not end, which is the value None.\<close>

partial_function (option) split_tokens :: "int list \<Rightarrow> nat \<Rightarrow> int option \<Rightarrow> int list list option" where
  "split_tokens rest max_len break_id =
     (if max_len < length rest
      then Option.bind (split_tokens (drop (cut_point rest max_len break_id) rest) max_len break_id)
             (\<lambda>chunks. Some (take (cut_point rest max_len break_id) rest # chunks))
      else Some [rest])"

lemma rposition_Some:
  "rposition P xs = Some i \<Longrightarrow> i < length xs \<and> P (xs ! i) \<and> (\<forall>j. i < j \<and> j < length xs \<longrightarrow> \<not> P (xs ! j))"
proof (induction xs rule: rev_induct)
  case (snoc x xs)
  have "rposition P (xs @ [x]) = (if P x then Some (length xs) else rposition P xs)"
  proof -
    have "find_map (\<lambda>i. if P ((xs @ [x]) ! i) then Some i else None) (rev [0..<length xs])
        = find_map (\<lambda>i. if P (xs ! i) then Some i else None) (rev [0..<length xs])"
    proof -
      have "\<forall>i \<in> set is. i < length xs \<Longrightarrow>
          find_map (\<lambda>i. if P ((xs @ [x]) ! i) then Some i else None) is
          = find_map (\<lambda>i. if P (xs ! i) then Some i else None) is" for "is"
        by (induction "is") (auto simp: nth_append)
      then show ?thesis by simp
    qed
    then show ?thesis by (simp add: rposition_def)
  qed
  with snoc show ?case by (auto simp: nth_append less_Suc_eq split: if_splits)
qed (simp add: rposition_def)

lemma rposition_None: "rposition P xs = None \<Longrightarrow> \<forall>x \<in> set xs. \<not> P x"
  by (auto simp: rposition_def find_map_None in_set_conv_nth split: if_splits)

text \<open>What a cut may be: the whole window when it holds no break, else just after its last break.\<close>

definition good_cut :: "nat \<Rightarrow> int option \<Rightarrow> int list \<Rightarrow> bool" where
  "good_cut max_len break_id chunk \<longleftrightarrow>
     (case break_id of
        None \<Rightarrow> length chunk = max_len
      | Some i \<Rightarrow> last chunk = i \<and> chunk \<noteq> [] \<or> length chunk = max_len \<and> i \<notin> set chunk)"

lemma cut_point_bounds:
  assumes "0 < max_len" "max_len < length rest"
  shows "0 < cut_point rest max_len b" "cut_point rest max_len b \<le> max_len"
    "good_cut max_len b (take (cut_point rest max_len b) rest)"
proof -
  have "0 < cut_point rest max_len b \<and> cut_point rest max_len b \<le> max_len \<and>
      good_cut max_len b (take (cut_point rest max_len b) rest)"
  proof (cases b)
    case None
    with assms show ?thesis by (simp add: cut_point_def good_cut_def)
  next
    case (Some i)
    show ?thesis
    proof (cases "rposition (\<lambda>t. t = i) (take max_len rest)")
      case None
      with rposition_None [OF None] Some assms show ?thesis
        by (auto simp: cut_point_def good_cut_def)
    next
      case (Some p)
      from rposition_Some [OF Some] assms(2) have p: "p < max_len" "rest ! p = i" by auto
      then have "take (Suc p) rest = take p rest @ [i]"
        using assms(2) take_Suc_conv_app_nth [of p rest] by simp
      with Some \<open>b = Some i\<close> p assms show ?thesis
        by (simp add: cut_point_def good_cut_def)
    qed
  qed
  then show "0 < cut_point rest max_len b" "cut_point rest max_len b \<le> max_len"
    "good_cut max_len b (take (cut_point rest max_len b) rest)" by simp_all
qed

lemma split_tokens_total:
  assumes "0 < max_len"
  shows "\<exists>chunks. split_tokens tokens max_len break_id = Some chunks \<and> concat chunks = tokens \<and>
           chunks \<noteq> [] \<and> (\<forall>c \<in> set chunks. length c \<le> max_len) \<and>
           (\<forall>c \<in> set (butlast chunks). good_cut max_len break_id c)"
proof (induction tokens rule: length_induct)
  case (1 tokens)
  show ?case
  proof (cases "max_len < length tokens")
    case False
    then show ?thesis by (subst split_tokens.simps) simp
  next
    case True
    define n where "n = cut_point tokens max_len break_id"
    note cut = cut_point_bounds [OF assms True, of break_id, folded n_def]
    have "length (drop n tokens) < length tokens" using True cut by simp
    with 1 obtain chunks where c: "split_tokens (drop n tokens) max_len break_id = Some chunks"
      "concat chunks = drop n tokens" "chunks \<noteq> []" "\<forall>c \<in> set chunks. length c \<le> max_len"
      "\<forall>c \<in> set (butlast chunks). good_cut max_len break_id c" by blast
    have "split_tokens tokens max_len break_id = Some (take n tokens # chunks)"
      using True c(1) by (subst split_tokens.simps) (simp add: n_def)
    with c cut show ?thesis by (intro exI [of _ "take n tokens # chunks"]) simp
  qed
qed

text \<open>
  Cutting a token sequence terminates for every positive maximal length and loses
  nothing: the chunks concatenate to the input, none is longer than the model's context, and every
  chunk but the last ends at its last break token or, without one, fills the context.
\<close>

theorem split_tokens_lossless:
  assumes "0 < max_len"
  shows "\<exists>chunks. split_tokens tokens max_len break_id = Some chunks \<and> concat chunks = tokens \<and>
           chunks \<noteq> [] \<and> (\<forall>c \<in> set chunks. length c \<le> max_len) \<and>
           (\<forall>c \<in> set (butlast chunks). good_cut max_len break_id c)"
  using assms by (rule split_tokens_total)

theorem split_tokens_lossless_witness:
  "\<exists>chunks. split_tokens [1, 9, 2, 3, 9, 4, 5, 6, 7] 4 (Some 9) = Some chunks \<and>
     concat chunks = [1, 9, 2, 3, 9, 4, 5, 6, 7] \<and> (\<forall>c \<in> set chunks. length c \<le> 4)"
  using split_tokens_lossless [of 4 "[1, 9, 2, 3, 9, 4, 5, 6, 7]" "Some 9"] by auto

subsection \<open>Voices\<close>

definition STYLE_DIM :: nat where "STYLE_DIM = 256"
definition MAX_TOKEN_LEN :: nat where "MAX_TOKEN_LEN = 510"
definition EXPECTED_FILE_BYTES :: nat where "EXPECTED_FILE_BYTES = MAX_TOKEN_LEN * STYLE_DIM * 4"

definition is_plain_file_stem :: "str \<Rightarrow> bool" where
  "is_plain_file_stem voice_name \<longleftrightarrow> path_components voice_name = [Normal voice_name]"

text \<open>\<^verbatim>\<open>f32::from_le_bytes\<close>: the IEEE 754 single of a 32-bit pattern.\<close>

definition f32_from_bits :: "nat \<Rightarrow> f32" where
  "f32_from_bits n =
     (case (n div 2 ^ 31 = 1, n div 2 ^ 23 mod 256, n mod 2 ^ 23) of (s, e, m) \<Rightarrow>
        if e = 255 then (if m = 0 then F_Inf s else F_NaN s)
        else if e = 0 then F_Fin s (of_nat m * pow2 (- 149))
        else F_Fin s (of_nat (m + 2 ^ 23) * pow2 (int e - 150)))"

fun floats_of_bytes :: "byte list \<Rightarrow> f32 list" where
  "floats_of_bytes (a # b # c # d # bs) =
     f32_from_bits (unat a + 256 * unat b + 65536 * unat c + 16777216 * unat d) # floats_of_bytes bs"
| "floats_of_bytes _ = []"

type_synonym voice_styles = "str \<Rightarrow> f32 list option"

definition load_voice ::
  "(path \<Rightarrow> str + byte list) \<Rightarrow> path \<Rightarrow> str \<Rightarrow> f32 list dengjen_result" where
  "load_voice read voices_dir voice_name =
     (if \<not> is_plain_file_stem voice_name
      then Inl (load_failed (lit ''Kokoro voice name '' @ quoted voice_name
             @ lit '' must be a plain file name without path separators''))
      else case path_join voices_dir (voice_name @ lit ''.bin'') of p \<Rightarrow>
        res_bind (res_map_err (\<lambda>e. load_failed (lit ''Failed to read Kokoro voice style file ''
             @ quoted p @ lit '': '' @ e)) (read p)) (\<lambda>bytes.
          if length bytes \<noteq> EXPECTED_FILE_BYTES
          then Inl (load_failed (lit ''Kokoro voice style file '' @ quoted p @ lit '' is ''
                 @ show_nat (length bytes) @ lit '' bytes, expected '' @ show_nat EXPECTED_FILE_BYTES
                 @ lit '' ('' @ show_nat MAX_TOKEN_LEN @ lit '' rows x '' @ show_nat STYLE_DIM
                 @ lit '' dims x 4 bytes)''))
          else Inr (floats_of_bytes bytes)))"

fun load_voice_styles ::
  "(path \<Rightarrow> str + byte list) \<Rightarrow> path \<Rightarrow> str list \<Rightarrow> voice_styles \<Rightarrow> voice_styles dengjen_result" where
  "load_voice_styles read voices_dir [] vs = Inr vs"
| "load_voice_styles read voices_dir (v # rest) vs =
     (case load_voice read voices_dir v of
        Inl e \<Rightarrow> Inl e
      | Inr table \<Rightarrow> load_voice_styles read voices_dir rest (vs(v \<mapsto> table)))"

definition style_for :: "voice_styles \<Rightarrow> str \<Rightarrow> nat \<Rightarrow> f32 list dengjen_result" where
  "style_for vs voice_name token_len =
     (case vs voice_name of
        None \<Rightarrow> Inl (OperationError (lit ''Unknown Kokoro voice: '' @ quoted voice_name))
      | Some table \<Rightarrow>
          (case min (token_len - 1) (MAX_TOKEN_LEN - 1) of row_index \<Rightarrow>
             Inr (take STYLE_DIM (drop (row_index * STYLE_DIM) table))))"

lemma length_floats_of_bytes: "length (floats_of_bytes bs) = length bs div 4"
proof (induction bs rule: floats_of_bytes.induct)
  case (1 a b c d bs)
  have "Suc (Suc (Suc (Suc n))) div 4 = Suc (n div 4)" for n by simp
  with 1 show ?case by (simp only: floats_of_bytes.simps list.size add_0_right add_Suc_right)
qed simp_all

lemma load_voice_length:
  "load_voice read d v = Inr t \<Longrightarrow> length t = MAX_TOKEN_LEN * STYLE_DIM"
  by (auto simp: load_voice_def res_conv length_floats_of_bytes EXPECTED_FILE_BYTES_def
      split: if_splits)

lemma load_voice_styles_tables:
  "load_voice_styles read d voices vs = Inr vs' \<Longrightarrow>
     (\<forall>v t. vs v = Some t \<longrightarrow> length t = MAX_TOKEN_LEN * STYLE_DIM) \<Longrightarrow>
     (\<forall>v t. vs' v = Some t \<longrightarrow> length t = MAX_TOKEN_LEN * STYLE_DIM) \<and>
     (\<forall>v. v \<in> set voices \<or> vs v \<noteq> None \<longrightarrow> vs' v \<noteq> None)"
proof (induction voices arbitrary: vs)
  case (Cons w voices)
  from Cons.prems(1) obtain t where t: "load_voice read d w = Inr t"
      "load_voice_styles read d voices (vs(w \<mapsto> t)) = Inr vs'"
    by (auto split: sum.splits)
  have "\<forall>v u. (vs(w \<mapsto> t)) v = Some u \<longrightarrow> length u = MAX_TOKEN_LEN * STYLE_DIM"
    using Cons.prems(2) load_voice_length [OF t(1)] by simp
  from Cons.IH [OF t(2) this] show ?case by auto
qed simp

text \<open>
  Once the voices of a Kokoro config are loaded, every one of them has a full style
  row for every input length, however long or empty the token sequence is: the row index never
  leaves the table.
\<close>

theorem style_row_exists:
  assumes "load_voice_styles read voices_dir voices Map.empty = Inr vs" "v \<in> set voices"
  shows "\<exists>row. style_for vs v token_len = Inr row \<and> length row = STYLE_DIM"
proof -
  from load_voice_styles_tables [OF assms(1)] assms(2) obtain t
    where t: "vs v = Some t" "length t = MAX_TOKEN_LEN * STYLE_DIM" by fastforce
  define r where "r = min (token_len - 1) (MAX_TOKEN_LEN - 1)"
  have "r + 1 \<le> MAX_TOKEN_LEN" by (simp add: r_def MAX_TOKEN_LEN_def)
  then have "(r + 1) * STYLE_DIM \<le> length t" unfolding t(2) by (intro mult_le_mono1)
  then have "length (take STYLE_DIM (drop (r * STYLE_DIM) t)) = STYLE_DIM" by simp
  then show ?thesis by (simp add: style_for_def t(1) r_def)
qed

theorem style_row_exists_witness:
  "\<exists>vs row. load_voice_styles (\<lambda>_. Inr (replicate EXPECTED_FILE_BYTES 0)) (lit ''v'') [lit ''af''] Map.empty
       = Inr vs \<and> style_for vs (lit ''af'') 9999 = Inr row \<and> length row = 256"
proof -
  have "is_plain_file_stem (lit ''af'')"
    by (simp add: is_plain_file_stem_def path_components_def is_absolute_def starts_with_def slash_def)
  then obtain vs where vs: "load_voice_styles (\<lambda>_. Inr (replicate EXPECTED_FILE_BYTES 0)) (lit ''v'')
      [lit ''af''] Map.empty = Inr vs"
    by (simp add: load_voice_def)
  have "lit ''af'' \<in> set [lit ''af'']" by simp
  from style_row_exists [OF vs this, of 9999] vs show ?thesis by (auto simp: STYLE_DIM_def)
qed

text \<open>
  The style file of every accepted voice name is a direct entry of the voices
  directory.
\<close>

theorem voice_file_in_voices_dir:
  assumes "is_plain_file_stem v"
  shows "lexical (path_join voices_dir (v @ lit ''.bin'')) = lexical voices_dir @ [Normal (v @ lit ''.bin'')]"
proof -
  have "file_name v = Some v" using assms by (simp add: is_plain_file_stem_def file_name_def last_of_def)
  then have slash: "slash \<notin> set (v @ lit ''.bin'')"
    using file_name_no_slash [of v v] by (simp add: slash_def)
  define n where "n = v @ lit ''.bin''"
  have n: "slash \<notin> set n" "n \<noteq> []" "n \<noteq> lit ''.''" "n \<noteq> lit ''..''"
    using slash by (auto simp: n_def append_eq_Cons_conv)
  have rel: "\<not> is_absolute n" using n(1,2) by (cases n) (auto simp: is_absolute_def starts_with_def)
  have one: "piece_components f (split_char slash n) = [Normal n]" for f
    using n by (simp add: split_char_no_delim)
  then have "path_components n = [Normal n]" using rel by (simp add: path_components_def)
  with path_join_components [OF rel, of voices_dir] one show ?thesis
    unfolding n_def [symmetric]
    by (elim disjE) (auto simp: lexical_def path_components_def is_absolute_def starts_with_def)
qed

theorem voice_file_in_voices_dir_witness:
  "lexical (path_join (lit ''/k/voices'') (lit ''af_heart'' @ lit ''.bin''))
     = lexical (lit ''/k/voices'') @ [Normal (lit ''af_heart.bin'')]"
proof -
  have "is_plain_file_stem (lit ''af_heart'')"
    by (simp add: is_plain_file_stem_def path_components_def is_absolute_def starts_with_def slash_def)
  from voice_file_in_voices_dir [OF this] show ?thesis by simp
qed

subsection \<open>Configuration and phonemes\<close>

record raw_kokoro_voice_config =
  raw_model_type :: str
  raw_model_path :: str
  raw_voices_dir :: str
  raw_vocab_path :: str
  raw_sample_rate :: nat
  raw_voices :: "str list"

record kokoro_voice_config =
  kc_model_path :: path
  kc_voices_dir :: path
  kc_vocab_path :: path
  kc_sample_rate :: nat
  kc_voices :: "str list"

text \<open>\<^verbatim>\<open>with_source\<close> keeps the reader's or parser's error as the cause.\<close>

definition kokoro_load_config ::
  "(path \<Rightarrow> std_error + 'f) \<Rightarrow> ('f \<Rightarrow> std_error + raw_kokoro_voice_config) \<Rightarrow> path
     \<Rightarrow> kokoro_voice_config dengjen_result" where
  "kokoro_load_config open_file parse config_path =
     res_bind (res_map_err (with_source (load_failed
         (lit ''Failed to open Kokoro config at '' @ quoted config_path))) (open_file config_path)) (\<lambda>f.
     res_bind (res_map_err (with_source (load_failed
         (lit ''Failed to parse Kokoro config at '' @ quoted config_path))) (parse f)) (\<lambda>raw.
     if raw_model_type raw \<noteq> lit ''kokoro''
     then Inl (load_failed (lit ''Expected model_type \"kokoro\", got \"'' @ raw_model_type raw @ lit ''\"''))
     else
     res_bind (resolve_within (config_dir config_path) (lit ''model_path'') (raw_model_path raw)) (\<lambda>mp.
     res_bind (resolve_within (config_dir config_path) (lit ''voices_dir'') (raw_voices_dir raw)) (\<lambda>vd.
     res_map (\<lambda>vp. \<lparr>kc_model_path = mp, kc_voices_dir = vd, kc_vocab_path = vp,
                     kc_sample_rate = raw_sample_rate raw, kc_voices = raw_voices raw\<rparr>)
       (resolve_within (config_dir config_path) (lit ''vocab_path'') (raw_vocab_path raw))))))"

text \<open>The substitution table in code points, in the order it is applied.\<close>

definition SUBSTITUTIONS :: "(str \<times> str) list" where
  "SUBSTITUTIONS =
     [([97, 618], [73]),
      ([97, 650], [87]),
      ([100, 658], [676]),
      ([101, 618], [65]),
      ([116, 643], [679]),
      ([596, 618], [89]),
      ([111, 650], [79]),
      ([602], [601, 633]),
      ([114], [633]),
      ([120], [107]),
      ([231], [107]),
      ([592], [601]),
      ([620], [108]),
      ([660], [116]),
      ([110, 809], [7498, 110]),
      ([690], []),
      ([720], [])]"

definition espeak_ipa_to_kokoro :: "str \<Rightarrow> str" where
  "espeak_ipa_to_kokoro ipa = fold (\<lambda>(p, r) s. replace_text p r s) SUBSTITUTIONS ipa"

definition PRESET_LANGUAGES :: "(uchar \<times> str) list" where
  "PRESET_LANGUAGES =
     [(97, lit ''en-US''), (98, lit ''en-GB-x-rp''), (106, lit ''ja''), (122, lit ''cmn''),
      (101, lit ''es''), (102, lit ''fr''), (104, lit ''hi''), (105, lit ''it''), (112, lit ''pt-BR'')]"

definition espeak_language_for_voice :: "str \<Rightarrow> str dengjen_result" where
  "espeak_language_for_voice voice =
     ok_or (PhonemizationError (lit ''Kokoro preset '' @ quoted voice @ lit '' has no known language prefix''))
       (case voice of
          initial # _ # _ \<Rightarrow> map_of PRESET_LANGUAGES initial
        | _ \<Rightarrow> None)"

definition text_to_kokoro_phonemes ::
  "(str \<Rightarrow> str \<Rightarrow> str + str list) option \<Rightarrow> str \<Rightarrow> str \<Rightarrow> str list dengjen_result" where
  "text_to_kokoro_phonemes espeak text language =
     (case espeak of
        None \<Rightarrow> Inl (PhonemizationError (lit ''Kokoro phonemization requires the `espeak` feature (GPL-3.0-or-later, via espeak-ng), but it is disabled''))
      | Some run \<Rightarrow>
          res_map (map espeak_ipa_to_kokoro) (res_map_err PhonemizationError (run text language)))"

text \<open>A text without any left-hand side of the table passes through unchanged.\<close>

lemma replace_text_absent:
  "p \<noteq> [] \<Longrightarrow> hd p \<notin> set s \<Longrightarrow> replace_text p r s = s"
  by (induction p r s rule: replace_text.induct) (auto simp: starts_with_def neq_Nil_conv)

lemma replace_text_removes:
  "c \<notin> set r \<Longrightarrow> c \<notin> set (replace_text [c] r s)"
proof (induction "[c]" r s rule: replace_text.induct)
  case (2 r d s)
  then show ?case by (auto simp: starts_with_def)
qed simp

lemma replace_text_keeps_free:
  "d \<notin> set r \<Longrightarrow> d \<notin> set s \<Longrightarrow> d \<notin> set (replace_text p r s)"
proof (induction p r s rule: replace_text.induct)
  case (2 p r c s)
  have "d \<notin> set (drop (length p) (c # s))"
    using 2 (4) in_set_dropD [of d "length p" "c # s"] by blast
  with 2 show ?case by (simp del: drop_Cons_numeral)
qed simp

subsection \<open>The model and its store\<close>

record kokoro_voice =
  kk_vocab :: vocab
  kk_styles :: voice_styles
  kk_sample_rate :: nat
  kk_default_voice :: str
  kk_speaker_map :: "(int \<times> str) list"
  kk_synth_config :: synthesis_config

definition kokoro_from_config ::
  "(path \<Rightarrow> vocab dengjen_result) \<Rightarrow> (path \<Rightarrow> str + byte list) \<Rightarrow> kokoro_voice_config
     \<Rightarrow> kokoro_voice dengjen_result" where
  "kokoro_from_config load_vc read cfg =
     res_bind (load_vc (kc_vocab_path cfg)) (\<lambda>vc.
     res_bind (load_voice_styles read (kc_voices_dir cfg) (kc_voices cfg) Map.empty) (\<lambda>styles.
     res_map (\<lambda>default.
        \<lparr>kk_vocab = vc, kk_styles = styles, kk_sample_rate = kc_sample_rate cfg,
         kk_default_voice = default,
         kk_speaker_map = zip (map int [0..<length (kc_voices cfg)]) (kc_voices cfg),
         kk_synth_config = default_synthesis_config\<rparr>)
       (ok_or (load_failed (lit ''No voices in config'')) (first_of (kc_voices cfg)))))"

definition resolve_voice_name :: "(int \<times> str) list \<Rightarrow> str \<Rightarrow> synthesis_config \<Rightarrow> str" where
  "resolve_voice_name speaker_map default_voice sc =
     unwrap_or default_voice
       (case speaker sc of None \<Rightarrow> None | Some i \<Rightarrow> map_of speaker_map i)"

definition kokoro_get_default :: "kokoro_voice \<Rightarrow> synthesis_config option" where
  "kokoro_get_default v = Some \<lparr>speaker = Some 0, parameters = Map.empty\<rparr>"

definition kokoro_get_fallback :: "kokoro_voice \<Rightarrow> synthesis_config option" where
  "kokoro_get_fallback v = Some (kk_synth_config v)"

definition kokoro_set_fallback :: "synthesis_config \<Rightarrow> kokoro_voice \<Rightarrow> kokoro_voice dengjen_result" where
  "kokoro_set_fallback c v =
     (case speaker c of
        Some sid \<Rightarrow>
          if map_of (kk_speaker_map v) sid = None then Inl (unknown_speaker sid)
          else Inr (v\<lparr>kk_synth_config := c\<rparr>)
      | None \<Rightarrow> Inr (v\<lparr>kk_synth_config := c\<rparr>))"

interpretation kokoro_store: config_store kokoro_get_fallback kokoro_set_fallback
    "\<lambda>v sid. map_of (kk_speaker_map v) sid \<noteq> None" UNIV
  by unfold_locales
     (auto simp: kokoro_get_fallback_def kokoro_set_fallback_def speaker_known_def
       split: option.splits if_splits)

definition kokoro_phonemize_text ::
  "(str \<Rightarrow> str list dengjen_result) option \<Rightarrow> (str \<Rightarrow> str \<Rightarrow> str + str list) option \<Rightarrow> kokoro_voice \<Rightarrow> str
     \<Rightarrow> str list dengjen_result" where
  "kokoro_phonemize_text japanese espeak v text =
     res_bind (espeak_language_for_voice
         (resolve_voice_name (kk_speaker_map v) (kk_default_voice v) (kk_synth_config v))) (\<lambda>language.
       case japanese of
         Some phonemize \<Rightarrow>
           if language = lit ''ja'' then phonemize text
           else text_to_kokoro_phonemes espeak text language
       | None \<Rightarrow> text_to_kokoro_phonemes espeak text language)"

text \<open>The session gets the ids, one style row and the speed, and answers its first output.\<close>

definition synthesize_token_chunk ::
  "(int list \<Rightarrow> f32 list \<Rightarrow> f32 \<Rightarrow> dengjen_error + samples) \<Rightarrow> kokoro_voice \<Rightarrow> int list
     \<Rightarrow> samples dengjen_result" where
  "synthesize_token_chunk run v tokens =
     (case vc_bos_id (kk_vocab v) # tokens @ [vc_bos_id (kk_vocab v)] of token_ids \<Rightarrow>
        res_bind (style_for (kk_styles v)
            (resolve_voice_name (kk_speaker_map v) (kk_default_voice v) (kk_synth_config v))
            (length token_ids)) (\<lambda>style.
          run token_ids style (f_lit 1)))"

definition synthesize_phonemes ::
  "(int list \<Rightarrow> f32 list \<Rightarrow> f32 \<Rightarrow> dengjen_error + samples) \<Rightarrow> kokoro_voice \<Rightarrow> str
     \<Rightarrow> audio dengjen_result option" where
  "synthesize_phonemes run v phonemes =
     map_option (\<lambda>chunks. res_map (\<lambda>parts. new_audio (concat parts) (kk_sample_rate v) None)
                            (collect_map (synthesize_token_chunk run v) chunks))
       (split_tokens (vocab_tokenize (kk_vocab v) phonemes) MAX_TOKEN_LEN
          (first_of (vocab_tokenize (kk_vocab v) (lit '' ''))))"

text \<open>
  \<^bold>\<open>C33\<close>: speaking a Kokoro sentence of any length always returns, and its audio is the
  concatenation of the model's answers for chunks that together are the sentence's tokens and each
  fit the context of the model.
\<close>

theorem kokoro_speaks_any_length:
  "\<exists>chunks. concat chunks = vocab_tokenize (kk_vocab v) phonemes \<and>
     list_all (\<lambda>c. length c \<le> 510) chunks \<and>
     synthesize_phonemes run v phonemes =
       Some (res_map (\<lambda>parts. new_audio (concat parts) (kk_sample_rate v) None)
               (collect_map (synthesize_token_chunk run v) chunks))"
proof -
  obtain chunks where c: "split_tokens (vocab_tokenize (kk_vocab v) phonemes) MAX_TOKEN_LEN
      (first_of (vocab_tokenize (kk_vocab v) (lit '' ''))) = Some chunks"
    "concat chunks = vocab_tokenize (kk_vocab v) phonemes" "\<forall>c \<in> set chunks. length c \<le> MAX_TOKEN_LEN"
    using split_tokens_total [of MAX_TOKEN_LEN "vocab_tokenize (kk_vocab v) phonemes"
        "first_of (vocab_tokenize (kk_vocab v) (lit '' ''))"]
    by (auto simp: MAX_TOKEN_LEN_def)
  then show ?thesis by (intro exI [of _ chunks]) (simp add: synthesize_phonemes_def MAX_TOKEN_LEN_def list_all_iff)
qed

subsection \<open>Streaming\<close>

definition KOKORO_CHUNK_SIZE_SCALE :: nat where "KOKORO_CHUNK_SIZE_SCALE = 256"

record kokoro_streamer =
  ks_samples :: samples
  ks_cursor :: nat
  ks_chunk_size :: nat
  ks_cancelled :: bool

definition kokoro_next :: "kokoro_streamer \<Rightarrow> (samples dengjen_result \<times> kokoro_streamer) option" where
  "kokoro_next s =
     (if ks_cancelled s then None
      else if ks_chunk_size s = 0 \<or> length (ks_samples s) \<le> ks_cursor s then None
      else case min (usize_wrap (ks_cursor s + ks_chunk_size s)) (length (ks_samples s)) of e \<Rightarrow>
        if e < ks_cursor s then None
        else Some (Inr (take (e - ks_cursor s) (drop (ks_cursor s) (ks_samples s))),
                   s\<lparr>ks_cursor := e\<rparr>))"

datatype kokoro_stream = EmptyStream | Streaming kokoro_streamer

definition kokoro_stream_synthesis ::
  "(str \<Rightarrow> audio dengjen_result) \<Rightarrow> bool \<Rightarrow> str \<Rightarrow> nat \<Rightarrow> kokoro_stream dengjen_result" where
  "kokoro_stream_synthesis synth is_cancelled phonemes chunk_size =
     (if chunk_size = 0
      then Inl (UnsupportedOperation (lit ''chunk_size must be greater than 0''))
      else if is_cancelled then Inr EmptyStream
      else res_map (\<lambda>a. Streaming \<lparr>ks_samples = samples a, ks_cursor = 0,
              ks_chunk_size = usize_sat_mul chunk_size KOKORO_CHUNK_SIZE_SCALE, ks_cancelled = is_cancelled\<rparr>)
             (synth phonemes))"

text \<open>The samples still to come, cut into pieces of the chunk size.\<close>

fun in_chunks :: "nat \<Rightarrow> nat \<Rightarrow> 'a list \<Rightarrow> 'a list list" where
  "in_chunks 0 n xs = []"
| "in_chunks (Suc k) n xs = (if xs = [] \<or> n = 0 then [] else take n xs # in_chunks k n (drop n xs))"

lemma in_chunks_concat: "0 < n \<Longrightarrow> length xs \<le> k \<Longrightarrow> concat (in_chunks k n xs) = xs"
  by (induction k n xs rule: in_chunks.induct) auto

lemma in_chunks_fuel: "length xs \<le> j \<Longrightarrow> length xs \<le> k \<Longrightarrow> in_chunks j n xs = in_chunks k n xs"
proof (induction j arbitrary: k xs)
  case 0
  then show ?case by (cases k) simp_all
next
  case (Suc j)
  then show ?case by (cases k) auto
qed

lemma in_chunks_sizes: "c \<in> set (in_chunks k n xs) \<Longrightarrow> 0 < length c \<and> length c \<le> n"
  by (induction k n xs rule: in_chunks.induct) (auto split: if_splits)

definition kokoro_remaining :: "kokoro_streamer \<Rightarrow> samples dengjen_result list" where
  "kokoro_remaining s =
     (if ks_cancelled s then []
      else map Inr (in_chunks (length (ks_samples s)) (ks_chunk_size s) (drop (ks_cursor s) (ks_samples s))))"

text \<open>
  A vector of samples holds at most \<^verbatim>\<open>isize::MAX\<close> bytes, so the position after a chunk never
  overflows, even when the scaled chunk size is saturated.
\<close>

definition kokoro_inv :: "kokoro_streamer \<Rightarrow> bool" where
  "kokoro_inv s \<longleftrightarrow>
     0 < ks_chunk_size s \<and> ks_chunk_size s \<le> usize_max \<and> length (ks_samples s) \<le> 2 ^ 61 \<and>
     ks_cursor s \<le> length (ks_samples s) \<and>
     (ks_cursor s = 0 \<or> ks_cursor s = length (ks_samples s) \<or> ks_chunk_size s < length (ks_samples s))"

lemma kokoro_next_step:
  assumes "kokoro_inv s" "\<not> ks_cancelled s" "ks_cursor s < length (ks_samples s)"
  shows "kokoro_next s =
    (case min (ks_cursor s + ks_chunk_size s) (length (ks_samples s)) of e \<Rightarrow>
       Some (Inr (take (ks_chunk_size s) (drop (ks_cursor s) (ks_samples s))), s\<lparr>ks_cursor := e\<rparr>))"
proof -
  define e where "e = min (ks_cursor s + ks_chunk_size s) (length (ks_samples s))"
  have "ks_cursor s + ks_chunk_size s \<le> usize_max"
    using assms(1,3) by (auto simp: kokoro_inv_def usize_max_def)
  moreover have "take (e - ks_cursor s) (drop (ks_cursor s) (ks_samples s))
      = take (ks_chunk_size s) (drop (ks_cursor s) (ks_samples s))"
    unfolding e_def by (simp add: min_def)
  moreover have "\<not> e < ks_cursor s" using assms(3) by (simp add: e_def)
  moreover have "0 < ks_chunk_size s" using assms(1) by (simp add: kokoro_inv_def)
  ultimately show ?thesis using assms(2,3) by (simp add: kokoro_next_def e_def)
qed

interpretation kokoro_stream: audio_stream kokoro_next kokoro_remaining kokoro_inv
proof
  fix s assume inv: "kokoro_inv s" and none: "kokoro_next s = None"
  show "kokoro_remaining s = []"
  proof (cases "ks_cancelled s \<or> length (ks_samples s) \<le> ks_cursor s")
    case True
    then show ?thesis by (cases "length (ks_samples s)") (auto simp: kokoro_remaining_def)
  next
    case False
    with kokoro_next_step [OF inv] none show ?thesis by simp
  qed
next
  fix s x s' assume inv: "kokoro_inv s" and some: "kokoro_next s = Some (x, s')"
  then have live: "\<not> ks_cancelled s" "ks_cursor s < length (ks_samples s)"
    by (auto simp: kokoro_next_def split: if_splits)
  define xs where "xs = drop (ks_cursor s) (ks_samples s)"
  define n where "n = ks_chunk_size s"
  from kokoro_next_step [OF inv live] some
  have x: "x = Inr (take n xs)"
    and s': "s' = s\<lparr>ks_cursor := min (ks_cursor s + n) (length (ks_samples s))\<rparr>"
    by (simp_all add: xs_def n_def)
  have n: "0 < n" using inv by (simp add: kokoro_inv_def n_def)
  have xs: "xs \<noteq> []" using live by (simp add: xs_def)
  obtain k where k: "length (ks_samples s) = Suc k" using live by (cases "length (ks_samples s)") auto
  have "in_chunks k n (drop n xs) = in_chunks (Suc k) n (drop n xs)"
    by (rule in_chunks_fuel) (use n k in \<open>simp_all add: xs_def\<close>)
  moreover have "drop n xs = drop (min (ks_cursor s + n) (length (ks_samples s))) (ks_samples s)"
    by (simp add: xs_def min_def add.commute)
  ultimately have "kokoro_remaining s = x # kokoro_remaining s'"
    using live xs n by (simp add: kokoro_remaining_def s' x k flip: xs_def n_def)
  moreover have "kokoro_inv s'"
    using inv live by (auto simp: kokoro_inv_def s' n_def min_def)
  ultimately show "kokoro_remaining s = x # kokoro_remaining s' \<and> kokoro_inv s'" ..
qed

lemma kokoro_streams_all:
  assumes "kokoro_stream_synthesis synth False phonemes chunk_size = Inr (Streaming s)"
    "synth phonemes = Inr a" "length (samples a) \<le> 2 ^ 61" "length (samples a) \<le> n"
  shows "\<exists>chunks. drain kokoro_next n s = map Inr chunks \<and> concat chunks = samples a \<and>
           (\<forall>c \<in> set chunks. c \<noteq> [] \<and> length c \<le> chunk_size * 256)"
proof -
  define w where "w = usize_sat_mul chunk_size KOKORO_CHUNK_SIZE_SCALE"
  have s: "s = \<lparr>ks_samples = samples a, ks_cursor = 0, ks_chunk_size = w, ks_cancelled = False\<rparr>"
    and pos: "0 < chunk_size"
    using assms(1,2) by (auto simp: kokoro_stream_synthesis_def w_def split: if_splits)
  have w: "0 < w" "w \<le> chunk_size * 256" "w \<le> usize_max"
    using pos by (auto simp: w_def usize_sat_mul_def KOKORO_CHUNK_SIZE_SCALE_def usize_max_def)
  have inv: "kokoro_inv s" using assms(3) w by (simp add: kokoro_inv_def s)
  define chunks where "chunks = in_chunks (length (samples a)) w (samples a)"
  have rem: "kokoro_remaining s = map Inr chunks" by (simp add: kokoro_remaining_def s chunks_def)
  have "concat chunks = samples a" using w by (simp add: chunks_def in_chunks_concat)
  moreover have sizes: "0 < length c \<and> length c \<le> w" if "c \<in> set chunks" for c
    using that unfolding chunks_def by (rule in_chunks_sizes)
  moreover have "length chunks \<le> length (concat chunks)"
  proof -
    have "\<forall>c \<in> set cs. 0 < length c \<Longrightarrow> length cs \<le> length (concat cs)" for cs :: "samples list"
      by (induction cs) (auto simp: Suc_le_eq add_strict_increasing)
    then show ?thesis using sizes by blast
  qed
  ultimately have "drain kokoro_next n s = map Inr chunks"
    using kokoro_stream.drain_all [OF inv, of n] assms(4) by (simp add: rem)
  with \<open>concat chunks = samples a\<close> sizes w(2) show ?thesis
    by (intro exI [of _ chunks]) (auto intro: order_trans)
qed

text \<open>
  Streaming a Kokoro sentence yields all of its samples in order, in non-empty chunks
  of at most 256 samples per unit of the requested chunk size.
\<close>

theorem kokoro_stream_lossless:
  assumes "kokoro_stream_synthesis synth False phonemes chunk_size = Inr (Streaming s)"
    "synth phonemes = Inr a" "length (samples a) \<le> 2 ^ 61" "length (samples a) \<le> n"
  shows "\<exists>chunks. drain kokoro_next n s = map Inr chunks \<and> concat chunks = samples a \<and>
           (\<forall>c \<in> set chunks. c \<noteq> [] \<and> length c \<le> chunk_size * 256)"
  using assms by (rule kokoro_streams_all)

theorem kokoro_stream_lossless_witness:
  "\<exists>s chunks. kokoro_stream_synthesis (\<lambda>_. Inr (new_audio (replicate 600 (f_lit 1)) 24000 None)) False
       (lit ''a'') 1 = Inr (Streaming s) \<and>
     drain kokoro_next 600 s = map Inr chunks \<and> concat chunks = replicate 600 (f_lit 1)"
proof -
  define synth :: "str \<Rightarrow> audio dengjen_result"
    where "synth = (\<lambda>_. Inr (new_audio (replicate 600 (f_lit 1)) 24000 None))"
  obtain s where s: "kokoro_stream_synthesis synth False (lit ''a'') 1 = Inr (Streaming s)"
    by (simp add: kokoro_stream_synthesis_def synth_def)
  have a: "synth (lit ''a'') = Inr (new_audio (replicate 600 (f_lit 1)) 24000 None)"
    by (simp add: synth_def)
  from kokoro_stream_lossless [OF s a, of 600] s show ?thesis
    unfolding synth_def by (auto simp: new_audio_def)
qed

lemma vocab_tokens_no_longer: "length (vocab_tokenize v s) \<le> length s"
  by (simp add: vocab_tokenize_def scan_no_longer)

end
