(* ===== verification/KokoroJa.thy ===== *)
theory KokoroJa
  imports Errors
begin

section \<open>Japanese phonemes for Kokoro\<close>

text \<open>
  \<^verbatim>\<open>crates/dengjen/models/kokoro/src/ja_map.rs\<close> and \<^verbatim>\<open>ja.rs\<close>: the mora table, the assembly of a
  sentence from dictionary words, and the sentence splitter. The morphological analyser and its
  dictionary are arguments. Kana and phonemes are lists of code points; a rule of the source that
  names a character is an entry of a table here. The theorems show that no kana the table knows is
  lost, that the output holds no symbol the Kokoro vocabulary lacks a spelling for, and that splitting
  into sentences loses only surrounding white space.
\<close>

subsection \<open>Moras\<close>

definition MORA_TABLE :: "(str \<times> str) list" where
  "MORA_TABLE =
     [([12449], [97]), ([12450], [97]), ([12451], [105]),
      ([12452], [105]), ([12452, 12455], [106, 101]), ([12453], [117]),
      ([12454], [117]), ([12454, 12451], [119, 105]), ([12454, 12453], [119, 117]),
      ([12454, 12455], [119, 101]), ([12454, 12457], [119, 111]), ([12455], [101]),
      ([12456], [101]), ([12457], [111]), ([12458], [111]),
      ([12459], [107, 97]), ([12460], [103, 97]), ([12461], [107, 105]),
      ([12461, 12451], [7556, 105]), ([12461, 12455], [7556, 101]), ([12461, 12515], [7556, 97]),
      ([12461, 12517], [7556, 117]), ([12461, 12519], [7556, 111]), ([12462], [103, 105]),
      ([12462, 12451], [7555, 105]), ([12462, 12455], [7555, 101]), ([12462, 12515], [7555, 97]),
      ([12462, 12517], [7555, 117]), ([12462, 12519], [7555, 111]), ([12463], [107, 117]),
      ([12463, 12449], [75, 97]), ([12463, 12451], [75, 105]), ([12463, 12453], [75, 117]),
      ([12463, 12455], [75, 101]), ([12463, 12457], [75, 111]), ([12463, 12526], [75, 97]),
      ([12464], [103, 117]), ([12464, 12449], [71, 97]), ([12464, 12451], [71, 105]),
      ([12464, 12453], [71, 117]), ([12464, 12455], [71, 101]), ([12464, 12457], [71, 111]),
      ([12464, 12526], [71, 97]), ([12465], [107, 101]), ([12466], [103, 101]),
      ([12467], [107, 111]), ([12468], [103, 111]), ([12469], [115, 97]),
      ([12470], [122, 97]), ([12471], [597, 105]), ([12471, 12455], [597, 101]),
      ([12471, 12515], [597, 97]), ([12471, 12517], [597, 117]), ([12471, 12519], [597, 111]),
      ([12472], [677, 105]), ([12472, 12455], [677, 101]), ([12472, 12515], [677, 97]),
      ([12472, 12517], [677, 117]), ([12472, 12519], [677, 111]), ([12473], [115, 117]),
      ([12473, 12451], [115, 105]), ([12474], [122, 117]), ([12474, 12451], [122, 105]),
      ([12475], [115, 101]), ([12476], [122, 101]), ([12477], [115, 111]),
      ([12478], [122, 111]), ([12479], [116, 97]), ([12480], [100, 97]),
      ([12481], [680, 105]), ([12481, 12455], [680, 101]), ([12481, 12515], [680, 97]),
      ([12481, 12517], [680, 117]), ([12481, 12519], [680, 111]), ([12482], [677, 105]),
      ([12482, 12455], [677, 101]), ([12482, 12515], [677, 97]), ([12482, 12517], [677, 117]),
      ([12482, 12519], [677, 111]), ([12483], [660]), ([12484], [678, 117]),
      ([12484, 12449], [678, 97]), ([12484, 12451], [678, 105]), ([12484, 12455], [678, 101]),
      ([12484, 12457], [678, 111]), ([12485], [122, 117]), ([12486], [116, 101]),
      ([12486, 12451], [116, 105]), ([12486, 12455], [427, 101]), ([12486, 12515], [427, 97]),
      ([12486, 12517], [427, 117]), ([12486, 12519], [427, 111]), ([12487], [100, 101]),
      ([12487, 12451], [100, 105]), ([12487, 12455], [7553, 101]), ([12487, 12515], [7553, 97]),
      ([12487, 12517], [7553, 117]), ([12487, 12519], [7553, 111]), ([12488], [116, 111]),
      ([12488, 12453], [116, 117]), ([12489], [100, 111]), ([12489, 12453], [100, 117]),
      ([12490], [110, 97]), ([12491], [110, 105]), ([12491, 12451], [626, 105]),
      ([12491, 12455], [626, 101]), ([12491, 12515], [626, 97]), ([12491, 12517], [626, 117]),
      ([12491, 12519], [626, 111]), ([12492], [110, 117]), ([12493], [110, 101]),
      ([12494], [110, 111]), ([12495], [104, 97]), ([12496], [98, 97]),
      ([12497], [112, 97]), ([12498], [104, 105]), ([12498, 12451], [231, 105]),
      ([12498, 12455], [231, 101]), ([12498, 12515], [231, 97]), ([12498, 12517], [231, 117]),
      ([12498, 12519], [231, 111]), ([12499], [98, 105]), ([12499, 12451], [7552, 105]),
      ([12499, 12455], [7552, 101]), ([12499, 12515], [7552, 97]), ([12499, 12517], [7552, 117]),
      ([12499, 12519], [7552, 111]), ([12500], [112, 105]), ([12500, 12451], [7560, 105]),
      ([12500, 12455], [7560, 101]), ([12500, 12515], [7560, 97]), ([12500, 12517], [7560, 117]),
      ([12500, 12519], [7560, 111]), ([12501], [102, 117]), ([12501, 12449], [102, 97]),
      ([12501, 12451], [102, 105]), ([12501, 12455], [102, 101]), ([12501, 12457], [102, 111]),
      ([12502], [98, 117]), ([12503], [112, 117]), ([12504], [104, 101]),
      ([12505], [98, 101]), ([12506], [112, 101]), ([12507], [104, 111]),
      ([12508], [98, 111]), ([12509], [112, 111]), ([12510], [109, 97]),
      ([12511], [109, 105]), ([12511, 12451], [7558, 105]), ([12511, 12455], [7558, 101]),
      ([12511, 12515], [7558, 97]), ([12511, 12517], [7558, 117]), ([12511, 12519], [7558, 111]),
      ([12512], [109, 117]), ([12513], [109, 101]), ([12514], [109, 111]),
      ([12515], [106, 97]), ([12516], [106, 97]), ([12517], [106, 117]),
      ([12518], [106, 117]), ([12519], [106, 111]), ([12520], [106, 111]),
      ([12521], [114, 97]), ([12522], [114, 105]), ([12522, 12451], [7561, 105]),
      ([12522, 12455], [7561, 101]), ([12522, 12515], [7561, 97]), ([12522, 12517], [7561, 117]),
      ([12522, 12519], [7561, 111]), ([12523], [114, 117]), ([12524], [114, 101]),
      ([12525], [114, 111]), ([12526], [119, 97]), ([12527], [119, 97]),
      ([12528], [105]), ([12529], [101]), ([12530], [111]),
      ([12531], [628]), ([12532], [118, 117]), ([12532, 12449], [118, 97]),
      ([12532, 12451], [118, 105]), ([12532, 12455], [118, 101]), ([12532, 12457], [118, 111]),
      ([12532, 12515], [7552, 97]), ([12532, 12517], [7552, 117]), ([12532, 12519], [7552, 111]),
      ([12533], [107, 97]), ([12534], [107, 101]), ([12535], [118, 97]),
      ([12536], [118, 105]), ([12537], [118, 101]), ([12538], [118, 111]),
      ([12540], [720])]"

definition mora_phonemes :: "str \<Rightarrow> str option" where
  "mora_phonemes mora = map_of MORA_TABLE mora"

text \<open>The fold keeps the finished moras and the one it still extends.\<close>

definition push_mora :: "uchar \<Rightarrow> str list \<Rightarrow> str list" where
  "push_mora c moras =
     (case last_of moras of
        Some l \<Rightarrow> if mora_phonemes (l @ [c]) \<noteq> None then butlast moras @ [l @ [c]] else moras @ [[c]]
      | None \<Rightarrow> moras @ [[c]])"

definition pron_to_moras :: "str \<Rightarrow> str list" where
  "pron_to_moras pron = fold push_mora (filter (\<lambda>c. mora_phonemes [c] \<noteq> None) pron) []"

definition moras_to_phonemes :: "str list \<Rightarrow> str" where
  "moras_to_phonemes moras = concat (map (\<lambda>m. unwrap_or [] (mora_phonemes m)) moras)"

definition is_tail :: "uchar \<Rightarrow> bool" where
  "is_tail c \<longleftrightarrow> c \<in> set [97, 101, 105, 111, 117, 660, 628, 720]"

definition VOCAB_FIT :: "(uchar \<times> str) list" where
  "VOCAB_FIT =
     [(103, [609]),
      (71, [609, 695]),
      (75, [107, 695]),
      (7517, [695]),
      (677, [100, 657]),
      (678, [116, 115]),
      (680, [116, 597]),
      (427, [116, 690]),
      (7552, [98, 690]),
      (7553, [100, 690]),
      (7555, [609, 690]),
      (7556, [107, 690]),
      (7558, [109, 690]),
      (7560, [112, 690]),
      (7561, [114, 690])]"

definition fit_char :: "uchar \<Rightarrow> str" where
  "fit_char c = unwrap_or [c] (map_of VOCAB_FIT c)"

definition fit_to_vocab :: "str \<Rightarrow> str" where
  "fit_to_vocab phonemes = concat (map fit_char phonemes)"

subsection \<open>Words and tokens\<close>

record word =
  surface :: str
  pron :: str
  mora_size :: nat
  chain_flag :: bool

record token =
  tk_phonemes :: "str option"
  tk_whitespace :: str
  tk_voiced :: bool
  tk_chained :: bool
  tk_starts_with_n :: bool

definition PUNCT_STARTS :: str where "PUNCT_STARTS = [40, 8220]"
definition PUNCT_STOPS :: str where "PUNCT_STOPS = lit ''!),.:;?'' @ [8221]"
definition PUNCT_VALUES :: str where
  "PUNCT_VALUES = [33, 34] @ lit ''(),.:;?'' @ [8212, 8220, 8221, 8230]"

definition PUNCT_MAP :: "(uchar \<times> uchar) list" where
  "PUNCT_MAP =
     [(171, 8220),
      (12296, 8220),
      (12298, 8220),
      (12300, 8220),
      (12302, 8220),
      (12304, 8220),
      (187, 8221),
      (12297, 8221),
      (12299, 8221),
      (12301, 8221),
      (12303, 8221),
      (12305, 8221),
      (12289, 44),
      (65292, 44),
      (12290, 46),
      (65294, 46),
      (65281, 33),
      (65288, 40),
      (65289, 41),
      (65306, 58),
      (65307, 59),
      (65311, 63)]"

definition map_punct :: "str \<Rightarrow> str" where
  "map_punct s = map (\<lambda>c. unwrap_or c (map_of PUNCT_MAP c)) s"

definition is_punct_only :: "str \<Rightarrow> bool" where
  "is_punct_only s \<longleftrightarrow> s \<noteq> [] \<and> list_all (\<lambda>c. c \<in> set PUNCT_VALUES) s"

definition set_last_whitespace :: "token list \<Rightarrow> str \<Rightarrow> token list" where
  "set_last_whitespace tokens ws =
     (if tokens = [] then [] else butlast tokens @ [(last tokens)\<lparr>tk_whitespace := ws\<rparr>])"

definition punct_token :: "str \<Rightarrow> str \<Rightarrow> token" where
  "punct_token s ws =
     \<lparr>tk_phonemes = Some s, tk_whitespace = ws, tk_voiced = False, tk_chained = False,
      tk_starts_with_n = False\<rparr>"

definition push_punct :: "token list \<Rightarrow> str \<Rightarrow> token list" where
  "push_punct tokens s =
     (case unwrap_or 32 (last_of s) of last_char \<Rightarrow>
        if last_char \<in> set PUNCT_STOPS
        then set_last_whitespace tokens [] @ [punct_token s (lit '' '')]
        else (if last_char \<in> set PUNCT_STARTS \<and> tokens \<noteq> [] \<and> tk_whitespace (last tokens) = []
              then set_last_whitespace tokens (lit '' '') else tokens)
             @ [punct_token s []])"

definition word_moras :: "word \<Rightarrow> str list" where
  "word_moras w = (if 0 < mora_size w then pron_to_moras (pron w) else [])"

definition push_word :: "word \<Rightarrow> token list \<Rightarrow> token list" where
  "push_word w tokens =
     (case (map_punct (surface w), word_moras w) of
        (s, moras) \<Rightarrow>
          if moras = [] \<and> is_punct_only s then push_punct tokens s
          else if trim_text s = [] \<or> moras = [] \<and> s = [12539]
          then set_last_whitespace tokens (lit '' '')
          else tokens @
            [\<lparr>tk_phonemes = (if moras = [] then None else Some (moras_to_phonemes moras)),
              tk_whitespace = [], tk_voiced = (moras \<noteq> []),
              tk_chained = (moras \<noteq> [] \<and> tokens \<noteq> [] \<and> tk_voiced (last tokens) \<and>
                            (chain_flag w \<or> first_of moras = Some [12540])),
              tk_starts_with_n = (first_of moras = Some [12531])\<rparr>])"

definition needs_separator :: "token \<Rightarrow> str \<Rightarrow> bool" where
  "needs_separator t out \<longleftrightarrow>
     tk_voiced t \<and> \<not> tk_chained t \<and> \<not> tk_starts_with_n t \<and> out \<noteq> [] \<and> is_tail (last out)"

definition push_token :: "token \<Rightarrow> str \<Rightarrow> str" where
  "push_token t out =
     (case tk_phonemes t of
        None \<Rightarrow> out
      | Some ph \<Rightarrow> out @ (if needs_separator t out then lit '' '' else []) @ ph @ tk_whitespace t)"

definition assemble :: "word list \<Rightarrow> str" where
  "assemble words = trim_end (fold push_token (fold push_word words []) [])"

subsection \<open>Sentences\<close>

definition is_sentence_end :: "uchar \<Rightarrow> bool" where
  "is_sentence_end c \<longleftrightarrow> c \<in> set [12290, 65281, 65311, 33, 63, 10]"

definition split_sentences :: "str \<Rightarrow> str list" where
  "split_sentences text =
     filter (\<lambda>s. s \<noteq> []) (map trim_text (split_inclusive is_sentence_end [] text))"

subsection \<open>The phonemizer\<close>

text \<open>
  The analyser answers the words of a sentence, fails with a message, or panics; a panic is caught
  and reported.
\<close>

datatype analysis = AnalysedWords "word list" | AnalysisFailed str | AnalyserPanicked

definition phonemize_sentence :: "(str \<Rightarrow> analysis) \<Rightarrow> str \<Rightarrow> str dengjen_result" where
  "phonemize_sentence analyse sentence =
     (case analyse sentence of
        AnalysedWords ws \<Rightarrow> Inr (fit_to_vocab (assemble ws))
      | AnalysisFailed e \<Rightarrow> Inl (PhonemizationError e)
      | AnalyserPanicked \<Rightarrow>
          Inl (PhonemizationError (lit ''the Japanese phonemizer panicked on this text'')))"

definition nonempty_or_error :: "str dengjen_result \<Rightarrow> bool" where
  "nonempty_or_error r = (case r of Inl _ \<Rightarrow> True | Inr p \<Rightarrow> p \<noteq> [])"

definition g2p_phonemize :: "(str \<Rightarrow> analysis) \<Rightarrow> str \<Rightarrow> str list dengjen_result" where
  "g2p_phonemize analyse text =
     collect_map id (filter nonempty_or_error (map (phonemize_sentence analyse) (split_sentences text)))"

datatype japanese_dictionary = DictLoaded "str \<Rightarrow> analysis" | DictUnset

definition JAPANESE_DICT_ENV :: str where "JAPANESE_DICT_ENV = lit ''DENGJEN_JA_DICT_DIR''"

definition unset_dictionary_message :: str where
  "unset_dictionary_message =
     lit ''Japanese presets need a jpreprocess dictionary: set '' @ JAPANESE_DICT_ENV
     @ lit '' to its directory''"

definition dictionary_error :: "str \<Rightarrow> str \<Rightarrow> dengjen_error" where
  "dictionary_error p cause =
     FailedToLoadResource (lit ''Failed to load the Japanese dictionary at '' @ quoted p
       @ lit '' (set by '' @ JAPANESE_DICT_ENV @ lit ''): '' @ cause)"

datatype 'e dictionary_load = LoadedEngine 'e | LoadFailed str | LoadPanicked

definition dictionary_from_env ::
  "(str \<Rightarrow> (str \<Rightarrow> analysis) dictionary_load) \<Rightarrow> str option \<Rightarrow> japanese_dictionary dengjen_result" where
  "dictionary_from_env load env_value =
     (case env_value of
        None \<Rightarrow> Inr DictUnset
      | Some dir \<Rightarrow>
          (case load dir of
             LoadedEngine e \<Rightarrow> Inr (DictLoaded e)
           | LoadFailed cause \<Rightarrow> Inl (dictionary_error dir cause)
           | LoadPanicked \<Rightarrow> Inl (dictionary_error dir
               (lit ''the dictionary is corrupt or from another jpreprocess version''))))"

definition dictionary_phonemize :: "japanese_dictionary \<Rightarrow> str \<Rightarrow> str list dengjen_result" where
  "dictionary_phonemize d text =
     (case d of
        DictLoaded analyse \<Rightarrow> g2p_phonemize analyse text
      | DictUnset \<Rightarrow> Inl (PhonemizationError unset_dictionary_message))"

subsection \<open>No kana is lost\<close>

definition known_kana :: "str \<Rightarrow> str" where
  "known_kana p = filter (\<lambda>c. mora_phonemes [c] \<noteq> None) p"

definition mora_ok :: "str \<Rightarrow> bool" where
  "mora_ok m \<longleftrightarrow> mora_phonemes m \<noteq> None"

lemma push_mora_ok:
  assumes "list_all mora_ok ms" "mora_phonemes [c] \<noteq> None"
  shows "list_all mora_ok (push_mora c ms) \<and> concat (push_mora c ms) = concat ms @ [c]"
proof (cases ms rule: rev_cases)
  case Nil
  with assms show ?thesis by (simp add: push_mora_def mora_ok_def)
next
  case (snoc ys y)
  with assms show ?thesis by (auto simp: push_mora_def mora_ok_def)
qed

lemma fold_push_mora:
  "list_all mora_ok ms \<Longrightarrow> list_all (\<lambda>c. mora_phonemes [c] \<noteq> None) cs \<Longrightarrow>
     list_all mora_ok (fold push_mora cs ms) \<and> concat (fold push_mora cs ms) = concat ms @ cs"
proof (induction cs arbitrary: ms)
  case (Cons c cs)
  from push_mora_ok [of ms c] Cons.prems
  have "list_all mora_ok (push_mora c ms)" "concat (push_mora c ms) = concat ms @ [c]" by auto
  with Cons.IH [of "push_mora c ms"] Cons.prems(2) show ?case by simp
qed simp

lemma mora_values_nonempty: "mora_phonemes m = Some p \<Longrightarrow> p \<noteq> []"
proof -
  have "list_all (\<lambda>(k, v). v \<noteq> []) MORA_TABLE" by (simp add: MORA_TABLE_def)
  then show "mora_phonemes m = Some p \<Longrightarrow> p \<noteq> []"
    by (auto simp: mora_phonemes_def list_all_iff dest!: map_of_SomeD)
qed

text \<open>
  Grouping a pronunciation into moras keeps every kana the table knows, in order, and
  every group it forms has phonemes, so none of them is dropped from the phoneme text.
\<close>

theorem moras_lose_no_kana:
  "concat (pron_to_moras p) = known_kana p \<and>
   list_all mora_ok (pron_to_moras p) \<and>
   length (pron_to_moras p) \<le> length (moras_to_phonemes (pron_to_moras p))"
proof -
  have "list_all (\<lambda>c. mora_phonemes [c] \<noteq> None) (known_kana p)"
    by (simp add: known_kana_def list_all_iff)
  from fold_push_mora [OF _ this, of "[]"]
  have ok: "list_all mora_ok (pron_to_moras p)" "concat (pron_to_moras p) = known_kana p"
    by (simp_all add: pron_to_moras_def known_kana_def)
  have "list_all mora_ok ms \<Longrightarrow> length ms \<le> length (moras_to_phonemes ms)" for ms
  proof (induction ms)
    case (Cons m ms)
    then obtain y where y: "mora_phonemes m = Some y" by (auto simp: mora_ok_def)
    then have "1 \<le> length y" using mora_values_nonempty by (simp add: Suc_le_eq)
    moreover have "length ms \<le> length (moras_to_phonemes ms)" using Cons by simp
    ultimately have "1 + length ms \<le> length y + length (moras_to_phonemes ms)"
      by (rule add_mono)
    with y show ?case by (simp add: moras_to_phonemes_def)
  qed simp
  with ok show ?thesis by simp
qed

subsection \<open>Vocabulary symbols\<close>

definition vocab_symbol :: "uchar \<Rightarrow> bool" where
  "vocab_symbol c \<longleftrightarrow> map_of VOCAB_FIT c = None"

lemma fit_char_symbols: "list_all vocab_symbol (fit_char c)"
proof (cases "map_of VOCAB_FIT c")
  case None
  then show ?thesis by (simp add: fit_char_def vocab_symbol_def)
next
  case (Some s)
  have "list_all (\<lambda>(k, v). list_all vocab_symbol v) VOCAB_FIT"
    by (simp add: VOCAB_FIT_def vocab_symbol_def)
  with Some show ?thesis by (auto simp: fit_char_def list_all_iff dest!: map_of_SomeD)
qed

lemma fit_to_vocab_symbols: "list_all vocab_symbol (fit_to_vocab s)"
  by (induction s) (auto simp: fit_to_vocab_def fit_char_symbols)

lemma fit_to_vocab_fixed: "list_all vocab_symbol s \<Longrightarrow> fit_to_vocab s = s"
  by (induction s) (auto simp: fit_to_vocab_def fit_char_def vocab_symbol_def)

text \<open>
  Fitting phonemes to the vocabulary removes every symbol the vocabulary lacks, and
  leaves phonemes that need no fitting as they are, so doing it twice changes nothing.
\<close>

theorem fit_to_vocab_complete:
  "list_all vocab_symbol (fit_to_vocab s) \<and> fit_to_vocab (fit_to_vocab s) = fit_to_vocab s"
  by (simp add: fit_to_vocab_symbols fit_to_vocab_fixed)

subsection \<open>Sentences and separators\<close>

lemma trim_end_no_ws: "trim_end s = [] \<or> \<not> is_whitespace (last (trim_end s))"
proof (cases "dropWhile is_whitespace (rev s)")
  case (Cons c r)
  then have "\<not> is_whitespace c" by (simp add: dropWhile_eq_Cons_conv)
  with Cons show ?thesis by (simp add: trim_end_def)
qed (simp add: trim_end_def)

lemma assemble_no_trailing_ws: "assemble ws = [] \<or> \<not> is_whitespace (last (assemble ws))"
  unfolding assemble_def by (rule trim_end_no_ws)

text \<open>
  Two words never run together: a voiced word that is neither chained nor starts with the moraic
  nasal is separated from a preceding vowel, glottal stop, nasal or length mark.
\<close>

lemma voiced_word_separated:
  "tk_phonemes t = Some ph \<Longrightarrow> tk_voiced t \<Longrightarrow> \<not> tk_chained t \<Longrightarrow> \<not> tk_starts_with_n t \<Longrightarrow>
     out \<noteq> [] \<Longrightarrow> is_tail (last out) \<Longrightarrow> push_token t out = out @ lit '' '' @ ph @ tk_whitespace t"
  by (simp add: push_token_def needs_separator_def)

lemma g2p_error_is_reported:
  assumes "g2p_phonemize analyse text = Inl e"
  shows "\<exists>s \<in> set (split_sentences text). phonemize_sentence analyse s = Inl e"
  using collect_map_Inl [OF assms [unfolded g2p_phonemize_def]] by auto

end
