(* ===== verification/PinyinNumbers.thy ===== *)
theory PinyinNumbers
  imports Prelude
begin

section \<open>Reading numbers in Chinese text\<close>

text \<open>
  \<^verbatim>\<open>crates/text/pinyin-phonemizer/src/numbers.rs\<close>: temperatures, percentages and plain numbers are
  spelled out before a text is read. The loops of the source that advance an index over the text
  are recursions on the rest of the text. The theorems show that the spelling of every number of
  up to eight digits reads back as the number, that no digit survives the normalization, and that a
  text without digits is left alone.
\<close>

subsection \<open>Numerals\<close>

definition ZERO_WORD :: uchar where "ZERO_WORD = 0x96F6"
definition TEN_WORD :: uchar where "TEN_WORD = 0x5341"
definition HUNDRED_WORD :: uchar where "HUNDRED_WORD = 0x767E"
definition THOUSAND_WORD :: uchar where "THOUSAND_WORD = 0x5343"
definition MYRIAD_WORD :: uchar where "MYRIAD_WORD = 0x4E07"
definition POINT_WORD :: uchar where "POINT_WORD = 0x70B9"
definition DEGREE_WORD :: uchar where "DEGREE_WORD = 0x5EA6"
definition YEAR_WORD :: uchar where "YEAR_WORD = 0x5E74"

lemmas unit_defs = ZERO_WORD_def TEN_WORD_def HUNDRED_WORD_def THOUSAND_WORD_def MYRIAD_WORD_def
  POINT_WORD_def DEGREE_WORD_def YEAR_WORD_def

definition DIGITS :: "uchar list" where
  "DIGITS = [0x96F6, 0x4E00, 0x4E8C, 0x4E09, 0x56DB, 0x4E94, 0x516D, 0x4E03, 0x516B, 0x4E5D]"

definition digit_to_word :: "nat \<Rightarrow> uchar" where
  "digit_to_word d = unwrap_or ZERO_WORD (get_at DIGITS d)"

definition MAX_CARDINAL_DIGITS :: nat where "MAX_CARDINAL_DIGITS = 8"
definition YEAR_DIGITS :: nat where "YEAR_DIGITS = 4"

definition to_digit :: "uchar \<Rightarrow> nat option" where
  "to_digit c = (if is_ascii_digit c then Some (c - 48) else None)"

definition read_digit_by_digit :: "str \<Rightarrow> str" where
  "read_digit_by_digit digits = map digit_to_word (List.map_filter to_digit digits)"

definition push_place :: "str \<times> bool \<Rightarrow> nat \<times> uchar option \<Rightarrow> str \<times> bool" where
  "push_place st place =
     (case st of (out, pending_zero) \<Rightarrow> case place of (digit, unit_word) \<Rightarrow>
        if digit = 0 then (out, out \<noteq> [])
        else
          (out @ (if pending_zero then [ZERO_WORD] else []) @ [digit_to_word digit]
             @ (case unit_word of None \<Rightarrow> [] | Some u \<Rightarrow> [u]), False))"

definition format_section :: "nat \<Rightarrow> str" where
  "format_section n =
     fst (foldl push_place ([], False)
       [(n div 1000, Some THOUSAND_WORD), (n div 100 mod 10, Some HUNDRED_WORD),
        (n div 10 mod 10, Some TEN_WORD), (n mod 10, None)])"

definition format_cardinal :: "nat \<Rightarrow> str" where
  "format_cardinal n =
     (let high = n div 10000; low = n mod 10000;
          head =
            (if high > 0 then
               format_section high @ [MYRIAD_WORD] @ (if low > 0 \<and> low < 1000 then [ZERO_WORD] else [])
             else []);
          out = head @ (if low > 0 \<or> high = 0 then format_section low else []) in
      case strip_prefix [digit_to_word 1, TEN_WORD] out of
        Some rest \<Rightarrow> TEN_WORD # rest
      | None \<Rightarrow> if out = [] then [digit_to_word 0] else out)"

text \<open>\<^verbatim>\<open>str::parse::<u32>\<close> on a run of digits; an empty run or an overflow is an error.\<close>

definition digits_value :: "str \<Rightarrow> nat" where
  "digits_value ds = foldl (\<lambda>n c. 10 * n + (c - 48)) 0 ds"

definition parse_u32 :: "str \<Rightarrow> nat option" where
  "parse_u32 ds =
     (if ds \<noteq> [] \<and> list_all is_ascii_digit ds \<and> digits_value ds < 2 ^ 32 then Some (digits_value ds)
      else None)"

definition format_integer :: "str \<Rightarrow> str" where
  "format_integer digits =
     (if (length digits > 1 \<and> first_of digits = Some 48) \<or> length digits > MAX_CARDINAL_DIGITS then
        read_digit_by_digit digits
      else
        (case parse_u32 digits of
           Some n \<Rightarrow> format_cardinal n
         | None \<Rightarrow> read_digit_by_digit digits))"

definition format_fraction_digits :: "str \<Rightarrow> str" where
  "format_fraction_digits digits = read_digit_by_digit digits"

subsection \<open>Temperatures and percentages\<close>

text \<open>
  What the scanners see at the head of a text: a minus sign, the digits of an integer, those of a
  fraction (none when the point has no digit after it), and the text after the value.
\<close>

record number_scan =
  ns_negative :: bool
  ns_integer :: str
  ns_fraction :: str
  ns_rest :: str

definition scan_number :: "str \<Rightarrow> number_scan" where
  "scan_number s =
     (let negative = (first_of s = Some 45 \<or> first_of s = Some 0x2212);
          body = (if negative then drop 1 s else s);
          ints = takeWhile is_ascii_digit body;
          after = dropWhile is_ascii_digit body;
          fraction = (if ints \<noteq> [] \<and> first_of after = Some 46
                      then takeWhile is_ascii_digit (drop 1 after) else []) in
      \<lparr>ns_negative = negative, ns_integer = ints, ns_fraction = fraction,
       ns_rest = (if fraction \<noteq> [] then dropWhile is_ascii_digit (drop 1 after) else after)\<rparr>)"

definition celsius_rest :: "str \<Rightarrow> str option" where
  "celsius_rest s =
     (if first_of s = Some 0x2103 then Some (drop 1 s)
      else if first_of s = Some 0xB0 \<and> get_at s 1 = Some 67 then Some (drop 2 s)
      else None)"

definition spell_value :: "number_scan \<Rightarrow> str" where
  "spell_value n =
     format_integer (ns_integer n)
       @ (if ns_fraction n \<noteq> [] then POINT_WORD # format_fraction_digits (ns_fraction n) else [])"

lemma length_dropWhile_lt: "takeWhile P s \<noteq> [] \<Longrightarrow> length (dropWhile P s) < length s"
proof -
  assume "takeWhile P s \<noteq> []"
  moreover have "length s = length (takeWhile P s) + length (dropWhile P s)"
    by (metis length_append takeWhile_dropWhile_id)
  ultimately show ?thesis by simp
qed

lemma scan_number_shorter: "ns_integer (scan_number s) \<noteq> [] \<Longrightarrow> length (ns_rest (scan_number s)) < length s"
proof -
  assume ne: "ns_integer (scan_number s) \<noteq> []"
  define body where "body = (if first_of s = Some 45 \<or> first_of s = Some 0x2212 then drop 1 s else s)"
  have ints: "takeWhile is_ascii_digit body \<noteq> []"
    using ne by (simp add: scan_number_def Let_def body_def)
  have "length (ns_rest (scan_number s)) \<le> length (dropWhile is_ascii_digit body)"
    by (auto simp: scan_number_def Let_def body_def intro: le_trans [OF length_dropWhile_le])
  also have "\<dots> < length body" by (rule length_dropWhile_lt [OF ints])
  also have "\<dots> \<le> length s" by (simp add: body_def)
  finally show ?thesis .
qed

lemma scan_number_shorter_Cons:
  "ns_integer (scan_number (c # cs)) \<noteq> [] \<Longrightarrow> length (ns_rest (scan_number (c # cs))) < Suc (length cs)"
  using scan_number_shorter [of "c # cs"] by simp

lemma celsius_rest_shorter: "celsius_rest s = Some r \<Longrightarrow> length r \<le> length s"
  by (auto simp: celsius_rest_def split: if_splits)

function (sequential) normalize_temperatures :: "str \<Rightarrow> str" where
  "normalize_temperatures [] = []"
| "normalize_temperatures (c # cs) =
     (let n = scan_number (c # cs) in
      if ns_integer n = [] then c # normalize_temperatures cs
      else
        (case celsius_rest (dropWhile (\<lambda>x. x = 32) (ns_rest n)) of
           None \<Rightarrow>
             take (length (c # cs) - length (ns_rest n)) (c # cs) @ normalize_temperatures (ns_rest n)
         | Some rest \<Rightarrow>
             (if ns_negative n then [ZERO_WORD, 0x4E0B] else []) @ spell_value n @ [DEGREE_WORD]
               @ normalize_temperatures rest))"
  by pat_completeness auto
termination
proof (relation "measure length")
  fix c cs x r
  assume x: "x = scan_number (c # cs)" "ns_integer x \<noteq> []"
    and r: "celsius_rest (dropWhile (\<lambda>x. x = 32) (ns_rest x)) = Some r"
  have "length r \<le> length (dropWhile (\<lambda>x. x = 32) (ns_rest x))" by (rule celsius_rest_shorter [OF r])
  also have "\<dots> \<le> length (ns_rest x)" by (rule length_dropWhile_le)
  also have "\<dots> < length (c # cs)" using scan_number_shorter x by blast
  finally show "(r, c # cs) \<in> measure length" by simp
qed (auto simp: scan_number_shorter_Cons)

function (sequential) normalize_percentages :: "str \<Rightarrow> str" where
  "normalize_percentages [] = []"
| "normalize_percentages (c # cs) =
     (let n = scan_number (c # cs) in
      if ns_integer n \<noteq> [] \<and> (first_of (ns_rest n) = Some 37 \<or> first_of (ns_rest n) = Some 0xFF05) then
        (if ns_negative n then [0x8D1F] else []) @ [0x767E, 0x5206, 0x4E4B] @ spell_value n
          @ normalize_percentages (drop 1 (ns_rest n))
      else c # normalize_percentages cs)"
  by pat_completeness auto
termination
proof (relation "measure length")
  fix c cs x
  assume "x = scan_number (c # cs)" "ns_integer x \<noteq> [] \<and> (first_of (ns_rest x) = Some 37 \<or> first_of (ns_rest x) = Some 0xFF05)"
  then have "length (ns_rest x) < length (c # cs)" using scan_number_shorter by blast
  then show "(drop 1 (ns_rest x), c # cs) \<in> measure length" by simp
qed auto

subsection \<open>Plain numbers\<close>

text \<open>
  The characters already passed are an argument, because a run of digits after a point that follows
  a digit is a fraction: its point, the last character written, becomes a word.
\<close>

function (sequential) plain_digits_loop :: "str \<Rightarrow> str \<Rightarrow> str \<Rightarrow> str" where
  "plain_digits_loop past out [] = out"
| "plain_digits_loop past out (c # cs) =
     (if \<not> is_ascii_digit c then plain_digits_loop (past @ [c]) (out @ [c]) cs
      else
        (let run = takeWhile is_ascii_digit (c # cs);
             rest = dropWhile is_ascii_digit (c # cs);
             is_year = (length run = YEAR_DIGITS \<and> first_of rest = Some YEAR_WORD);
             is_fraction = (2 \<le> length past \<and> last past = 46 \<and> is_ascii_digit (past ! (length past - 2))) in
         plain_digits_loop (past @ run)
           (if is_fraction then butlast out @ [POINT_WORD] @ read_digit_by_digit run
            else if is_year then out @ read_digit_by_digit run
            else out @ format_integer run)
           rest))"
  by pat_completeness auto
termination
proof (relation "measure (\<lambda>(past, out, s). length s)")
  fix past out :: str and c cs x xa xb xc
  assume "\<not> \<not> is_ascii_digit c" "xa = dropWhile is_ascii_digit (c # cs)"
  then show "((past @ x, if xc then butlast out @ [POINT_WORD] @ read_digit_by_digit x
       else if xb then out @ read_digit_by_digit x else out @ format_integer x, xa), past, out, c # cs)
     \<in> measure (\<lambda>(past, out, s). length s)"
    using length_dropWhile_lt [of is_ascii_digit "c # cs"] by simp
qed auto

definition normalize_plain_digits :: "str \<Rightarrow> str" where
  "normalize_plain_digits text = plain_digits_loop [] [] text"

definition normalize_numbers :: "str \<Rightarrow> str" where
  "normalize_numbers text = normalize_plain_digits (normalize_percentages (normalize_temperatures text))"

subsection \<open>Reading a numeral back\<close>

text \<open>
  The meaning of a Chinese numeral: what has been counted in myriads, in the current section, and
  the digit that waits for its unit. A ten without a digit before it counts once.
\<close>

definition word_digit :: "uchar \<Rightarrow> nat option" where
  "word_digit c = map_of (zip DIGITS [0..<10]) c"

definition read_step :: "nat \<times> nat \<times> nat \<Rightarrow> uchar \<Rightarrow> nat \<times> nat \<times> nat" where
  "read_step st c =
     (case st of (myriads, sect, d) \<Rightarrow>
        if c = MYRIAD_WORD then (myriads + 10000 * (sect + d), 0, 0)
        else if c = THOUSAND_WORD then (myriads, sect + 1000 * d, 0)
        else if c = HUNDRED_WORD then (myriads, sect + 100 * d, 0)
        else if c = TEN_WORD then (myriads, sect + 10 * (if d = 0 then 1 else d), 0)
        else (case word_digit c of None \<Rightarrow> st | Some k \<Rightarrow> (myriads, sect, k)))"

definition numeral_value :: "str \<Rightarrow> nat" where
  "numeral_value s = (case foldl read_step (0, 0, 0) s of (myriads, sect, d) \<Rightarrow> myriads + sect + d)"

lemma digit_cases: "d < 10 \<Longrightarrow> d = 0 \<or> d = 1 \<or> d = 2 \<or> d = 3 \<or> d = 4 \<or> d = 5 \<or> d = 6 \<or> d = 7 \<or> d = 8 \<or> d = (9::nat)"
  by arith

lemma upt_10: "[0..<10] = [0, 1, 2, 3, 4, 5, 6, 7, 8, 9::nat]"
  by (simp add: upt_rec)

lemma read_digit: "d < 10 \<Longrightarrow> read_step (t, s, k) (digit_to_word d) = (t, s, d)"
  by (drule digit_cases, elim disjE)
    (simp_all del: upt_rec_numeral
      add: read_step_def digit_to_word_def DIGITS_def get_at_def word_digit_def unit_defs upt_10)

lemma read_units:
  "read_step (t, s, d) MYRIAD_WORD = (t + 10000 * (s + d), 0, 0)"
  "read_step (t, s, d) THOUSAND_WORD = (t, s + 1000 * d, 0)"
  "read_step (t, s, d) HUNDRED_WORD = (t, s + 100 * d, 0)"
  "read_step (t, s, d) TEN_WORD = (t, s + 10 * (if d = 0 then 1 else d), 0)"
  "read_step (t, s, d) ZERO_WORD = (t, s, 0)"
  by (simp_all del: upt_rec_numeral
      add: read_step_def unit_defs word_digit_def DIGITS_def upt_10)

lemma read_section:
  assumes "a < 10" "b < 10" "c < 10" "d < 10"
  shows "foldl read_step (t, 0, 0)
      (fst (foldl push_place ([], False)
        [(a, Some THOUSAND_WORD), (b, Some HUNDRED_WORD), (c, Some TEN_WORD), (d, None)])) =
    (t, 1000 * a + 100 * b + 10 * c, d)"
  by (cases "a = 0"; cases "b = 0"; cases "c = 0"; cases "d = 0")
    (simp_all add: push_place_def read_digit read_units assms)

lemma digit_sum:
  "1000 * (n div 1000) + 100 * (n div 100 mod 10) + 10 * (n div 10 mod 10) = 10 * (n div 10)" for n :: nat
proof -
  define q where "q = n div 10"
  have "n div 100 = q div 10" "n div 1000 = q div 10 div 10"
    by (simp_all add: q_def div_mult2_eq [symmetric])
  moreover have "q = 10 * (q div 10) + q mod 10" "q div 10 = 10 * (q div 10 div 10) + q div 10 mod 10"
    by simp_all
  ultimately show ?thesis by (simp only: q_def [symmetric])
qed

lemma read_format_section:
  assumes "n < 10000"
  shows "foldl read_step (t, 0, 0) (format_section n) = (t, 10 * (n div 10), n mod 10)"
proof -
  have "n div 1000 < 10" using assms by (simp add: less_mult_imp_div_less)
  then show ?thesis
    unfolding format_section_def by (subst read_section) (simp_all add: digit_sum)
qed

lemma strip_ten:
  "strip_prefix [digit_to_word 1, TEN_WORD] out = Some rest \<Longrightarrow>
   foldl read_step (t, 0, 0) (TEN_WORD # rest) = foldl read_step (t, 0, 0) out"
  by (cases out; cases "tl out")
    (auto simp: strip_prefix_def starts_with_def read_digit read_units split: if_splits)

text \<open>
  \<^bold>\<open>C31\<close>: the Chinese numeral written for a number below a hundred million reads back as the number.
\<close>

theorem cardinal_reads_back:
  assumes "n < 100000000"
  shows "numeral_value (format_cardinal n) = n"
proof -
  define high where "high = n div 10000"
  define low where "low = n mod 10000"
  have n: "n = 10000 * high + low" by (simp add: high_def low_def)
  have hb: "high < 10000" using assms by (simp add: high_def less_mult_imp_div_less)
  have lb: "low < 10000" by (simp add: low_def)
  define head where "head = (if high > 0 then
      format_section high @ [MYRIAD_WORD] @ (if low > 0 \<and> low < 1000 then [ZERO_WORD] else []) else [])"
  define out where "out = head @ (if low > 0 \<or> high = 0 then format_section low else [])"
  have head: "foldl read_step (0, 0, 0) head = (10000 * high, 0, 0)"
    unfolding head_def by (simp add: read_format_section [OF hb] read_units)
  have out: "foldl read_step (0, 0, 0) out = (10000 * high, 10 * (low div 10), low mod 10)"
    unfolding out_def by (simp add: head read_format_section [OF lb])
  have eq: "format_cardinal n =
      (case strip_prefix [digit_to_word 1, TEN_WORD] out of
         Some rest \<Rightarrow> TEN_WORD # rest
       | None \<Rightarrow> if out = [] then [digit_to_word 0] else out)"
    unfolding format_cardinal_def Let_def high_def low_def head_def out_def by (rule refl)
  have "foldl read_step (0, 0, 0) (format_cardinal n) = (10000 * high, 10 * (low div 10), low mod 10)"
  proof (cases "strip_prefix [digit_to_word 1, TEN_WORD] out")
    case (Some rest)
    then show ?thesis using strip_ten [OF Some, of 0] out by (simp add: eq)
  next
    case None
    then show ?thesis using out by (cases "out = []") (simp_all add: eq read_digit)
  qed
  then show ?thesis by (simp add: numeral_value_def n)
qed

theorem cardinal_reads_back_witness: "numeral_value (format_cardinal 120050) = 120050"
  by (rule cardinal_reads_back) simp

subsection \<open>No digit is left\<close>

definition no_digits :: "str \<Rightarrow> bool" where
  "no_digits s \<longleftrightarrow> list_all (\<lambda>c. \<not> is_ascii_digit c) s"

lemma no_digits_simps [simp]:
  "no_digits []" "no_digits (c # s) \<longleftrightarrow> \<not> is_ascii_digit c \<and> no_digits s"
  "no_digits (s @ t) \<longleftrightarrow> no_digits s \<and> no_digits t"
  by (simp_all add: no_digits_def)

lemma no_digits_butlast: "no_digits s \<Longrightarrow> no_digits (butlast s)"
  by (auto simp: no_digits_def list_all_iff dest: in_set_butlastD)

lemma digit_words: "\<not> is_ascii_digit (digit_to_word d)"
proof -
  have "ZERO_WORD \<in> set DIGITS" by (simp add: ZERO_WORD_def DIGITS_def)
  then have "digit_to_word d \<in> set DIGITS"
    by (cases "d < length DIGITS") (simp_all add: digit_to_word_def get_at_def)
  then show ?thesis by (auto simp: DIGITS_def is_ascii_digit_def)
qed

lemma unit_words:
  "\<not> is_ascii_digit ZERO_WORD" "\<not> is_ascii_digit TEN_WORD" "\<not> is_ascii_digit HUNDRED_WORD"
  "\<not> is_ascii_digit THOUSAND_WORD" "\<not> is_ascii_digit MYRIAD_WORD" "\<not> is_ascii_digit POINT_WORD"
  by (simp_all add: is_ascii_digit_def unit_defs)

lemma no_digits_read: "no_digits (read_digit_by_digit s)"
  by (auto simp: no_digits_def list_all_iff read_digit_by_digit_def digit_words)

lemma no_digits_push:
  "no_digits (fst st) \<Longrightarrow> list_all (\<lambda>p. case snd p of None \<Rightarrow> True | Some u \<Rightarrow> \<not> is_ascii_digit u) places \<Longrightarrow>
   no_digits (fst (foldl push_place st places))"
proof (induction places arbitrary: st)
  case (Cons p places)
  have "no_digits (fst (push_place st p))" using Cons.prems
    by (cases st; cases p) (auto simp: push_place_def digit_words unit_words split: option.splits)
  then show ?case using Cons by simp
qed simp

lemma no_digits_section: "no_digits (format_section n)"
  unfolding format_section_def by (rule no_digits_push) (simp_all add: unit_words)

lemma no_digits_cardinal: "no_digits (format_cardinal n)"
proof -
  have "no_digits out \<Longrightarrow>
      no_digits (case strip_prefix [digit_to_word 1, TEN_WORD] out of
        Some rest \<Rightarrow> TEN_WORD # rest | None \<Rightarrow> if out = [] then [digit_to_word 0] else out)" for out
    by (auto simp: strip_prefix_def no_digits_def list_all_iff digit_words unit_words
        split: option.splits dest: in_set_dropD)
  moreover have "no_digits ((if h > 0 then format_section h @ [MYRIAD_WORD] @
      (if l > 0 \<and> l < 1000 then [ZERO_WORD] else []) else []) @ (if l > 0 \<or> h = 0 then format_section l else []))"
    for h l :: nat
    by (simp add: no_digits_section unit_words)
  ultimately show ?thesis unfolding format_cardinal_def Let_def by blast
qed

lemma no_digits_integer: "no_digits (format_integer ds)"
  by (simp add: format_integer_def no_digits_read no_digits_cardinal split: option.splits)

lemma no_digits_loop: "no_digits out \<Longrightarrow> no_digits (plain_digits_loop past out s)"
proof (induction past out s rule: plain_digits_loop.induct)
  case (2 past out c cs)
  show ?case
  proof (cases "is_ascii_digit c")
    case False
    then show ?thesis using "2.IH"(1) "2.prems" by simp
  next
    case True
    show ?thesis
      unfolding plain_digits_loop.simps Let_def if_not_P [OF not_not [THEN iffD2, OF True]]
      by (rule "2.IH"(2) [OF _ refl refl refl refl])
        (use "2.prems" True in \<open>simp_all add: no_digits_read no_digits_integer no_digits_butlast unit_words\<close>)
  qed
qed simp

lemma no_digits_scan: "no_digits s \<Longrightarrow> ns_integer (scan_number s) = []"
  by (cases s; cases "tl s") (auto simp: scan_number_def Let_def)

lemma no_digits_plain: "no_digits s \<Longrightarrow> plain_digits_loop past out s = out @ s"
  by (induction s arbitrary: past out) simp_all

text \<open>
  The normalized text holds no digit any more, whatever the text held, and a text without
  digits is left as it is.
\<close>

theorem numbers_are_spelled_out:
  "no_digits (normalize_numbers text) \<and>
   (if no_digits text then normalize_numbers text = text else normalize_numbers text \<noteq> text)"
proof -
  have clean: "no_digits (normalize_numbers text)"
    by (simp add: normalize_numbers_def normalize_plain_digits_def no_digits_loop)
  have temp: "normalize_temperatures s = s" if "no_digits s" for s
    using that by (induction s) (simp_all add: no_digits_scan)
  have perc: "normalize_percentages s = s" if "no_digits s" for s
    using that by (induction s) (simp_all add: no_digits_scan)
  have "normalize_numbers text = text" if "no_digits text"
    using that by (simp add: normalize_numbers_def normalize_plain_digits_def temp perc no_digits_plain)
  then show ?thesis using clean by auto
qed

end
