(* ===== verification/G2pw.thy ===== *)
theory G2pw
  imports Errors F32
begin

section \<open>The reading of an ambiguous character\<close>

text \<open>
  \<^verbatim>\<open>crates/text/pinyin-phonemizer/src/tokenize.rs\<close> and \<^verbatim>\<open>g2pw.rs\<close>: a character with several readings
  is resolved by a model that sees a window of the sentence as tokens. The window is cut into
  words, the words into tokens of a vocabulary with the range of characters each covers, and the
  tokens are clamped to the length of the model around the token of the queried character. The
  tokenizer, the inference session and the lower-case mapping of Unicode are arguments. The theorems
  show that the words of a text partition its characters, that the clamped window keeps the queried
  token, and that the position the model is asked about is the one of the token that covers the
  character.
\<close>

subsection \<open>Words\<close>

record g2pw_word =
  gw_text :: str
  gw_start :: nat
  gw_end :: nat

record g2pw_token =
  gt_text :: str
  gt_start :: nat
  gt_end :: nat

text \<open>The loop at index \<open>i\<close>, with \<open>k\<close> words found before.\<close>

function (sequential) wordize_from :: "nat \<Rightarrow> nat \<Rightarrow> str \<Rightarrow> g2pw_word list \<times> nat option list" where
  "wordize_from i k [] = ([], [])"
| "wordize_from i k (c # cs) =
     (if c = 32 then (case wordize_from (i + 1) k cs of (ws, m) \<Rightarrow> (ws, None # m))
      else if is_ascii_alphanumeric c then
        (let run = takeWhile is_ascii_alphanumeric (c # cs); n = length run in
         case wordize_from (i + n) (k + 1) (drop n (c # cs)) of (ws, m) \<Rightarrow>
           (\<lparr>gw_text = run, gw_start = i, gw_end = i + n\<rparr> # ws, replicate n (Some k) @ m))
      else
        (case wordize_from (i + 1) (k + 1) cs of (ws, m) \<Rightarrow>
           (\<lparr>gw_text = [c], gw_start = i, gw_end = i + 1\<rparr> # ws, Some k # m)))"
  by pat_completeness auto
termination by (relation "measure (\<lambda>(i, k, s). length s)") auto

definition wordize :: "str \<Rightarrow> g2pw_word list \<times> nat option list" where
  "wordize text = wordize_from 0 0 text"

subsection \<open>Tokens\<close>

definition UNK :: str where "UNK = lit ''[UNK]''"

definition mark_slots :: "nat \<Rightarrow> nat \<Rightarrow> nat \<Rightarrow> nat option list \<Rightarrow> nat option list" where
  "mark_slots a b k slots =
     map (\<lambda>(i, slot). if a \<le> i \<and> i < b then Some k else slot) (enumerate 0 slots)"

text \<open>The tokens of one word, laid out from the cursor.\<close>

fun place_tokens ::
  "nat \<Rightarrow> str list \<Rightarrow> g2pw_token list \<times> nat option list \<Rightarrow> g2pw_token list \<times> nat option list" where
  "place_tokens cursor [] st = st"
| "place_tokens cursor (t # ts) (tokens, slots) =
     (let n = length (case strip_prefix (lit ''##'') t of None \<Rightarrow> t | Some r \<Rightarrow> r) in
      place_tokens (cursor + n) ts
        (tokens @ [\<lparr>gt_text = t, gt_start = cursor, gt_end = cursor + n\<rparr>],
         mark_slots cursor (cursor + n) (length tokens) slots))"

definition place_word ::
  "g2pw_word \<Rightarrow> str list \<Rightarrow> g2pw_token list \<times> nat option list \<Rightarrow> g2pw_token list \<times> nat option list" where
  "place_word w ts st =
     (if ts = [] \<or> ts = [UNK] then
        (fst st @ [\<lparr>gt_text = UNK, gt_start = gw_start w, gt_end = gw_end w\<rparr>],
         mark_slots (gw_start w) (gw_end w) (length (fst st)) (snd st))
      else place_tokens (gw_start w) ts st)"

record tokenizer =
  tk_encode :: "str \<Rightarrow> str + str list"
  tk_token_to_id :: "str \<Rightarrow> nat option"

definition encode_error :: "(str \<Rightarrow> str) \<Rightarrow> str \<Rightarrow> str \<Rightarrow> dengjen_error" where
  "encode_error debug word why =
     PhonemizationError (lit ''g2pW tokenizer failed to encode '' @ debug word @ lit '': '' @ why)"

fun tokenize_words ::
  "tokenizer \<Rightarrow> (str \<Rightarrow> str) \<Rightarrow> g2pw_word list \<Rightarrow> g2pw_token list \<times> nat option list
     \<Rightarrow> (g2pw_token list \<times> nat option list) dengjen_result" where
  "tokenize_words tk debug [] st = Inr st"
| "tokenize_words tk debug (w # ws) st =
     res_bind (res_map_err (encode_error debug (gw_text w)) (tk_encode tk (gw_text w)))
       (\<lambda>ts. tokenize_words tk debug ws (place_word w ts st))"

definition tokenize_and_map ::
  "tokenizer \<Rightarrow> (str \<Rightarrow> str) \<Rightarrow> str \<Rightarrow> (g2pw_token list \<times> nat option list) dengjen_result" where
  "tokenize_and_map tk debug text =
     tokenize_words tk debug (fst (wordize text)) ([], replicate (length text) None)"

subsection \<open>Windows\<close>

definition truncate_window :: "nat \<Rightarrow> nat \<Rightarrow> nat \<Rightarrow> nat \<times> nat" where
  "truncate_window text_len query_id window_size =
     (let half = window_size div 2 in (query_id - half, min (query_id + half) text_len))"

definition truncate_tokens_around_position :: "nat \<Rightarrow> nat \<Rightarrow> nat \<Rightarrow> (nat \<times> nat \<times> nat) dengjen_result" where
  "truncate_tokens_around_position token_count token_position max_len =
     (let truncate_len = max_len - 2 in
      if truncate_len = 0 then
        Inl (InvalidConfiguration
          (lit ''g2pW max_len must be at least 3 to hold [CLS], a query token, and [SEP]; got ''
            @ show_nat max_len))
      else if token_count \<le> truncate_len then Inr (0, token_count, token_position + 1)
      else
        (let start0 = nat (max (int token_position - int (truncate_len div 2)) 0);
             token_start = min start0 (token_count - truncate_len);
             token_end = min (token_start + truncate_len) token_count in
         Inr (token_start, token_end, token_position - token_start + 1)))"

definition build_phoneme_mask :: "str list \<Rightarrow> nat list \<Rightarrow> f32 list" where
  "build_phoneme_mask labels candidates =
     foldl (\<lambda>mask c. if c < length mask then mask[c := f_lit 1] else mask)
       (replicate (length labels) (f_lit 0)) candidates"

subsection \<open>The query\<close>

record g2pw_config =
  gc_labels :: "str list"
  gc_char2phonemes :: "uchar \<Rightarrow> nat list option"
  gc_window_size :: nat
  gc_max_len :: nat
  gc_chars :: "uchar list"

text \<open>\<^verbatim>\<open>binary_search\<close> on the part of the list from \<open>lo\<close> (inclusive) to \<open>hi\<close> (exclusive).\<close>

function bisect :: "uchar list \<Rightarrow> uchar \<Rightarrow> nat \<Rightarrow> nat \<Rightarrow> nat option" where
  "bisect xs c lo hi =
     (if hi \<le> lo then None
      else
        (let mid = (lo + hi) div 2 in
         if xs ! mid = c then Some mid
         else if xs ! mid < c then bisect xs c (mid + 1) hi
         else bisect xs c lo mid))"
  by pat_completeness auto
termination by (relation "measure (\<lambda>(xs, c, lo, hi). hi - lo)") auto

declare bisect.simps [simp del]

definition quote_char :: "uchar \<Rightarrow> str" where "quote_char c = [39, c, 39]"

definition chars_index :: "g2pw_config \<Rightarrow> uchar \<Rightarrow> nat dengjen_result" where
  "chars_index cfg c =
     ok_or (PhonemizationError (quote_char c @ lit '' is not in the g2pW config's sorted chars list''))
       (bisect (gc_chars cfg) c 0 (length (gc_chars cfg)))"

record g2pw_inputs =
  gi_input_ids :: "int list"
  gi_token_type_ids :: "int list"
  gi_attention_mask :: "int list"
  gi_char_ids :: "int list"
  gi_position_ids :: "int list"
  gi_phoneme_mask :: "f32 list"

record g2pw_engine =
  ge_run :: "g2pw_inputs \<Rightarrow> str + (str + int list \<times> f32 list) list"
  ge_tokenizer :: tokenizer
  ge_config :: g2pw_config

definition is_polyphonic :: "g2pw_engine \<Rightarrow> uchar \<Rightarrow> bool" where
  "is_polyphonic e c \<longleftrightarrow> gc_char2phonemes (ge_config e) c \<noteq> None"

definition g2pw_error :: "str \<Rightarrow> dengjen_error" where
  "g2pw_error why = InferenceError (lit ''g2pW inference failed: '' @ why)"

definition id_or :: "g2pw_engine \<Rightarrow> nat \<Rightarrow> str \<Rightarrow> int" where
  "id_or e dflt t = int (unwrap_or dflt (tk_token_to_id (ge_tokenizer e) t))"

definition cls_id :: "g2pw_engine \<Rightarrow> int" where "cls_id e = id_or e 101 (lit ''[CLS]'')"
definition sep_id :: "g2pw_engine \<Rightarrow> int" where "sep_id e = id_or e 102 (lit ''[SEP]'')"
definition token_id :: "g2pw_engine \<Rightarrow> str \<Rightarrow> int" where "token_id e t = id_or e 100 t"

text \<open>The window of the sentence, lower-cased, and the place of the queried character in it.\<close>

definition query_window :: "(str \<Rightarrow> str) \<Rightarrow> g2pw_config \<Rightarrow> str \<Rightarrow> nat \<Rightarrow> str \<times> nat" where
  "query_window to_lowercase cfg cs idx =
     (case truncate_window (length cs) idx (gc_window_size cfg) of (win_start, win_end) \<Rightarrow>
        (to_lowercase (take (win_end - win_start) (drop win_start cs)), idx - win_start))"

definition g2pw_inputs_for ::
  "(str \<Rightarrow> str) \<Rightarrow> (str \<Rightarrow> str) \<Rightarrow> g2pw_engine \<Rightarrow> str \<Rightarrow> nat \<Rightarrow> g2pw_inputs dengjen_result" where
  "g2pw_inputs_for to_lowercase debug e cs idx =
     res_bind (ok_or (PhonemizationError (lit ''query_char_index '' @ show_nat idx
         @ lit '' is out of bounds for a sentence of '' @ show_nat (length cs) @ lit '' characters''))
       (get_at cs idx)) (\<lambda>query_char.
     res_bind (ok_or (PhonemizationError (quote_char query_char
         @ lit '' has no known phoneme candidates for g2pW resolution''))
       (gc_char2phonemes (ge_config e) query_char)) (\<lambda>candidates.
     case query_window to_lowercase (ge_config e) cs idx of (windowed_text, windowed_query_id) \<Rightarrow>
     res_bind (tokenize_and_map (ge_tokenizer e) debug windowed_text) (\<lambda>(tokens, text_to_token).
     res_bind (ok_or (PhonemizationError (lit ''windowed query position ''
         @ show_nat windowed_query_id @ lit '' has no token mapping''))
       (Option.bind (get_at text_to_token windowed_query_id) id)) (\<lambda>token_position.
     res_bind (truncate_tokens_around_position (length tokens) token_position (gc_max_len (ge_config e)))
       (\<lambda>(token_start, token_end, position_id).
     res_bind (if token_start \<le> token_end \<and> token_end \<le> length tokens
               then Inr (take (token_end - token_start) (drop token_start tokens))
               else Inl (PhonemizationError (lit ''token window '' @ show_nat token_start @ lit ''..''
                 @ show_nat token_end @ lit '' is out of bounds for '' @ show_nat (length tokens)
                 @ lit '' tokens''))) (\<lambda>final_tokens.
     let ids = [cls_id e] @ map (\<lambda>t. token_id e (gt_text t)) final_tokens @ [sep_id e] in
     res_map (\<lambda>char_index.
       \<lparr>gi_input_ids = ids,
        gi_token_type_ids = replicate (length ids) 0,
        gi_attention_mask = replicate (length ids) 1,
        gi_char_ids = [int char_index],
        gi_position_ids = [int position_id],
        gi_phoneme_mask = build_phoneme_mask (gc_labels (ge_config e)) candidates\<rparr>)
       (chars_index (ge_config e) query_char)))))))"

definition read_label :: "(int list \<Rightarrow> str) \<Rightarrow> str list \<Rightarrow> int list \<times> f32 list \<Rightarrow> str dengjen_result" where
  "read_label show_shape labels out =
     (case out of (dims, probs) \<Rightarrow> case dims of
        [batch, label_dim] \<Rightarrow>
          if batch \<noteq> 1 then
            Inl (g2pw_error (lit ''expected batch size 1, model produced shape '' @ show_shape dims))
          else if label_dim < 0 then
            Inl (g2pw_error (lit ''invalid label dimension in shape '' @ show_shape dims))
          else if nat label_dim \<noteq> length labels \<or> length probs < nat label_dim then
            Inl (g2pw_error (lit ''g2pW model output width '' @ show_nat (nat label_dim)
              @ lit '' (probs len '' @ show_nat (length probs)
              @ lit '') does not match the configured label count '' @ show_nat (length labels)))
          else if take (nat label_dim) probs = [] then Inl (g2pw_error (lit ''empty prediction output''))
          else
            ok_or (g2pw_error (lit ''predicted label index ''
                @ show_nat (argmax_row (take (nat label_dim) probs)) @ lit '' out of range''))
              (get_at labels (argmax_row (take (nat label_dim) probs)))
      | _ \<Rightarrow> Inl (g2pw_error (lit ''expected a rank-2 (batch, num_labels) output tensor, got shape ''
               @ show_shape dims)))"

definition resolve_polyphonic ::
  "(str \<Rightarrow> str) \<Rightarrow> (str \<Rightarrow> str) \<Rightarrow> (int list \<Rightarrow> str) \<Rightarrow> g2pw_engine \<Rightarrow> str \<Rightarrow> nat \<Rightarrow> str dengjen_result" where
  "resolve_polyphonic to_lowercase debug show_shape e cs idx =
     res_bind (g2pw_inputs_for to_lowercase debug e cs idx) (\<lambda>inputs.
     res_bind (res_map_err g2pw_error (ge_run e inputs)) (\<lambda>outputs.
     res_bind (ok_or (g2pw_error (lit ''model produced no output tensors'')) (first_of outputs)) (\<lambda>out.
     res_bind (res_map_err g2pw_error out) (\<lambda>t.
       read_label show_shape (gc_labels (ge_config e)) t))))"

subsection \<open>Words partition the text\<close>

definition word_at :: "nat \<Rightarrow> str \<Rightarrow> nat \<Rightarrow> g2pw_word \<Rightarrow> bool" where
  "word_at i s p w \<longleftrightarrow>
     i \<le> gw_start w \<and> gw_start w \<le> i + p \<and> i + p < gw_end w \<and> gw_end w \<le> i + length s \<and>
     gw_text w = take (gw_end w - gw_start w) (drop (gw_start w - i) s)"

definition slot_ok :: "nat \<Rightarrow> nat \<Rightarrow> str \<Rightarrow> g2pw_word list \<Rightarrow> nat option list \<Rightarrow> nat \<Rightarrow> bool" where
  "slot_ok i k s ws m p \<longleftrightarrow>
     (case m ! p of
        None \<Rightarrow> s ! p = 32
      | Some j \<Rightarrow> s ! p \<noteq> 32 \<and> k \<le> j \<and> j < k + length ws \<and> word_at i s p (ws ! (j - k)))"

lemma alnum_not_space: "is_ascii_alphanumeric c \<Longrightarrow> c \<noteq> 32"
  by (auto simp: is_ascii_alphanumeric_def is_ascii_digit_def is_ascii_lowercase_def is_ascii_uppercase_def)

lemma word_at_shift:
  assumes "word_at (i + n) (drop n s) q w" "n \<le> length s"
  shows "word_at i s (n + q) w"
proof -
  have "gw_start w - i = gw_start w - (i + n) + n" using assms(1) by (simp add: word_at_def)
  then have "drop (gw_start w - i) s = drop (gw_start w - (i + n)) (drop n s)" by simp
  then show ?thesis using assms by (auto simp: word_at_def)
qed

lemma slot_ok_shift:
  assumes "slot_ok (i + n) (k + e) (drop n s) ws m q" "n \<le> length s" "length pre = n" "n + q < length s"
    "length m = length (drop n s)" "length vs = e"
  shows "slot_ok i k s (vs @ ws) (pre @ m) (n + q)"
proof -
  have nth: "(pre @ m) ! (n + q) = m ! q" "drop n s ! q = s ! (n + q)"
    using assms(2,3) by (simp_all add: nth_append)
  show ?thesis
  proof (cases "m ! q")
    case None
    then show ?thesis using assms(1) by (simp add: slot_ok_def nth)
  next
    case (Some j)
    have j: "drop n s ! q \<noteq> 32" "k + e \<le> j" "j < k + e + length ws" "word_at (i + n) (drop n s) q (ws ! (j - (k + e)))"
      using assms(1) by (simp_all add: slot_ok_def Some)
    have "(vs @ ws) ! (j - k) = ws ! (j - (k + e))"
      using j(2) assms(6) by (simp add: nth_append)
    then have "word_at i s (n + q) ((vs @ ws) ! (j - k))"
      using word_at_shift [OF j(4) assms(2)] by simp
    then show ?thesis using j assms(6) by (simp add: slot_ok_def nth Some)
  qed
qed

lemma wordize_from_ok:
  "wordize_from i k s = (ws, m) \<Longrightarrow> length m = length s \<and> (\<forall>p<length s. slot_ok i k s ws m p)"
proof (induction i k s arbitrary: ws m rule: wordize_from.induct)
  case (2 i k c cs)
  consider (space) "c = 32" | (run) "c \<noteq> 32" "is_ascii_alphanumeric c"
    | (single) "c \<noteq> 32" "\<not> is_ascii_alphanumeric c" by blast
  then show ?case
  proof cases
    case space
    obtain ws' m' where r: "wordize_from (i + 1) k cs = (ws', m')" by force
    have eq: "ws = ws'" "m = None # m'" using "2.prems" space r by simp_all
    have ih: "length m' = length cs \<and> (\<forall>p<length cs. slot_ok (i + 1) k cs ws' m' p)"
      by (rule "2.IH"(1) [OF space r])
    have "slot_ok i k (c # cs) ws m p" if "p < length (c # cs)" for p
    proof (cases p)
      case 0
      then show ?thesis by (simp add: slot_ok_def eq space)
    next
      case (Suc q)
      then show ?thesis using slot_ok_shift [of i 1 k 0 "c # cs" ws' m' q "[None]" "[]"] ih that eq by simp
    qed
    then show ?thesis using ih eq by simp
  next
    case run
    define n where "n = length (takeWhile is_ascii_alphanumeric (c # cs))"
    obtain ws' m' where r: "wordize_from (i + n) (k + 1) (drop n (c # cs)) = (ws', m')" by force
    define w where "w = \<lparr>gw_text = takeWhile is_ascii_alphanumeric (c # cs), gw_start = i, gw_end = i + n\<rparr>"
    have eq: "ws = [w] @ ws'" "m = replicate n (Some k) @ m'"
      using "2.prems" run r by (simp_all add: Let_def n_def w_def)
    have ih: "length m' = length (drop n (c # cs)) \<and>
        (\<forall>p<length (drop n (c # cs)). slot_ok (i + n) (k + 1) (drop n (c # cs)) ws' m' p)"
      using "2.IH"(2) [OF run refl refl] r by (simp add: n_def)
    have len: "n \<le> length (c # cs)" unfolding n_def by (rule length_takeWhile_le)
    have "slot_ok i k (c # cs) ws m p" if p: "p < length (c # cs)" for p
    proof (cases "p < n")
      case True
      have "(c # cs) ! p = takeWhile is_ascii_alphanumeric (c # cs) ! p"
        using True unfolding n_def by (rule takeWhile_nth [symmetric])
      then have "is_ascii_alphanumeric ((c # cs) ! p)"
        using True nth_mem [of p "takeWhile is_ascii_alphanumeric (c # cs)"] set_takeWhileD
        unfolding n_def by fastforce
      moreover have "takeWhile is_ascii_alphanumeric (c # cs) = take n (c # cs)"
        unfolding n_def by (rule takeWhile_eq_take)
      ultimately show ?thesis using True len alnum_not_space
        unfolding slot_ok_def eq w_def word_at_def by (simp add: nth_append del: takeWhile.simps)
    next
      case False
      then obtain q where q: "p = n + q" using le_Suc_ex by (metis not_less)
      show ?thesis unfolding q eq
        by (rule slot_ok_shift [where e = 1]) (use ih len p q in auto)
    qed
    then show ?thesis using ih eq len by simp
  next
    case single
    obtain ws' m' where r: "wordize_from (i + 1) (k + 1) cs = (ws', m')" by force
    have eq: "ws = [\<lparr>gw_text = [c], gw_start = i, gw_end = i + 1\<rparr>] @ ws'" "m = [Some k] @ m'"
      using "2.prems" single r by simp_all
    have ih: "length m' = length cs \<and> (\<forall>p<length cs. slot_ok (i + 1) (k + 1) cs ws' m' p)"
      by (rule "2.IH"(3) [OF single r])
    have "slot_ok i k (c # cs) ws m p" if "p < length (c # cs)" for p
    proof (cases p)
      case 0
      then show ?thesis using single by (simp add: slot_ok_def eq word_at_def)
    next
      case (Suc q)
      have "slot_ok i k (c # cs) ws m (1 + q)" unfolding eq
        by (rule slot_ok_shift [where e = 1]) (use ih that Suc in auto)
      then show ?thesis using Suc by simp
    qed
    then show ?thesis using ih eq by simp
  qed
qed simp

text \<open>
  Cutting a text into words assigns every character but a space to one word, whose range holds
  the character and whose text is that range of the text; a space belongs to no word.
\<close>

theorem words_partition_text:
  "length (snd (wordize text)) = length text \<and>
   list_all (\<lambda>p. case snd (wordize text) ! p of
       None \<Rightarrow> text ! p = 32
     | Some j \<Rightarrow> text ! p \<noteq> 32 \<and> j < length (fst (wordize text)) \<and>
         (case fst (wordize text) ! j of w \<Rightarrow>
            gw_start w \<le> p \<and> p < gw_end w \<and> gw_end w \<le> length text \<and>
            gw_text w = take (gw_end w - gw_start w) (drop (gw_start w) text))) [0..<length text]"
proof -
  obtain ws m where r: "wordize_from 0 0 text = (ws, m)" by force
  show ?thesis
    using wordize_from_ok [OF r]
    by (auto simp: wordize_def r list_all_iff slot_ok_def word_at_def split: option.splits)
qed

subsection \<open>The token of the queried character\<close>

definition slots_ok :: "g2pw_token list \<times> nat option list \<Rightarrow> bool" where
  "slots_ok st \<longleftrightarrow>
     (\<forall>p<length (snd st). \<forall>k. snd st ! p = Some k \<longrightarrow>
        k < length (fst st) \<and> gt_start (fst st ! k) \<le> p \<and> p < gt_end (fst st ! k))"

lemma mark_slots_nth:
  "p < length slots \<Longrightarrow> mark_slots a b k slots ! p = (if a \<le> p \<and> p < b then Some k else slots ! p)"
  by (simp add: mark_slots_def nth_enumerate_eq)

lemma length_mark_slots [simp]: "length (mark_slots a b k slots) = length slots"
  by (simp add: mark_slots_def)

lemma slots_ok_step:
  "slots_ok (tokens, slots) \<Longrightarrow>
   slots_ok (tokens @ [\<lparr>gt_text = t, gt_start = a, gt_end = b\<rparr>], mark_slots a b (length tokens) slots)"
  by (auto simp: slots_ok_def mark_slots_nth nth_append split: if_splits)

lemma place_tokens_ok: "slots_ok st \<Longrightarrow> slots_ok (place_tokens cursor ts st)"
proof (induction cursor ts st rule: place_tokens.induct)
  case (2 cursor t ts tokens slots)
  show ?case
    unfolding place_tokens.simps Let_def
    by (rule "2.IH" [OF refl]) (rule slots_ok_step [OF "2.prems"])
qed simp

lemma place_word_ok: "slots_ok st \<Longrightarrow> slots_ok (place_word w ts st)"
  by (cases st) (simp add: place_word_def slots_ok_step place_tokens_ok)

lemma tokenize_words_ok: "slots_ok st \<Longrightarrow> tokenize_words tk debug ws st = Inr st' \<Longrightarrow> slots_ok st'"
proof (induction ws arbitrary: st)
  case (Cons w ws)
  then obtain ts where "tokenize_words tk debug ws (place_word w ts st) = Inr st'"
    by (auto simp: res_bind_eq_Inr)
  then show ?case using Cons.IH place_word_ok [OF Cons.prems(1)] by blast
qed simp

lemma tokenize_and_map_ok: "tokenize_and_map tk debug text = Inr st \<Longrightarrow> slots_ok st"
  unfolding tokenize_and_map_def by (erule tokenize_words_ok [rotated]) (simp add: slots_ok_def)

lemma truncate_tokens_ok:
  assumes p: "p < c" and r: "truncate_tokens_around_position c p max_len = Inr (s, t, pid)"
  shows "s \<le> p \<and> p < t \<and> t \<le> c \<and> t - s + 2 \<le> max_len \<and>
    (t - s = max_len - 2 \<or> (s = 0 \<and> t = c)) \<and> pid = p - s + 1"
proof -
  define l where "l = max_len - 2"
  have l: "0 < l" "l + 2 = max_len"
    using r by (auto simp: truncate_tokens_around_position_def Let_def l_def split: if_splits)
  show ?thesis
  proof (cases "c \<le> l")
    case True
    then show ?thesis using p r l by (auto simp: truncate_tokens_around_position_def l_def [symmetric])
  next
    case False
    define half where "half = l div 2"
    have half: "half < l" using l(1) by (simp add: half_def)
    have "nat (max (int p - int half) 0) = p - half" by simp
    then have eq: "s = min (p - half) (c - l)" "t = s + l" "pid = p - s + 1"
      using r l(1) False
      by (auto simp: truncate_tokens_around_position_def Let_def l_def [symmetric] half_def [symmetric])
    have "s \<le> c - l" unfolding eq(1) by (rule min.cobounded2)
    then have sl: "s + l \<le> c" using False by linarith
    have t: "t = s + l" by (rule eq(2))
    have "s \<le> p" unfolding eq(1) by (rule min.coboundedI1) simp
    moreover have "p < s + l"
    proof (cases "p - half \<le> c - l")
      case True
      then have "s = p - half" unfolding eq(1) by (rule min_absorb1)
      then show ?thesis using half by linarith
    next
      case False
      then have "s = c - l" unfolding eq(1) by simp
      then show ?thesis using p \<open>\<not> c \<le> l\<close> by linarith
    qed
    moreover have "max_len - 2 = l" using l(2) by linarith
    ultimately show ?thesis using sl t eq(3) l(2) by simp
  qed
qed

text \<open>
  Clamping a token sequence to the length of the model always keeps the queried token: the
  kept range is inside the sequence, leaves room for the two special tokens, and the position
  reported is the one of the queried token after the first of them.
\<close>

theorem token_window_holds_query:
  assumes "position < count"
  shows "case truncate_tokens_around_position count position max_len of
      Inl e \<Rightarrow> max_len < 3 \<and> category e = CatInvalidConfiguration
    | Inr (start, stop, position_id) \<Rightarrow>
        start \<le> position \<and> position < stop \<and> stop \<le> count \<and> stop - start + 2 \<le> max_len \<and>
        (stop - start = max_len - 2 \<or> (start = 0 \<and> stop = count)) \<and>
        position_id = position - start + 1"
proof (cases "truncate_tokens_around_position count position max_len")
  case (Inl e)
  then have "max_len < 3 \<and> category e = CatInvalidConfiguration"
    by (auto simp: truncate_tokens_around_position_def Let_def category_def split: if_splits)
  then show ?thesis using Inl by simp
next
  case (Inr r)
  obtain s t pid where "r = (s, t, pid)" by (cases r) auto
  then show ?thesis using truncate_tokens_ok [OF assms] Inr by simp
qed

theorem token_window_holds_query_witness:
  "truncate_tokens_around_position 600 599 512 = Inr (90, 600, 510) \<and> 90 \<le> (599::nat)"
  using token_window_holds_query [of 599 600 512]
  by (simp add: truncate_tokens_around_position_def Let_def)

text \<open>The map from characters to tokens has an entry for each character of the text.\<close>

lemma length_place_tokens [simp]: "length (snd (place_tokens cursor ts st)) = length (snd st)"
  by (induction cursor ts st rule: place_tokens.induct) (simp_all add: Let_def)

lemma length_place_word [simp]: "length (snd (place_word w ts st)) = length (snd st)"
  by (simp add: place_word_def)

lemma length_tokenize_words:
  "tokenize_words tk debug ws st = Inr st' \<Longrightarrow> length (snd st') = length (snd st)"
proof (induction ws arbitrary: st)
  case (Cons w ws)
  then obtain ts where "tokenize_words tk debug ws (place_word w ts st) = Inr st'"
    by (auto simp: res_bind_eq_Inr)
  then show ?case using Cons.IH by fastforce
qed simp

lemma length_tokenize_and_map:
  "tokenize_and_map tk debug text = Inr st \<Longrightarrow> length (snd st) = length text"
  unfolding tokenize_and_map_def by (drule length_tokenize_words) simp

text \<open>Where lower-casing maps the window character by character, the query keeps its place.\<close>

lemma query_window_holds_query:
  assumes "query_window to_lowercase cfg cs idx = (w, q)" "q < length w"
    and "w = map low (fst (query_window id cfg cs idx))"
  shows "w ! q = low (cs ! idx)"
  using assms by (auto simp: query_window_def truncate_window_def Let_def)

text \<open>The binary search only answers with a place that holds the character.\<close>

lemma bisect_found: "bisect xs c lo hi = Some m \<Longrightarrow> hi \<le> length xs \<Longrightarrow> m < length xs \<and> xs ! m = c"
proof (induction xs c lo hi rule: bisect.induct)
  case (1 xs c lo hi)
  show ?case
    using "1.prems" "1.IH" [OF _ refl]
    by (subst (asm) bisect.simps) (auto simp: Let_def split: if_splits)
qed

lemma chars_index_found:
  "chars_index cfg c = Inr i \<Longrightarrow> i < length (gc_chars cfg) \<and> gc_chars cfg ! i = c"
  by (auto simp: chars_index_def ok_or_def split: option.splits dest: bisect_found)

text \<open>The bounds of the window of the sentence.\<close>

lemma truncate_window_bounds:
  assumes "q < len" "1 < window" "truncate_window len q window = (a, b)"
  shows "a \<le> q \<and> q < b \<and> b \<le> len \<and> b - a \<le> window"
  using assms by (auto simp: truncate_window_def Let_def)

text \<open>
  \<^bold>\<open>C32\<close>: when the inputs for a queried character can be built, they name the character by its place in
  the list of known characters and mask the labels of its own candidates; the ids are one
  sequence between the start and end markers, no longer than the model allows; and the position
  the model is asked about holds the token whose range covers the index of the query in the
  lower-cased window. That index is the queried character wherever lower-casing maps the window
  character by character (\<open>low\<close>). It is another character, or none, where a character before it
  changes its length when lower-cased: the code computes the index before it lower-cases.
\<close>

theorem g2pw_asks_about_query:
  assumes "g2pw_inputs_for to_lowercase debug e cs idx = Inr inp"
  shows "\<exists>tokens slots tok pos ci cands. tokenize_and_map (ge_tokenizer e) debug
        (fst (query_window to_lowercase (ge_config e) cs idx)) = Inr (tokens, slots) \<and>
      tok \<in> set tokens \<and>
      gt_start tok \<le> snd (query_window to_lowercase (ge_config e) cs idx) \<and>
      snd (query_window to_lowercase (ge_config e) cs idx) < gt_end tok \<and>
      (\<forall>low. fst (query_window to_lowercase (ge_config e) cs idx)
           = map low (fst (query_window id (ge_config e) cs idx)) \<longrightarrow>
         fst (query_window to_lowercase (ge_config e) cs idx)
           ! snd (query_window to_lowercase (ge_config e) cs idx) = low (cs ! idx)) \<and>
      idx < length cs \<and> gi_char_ids inp = [int ci] \<and> ci < length (gc_chars (ge_config e)) \<and>
      gc_chars (ge_config e) ! ci = cs ! idx \<and>
      gc_char2phonemes (ge_config e) (cs ! idx) = Some cands \<and>
      gi_phoneme_mask inp = build_phoneme_mask (gc_labels (ge_config e)) cands \<and>
      gi_position_ids inp = [int pos] \<and> 0 < pos \<and> pos + 1 < length (gi_input_ids inp) \<and>
      gi_input_ids inp ! pos = token_id e (gt_text tok) \<and>
      hd (gi_input_ids inp) = cls_id e \<and> last (gi_input_ids inp) = sep_id e \<and>
      length (gi_input_ids inp) \<le> gc_max_len (ge_config e) \<and>
      length (gi_attention_mask inp) = length (gi_input_ids inp) \<and>
      length (gi_token_type_ids inp) = length (gi_input_ids inp)"
proof -
  obtain w q where w: "query_window to_lowercase (ge_config e) cs idx = (w, q)" by force
  from assms obtain c cands tokens slots k s t pid fts ci where
    c: "get_at cs idx = Some c" "gc_char2phonemes (ge_config e) c = Some cands"
    and tk: "tokenize_and_map (ge_tokenizer e) debug w = Inr (tokens, slots)"
    and k: "Option.bind (get_at slots q) id = Some k"
    and win: "truncate_tokens_around_position (length tokens) k (gc_max_len (ge_config e)) = Inr (s, t, pid)"
    and fts: "s \<le> t" "t \<le> length tokens" "fts = take (t - s) (drop s tokens)"
    and ci: "chars_index (ge_config e) c = Inr ci" "gi_char_ids inp = [int ci]"
    and mask: "gi_phoneme_mask inp = build_phoneme_mask (gc_labels (ge_config e)) cands"
    and ids: "gi_input_ids inp = [cls_id e] @ map (\<lambda>t. token_id e (gt_text t)) fts @ [sep_id e]"
    and pos: "gi_position_ids inp = [int pid]"
    and lens: "length (gi_attention_mask inp) = length (gi_input_ids inp)"
      "length (gi_token_type_ids inp) = length (gi_input_ids inp)"
    by (auto simp: g2pw_inputs_for_def w Let_def res_conv split: if_splits)
  have c': "idx < length cs" "cs ! idx = c" using c(1) by (auto simp: get_at_def split: if_splits)
  have q: "q < length slots" "slots ! q = Some k"
    using k by (auto simp: get_at_def split: if_splits)
  have "q < length w" using length_tokenize_and_map [OF tk] q(1) by simp
  then have low: "\<forall>low. w = map low (fst (query_window id (ge_config e) cs idx)) \<longrightarrow> w ! q = low (cs ! idx)"
    using query_window_holds_query [OF w] by blast
  have tok: "k < length tokens" "gt_start (tokens ! k) \<le> q" "q < gt_end (tokens ! k)"
    using tokenize_and_map_ok [OF tk] q by (auto simp: slots_ok_def)
  have b: "s \<le> k" "k < t" "t - s + 2 \<le> gc_max_len (ge_config e)" "pid = k - s + 1"
    using truncate_tokens_ok [OF tok(1) win] by simp_all
  have len: "length fts = t - s" using fts by simp
  have "fts ! (k - s) = tokens ! k" using fts b by simp
  then have nth: "gi_input_ids inp ! pid = token_id e (gt_text (tokens ! k))"
    using b len diff_less_mono [OF b(2) b(1)] by (simp add: ids nth_append)
  show ?thesis
    using tk tok nth pos b len lens low c c' ci mask chars_index_found [OF ci(1)]
    by (intro exI [of _ tokens] exI [of _ slots] exI [of _ "tokens ! k"] exI [of _ pid]
        exI [of _ ci] exI [of _ cands]) (simp add: w ids)
qed

text \<open>An engine for the examples: each word is one token, and the model knows one character.\<close>

definition demo_engine :: g2pw_engine where
  "demo_engine =
     \<lparr>ge_run = (\<lambda>_. Inl []),
      ge_tokenizer = \<lparr>tk_encode = (\<lambda>w. Inr [w]), tk_token_to_id = (\<lambda>t. if t = [0x884C] then Some 7 else None)\<rparr>,
      ge_config = \<lparr>gc_labels = [lit ''x''], gc_char2phonemes = (\<lambda>c. if c = 0x884C then Some [0] else None),
        gc_window_size = 32, gc_max_len = 512, gc_chars = [0x884C]\<rparr>\<rparr>"

theorem g2pw_asks_about_query_witness:
  "\<exists>inp pos. g2pw_inputs_for id id demo_engine [0x94F6, 0x884C] 1 = Inr inp \<and>
     gi_position_ids inp = [int pos] \<and> pos + 1 < length (gi_input_ids inp)"
proof -
  let ?r = "g2pw_inputs_for id id demo_engine [0x94F6, 0x884C] 1"
  have "\<not> is_ascii_alphanumeric 0x94F6" "\<not> is_ascii_alphanumeric 0x884C"
    by (simp_all add: is_ascii_alphanumeric_def is_ascii_digit_def is_ascii_lowercase_def is_ascii_uppercase_def)
  then have words: "wordize [0x94F6, 0x884C] = ([\<lparr>gw_text = [0x94F6], gw_start = 0, gw_end = 1\<rparr>,
      \<lparr>gw_text = [0x884C], gw_start = 1, gw_end = 2\<rparr>], [Some 0, Some 1])"
    by (simp add: wordize_def)
  have window: "query_window id (ge_config demo_engine) [0x94F6, 0x884C] 1 = ([0x94F6, 0x884C], 1)"
    by (simp add: query_window_def truncate_window_def demo_engine_def)
  have tokens: "tokenize_and_map (ge_tokenizer demo_engine) id [0x94F6, 0x884C] =
      Inr ([\<lparr>gt_text = [0x94F6], gt_start = 0, gt_end = 1\<rparr>, \<lparr>gt_text = [0x884C], gt_start = 1, gt_end = 2\<rparr>],
        [Some 0, Some 1])"
    by (simp add: tokenize_and_map_def words demo_engine_def place_word_def mark_slots_def UNK_def
        strip_prefix_def starts_with_def numeral_2_eq_2)
  have idx: "chars_index (ge_config demo_engine) 0x884C = Inr 0"
    by (simp add: chars_index_def demo_engine_def bisect.simps)
  have cand: "gc_char2phonemes (ge_config demo_engine) 0x884C = Some [0]"
    and mx: "gc_max_len (ge_config demo_engine) = 512" by (simp_all add: demo_engine_def)
  obtain inp where inp: "?r = Inr inp"
    unfolding g2pw_inputs_for_def
    by (simp add: get_at_def window [unfolded One_nat_def] tokens idx cand mx truncate_tokens_around_position_def Let_def)
  then show ?thesis using g2pw_asks_about_query [OF inp] by blast
qed

end
