(* ===== verification/Pinyin.thy ===== *)
theory Pinyin
  imports PinyinNumbers G2pw Paths "HOL-Library.List_Lexorder"
begin

section \<open>Chinese text to pinyin\<close>

text \<open>
  \<^verbatim>\<open>crates/text/pinyin-phonemizer/src/syllable.rs\<close>, \<^verbatim>\<open>dictionary.rs\<close> and \<^verbatim>\<open>lib.rs\<close>: the dictionaries
  and their files, the split of a syllable into initial, final and tone, and the pipeline from a
  text to the tokens of its sentences. Reading a file and parsing JSON are arguments. A hash map
  built from pairs is the list of the pairs, in which the last entry of a key counts. The theorems
  show that a syllable is split at its longest initial without loss, that every ambiguous character
  of the files has its readings and its place in the model's tables, and that splitting into
  sentences loses only quotation marks.
\<close>

subsection \<open>Syllables\<close>

definition hash_get :: "('k \<times> 'v) list \<Rightarrow> 'k \<Rightarrow> 'v option" where
  "hash_get kvs k = map_of (rev kvs) k"

definition PINYIN_INITIALS :: "str list" where
  "PINYIN_INITIALS =
     [lit ''zh'', lit ''ch'', lit ''sh'', lit ''b'', lit ''p'', lit ''m'', lit ''f'', lit ''d'', lit ''t'',
      lit ''n'', lit ''l'', lit ''g'', lit ''k'', lit ''h'', lit ''j'', lit ''q'', lit ''x'', lit ''r'',
      lit ''z'', lit ''c'', lit ''s'', lit ''y'', lit ''w'']"

definition convert_bopomofo_to_pinyin :: "str \<Rightarrow> (str \<times> str) list \<Rightarrow> str option" where
  "convert_bopomofo_to_pinyin bopomofo dict =
     (if bopomofo = [] then None
      else if \<not> is_ascii_digit (last bopomofo) then None
      else map_option (\<lambda>pinyin. pinyin @ [last bopomofo]) (hash_get dict (butlast bopomofo)))"

definition split_initial_final_tone :: "str \<Rightarrow> (str \<times> str \<times> uchar) option" where
  "split_initial_final_tone syllable =
     (if syllable = [] then None
      else
        (let tone = last syllable; base = butlast syllable in
         if \<not> is_ascii_digit tone \<or> tone = 48 then None
         else if base = [] \<or> \<not> list_all (\<lambda>c. is_ascii_lowercase c \<or> c = 118) base then None
         else
           (let initial = unwrap_or [] (find (\<lambda>cand. starts_with cand base) PINYIN_INITIALS) in
            Some (initial, drop (length initial) base, tone))))"

subsection \<open>Dictionaries\<close>

record dictionaries =
  di_monophonic :: "(uchar \<times> str) list"
  di_char_bopomofo :: "(uchar \<times> str) list"
  di_polyphonic_chars :: "(uchar \<times> str) list"

definition read_error :: "path \<Rightarrow> str \<Rightarrow> dengjen_error" where
  "read_error p why =
     PhonemizationError (lit ''Failed to read pinyin dictionary file '' @ p @ lit '': '' @ why)"

definition parse_pair_line :: "(str \<Rightarrow> str) \<Rightarrow> path \<Rightarrow> str \<Rightarrow> (uchar \<times> str) dengjen_result" where
  "parse_pair_line debug p line =
     (let char_part = takeWhile (\<lambda>c. c \<noteq> 9) line; value_part = drop 1 (dropWhile (\<lambda>c. c \<noteq> 9) line) in
      res_map (\<lambda>c. (c, value_part))
        (ok_or (PhonemizationError (lit ''Malformed line in '' @ p @ lit '': '' @ debug line))
          (first_of char_part)))"

definition read_tab_separated_char_string_pairs ::
  "(path \<Rightarrow> str + str) \<Rightarrow> (str \<Rightarrow> str) \<Rightarrow> path \<Rightarrow> (uchar \<times> str) list dengjen_result" where
  "read_tab_separated_char_string_pairs read debug p =
     res_bind (res_map_err (read_error p) (read p)) (\<lambda>content.
       collect_map (parse_pair_line debug p)
         (filter (\<lambda>line. trim_text line \<noteq> []) (text_lines content)))"

text \<open>The entries of the JSON file come in the order in which the hash map iterates.\<close>

definition first_bopomofo :: "str \<times> str list \<Rightarrow> (uchar \<times> str) option" where
  "first_bopomofo kv =
     (case kv of (k, v) \<Rightarrow>
        Option.bind (first_of k) (\<lambda>c. Option.bind (first_of v) (\<lambda>first. Some (c, first))))"

definition load_dictionaries ::
  "(path \<Rightarrow> str + str) \<Rightarrow> (str \<Rightarrow> str + (str \<times> str list) list) \<Rightarrow> (str \<Rightarrow> str)
     \<Rightarrow> path \<Rightarrow> path \<Rightarrow> path \<Rightarrow> dictionaries dengjen_result" where
  "load_dictionaries read parse debug monophonic_path polyphonic_path char_bopomofo_path =
     res_bind (read_tab_separated_char_string_pairs read debug monophonic_path) (\<lambda>mono.
     res_bind (read_tab_separated_char_string_pairs read debug polyphonic_path) (\<lambda>poly.
     res_bind (res_map_err (read_error char_bopomofo_path) (read char_bopomofo_path)) (\<lambda>raw.
     res_map (\<lambda>parsed.
       \<lparr>di_monophonic = mono, di_char_bopomofo = List.map_filter first_bopomofo parsed,
        di_polyphonic_chars = poly\<rparr>)
       (res_map_err (read_error char_bopomofo_path) (parse raw)))))"

definition position :: "'a list \<Rightarrow> 'a \<Rightarrow> nat option" where
  "position xs x =
     (let i = length (takeWhile (\<lambda>y. y \<noteq> x) xs) in if i < length xs then Some i else None)"

definition phoneme_labels :: "(uchar \<times> str) list \<Rightarrow> str list" where
  "phoneme_labels polyphonic_chars = sort (remdups (map snd polyphonic_chars))"

definition char_phonemes :: "str list \<Rightarrow> (uchar \<times> str) list \<Rightarrow> uchar \<Rightarrow> nat list option" where
  "char_phonemes labels polyphonic_chars c =
     (let found = List.map_filter (\<lambda>(d, phoneme). if d = c then position labels phoneme else None)
                    polyphonic_chars in
      if found = [] then None else Some found)"

definition get_phoneme_labels ::
  "(uchar \<times> str) list \<Rightarrow> str list \<times> (uchar \<Rightarrow> nat list option)" where
  "get_phoneme_labels polyphonic_chars =
     (let labels = phoneme_labels polyphonic_chars in (labels, char_phonemes labels polyphonic_chars))"

definition sorted_chars :: "(uchar \<Rightarrow> nat list option) \<Rightarrow> (uchar \<times> str) list \<Rightarrow> uchar list" where
  "sorted_chars char2phonemes polyphonic_chars =
     sort (filter (\<lambda>c. char2phonemes c \<noteq> None) (remdups (map fst polyphonic_chars)))"

definition resolve_char_dictionary_only :: "dictionaries \<Rightarrow> uchar \<Rightarrow> str option" where
  "resolve_char_dictionary_only d c =
     (case hash_get (di_monophonic d) c of
        Some v \<Rightarrow> Some v
      | None \<Rightarrow> hash_get (di_char_bopomofo d) c)"

text \<open>The engine as the rest of the component sees it: which characters it resolves, and how.\<close>

record polyphone_engine =
  pe_is_polyphonic :: "uchar \<Rightarrow> bool"
  pe_resolve :: "str \<Rightarrow> nat \<Rightarrow> str dengjen_result"

definition resolve_char ::
  "dictionaries \<Rightarrow> polyphone_engine \<Rightarrow> str \<Rightarrow> nat \<Rightarrow> str option dengjen_result" where
  "resolve_char d g2pw cs idx =
     res_bind (ok_or (PhonemizationError (lit ''char_index '' @ show_nat idx
         @ lit '' is out of bounds for a sentence of '' @ show_nat (length cs) @ lit '' characters''))
       (get_at cs idx)) (\<lambda>c.
       if pe_is_polyphonic g2pw c then res_map Some (pe_resolve g2pw cs idx)
       else Inr (resolve_char_dictionary_only d c))"

subsection \<open>The pipeline\<close>

record pinyin_engine =
  py_g2pw :: polyphone_engine
  py_dictionaries :: dictionaries
  py_bopomofo_to_pinyin :: "(str \<times> str) list"

definition pinyin_load_error :: "str \<Rightarrow> dengjen_error" where
  "pinyin_load_error why = PhonemizationError (lit ''Failed to load pinyin phonemizer model files: '' @ why)"

definition pinyin_config :: "(uchar \<times> str) list \<Rightarrow> g2pw_config" where
  "pinyin_config polyphonic_chars =
     (case get_phoneme_labels polyphonic_chars of (labels, char2phonemes) \<Rightarrow>
        \<lparr>gc_labels = labels, gc_char2phonemes = char2phonemes, gc_window_size = 32, gc_max_len = 512,
         gc_chars = sorted_chars char2phonemes polyphonic_chars\<rparr>)"

text \<open>
  Loading: \<open>create_g2pw\<close> opens the model and the tokenizer files and gives the engine of
  \<open>G2pw\<close> for a configuration.
\<close>

definition load_pinyin_engine ::
  "(path \<Rightarrow> str + str) \<Rightarrow> (str \<Rightarrow> str + (str \<times> str list) list) \<Rightarrow> (str \<Rightarrow> str + (str \<times> str) list)
     \<Rightarrow> (str \<Rightarrow> str) \<Rightarrow> (path \<Rightarrow> path \<Rightarrow> g2pw_config \<Rightarrow> polyphone_engine dengjen_result) \<Rightarrow> path
     \<Rightarrow> pinyin_engine dengjen_result" where
  "load_pinyin_engine read parse_lists parse_strings debug create_g2pw model_dir =
     res_bind (load_dictionaries read parse_lists debug
         (path_join model_dir (lit ''MONOPHONIC_CHARS.txt''))
         (path_join model_dir (lit ''POLYPHONIC_CHARS.txt''))
         (path_join model_dir (lit ''char_bopomofo_dict.json''))) (\<lambda>d.
     res_bind (create_g2pw (path_join model_dir (lit ''g2pw.onnx''))
         (path_join model_dir (lit ''tokenizer.json'')) (pinyin_config (di_polyphonic_chars d))) (\<lambda>g2pw.
     res_bind (res_map_err pinyin_load_error
         (read (path_join model_dir (lit ''bopomofo_to_pinyin_wo_tune_dict.json'')))) (\<lambda>raw.
     res_map (\<lambda>m. \<lparr>py_g2pw = g2pw, py_dictionaries = d, py_bopomofo_to_pinyin = m\<rparr>)
       (res_map_err pinyin_load_error (parse_strings raw)))))"

definition strip_quotation_marks :: "str \<Rightarrow> str" where
  "strip_quotation_marks text = filter (\<lambda>c. c \<notin> set [0x201C, 0x201D, 34]) text"

definition ends_pinyin_sentence :: "uchar \<Rightarrow> bool" where
  "ends_pinyin_sentence c \<longleftrightarrow> c \<in> set [0x3002, 0xFF01, 0xFF1F]"

definition split_into_sentences :: "str \<Rightarrow> str list" where
  "split_into_sentences text = split_inclusive ends_pinyin_sentence [] text"

datatype pinyin_token = PinyinSyllable str str uchar | Passthrough str

definition flatten_token :: "pinyin_token \<Rightarrow> str list" where
  "flatten_token token =
     (case token of
        PinyinSyllable initial finale tone \<Rightarrow>
          [if initial = [] then [0xD8] else initial, finale, [tone]]
      | Passthrough s \<Rightarrow> [s])"

definition is_passthrough_punctuation :: "uchar \<Rightarrow> bool" where
  "is_passthrough_punctuation c \<longleftrightarrow>
     c \<in> set [0x3002, 46, 0xFF1F, 63, 0xFF01, 33, 0x2014, 0x2026, 0x3001, 0xFF0C, 44, 0xFF1A, 58,
              0xFF1B, 59, 32]"

definition char_tokens :: "pinyin_engine \<Rightarrow> uchar \<Rightarrow> str option \<Rightarrow> pinyin_token list" where
  "char_tokens e c reading =
     (case reading of
        None \<Rightarrow> if is_passthrough_punctuation c then [Passthrough [c]] else []
      | Some bopomofo \<Rightarrow>
          (case convert_bopomofo_to_pinyin bopomofo (py_bopomofo_to_pinyin e) of
             None \<Rightarrow> [Passthrough bopomofo]
           | Some pinyin \<Rightarrow>
               (case split_initial_final_tone pinyin of
                  None \<Rightarrow> [Passthrough pinyin]
                | Some (initial, finale, tone) \<Rightarrow> [PinyinSyllable initial finale tone])))"

definition phonemize_sentence_tokens :: "pinyin_engine \<Rightarrow> str \<Rightarrow> pinyin_token list dengjen_result" where
  "phonemize_sentence_tokens e sentence =
     res_map concat
       (collect_map (\<lambda>(i, c). res_map (char_tokens e c)
            (resolve_char (py_dictionaries e) (py_g2pw e) sentence i)) (enumerate 0 sentence))"

definition text_to_pinyin_tokens :: "pinyin_engine \<Rightarrow> str \<Rightarrow> pinyin_token list list dengjen_result" where
  "text_to_pinyin_tokens e text =
     collect_map (phonemize_sentence_tokens e)
       (map normalize_numbers (split_into_sentences (strip_quotation_marks text)))"

definition text_to_pinyin_phonemes :: "pinyin_engine \<Rightarrow> str \<Rightarrow> str list dengjen_result" where
  "text_to_pinyin_phonemes e text =
     res_map (map (\<lambda>tokens. concat (concat (map flatten_token tokens)))) (text_to_pinyin_tokens e text)"

definition g2pw_init_error :: "str \<Rightarrow> dengjen_error" where
  "g2pw_init_error why = InferenceError (lit ''Failed to initialize the g2pW inference session: '' @ why)"

definition create_g2pw_engine ::
  "(path \<Rightarrow> str + (g2pw_inputs \<Rightarrow> str + (str + int list \<times> f32 list) list)) \<Rightarrow> (path \<Rightarrow> str + tokenizer)
     \<Rightarrow> path \<Rightarrow> path \<Rightarrow> g2pw_config \<Rightarrow> g2pw_engine dengjen_result" where
  "create_g2pw_engine open_session open_tokenizer onnx_model_path tokenizer_path cfg =
     res_bind (res_map_err g2pw_init_error (open_session onnx_model_path)) (\<lambda>run.
     res_map (\<lambda>tk. \<lparr>ge_run = run, ge_tokenizer = tk, ge_config = cfg\<rparr>)
       (res_map_err g2pw_init_error (open_tokenizer tokenizer_path)))"

definition polyphones_of ::
  "(str \<Rightarrow> str) \<Rightarrow> (str \<Rightarrow> str) \<Rightarrow> (int list \<Rightarrow> str) \<Rightarrow> g2pw_engine \<Rightarrow> polyphone_engine" where
  "polyphones_of to_lowercase debug show_shape e =
     \<lparr>pe_is_polyphonic = is_polyphonic e, pe_resolve = resolve_polyphonic to_lowercase debug show_shape e\<rparr>"

subsection \<open>Syllables are split without loss\<close>

lemma initials_split:
  "PINYIN_INITIALS = [lit ''zh'', lit ''ch'', lit ''sh''] @ map (\<lambda>c. [c]) (lit ''bpmfdtnlgkhjqxrzcsyw'')"
  by (simp add: PINYIN_INITIALS_def)

lemma find_longest:
  assumes "\<forall>x \<in> set long. length x = 2" "\<forall>x \<in> set short. length x = 1"
  shows "\<forall>x \<in> set (long @ short). P x \<longrightarrow> length x \<le> length (unwrap_or [] (find P (long @ short)))"
proof (cases "find P long")
  case (Some y)
  then have "find P (long @ short) = Some y" by (induction long) (auto split: if_splits)
  moreover have "length y = 2"
    using Some assms(1) unfolding find_Some_iff by (metis nth_mem)
  ultimately show ?thesis using assms by fastforce
next
  case None
  then have rest: "find P (long @ short) = find P short" by (induction long) (auto split: if_splits)
  have none: "\<forall>x \<in> set long. \<not> P x" using None by (simp add: find_None_iff)
  show ?thesis
  proof (cases "find P short")
    case (Some y)
    then have "length y = 1" using assms(2) unfolding find_Some_iff by (metis nth_mem)
    then show ?thesis using none assms(2) by (auto simp: rest Some)
  next
    case None
    then show ?thesis using none by (auto simp: rest find_None_iff)
  qed
qed

text \<open>
  A syllable is split exactly when it is a lower-case word with a tone from 1 to 9; its initial,
  final and tone put together are the syllable, and the initial is the longest one it begins with.
\<close>

theorem syllable_split_lossless:
  "case split_initial_final_tone s of
     None \<Rightarrow> s = [] \<or> last s \<notin> {49..57} \<or> butlast s = [] \<or> list_ex (\<lambda>c. \<not> is_ascii_lowercase c) (butlast s)
   | Some (initial, finale, tone) \<Rightarrow>
       s = initial @ finale @ [tone] \<and> tone \<in> {49..57} \<and> list_all is_ascii_lowercase (initial @ finale) \<and>
       initial @ finale \<noteq> [] \<and> initial \<in> set ([] # PINYIN_INITIALS) \<and>
       list_all (\<lambda>cand. if starts_with cand (initial @ finale) then length cand \<le> length initial else True)
         PINYIN_INITIALS"
proof (cases "split_initial_final_tone s")
  case None
  then show ?thesis
    by (auto simp: split_initial_final_tone_def Let_def is_ascii_digit_def list_all_iff list_ex_iff
        is_ascii_lowercase_def split: if_splits)
next
  case (Some r)
  obtain i f t where r: "r = (i, f, t)" by (cases r) auto
  define base where "base = butlast s"
  have s: "s \<noteq> []" "t = last s" "base \<noteq> []" "t \<in> {49..57}" "list_all is_ascii_lowercase base"
    and i: "i = unwrap_or [] (find (\<lambda>cand. starts_with cand base) PINYIN_INITIALS)"
    and f: "f = drop (length i) base"
    using Some by (auto simp: r split_initial_final_tone_def Let_def is_ascii_digit_def base_def
        list_all_iff is_ascii_lowercase_def split: if_splits)
  have start: "starts_with i base \<and> i \<in> set ([] # PINYIN_INITIALS)"
  proof (cases "find (\<lambda>cand. starts_with cand base) PINYIN_INITIALS")
    case None
    then show ?thesis by (simp add: i starts_with_def)
  next
    case (Some y)
    then have "starts_with y base \<and> y \<in> set PINYIN_INITIALS"
      unfolding find_Some_iff by (metis nth_mem)
    then show ?thesis by (simp add: i Some)
  qed
  then have "take (length i) base = i" by (simp add: starts_with_def)
  then have "base = i @ f" unfolding f by (metis append_take_drop_id)
  moreover have "s = base @ [t]" using s by (simp add: base_def)
  moreover have "list_all (\<lambda>cand. if starts_with cand base then length cand \<le> length i else True) PINYIN_INITIALS"
    unfolding i initials_split list_all_iff
    using find_longest [of "[lit ''zh'', lit ''ch'', lit ''sh'']"
        "map (\<lambda>c. [c]) (lit ''bpmfdtnlgkhjqxrzcsyw'')" "\<lambda>cand. starts_with cand base"] by simp
  ultimately show ?thesis using s start by (simp add: Some r)
qed

subsection \<open>Sentences\<close>

lemma split_inclusive_ends:
  "\<not> list_ex P cur \<Longrightarrow>
   list_all (\<lambda>piece. piece \<noteq> [] \<and> \<not> list_ex P (butlast piece)) (split_inclusive P cur s)"
  by (induction P cur s rule: split_inclusive.induct)
    (auto simp: list_ex_iff dest: in_set_butlastD)

text \<open>
  Splitting a text into sentences loses nothing but quotation marks, and within a sentence the
  sentence marks stand at the end only.
\<close>

theorem pinyin_sentences_lossless:
  "concat (split_into_sentences (strip_quotation_marks text))
     = filter (\<lambda>c. c \<notin> set [0x201C, 0x201D, 34]) text \<and>
   list_all (\<lambda>sentence. sentence \<noteq> [] \<and> \<not> list_ex ends_pinyin_sentence (butlast sentence))
     (split_into_sentences (strip_quotation_marks text))"
  unfolding split_into_sentences_def
  by (simp add: split_inclusive_concat split_inclusive_ends strip_quotation_marks_def)

subsection \<open>The tables of the model\<close>

lemma bisect_finds:
  "sorted xs \<Longrightarrow> k < length xs \<Longrightarrow> xs ! k = c \<Longrightarrow> lo \<le> k \<Longrightarrow> k < hi \<Longrightarrow> hi \<le> length xs \<Longrightarrow>
   \<exists>i. bisect xs c lo hi = Some i \<and> i < length xs \<and> xs ! i = c"
proof (induction xs c lo hi rule: bisect.induct)
  case (1 xs c lo hi)
  define mid where "mid = (lo + hi) div 2"
  have mid: "lo \<le> mid" "mid < hi" using "1.prems" by (auto simp: mid_def)
  consider (eq) "xs ! mid = c" | (lt) "xs ! mid < c" | (gt) "c < xs ! mid" by linarith
  then show ?case
  proof cases
    case eq
    then show ?thesis using mid "1.prems" by (subst bisect.simps) (simp add: Let_def mid_def [symmetric])
  next
    case lt
    have "mid < k"
    proof (rule ccontr)
      assume "\<not> mid < k"
      then have "xs ! k \<le> xs ! mid" using "1.prems" mid by (intro sorted_nth_mono) auto
      then show False using lt "1.prems" by simp
    qed
    then show ?thesis using lt mid "1.prems" "1.IH"(1) [OF _ mid_def]
      by (subst bisect.simps) (simp add: Let_def mid_def [symmetric])
  next
    case gt
    have "k < mid"
    proof (rule ccontr)
      assume "\<not> k < mid"
      then have "xs ! mid \<le> xs ! k" using "1.prems" mid by (intro sorted_nth_mono) auto
      then show False using gt "1.prems" by simp
    qed
    then show ?thesis using gt mid "1.prems" "1.IH"(2) [OF _ mid_def]
      by (subst bisect.simps) (simp add: Let_def mid_def [symmetric])
  qed
qed

lemma position_Some: "x \<in> set xs \<Longrightarrow> \<exists>i. position xs x = Some i \<and> i < length xs \<and> xs ! i = x"
proof -
  assume "x \<in> set xs"
  then obtain ys zs where "xs = ys @ x # zs" "x \<notin> set ys" by (metis split_list_first)
  moreover from this have "takeWhile (\<lambda>y. y \<noteq> x) xs = ys" by (auto intro!: takeWhile_eq_all_conv [THEN iffD2] simp: takeWhile_append)
  ultimately show ?thesis by (simp add: position_def)
qed

lemma position_sound: "position xs x = Some i \<Longrightarrow> i < length xs \<and> xs ! i = x"
  by (auto simp: position_def Let_def split: if_splits dest: nth_length_takeWhile)

lemma map_filter_labels:
  assumes "\<forall>p \<in> set ps. snd p \<in> set labels"
  shows "map (\<lambda>k. labels ! k) (List.map_filter (\<lambda>(d, ph). if d = c then position labels ph else None) ps) =
    map snd (filter (\<lambda>p. fst p = c) ps)"
  using assms
proof (induction ps)
  case Nil
  then show ?case by (simp add: List.map_filter_def)
next
  case (Cons p ps)
  obtain i where "position labels (snd p) = Some i" "labels ! i = snd p"
    using Cons.prems position_Some by (metis list.set_intros(1))
  then show ?case using Cons by (cases p) (simp add: List.map_filter_def)
qed

lemma labels_set: "set (phoneme_labels ps) = snd ` set ps"
  by (simp add: phoneme_labels_def)

text \<open>
  Every character of the file of ambiguous characters has candidates, which are its readings
  in the file in order and are all labels of the model, and the sorted list of characters finds it;
  so resolving it cannot fail for a missing table entry. No other character counts as ambiguous.
\<close>

theorem ambiguous_characters_are_known:
  "list_all (\<lambda>c.
     case gc_char2phonemes (pinyin_config ps) c of
       None \<Rightarrow> False
     | Some candidates \<Rightarrow>
         list_all (\<lambda>k. k < length (gc_labels (pinyin_config ps))) candidates \<and>
         map (\<lambda>k. gc_labels (pinyin_config ps) ! k) candidates = map snd (filter (\<lambda>p. fst p = c) ps) \<and>
         (case chars_index (pinyin_config ps) c of
            Inl e \<Rightarrow> False | Inr i \<Rightarrow> gc_chars (pinyin_config ps) ! i = c)) (map fst ps) \<and>
   {c. gc_char2phonemes (pinyin_config ps) c \<noteq> None} = fst ` set ps"
proof -
  let ?labels = "phoneme_labels ps"
  let ?cands = "\<lambda>c. List.map_filter (\<lambda>(d, ph). if d = c then position ?labels ph else None) ps"
  have cfg: "gc_labels (pinyin_config ps) = ?labels"
      "gc_char2phonemes (pinyin_config ps) = char_phonemes ?labels ps"
      "gc_chars (pinyin_config ps) = sorted_chars (char_phonemes ?labels ps) ps"
    by (simp_all add: pinyin_config_def get_phoneme_labels_def Let_def)
  have readings: "map (\<lambda>k. ?labels ! k) (?cands c) = map snd (filter (\<lambda>p. fst p = c) ps)" for c
    by (rule map_filter_labels) (simp add: labels_set)
  have bounds: "list_all (\<lambda>k. k < length ?labels) (?cands c)" for c
  proof -
    have "k < length ?labels" if "Some k = position ?labels x" for k x
      using that position_sound by metis
    then show ?thesis by (force simp: list_all_iff List.map_filter_def split: if_splits)
  qed
  have cands: "char_phonemes ?labels ps c = (if c \<in> fst ` set ps then Some (?cands c) else None)" for c
  proof -
    have "?cands c = [] \<longleftrightarrow> filter (\<lambda>p. fst p = c) ps = []"
      using readings [of c] by (metis map_is_Nil_conv)
    also have "\<dots> \<longleftrightarrow> c \<notin> fst ` set ps" by (auto simp: filter_empty_conv)
    finally show ?thesis by (simp add: char_phonemes_def Let_def)
  qed
  have chars: "sorted (sorted_chars (char_phonemes ?labels ps) ps)"
      "set (sorted_chars (char_phonemes ?labels ps) ps) = fst ` set ps"
    by (auto simp: sorted_chars_def cands)
  have index: "\<exists>i. chars_index (pinyin_config ps) c = Inr i \<and> gc_chars (pinyin_config ps) ! i = c"
    if c: "c \<in> fst ` set ps" for c
  proof -
    obtain k where "k < length (sorted_chars (char_phonemes ?labels ps) ps)"
      "sorted_chars (char_phonemes ?labels ps) ps ! k = c"
      using c chars(2) by (metis in_set_conv_nth)
    then show ?thesis using bisect_finds [OF chars(1)] by (fastforce simp: chars_index_def cfg)
  qed
  have "list_all (\<lambda>c. case chars_index (pinyin_config ps) c of
      Inl e \<Rightarrow> False | Inr i \<Rightarrow> gc_chars (pinyin_config ps) ! i = c) (map fst ps)"
    using index by (force simp: list_all_iff)
  then show ?thesis using readings bounds
    by (auto simp: list_all_iff cfg cands split: if_splits)
qed

end
