(* ===== verification/Melo.thy ===== *)
theory Melo
  imports ConfigStore Greedy Paths Piper Pinyin
begin

section \<open>The MeloTTS backend\<close>

text \<open>
  \<^verbatim>\<open>crates/dengjen/models/melotts/src\<close>: \<^verbatim>\<open>config.rs\<close>, \<^verbatim>\<open>synth_config.rs\<close>, \<^verbatim>\<open>phonemize.rs\<close>,
  \<^verbatim>\<open>inference.rs\<close> and \<^verbatim>\<open>lib.rs\<close>. A sentence travels between the phonemizer and the model as lines
  \<^verbatim>\<open>phone:tone\<close>. The session and the two phonemizers are arguments. The theorems show that the text
  form loses no phone or tone, that the phone and tone tensors stay aligned, and that the voice keeps
  the config-store contract.
\<close>

subsection \<open>Configuration\<close>

record melo_inference_config =
  mi_noise_scale :: f32
  mi_length_scale :: f32
  mi_noise_scale_w :: f32

datatype phonemizer_config = EspeakPhonemizer str | PinyinPhonemizer path

record raw_melo_voice_config =
  rm_sample_rate :: nat
  rm_phonemizer :: phonemizer_config
  rm_phone_id_map :: "(str \<times> int list) list"
  rm_tone_id_map :: "(str \<times> int) list"
  rm_speaker_id_map :: "(str \<times> int) list"
  rm_default_speaker_id :: "int option"
  rm_inference :: melo_inference_config
  rm_model_path :: str

record melo_voice_config =
  ml_sample_rate :: nat
  ml_phonemizer :: phonemizer_config
  ml_phone_id_map :: "(str \<times> int list) list"
  ml_tone_id_map :: "(str \<times> int) list"
  ml_speaker_id_map :: "(str \<times> int) list"
  ml_default_speaker_id :: "int option"
  ml_inference :: melo_inference_config
  ml_model_path :: path

definition melo_load_config ::
  "(path \<Rightarrow> std_error + str) \<Rightarrow> (str \<Rightarrow> std_error + raw_melo_voice_config) \<Rightarrow> path
     \<Rightarrow> melo_voice_config dengjen_result" where
  "melo_load_config read parse p =
     res_bind (res_map_err (with_source (FailedToLoadResource
         (lit ''Failed to read MeloTTS voice config at '' @ quoted p))) (read p)) (\<lambda>raw.
     res_bind (res_map_err (with_source (InvalidConfiguration
         (lit ''Failed to parse MeloTTS voice config at '' @ quoted p))) (parse raw)) (\<lambda>c.
     res_map (\<lambda>mp. \<lparr>ml_sample_rate = rm_sample_rate c, ml_phonemizer = rm_phonemizer c,
                     ml_phone_id_map = rm_phone_id_map c, ml_tone_id_map = rm_tone_id_map c,
                     ml_speaker_id_map = rm_speaker_id_map c,
                     ml_default_speaker_id = rm_default_speaker_id c,
                     ml_inference = rm_inference c, ml_model_path = mp\<rparr>)
       (resolve_within (config_dir p) (lit ''model_path'') (rm_model_path c))))"

record melo_synthesis_config =
  ms_speaker :: "int option"
  ms_noise_scale :: f32
  ms_length_scale :: f32
  ms_noise_scale_w :: f32

definition NOISE_SCALE_W :: str where "NOISE_SCALE_W = lit ''noise_scale_w''"

definition melo_to_synthesis_config :: "melo_synthesis_config \<Rightarrow> synthesis_config" where
  "melo_to_synthesis_config c =
     \<lparr>speaker = ms_speaker c,
      parameters = [NOISE_SCALE \<mapsto> ms_noise_scale c, LENGTH_SCALE \<mapsto> ms_length_scale c,
                    NOISE_SCALE_W \<mapsto> ms_noise_scale_w c]\<rparr>"

definition melo_of_synthesis_config :: "synthesis_config \<Rightarrow> melo_synthesis_config" where
  "melo_of_synthesis_config c =
     \<lparr>ms_speaker = speaker c,
      ms_noise_scale = unwrap_or (f_lit 0) (parameters c NOISE_SCALE),
      ms_length_scale = unwrap_or (f_lit 0) (parameters c LENGTH_SCALE),
      ms_noise_scale_w = unwrap_or (f_lit 0) (parameters c NOISE_SCALE_W)\<rparr>"

subsection \<open>Phone and tone ids\<close>

definition first_or_zero :: "(str \<times> int list) list \<Rightarrow> str \<Rightarrow> int" where
  "first_or_zero kvs k = unwrap_or 0 (first_id kvs k)"

definition longest_phone :: "(str \<times> int list) list \<Rightarrow> nat" where
  "longest_phone kvs = max (if kvs = [] then 1 else fold max (map (\<lambda>(k, _). length k) kvs) 0) 1"

definition pair_ids ::
  "(str \<times> int list) list \<Rightarrow> (str \<times> int) list \<Rightarrow> str \<times> str \<Rightarrow> (int \<times> int) list" where
  "pair_ids phone_map tone_map pair =
     (case pair of (chunk, tone_symbol) \<Rightarrow>
        (case unwrap_or (unwrap_or 0 (map_of tone_map (lit ''_''))) (map_of tone_map tone_symbol) of tone_id \<Rightarrow>
           concat (map (\<lambda>(w, i). [(i, tone_id),
               (first_or_zero phone_map (lit ''_''), unwrap_or 0 (map_of tone_map (lit ''_'')))])
             (greedy_scan (\<lambda>_. longest_phone phone_map) (first_id phone_map) chunk))))"

definition map_phone_tone_pairs_to_ids ::
  "(str \<times> int list) list \<Rightarrow> (str \<times> int) list \<Rightarrow> (str \<times> str) list \<Rightarrow> int list \<times> int list" where
  "map_phone_tone_pairs_to_ids phone_map tone_map pairs =
     (case concat (map (pair_ids phone_map tone_map) pairs) of ids \<Rightarrow>
        (first_or_zero phone_map (lit ''^'') # map fst ids @ [first_or_zero phone_map (lit ''$'')],
         unwrap_or 0 (map_of tone_map (lit ''_'')) # map snd ids
           @ [unwrap_or 0 (map_of tone_map (lit ''_''))]))"

lemma longest_phone_ge: "map_of kvs k = Some ids \<Longrightarrow> length k \<le> longest_phone kvs"
proof -
  have grow: "m \<le> fold max zs m" for m :: nat and zs
    by (induction zs arbitrary: m) (auto intro: order_trans [OF max.cobounded2])
  have ge: "x \<in> set zs \<Longrightarrow> x \<le> fold max zs m" for x m :: nat and zs
    by (induction zs arbitrary: m) (auto intro: order_trans [OF _ grow])
  assume "map_of kvs k = Some ids"
  then have "length k \<in> set (map (\<lambda>(k, _). length k) kvs)" "kvs \<noteq> []"
    by (force dest!: map_of_SomeD)+
  with ge [of "length k" "map (\<lambda>(k, _). length k) kvs" 0] show ?thesis
    by (simp add: longest_phone_def)
qed

interpretation melo_scan: longest_match "\<lambda>_. longest_phone kvs" "first_id kvs"
proof
  fix w s i assume m: "first_id kvs (take w s) = Some i" "1 \<le> w" "w \<le> length s"
  then obtain ids where "map_of kvs (take w s) = Some ids"
    by (auto simp: first_id_def split: option.splits)
  from longest_phone_ge [OF this] m(3) show "w \<le> longest_phone kvs"
    by (simp add: min_def split: if_splits)
qed

text \<open>
  \<^bold>\<open>C37\<close>: the phone and tone sequences sent to a MeloTTS model have the same length, begin and
  end with the marker ids, and pair every phone of the longest-match tokenization with the tone of
  the token it came from, each followed by a blank with the blank tone.
\<close>

theorem melo_ids_aligned:
  "case map_phone_tone_pairs_to_ids phone_map tone_map pairs of
     (phones, tones) \<Rightarrow>
       length phones = length tones \<and>
       zip phones tones =
         (first_or_zero phone_map (lit ''^''), unwrap_or 0 (map_of tone_map (lit ''_'')))
         # concat (map (\<lambda>(chunk, tone).
             concat (map (\<lambda>(w, i).
               [(i, unwrap_or (unwrap_or 0 (map_of tone_map (lit ''_''))) (map_of tone_map tone)),
                (first_or_zero phone_map (lit ''_''), unwrap_or 0 (map_of tone_map (lit ''_'')))])
             (reference_scan (first_id phone_map) chunk))) pairs)
         @ [(first_or_zero phone_map (lit ''$''), unwrap_or 0 (map_of tone_map (lit ''_'')))]"
proof -
  define ids where "ids = concat (map (pair_ids phone_map tone_map) pairs)"
  have "ids = concat (map (\<lambda>(chunk, tone).
             concat (map (\<lambda>(w, i).
               [(i, unwrap_or (unwrap_or 0 (map_of tone_map (lit ''_''))) (map_of tone_map tone)),
                (first_or_zero phone_map (lit ''_''), unwrap_or 0 (map_of tone_map (lit ''_'')))])
             (reference_scan (first_id phone_map) chunk))) pairs)"
    unfolding ids_def
    by (rule arg_cong [where f = concat], rule map_cong [OF refl])
       (simp only: pair_ids_def melo_scan.scan_is_reference split: prod.split)
  then show ?thesis
    by (simp add: map_phone_tone_pairs_to_ids_def zip_map_fst_snd flip: ids_def)
qed

subsection \<open>Sentences as text\<close>

definition newline :: uchar where "newline = 10"
definition colon :: uchar where "colon = 58"

definition phone_tone_line :: "str \<times> str \<Rightarrow> str" where
  "phone_tone_line pair = fst pair @ [colon] @ snd pair"

definition encode_sentence :: "(str \<times> str) list \<Rightarrow> str" where
  "encode_sentence pairs = join_text [newline] (map phone_tone_line pairs)"

text \<open>\<^verbatim>\<open>rsplit_once(':')\<close>.\<close>

fun rsplit_once :: "uchar \<Rightarrow> str \<Rightarrow> (str \<times> str) option" where
  "rsplit_once d [] = None"
| "rsplit_once d (c # s) =
     (case rsplit_once d s of
        Some (a, b) \<Rightarrow> Some (c # a, b)
      | None \<Rightarrow> if c = d then Some ([], s) else None)"

definition decode_token :: "str \<Rightarrow> str \<times> str" where
  "decode_token token = unwrap_or (token, lit ''_'') (rsplit_once colon token)"

definition decode_sentence :: "str \<Rightarrow> (str \<times> str) list" where
  "decode_sentence phonemes =
     map decode_token (filter (\<lambda>s. s \<noteq> []) (split_char newline phonemes))"

lemma rsplit_once_absent: "d \<notin> set s \<Longrightarrow> rsplit_once d s = None"
  by (induction s) auto

lemma rsplit_once_last: "d \<notin> set t \<Longrightarrow> rsplit_once d (s @ d # t) = Some (s, t)"
  by (induction s) (auto simp: rsplit_once_absent)

lemma decode_line: "colon \<notin> set (snd p) \<Longrightarrow> decode_token (phone_tone_line p) = p"
  by (cases p) (simp add: decode_token_def phone_tone_line_def rsplit_once_last)

text \<open>
  The text that carries a MeloTTS sentence from its phonemizer to the model gives back
  exactly the phones and tones, in order, colons inside a phone included, as long as no phone or
  tone holds a line break and no tone a colon.
\<close>

theorem melo_sentence_roundtrip:
  assumes "\<forall>(phone, tone) \<in> set pairs. newline \<notin> set phone \<and> newline \<notin> set tone \<and> colon \<notin> set tone"
  shows "decode_sentence (encode_sentence pairs) = pairs"
proof (cases "pairs = []")
  case True
  then show ?thesis by (simp add: decode_sentence_def encode_sentence_def)
next
  case False
  have "newline \<notin> set l" if "l \<in> set (map phone_tone_line pairs)" for l
    using that assms by (auto simp: phone_tone_line_def newline_def colon_def)
  then have "split_char newline (encode_sentence pairs) = map phone_tone_line pairs"
    unfolding encode_sentence_def using False by (intro split_char_join) auto
  moreover have "filter (\<lambda>s. s \<noteq> []) (map phone_tone_line pairs) = map phone_tone_line pairs"
    by (rule filter_True) (auto simp: phone_tone_line_def)
  moreover have "map decode_token (map phone_tone_line pairs) = pairs"
    unfolding map_map by (rule map_idI) (use assms in \<open>auto simp: decode_line\<close>)
  ultimately show ?thesis by (simp only: decode_sentence_def)
qed

theorem melo_sentence_roundtrip_witness:
  "decode_sentence (encode_sentence [(lit ''a:b'', lit ''1''), (lit ''zh'', lit ''4'')])
     = [(lit ''a:b'', lit ''1''), (lit ''zh'', lit ''4'')]"
  by (rule melo_sentence_roundtrip) (simp add: newline_def colon_def)

subsection \<open>The voice\<close>

definition token_pairs :: "pinyin_token \<Rightarrow> (str \<times> str) list" where
  "token_pairs token =
     (case token of
        PinyinSyllable initial finale tone \<Rightarrow>
          (if initial \<noteq> [] then [(initial, show_nat tone)] else []) @ [(finale, show_nat tone)]
      | Passthrough s \<Rightarrow> [(s, lit ''_'')])"

definition pinyin_phone_tone_pairs ::
  "(str \<Rightarrow> pinyin_token list list dengjen_result) option \<Rightarrow> str \<Rightarrow> (str \<times> str) list list dengjen_result" where
  "pinyin_phone_tone_pairs engine text =
     (case engine of
        None \<Rightarrow> Inl (PhonemizationError (lit ''MeloTTS pinyin phonemization requires the `pinyin` feature, but it is disabled''))
      | Some run \<Rightarrow> res_map (map (\<lambda>tokens. concat (map token_pairs tokens))) (run text))"

definition espeak_phone_tone_pairs ::
  "(str \<Rightarrow> str \<Rightarrow> str + str list) option \<Rightarrow> str \<Rightarrow> str \<Rightarrow> (str \<times> str) list list dengjen_result" where
  "espeak_phone_tone_pairs espeak text voice =
     (case espeak of
        None \<Rightarrow> Inl (PhonemizationError (lit ''MeloTTS espeak phonemization requires the `espeak` feature (GPL-3.0-or-later, via espeak-ng), but it is disabled''))
      | Some run \<Rightarrow>
          res_map (map (\<lambda>sentence. [(sentence, lit ''_'')])) (res_map_err PhonemizationError (run text voice)))"

datatype 'e phonemizer_backend =
    EspeakBackend str
  | PinyinBackend "'e"

definition create_backend ::
  "(path \<Rightarrow> 'e dengjen_result) \<Rightarrow> phonemizer_config \<Rightarrow> 'e phonemizer_backend dengjen_result" where
  "create_backend create cfg =
     (case cfg of
        EspeakPhonemizer voice \<Rightarrow> Inr (EspeakBackend voice)
      | PinyinPhonemizer model_dir \<Rightarrow> res_map PinyinBackend (create model_dir))"

definition phone_tone_pairs ::
  "(str \<Rightarrow> str \<Rightarrow> str + str list) option \<Rightarrow> ('e \<Rightarrow> (str \<Rightarrow> pinyin_token list list dengjen_result) option)
     \<Rightarrow> 'e phonemizer_backend \<Rightarrow> str \<Rightarrow> (str \<times> str) list list dengjen_result" where
  "phone_tone_pairs espeak pinyin backend text =
     (case backend of
        EspeakBackend voice \<Rightarrow> espeak_phone_tone_pairs espeak text voice
      | PinyinBackend e \<Rightarrow> pinyin_phone_tone_pairs (pinyin e) text)"

record 'e melo_voice =
  mv_backend :: "'e phonemizer_backend"
  mv_config :: melo_voice_config
  mv_speaker_map :: "int \<Rightarrow> str option"
  mv_fallback_config :: "synthesis_config option"

definition melo_voice_of :: "'e phonemizer_backend \<Rightarrow> melo_voice_config \<Rightarrow> 'e melo_voice" where
  "melo_voice_of backend cfg =
     \<lparr>mv_backend = backend, mv_config = cfg,
      mv_speaker_map = reversed_mapping (ml_speaker_id_map cfg), mv_fallback_config = None\<rparr>"

definition ensure_known_speaker ::
  "(int \<Rightarrow> str option) \<Rightarrow> synthesis_config \<Rightarrow> unit dengjen_result" where
  "ensure_known_speaker speaker_map c =
     (case speaker c of
        Some sid \<Rightarrow> if speaker_map sid = None then Inl (unknown_speaker sid) else Inr ()
      | None \<Rightarrow> Inr ())"

definition melo_get_default :: "'e melo_voice \<Rightarrow> synthesis_config option" where
  "melo_get_default v =
     Some (melo_to_synthesis_config
       \<lparr>ms_speaker = ml_default_speaker_id (mv_config v),
        ms_noise_scale = mi_noise_scale (ml_inference (mv_config v)),
        ms_length_scale = mi_length_scale (ml_inference (mv_config v)),
        ms_noise_scale_w = mi_noise_scale_w (ml_inference (mv_config v))\<rparr>)"

definition melo_get_fallback :: "'e melo_voice \<Rightarrow> synthesis_config option" where
  "melo_get_fallback v = mv_fallback_config v"

definition melo_set_fallback :: "synthesis_config \<Rightarrow> 'e melo_voice \<Rightarrow> 'e melo_voice dengjen_result" where
  "melo_set_fallback c v =
     res_map (\<lambda>_. v\<lparr>mv_fallback_config := Some c\<rparr>) (ensure_known_speaker (mv_speaker_map v) c)"

interpretation melo_store: config_store melo_get_fallback melo_set_fallback
    "\<lambda>v sid. mv_speaker_map v sid \<noteq> None" UNIV
  by unfold_locales
     (auto simp: melo_get_fallback_def melo_set_fallback_def ensure_known_speaker_def speaker_known_def
       split: option.splits if_splits)

definition melo_phonemize_text ::
  "(str \<Rightarrow> str \<Rightarrow> str + str list) option \<Rightarrow> ('e \<Rightarrow> (str \<Rightarrow> pinyin_token list list dengjen_result) option)
     \<Rightarrow> 'e melo_voice \<Rightarrow> str \<Rightarrow> str list dengjen_result" where
  "melo_phonemize_text espeak pinyin v text =
     res_map (map encode_sentence) (phone_tone_pairs espeak pinyin (mv_backend v) text)"

definition fallback_parameter :: "synthesis_config option \<Rightarrow> str \<Rightarrow> f32 \<Rightarrow> f32" where
  "fallback_parameter fallback n d =
     unwrap_or d (case fallback of None \<Rightarrow> None | Some c \<Rightarrow> parameters c n)"

definition melo_synth_parameters :: "'e melo_voice \<Rightarrow> melo_synthesis_config" where
  "melo_synth_parameters v =
     \<lparr>ms_speaker =
        (case (case mv_fallback_config v of None \<Rightarrow> None | Some c \<Rightarrow> speaker c) of
           Some sid \<Rightarrow> Some sid
         | None \<Rightarrow> ml_default_speaker_id (mv_config v)),
      ms_noise_scale = fallback_parameter (mv_fallback_config v) NOISE_SCALE
        (mi_noise_scale (ml_inference (mv_config v))),
      ms_length_scale = fallback_parameter (mv_fallback_config v) LENGTH_SCALE
        (mi_length_scale (ml_inference (mv_config v))),
      ms_noise_scale_w = fallback_parameter (mv_fallback_config v) NOISE_SCALE_W
        (mi_noise_scale_w (ml_inference (mv_config v)))\<rparr>"

text \<open>The named inputs of the session; its answer is the output \<^verbatim>\<open>y\<close>.\<close>

definition synthesize_phone_tone_pairs ::
  "((str \<times> tensor) list \<Rightarrow> str + (str \<times> tensor) list) \<Rightarrow> str \<Rightarrow> melo_voice_config \<Rightarrow> (str \<times> str) list
     \<Rightarrow> melo_synthesis_config \<Rightarrow> audio dengjen_result" where
  "synthesize_phone_tone_pairs run type_why cfg pairs synth =
     (case map_phone_tone_pairs_to_ids (ml_phone_id_map cfg) (ml_tone_id_map cfg) pairs of
        (phone_ids, tone_ids) \<Rightarrow>
          res_bind (res_map_err (\<lambda>e. InferenceError (lit ''MeloTTS inference failed: '' @ e))
            (run [(lit ''x'', TensorI64 [1, length phone_ids] phone_ids),
                  (lit ''x_lengths'', TensorI64 [1] [int (length phone_ids)]),
                  (lit ''tones'', TensorI64 [1, length phone_ids] tone_ids),
                  (lit ''sid'', TensorI64 [1] [unwrap_or 0 (ms_speaker synth)]),
                  (lit ''noise_scale'', TensorF32 [1] [ms_noise_scale synth]),
                  (lit ''length_scale'', TensorF32 [1] [ms_length_scale synth]),
                  (lit ''noise_scale_w'', TensorF32 [1] [ms_noise_scale_w synth])])) (\<lambda>outputs.
            case map_of outputs (lit ''y'') of
              None \<Rightarrow> Inl (InferenceError (lit ''MeloTTS model has no output named `y`''))
            | Some (TensorF32 sh xs) \<Rightarrow> Inr (new_audio xs (ml_sample_rate cfg) None)
            | Some (TensorI64 sh xs) \<Rightarrow>
                Inl (InferenceError (lit ''Failed to extract MeloTTS output: '' @ type_why))))"

definition melo_speak_one_sentence ::
  "((str \<times> tensor) list \<Rightarrow> str + (str \<times> tensor) list) \<Rightarrow> str \<Rightarrow> 'e melo_voice \<Rightarrow> str
     \<Rightarrow> audio dengjen_result" where
  "melo_speak_one_sentence run type_why v phonemes =
     synthesize_phone_tone_pairs run type_why (mv_config v) (decode_sentence phonemes)
       (melo_synth_parameters v)"

definition melo_speak_batch ::
  "((str \<times> tensor) list \<Rightarrow> str + (str \<times> tensor) list) \<Rightarrow> str \<Rightarrow> 'e melo_voice \<Rightarrow> str list
     \<Rightarrow> audio list dengjen_result" where
  "melo_speak_batch run type_why v batches = collect_map (melo_speak_one_sentence run type_why v) batches"

lemma melo_parameters_in_force:
  "melo_set_fallback c v = Inr v' \<Longrightarrow> parameters c LENGTH_SCALE = Some x \<Longrightarrow>
     ms_length_scale (melo_synth_parameters v') = x"
  by (auto simp: melo_set_fallback_def melo_synth_parameters_def fallback_parameter_def res_conv)

end
