(* ===== verification/Espeak.thy ===== *)
theory Espeak
  imports Prelude "HOL-Library.Sublist"
begin

unbundle bit_operations_syntax

section \<open>The eSpeak phonemizer\<close>

text \<open>
  \<^verbatim>\<open>crates/text/espeak-phonemizer/src/lib.rs\<close> around the C library, which is the record
  \<open>espeak\<close>: whether it initializes, which voices it has, and what one call of its translator
  answers at a position of the line, with the next position or the null pointer. The loop over
  clauses returns None if the library never answers null. The theorems show that grouping
  clauses into sentences loses nothing and what stripping annotations leaves.
\<close>

type_synonym c_int = "32 word"

definition CLAUSE_INTONATION_FULL_STOP :: c_int where "CLAUSE_INTONATION_FULL_STOP = 0x00000000"
definition CLAUSE_INTONATION_COMMA :: c_int where "CLAUSE_INTONATION_COMMA = 0x00001000"
definition CLAUSE_INTONATION_QUESTION :: c_int where "CLAUSE_INTONATION_QUESTION = 0x00002000"
definition CLAUSE_INTONATION_EXCLAMATION :: c_int where "CLAUSE_INTONATION_EXCLAMATION = 0x00003000"
definition CLAUSE_TYPE_SENTENCE :: c_int where "CLAUSE_TYPE_SENTENCE = 0x00080000"

datatype espeak_error = ESpeakError str

definition display_espeak_error :: "espeak_error \<Rightarrow> str" where
  "display_espeak_error e = (case e of ESpeakError msg \<Rightarrow> lit ''eSpeak-ng Error :'' @ msg)"

record 'c espeak =
  es_init :: "espeak_error + unit"
  es_has_voice :: "str \<Rightarrow> bool"
  es_start :: "str \<Rightarrow> 'c option"
  es_clause :: "c_int \<Rightarrow> 'c \<Rightarrow> str \<times> c_int \<times> 'c option"

definition clause_break_suffix :: "c_int \<Rightarrow> str" where
  "clause_break_suffix terminator =
     (case terminator AND 0x0000F000 of i \<Rightarrow>
        if i = CLAUSE_INTONATION_FULL_STOP then lit ''.''
        else if i = CLAUSE_INTONATION_COMMA then lit '',''
        else if i = CLAUSE_INTONATION_QUESTION then lit ''?''
        else if i = CLAUSE_INTONATION_EXCLAMATION then lit ''!''
        else [])"

definition ends_sentence :: "c_int \<Rightarrow> bool" where
  "ends_sentence terminator \<longleftrightarrow> terminator AND CLAUSE_TYPE_SENTENCE = CLAUSE_TYPE_SENTENCE"

text \<open>\<^verbatim>\<open>espeakINITIALIZE_PHONEME_IPA\<close> is 2; a separator goes to the bits above the low byte.\<close>

definition phoneme_mode :: "uchar option \<Rightarrow> c_int" where
  "phoneme_mode separator =
     0x0002 OR (case separator of None \<Rightarrow> 0 | Some c \<Rightarrow> push_bit 8 (of_nat c))"

partial_function (option) read_clauses ::
  "('c \<Rightarrow> str \<times> c_int \<times> 'c option) \<Rightarrow> 'c option \<Rightarrow> str \<Rightarrow> str list \<Rightarrow> str list option" where
  "read_clauses clause cursor pending sentences =
     (case cursor of
        None \<Rightarrow> Some (sentences @ (if pending = [] then [] else [pending]))
      | Some c \<Rightarrow>
          (case clause c of
             (text, terminator, next_cursor) \<Rightarrow>
               if ends_sentence terminator
               then read_clauses clause next_cursor []
                      (sentences @ [pending @ text @ clause_break_suffix terminator])
               else read_clauses clause next_cursor
                      (pending @ text @ clause_break_suffix terminator) sentences))"

text \<open>\<^verbatim>\<open>find\<close> of a character: the text before it and the text from it on.\<close>

fun split_at_char :: "uchar \<Rightarrow> str \<Rightarrow> (str \<times> str) option" where
  "split_at_char d [] = None"
| "split_at_char d (c # s) =
     (if c = d then Some ([], c # s)
      else map_option (\<lambda>(a, b). (c # a, b)) (split_at_char d s))"

lemma split_at_char_Some:
  "split_at_char d s = Some (a, b) \<Longrightarrow> s = a @ b \<and> d \<notin> set a \<and> (\<exists>r. b = d # r)"
  by (induction s arbitrary: a) (auto split: if_splits)

lemma split_at_char_None: "split_at_char d s = None \<longleftrightarrow> d \<notin> set s"
  by (induction s) auto

definition open_paren :: uchar where "open_paren = 40"
definition close_paren :: uchar where "close_paren = 41"

function strip_language_switches :: "str \<Rightarrow> str" where
  "strip_language_switches rest =
     (case split_at_char open_paren rest of
        None \<Rightarrow> rest
      | Some (head, from_open) \<Rightarrow>
          (case split_at_char close_paren from_open of
             None \<Rightarrow> head @ from_open
           | Some (flag, from_close) \<Rightarrow> head @ strip_language_switches (drop 1 from_close)))"
  by pat_completeness auto
termination
  by (relation "measure length") (auto dest!: split_at_char_Some dest: arg_cong [where f = length])

declare strip_language_switches.simps [simp del]

definition strip_stress_markers :: "str \<Rightarrow> str" where
  "strip_stress_markers text = filter (\<lambda>c. c \<noteq> 712 \<and> c \<noteq> 716) text"

definition strip_matches :: "bool \<Rightarrow> str list \<Rightarrow> (str \<Rightarrow> str) \<Rightarrow> str list" where
  "strip_matches enabled sentences strip = (if enabled then map strip sentences else sentences)"

definition select_voice :: "'c espeak \<Rightarrow> str \<Rightarrow> espeak_error + unit" where
  "select_voice es language =
     (if 0 \<in> set language \<or> \<not> es_has_voice es language
      then Inl (ESpeakError (lit ''eSpeak-ng has no voice named '' @ quoted language))
      else Inr ())"

definition phonemize_line ::
  "'c espeak \<Rightarrow> str \<Rightarrow> uchar option \<Rightarrow> bool \<Rightarrow> bool \<Rightarrow> str \<Rightarrow> (espeak_error + str list) option" where
  "phonemize_line es language separator remove_flags remove_stress line =
     (case res_bind (es_init es) (\<lambda>_. select_voice es language) of
        Inl e \<Rightarrow> Some (Inl e)
      | Inr _ \<Rightarrow>
          if 0 \<in> set line
          then Some (Inl (ESpeakError (lit ''Input holds a NUL byte, which eSpeak-ng cannot read'')))
          else map_option (\<lambda>sentences. Inr (strip_matches remove_stress
                   (strip_matches remove_flags sentences strip_language_switches) strip_stress_markers))
                 (read_clauses (es_clause es (phoneme_mode separator)) (es_start es line) [] []))"

fun collect_lines ::
  "(str \<Rightarrow> (espeak_error + str list) option) \<Rightarrow> str list \<Rightarrow> (espeak_error + str list) option" where
  "collect_lines f [] = Some (Inr [])"
| "collect_lines f (l # ls) =
     Option.bind (f l) (\<lambda>r.
       case r of Inl e \<Rightarrow> Some (Inl e)
       | Inr ss \<Rightarrow> map_option (res_map (\<lambda>rest. ss @ rest)) (collect_lines f ls))"

definition text_to_phonemes ::
  "'c espeak \<Rightarrow> str \<Rightarrow> str \<Rightarrow> uchar option \<Rightarrow> bool \<Rightarrow> bool \<Rightarrow> (espeak_error + str list) option" where
  "text_to_phonemes es text language separator remove_flags remove_stress =
     collect_lines (phonemize_line es language separator remove_flags remove_stress) (text_lines text)"

subsection \<open>Clauses and sentences\<close>

text \<open>What the library answers from a position on, when it reaches the null pointer.\<close>

fun answers :: "('c \<Rightarrow> str \<times> c_int \<times> 'c option) \<Rightarrow> 'c option \<Rightarrow> (str \<times> c_int) list \<Rightarrow> bool" where
  "answers clause cursor [] \<longleftrightarrow> cursor = None"
| "answers clause cursor ((text, term) # script) \<longleftrightarrow>
     (\<exists>c next_cursor. cursor = Some c \<and> clause c = (text, term, next_cursor) \<and>
        answers clause next_cursor script)"

fun clause_text :: "str \<times> c_int \<Rightarrow> str" where
  "clause_text (t, k) = t @ clause_break_suffix k"

lemma read_clauses_script:
  "answers clause cursor script \<Longrightarrow>
     \<exists>out. read_clauses clause cursor pending sentences = Some (sentences @ out) \<and>
       concat out = pending @ concat (map clause_text script) \<and>
       length out \<le> length (filter (\<lambda>(t, k). ends_sentence k) script) + 1 \<and>
       length (filter (\<lambda>(t, k). ends_sentence k) script) \<le> length out"
proof (induction script arbitrary: cursor pending sentences)
  case Nil
  then show ?case by (subst read_clauses.simps) auto
next
  case (Cons cl script)
  obtain t k where cl: "cl = (t, k)" by (cases cl)
  with Cons.prems obtain c nx where c: "cursor = Some c" "clause c = (t, k, nx)"
    "answers clause nx script" by auto
  define p where "p = pending @ t @ clause_break_suffix k"
  show ?case
  proof (cases "ends_sentence k")
    case True
    from Cons.IH [OF c(3), of "[]" "sentences @ [p]"] obtain out
      where out: "read_clauses clause nx [] (sentences @ [p]) = Some ((sentences @ [p]) @ out)"
        "concat out = concat (map clause_text script)"
        "length out \<le> length (filter (\<lambda>(t, k). ends_sentence k) script) + 1"
        "length (filter (\<lambda>(t, k). ends_sentence k) script) \<le> length out" by auto
    have "read_clauses clause cursor pending sentences = Some (sentences @ p # out)"
      using c True out(1) by (subst read_clauses.simps) (simp add: p_def)
    with out True show ?thesis
      by (intro exI [of _ "p # out"]) (simp add: cl p_def)
  next
    case False
    from Cons.IH [OF c(3), of p sentences] obtain out
      where out: "read_clauses clause nx p sentences = Some (sentences @ out)"
        "concat out = p @ concat (map clause_text script)"
        "length out \<le> length (filter (\<lambda>(t, k). ends_sentence k) script) + 1"
        "length (filter (\<lambda>(t, k). ends_sentence k) script) \<le> length out" by auto
    have "read_clauses clause cursor pending sentences = Some (sentences @ out)"
      using c False out(1) by (subst read_clauses.simps) (simp add: p_def)
    with out False show ?thesis
      by (intro exI [of _ out]) (simp add: cl p_def)
  qed
qed

text \<open>
  \<^bold>\<open>C36\<close>: reading the clauses of a line ends when the library does, and loses nothing: the
  sentences concatenate to the clauses in order, each with the mark of its intonation, and there is
  one sentence per clause that ends one, plus at most a last unfinished one.
\<close>

theorem clauses_become_sentences:
  assumes "answers clause cursor script"
  shows "\<exists>out. read_clauses clause cursor [] [] = Some out \<and>
           concat out = concat (map clause_text script) \<and>
           length out \<le> length (filter (\<lambda>(t, k). ends_sentence k) script) + 1 \<and>
           length (filter (\<lambda>(t, k). ends_sentence k) script) \<le> length out"
  using read_clauses_script [OF assms, of "[]" "[]"] by auto

definition demo_clause :: "nat \<Rightarrow> str \<times> c_int \<times> nat option" where
  "demo_clause n =
     (if n = 0 then (lit ''a'', 0x00001000, Some 1)
      else if n = 1 then (lit ''b'', 0x00080000, Some 2)
      else (lit ''c'', 0x00002000, None))"

theorem clauses_become_sentences_witness:
  "\<exists>out. read_clauses demo_clause (Some 0) [] [] = Some out \<and> concat out = lit ''a,b.c?''"
  using clauses_become_sentences [of demo_clause "Some 0"
      "[(lit ''a'', 0x00001000), (lit ''b'', 0x00080000), (lit ''c'', 0x00002000)]"]
  by (auto simp: demo_clause_def clause_break_suffix_def
      CLAUSE_INTONATION_FULL_STOP_def CLAUSE_INTONATION_COMMA_def CLAUSE_INTONATION_QUESTION_def)

subsection \<open>Stripped annotations\<close>

definition no_flag :: "str \<Rightarrow> bool" where
  "no_flag s \<longleftrightarrow>
     (case split_at_char open_paren s of
        None \<Rightarrow> True
      | Some (_, from_open) \<Rightarrow> close_paren \<notin> set from_open)"

lemma split_at_char_append:
  "d \<notin> set a \<Longrightarrow> split_at_char d (a @ s) = map_option (\<lambda>(h, f). (a @ h, f)) (split_at_char d s)"
  by (cases "split_at_char d s"; induction a) auto

lemma no_flag_append: "open_paren \<notin> set a \<Longrightarrow> no_flag (a @ s) \<longleftrightarrow> no_flag s"
  by (auto simp: no_flag_def split_at_char_append split: option.splits)

lemma strip_no_flag: "no_flag (strip_language_switches s)"
proof (induction s rule: strip_language_switches.induct)
  case (1 s)
  show ?case
  proof (cases "split_at_char open_paren s")
    case None
    then show ?thesis by (simp add: strip_language_switches.simps [of s] no_flag_def)
  next
    case (Some p)
    obtain h f where p: "p = (h, f)" by (cases p)
    from Some p have h: "open_paren \<notin> set h" "s = h @ f" "\<exists>r. f = open_paren # r"
      by (auto dest: split_at_char_Some)
    show ?thesis
    proof (cases "split_at_char close_paren f")
      case None
      then have "no_flag f" using h(3) by (auto simp: no_flag_def split_at_char_None)
      moreover have "strip_language_switches s = h @ f"
        using None Some p by (simp add: strip_language_switches.simps [of s])
      ultimately show ?thesis using h(1) by (simp add: no_flag_append)
    next
      case (Some q)
      obtain g k where q: "q = (g, k)" by (cases q)
      have "no_flag (strip_language_switches (drop 1 k))"
        using 1 \<open>split_at_char open_paren s = Some p\<close> Some p q by simp
      moreover have "strip_language_switches s = h @ strip_language_switches (drop 1 k)"
        using Some \<open>split_at_char open_paren s = Some p\<close> p q
        by (simp add: strip_language_switches.simps [of s])
      ultimately show ?thesis using h(1) by (simp add: no_flag_append)
    qed
  qed
qed

lemma strip_fixed: "no_flag s \<Longrightarrow> strip_language_switches s = s"
  by (subst strip_language_switches.simps)
     (auto simp: no_flag_def split_at_char_None [symmetric] dest: split_at_char_Some
       split: option.splits)

lemma strip_subseq: "subseq (strip_language_switches s) s"
proof (induction s rule: strip_language_switches.induct)
  case (1 s)
  show ?case
  proof (cases "split_at_char open_paren s")
    case None
    then show ?thesis by (simp add: strip_language_switches.simps [of s])
  next
    case (Some p)
    obtain h f where p: "p = (h, f)" by (cases p)
    from Some p have h: "s = h @ f" by (auto dest: split_at_char_Some)
    show ?thesis
    proof (cases "split_at_char close_paren f")
      case None
      have "strip_language_switches s = h @ f"
        using None Some p by (simp add: strip_language_switches.simps [of s])
      with h show ?thesis by simp
    next
      case (Some q)
      obtain g k where q: "q = (g, k)" by (cases q)
      then have f: "f = g @ k" using Some by (auto dest: split_at_char_Some)
      have "subseq (strip_language_switches (drop 1 k)) (drop 1 k)"
        using 1 \<open>split_at_char open_paren s = Some p\<close> Some p q by simp
      moreover have "subseq (drop 1 k) f"
        unfolding f by (rule subseq_order.trans [of _ k]) (auto intro: list_emb_append2 suffix_imp_subseq suffix_drop)
      ultimately have "subseq (strip_language_switches (drop 1 k)) f" by (rule subseq_order.trans)
      moreover have "strip_language_switches s = h @ strip_language_switches (drop 1 k)"
        using Some \<open>split_at_char open_paren s = Some p\<close> p q
        by (simp add: strip_language_switches.simps [of s])
      ultimately have "subseq (strip_language_switches s) (h @ f)"
        by (simp only: subseq_append')
      then show ?thesis by (simp only: h)
    qed
  qed
qed

text \<open>
  Stripping language switches leaves no closed parenthesis behind, only ever deletes
  characters, and leaves a text without closed parentheses, an unclosed one included, as it is.
\<close>

theorem strip_language_switches_correct:
  "no_flag (strip_language_switches s) \<and> subseq (strip_language_switches s) s \<and>
   strip_language_switches (strip_language_switches s) = strip_language_switches s"
  by (simp add: strip_no_flag strip_fixed strip_subseq)

lemma strip_example: "strip_language_switches (lit ''a(en)b(fr)c(d'') = lit ''abc(d''"
  by (simp add: strip_language_switches.simps open_paren_def close_paren_def)

text \<open>A NUL byte in the text is refused on every line that holds one.\<close>

lemma nul_is_refused:
  "es_init es = Inr () \<Longrightarrow> select_voice es language = Inr () \<Longrightarrow> 0 \<in> set line \<Longrightarrow>
     \<exists>e. phonemize_line es language separator rf rs line = Some (Inl e)"
  by (simp add: phonemize_line_def)

end
