(* ===== verification/EspeakShared.thy ===== *)
theory EspeakShared
  imports Espeak Paths
begin

section \<open>The eSpeak library shared by threads\<close>

text \<open>
  eSpeak-ng is one library per process with one current voice. \<open>Espeak\<close> models a call of
  \<^verbatim>\<open>text_to_phonemes\<close> on its own; here any number of threads call it at once. What keeps them apart is
  in \<^verbatim>\<open>crates/text/espeak-phonemizer/src/lib.rs\<close>: \<^verbatim>\<open>ESPEAK_LOCK\<close>, taken for every line, and
  \<^verbatim>\<open>ESPEAKNG_INIT\<close>, the initialization that the first caller makes for all. One step of a thread is
  what it does between two points where others can see it. The library's translator answers for the
  voice that is current at that moment, and a voice that it refused may leave any voice current.
\<close>

subsection \<open>Initialization\<close>

definition DENGJEN_ESPEAKNG_DATA_DIRECTORY :: str where
  "DENGJEN_ESPEAKNG_DATA_DIRECTORY = lit ''DENGJEN_ESPEAKNG_DATA_DIRECTORY''"

definition ESPEAKNG_INIT_FAILURE_MARKER :: str where
  "ESPEAKNG_INIT_FAILURE_MARKER = lit ''Failed to initialize eSpeak-ng''"

text \<open>What initialization reads of the process: its environment, its executable and the disk.\<close>

record process_env =
  pr_var :: "str \<Rightarrow> str option"
  pr_current_exe :: "path option"
  pr_exists :: "path \<Rightarrow> bool"

text \<open>\<^verbatim>\<open>Path::parent\<close>, which the root and the empty path do not have.\<close>

definition path_parent :: "path \<Rightarrow> path option" where
  "path_parent p = (if list_all (\<lambda>c. c = slash) p then None else Some (parent_path p))"

definition resolve_data_directory :: "process_env \<Rightarrow> path option" where
  "resolve_data_directory pr =
     Option.bind
       (case pr_var pr DENGJEN_ESPEAKNG_DATA_DIRECTORY of
          Some configured \<Rightarrow> Some configured
        | None \<Rightarrow> Option.bind (pr_current_exe pr) path_parent)
       (\<lambda>base.
          if \<not> pr_exists pr (path_join base (lit ''espeak-ng-data'')) then None
          else if 0 \<in> set base then None else Some base)"

record 'c espeak_library =
  el_initialize :: "path option \<Rightarrow> int"
  el_set_voice :: "str \<Rightarrow> bool"
  el_start :: "str \<Rightarrow> 'c option"
  el_clause :: "str \<Rightarrow> c_int \<Rightarrow> 'c \<Rightarrow> str \<times> c_int \<times> 'c option"

definition init_espeakng :: "'c espeak_library \<Rightarrow> process_env \<Rightarrow> espeak_error + unit" where
  "init_espeakng el pr =
     (case el_initialize el (resolve_data_directory pr) of sample_hz \<Rightarrow>
        if 0 < sample_hz then Inr ()
        else Inl (ESpeakError (ESPEAKNG_INIT_FAILURE_MARKER @ lit '', error code '' @ quoted (show_int sample_hz) @
          lit ''. If its data files are installed somewhere non-standard, point '' @
          quoted DENGJEN_ESPEAKNG_DATA_DIRECTORY @ lit '' at the directory that holds '' @
          quoted (lit ''espeak-ng-data'') @ lit ''.'')))"

text \<open>\<^verbatim>\<open>Lazy::force\<close>: the answer of the first caller is everyone's.\<close>

definition force_init ::
  "(espeak_error + unit) \<Rightarrow> (espeak_error + unit) option \<Rightarrow> espeak_error + unit" where
  "force_init answer cell = unwrap_or answer cell"

subsection \<open>Calls in progress\<close>

datatype 'c call_point =
    AtLine
  | Locked
  | InitDone
  | VoiceSet
  | Reading "'c option" str "str list"
  | Answered "espeak_error + str list"

record 'c espeak_call =
  el_text :: str
  el_language :: str
  el_separator :: "uchar option"
  el_remove_flags :: bool
  el_remove_stress :: bool
  el_todo :: "str list"
  el_done :: "str list"
  el_point :: "'c call_point"

record 'c espeak_shared =
  sh_lock :: "nat option"
  sh_init :: "(espeak_error + unit) option"
  sh_voice :: str
  sh_calls :: "nat \<Rightarrow> 'c espeak_call"

definition move :: "nat \<Rightarrow> 'c espeak_call \<Rightarrow> 'c espeak_shared \<Rightarrow> 'c espeak_shared" where
  "move t c s = s\<lparr>sh_calls := (sh_calls s)(t := c)\<rparr>"

text \<open>Returning from \<^verbatim>\<open>phonemize_line\<close> drops the guard of the lock.\<close>

definition leave_with ::
  "nat \<Rightarrow> 'c espeak_call \<Rightarrow> espeak_error \<Rightarrow> 'c espeak_shared \<Rightarrow> 'c espeak_shared" where
  "leave_with t c e s = move t (c\<lparr>el_point := Answered (Inl e)\<rparr>) (s\<lparr>sh_lock := None\<rparr>)"

definition no_such_voice :: "str \<Rightarrow> espeak_error" where
  "no_such_voice language = ESpeakError (lit ''eSpeak-ng has no voice named '' @ quoted language)"

definition nul_in_input :: espeak_error where
  "nul_in_input = ESpeakError (lit ''Input holds a NUL byte, which eSpeak-ng cannot read'')"

definition can_act :: "nat \<Rightarrow> 'c espeak_shared \<Rightarrow> bool" where
  "can_act t s =
     (case sh_calls s t of c \<Rightarrow>
        (case el_point c of
           Answered _ \<Rightarrow> False
         | AtLine \<Rightarrow> el_todo c = [] \<or> sh_lock s = None
         | _ \<Rightarrow> True))"

text \<open>
  One step of thread \<open>t\<close>; \<open>answer\<close> is what initialization would answer now, \<open>stray\<close> the voice that a
  refused name leaves current.
\<close>

definition call_step ::
  "'c espeak_library \<Rightarrow> (espeak_error + unit) \<Rightarrow> str \<Rightarrow> nat \<Rightarrow> 'c espeak_shared \<Rightarrow> 'c espeak_shared" where
  "call_step el answer stray t s =
     (case sh_calls s t of c \<Rightarrow>
        (case el_point c of
           AtLine \<Rightarrow>
             (if el_todo c = [] then move t (c\<lparr>el_point := Answered (Inr (el_done c))\<rparr>) s
              else move t (c\<lparr>el_point := Locked\<rparr>) (s\<lparr>sh_lock := Some t\<rparr>))
         | Locked \<Rightarrow>
             (case force_init answer (sh_init s) of r \<Rightarrow>
                (case r of
                   Inl e \<Rightarrow> leave_with t c e (s\<lparr>sh_init := Some r\<rparr>)
                 | Inr _ \<Rightarrow> move t (c\<lparr>el_point := InitDone\<rparr>) (s\<lparr>sh_init := Some r\<rparr>)))
         | InitDone \<Rightarrow>
             (if 0 \<in> set (el_language c) then leave_with t c (no_such_voice (el_language c)) s
              else if el_set_voice el (el_language c)
              then move t (c\<lparr>el_point := VoiceSet\<rparr>) (s\<lparr>sh_voice := el_language c\<rparr>)
              else leave_with t c (no_such_voice (el_language c)) (s\<lparr>sh_voice := stray\<rparr>))
         | VoiceSet \<Rightarrow>
             (if 0 \<in> set (hd (el_todo c)) then leave_with t c nul_in_input s
              else move t (c\<lparr>el_point := Reading (el_start el (hd (el_todo c))) [] []\<rparr>) s)
         | Reading None pending sentences \<Rightarrow>
             move t (c\<lparr>el_todo := tl (el_todo c),
                       el_done := el_done c @
                         strip_matches (el_remove_stress c)
                           (strip_matches (el_remove_flags c)
                              (sentences @ (if pending = [] then [] else [pending])) strip_language_switches)
                           strip_stress_markers,
                       el_point := AtLine\<rparr>) (s\<lparr>sh_lock := None\<rparr>)
         | Reading (Some cursor) pending sentences \<Rightarrow>
             (case el_clause el (sh_voice s) (phoneme_mode (el_separator c)) cursor of
                (phonemes, terminator, next_cursor) \<Rightarrow>
                  (case pending @ phonemes @ clause_break_suffix terminator of clause \<Rightarrow>
                     if ends_sentence terminator
                     then move t (c\<lparr>el_point := Reading next_cursor [] (sentences @ [clause])\<rparr>) s
                     else move t (c\<lparr>el_point := Reading next_cursor clause sentences\<rparr>) s))
         | Answered _ \<Rightarrow> s))"

inductive espeak_step :: "'c espeak_library \<Rightarrow> 'c espeak_shared \<Rightarrow> 'c espeak_shared \<Rightarrow> bool" for el where
  act: "can_act t s \<Longrightarrow> espeak_step el s (call_step el (init_espeakng el pr) stray t s)"

inductive espeak_reach :: "'c espeak_library \<Rightarrow> 'c espeak_shared \<Rightarrow> 'c espeak_shared \<Rightarrow> bool" for el s0 where
  at_start: "espeak_reach el s0 s0"
| one_more: "espeak_reach el s0 s \<Longrightarrow> espeak_step el s s' \<Longrightarrow> espeak_reach el s0 s'"

text \<open>Every thread with its request, before any of them began.\<close>

definition requested :: "'c espeak_call \<Rightarrow> bool" where
  "requested c \<longleftrightarrow> el_todo c = text_lines (el_text c) \<and> el_done c = [] \<and> el_point c = AtLine"

definition espeak_start :: "'c espeak_shared \<Rightarrow> bool" where
  "espeak_start s \<longleftrightarrow> sh_lock s = None \<and> sh_init s = None \<and> (\<forall>t. requested (sh_calls s t))"

text \<open>The library as one call sees it that has it to itself.\<close>

definition espeak_alone :: "'c espeak_library \<Rightarrow> (espeak_error + unit) \<Rightarrow> str \<Rightarrow> 'c espeak" where
  "espeak_alone el r language =
     \<lparr>es_init = r, es_has_voice = el_set_voice el, es_start = el_start el, es_clause = el_clause el language\<rparr>"

definition call_alone ::
  "'c espeak_library \<Rightarrow> (espeak_error + unit) \<Rightarrow> 'c espeak_call \<Rightarrow> (espeak_error + str list) option" where
  "call_alone el r c =
     text_to_phonemes (espeak_alone el r (el_language c)) (el_text c) (el_language c) (el_separator c)
       (el_remove_flags c) (el_remove_stress c)"

subsection \<open>Every call is as if alone\<close>

text \<open>What the sequential code would still answer, from the point where a call stands.\<close>

definition line_alone ::
  "'c espeak_library \<Rightarrow> (espeak_error + unit) \<Rightarrow> 'c espeak_call \<Rightarrow> str \<Rightarrow> (espeak_error + str list) option" where
  "line_alone el r c =
     phonemize_line (espeak_alone el r (el_language c)) (el_language c) (el_separator c) (el_remove_flags c)
       (el_remove_stress c)"

definition after_done :: "'c espeak_call \<Rightarrow> (espeak_error + str list) option \<Rightarrow> (espeak_error + str list) option" where
  "after_done c = map_option (res_map (\<lambda>rest. el_done c @ rest))"

definition finish_line :: "'c espeak_call \<Rightarrow> str list \<Rightarrow> espeak_error + str list" where
  "finish_line c sentences =
     Inr (strip_matches (el_remove_stress c)
       (strip_matches (el_remove_flags c) sentences strip_language_switches) strip_stress_markers)"

definition still_answers ::
  "'c espeak_library \<Rightarrow> (espeak_error + unit) \<Rightarrow> 'c espeak_call \<Rightarrow> (espeak_error + str list) option" where
  "still_answers el r c =
     (case el_point c of
        Answered a \<Rightarrow> Some a
      | Reading cursor pending sentences \<Rightarrow>
          after_done c
            (Option.bind
              (map_option (finish_line c)
                (read_clauses (el_clause el (el_language c) (phoneme_mode (el_separator c))) cursor pending sentences))
              (\<lambda>a. case a of Inl e \<Rightarrow> Some (Inl e)
                 | Inr ss \<Rightarrow> map_option (res_map (\<lambda>rest. ss @ rest)) (collect_lines (line_alone el r c) (tl (el_todo c)))))
      | _ \<Rightarrow> after_done c (collect_lines (line_alone el r c) (el_todo c)))"

text \<open>Where a call stands and what it needs of the shared state there.\<close>

definition inside :: "'c call_point \<Rightarrow> bool" where
  "inside p = (case p of AtLine \<Rightarrow> False | Answered _ \<Rightarrow> False | _ \<Rightarrow> True)"

definition stands :: "'c espeak_library \<Rightarrow> 'c espeak_shared \<Rightarrow> 'c espeak_call \<Rightarrow> bool" where
  "stands el s c =
     (case el_point c of
        AtLine \<Rightarrow> True
      | Answered _ \<Rightarrow> True
      | Locked \<Rightarrow> el_todo c \<noteq> []
      | InitDone \<Rightarrow> el_todo c \<noteq> [] \<and> sh_init s = Some (Inr ())
      | VoiceSet \<Rightarrow> el_todo c \<noteq> [] \<and> sh_init s = Some (Inr ()) \<and> 0 \<notin> set (el_language c) \<and>
          el_set_voice el (el_language c) \<and> sh_voice s = el_language c
      | Reading _ _ _ \<Rightarrow> el_todo c \<noteq> [] \<and> sh_init s = Some (Inr ()) \<and> sh_voice s = el_language c)"

definition espeak_inv :: "'c espeak_library \<Rightarrow> 'c espeak_shared \<Rightarrow> bool" where
  "espeak_inv el s \<longleftrightarrow>
     (\<forall>t. inside (el_point (sh_calls s t)) = (sh_lock s = Some t)) \<and>
     (\<forall>t. stands el s (sh_calls s t)) \<and>
     (\<forall>r t. sh_init s = None \<or> sh_init s = Some r \<longrightarrow>
        still_answers el r (sh_calls s t) = call_alone el r (sh_calls s t))"


lemma after_done_simps [simp]:
  "after_done c (Some (Inl e)) = Some (Inl e)" "after_done c (Some (Inr ss)) = Some (Inr (el_done c @ ss))"
  "after_done c None = None"
  by (simp_all add: after_done_def)

lemma after_done_line:
  assumes "el_done c' = el_done c @ ss"
  shows "after_done c (map_option (res_map (\<lambda>rest. ss @ rest)) x) = after_done c' x"
proof (cases x)
  case (Some a)
  with assms show ?thesis by (cases a) simp_all
qed simp

text \<open>A line in the sequential code, at the points where a call takes a step.\<close>

lemma lines_alone:
  assumes "ls \<noteq> []"
  shows "collect_lines (line_alone el (Inl e) c) ls = Some (Inl e)"
    and "0 \<in> set (el_language c) \<or> \<not> el_set_voice el (el_language c) \<Longrightarrow>
     collect_lines (line_alone el (Inr ()) c) ls = Some (Inl (no_such_voice (el_language c)))"
    and "0 \<notin> set (el_language c) \<Longrightarrow> el_set_voice el (el_language c) \<Longrightarrow> 0 \<in> set (hd ls) \<Longrightarrow>
     collect_lines (line_alone el (Inr ()) c) ls = Some (Inl nul_in_input)"
  using assms
  by (cases ls; auto simp: line_alone_def phonemize_line_def espeak_alone_def select_voice_def no_such_voice_def
      nul_in_input_def)+

lemma line_read_alone:
  assumes "0 \<notin> set (el_language c)" "el_set_voice el (el_language c)" "0 \<notin> set l"
  shows "line_alone el (Inr ()) c l =
    map_option (finish_line c)
      (read_clauses (el_clause el (el_language c) (phoneme_mode (el_separator c))) (el_start el l) [] [])"
  using assms
  by (simp add: line_alone_def phonemize_line_def espeak_alone_def select_voice_def finish_line_def
      cong: option.map_cong)

lemma line_alone_cong:
  "el_language c' = el_language c \<Longrightarrow> el_separator c' = el_separator c \<Longrightarrow>
   el_remove_flags c' = el_remove_flags c \<Longrightarrow> el_remove_stress c' = el_remove_stress c \<Longrightarrow>
     line_alone el r c' = line_alone el r c \<and> finish_line c' = finish_line c"
  by (auto simp: line_alone_def finish_line_def fun_eq_iff)

lemma call_alone_cong:
  "el_language c' = el_language c \<Longrightarrow> el_separator c' = el_separator c \<Longrightarrow> el_text c' = el_text c \<Longrightarrow>
   el_remove_flags c' = el_remove_flags c \<Longrightarrow> el_remove_stress c' = el_remove_stress c \<Longrightarrow>
     call_alone el r c' = call_alone el r c"
  by (simp add: call_alone_def)

text \<open>
  What a step of thread \<open>t\<close> does to its own call and to the shared state, as one conclusion: the call
  still answers what it did, it stands where it may, and the lock is held exactly inside.
\<close>

definition step_ok ::
  "'c espeak_library \<Rightarrow> nat \<Rightarrow> 'c espeak_shared \<Rightarrow> 'c espeak_shared \<Rightarrow> bool" where
  "step_ok el t s s' \<longleftrightarrow>
     (\<exists>c'. sh_calls s' = (sh_calls s)(t := c') \<and> stands el s' c' \<and>
        (inside (el_point c') \<longleftrightarrow> sh_lock s' = Some t) \<and> (\<not> inside (el_point c') \<longrightarrow> sh_lock s' = None \<or> sh_lock s' = sh_lock s) \<and>
        (\<forall>r. sh_init s' = None \<or> sh_init s' = Some r \<longrightarrow>
           still_answers el r c' = still_answers el r (sh_calls s t) \<and> call_alone el r c' = call_alone el r (sh_calls s t))) \<and>
     (sh_init s = None \<or> sh_init s' = sh_init s)"

lemma step_okI:
  assumes "sh_calls s' = (sh_calls s)(t := c')" "stands el s' c'"
    "inside (el_point c') \<longleftrightarrow> sh_lock s' = Some t"
    "\<not> inside (el_point c') \<Longrightarrow> sh_lock s' = None \<or> sh_lock s' = sh_lock s"
    "\<And>r. sh_init s' = None \<or> sh_init s' = Some r \<Longrightarrow> still_answers el r c' = still_answers el r (sh_calls s t)"
    "\<And>r. call_alone el r c' = call_alone el r (sh_calls s t)"
    "sh_init s = None \<or> sh_init s' = sh_init s"
  shows "step_ok el t s s'"
  using assms unfolding step_ok_def by blast

lemmas call_points = still_answers_def stands_def inside_def move_def leave_with_def

lemma step_at_line:
  assumes "el_point (sh_calls s t) = AtLine" "can_act t s" "sh_lock s \<noteq> Some t"
  shows "step_ok el t s (call_step el answer stray t s)"
proof (cases "el_todo (sh_calls s t) = []")
  case True
  let ?c = "sh_calls s t"
  have "call_step el answer stray t s = move t (?c\<lparr>el_point := Answered (Inr (el_done ?c))\<rparr>) s"
    using assms True by (simp add: call_step_def)
  then show ?thesis
    using assms True
    by (intro step_okI [of _ _ _ "?c\<lparr>el_point := Answered (Inr (el_done ?c))\<rparr>"])
      (auto simp: call_points call_alone_def)
next
  case False
  let ?c = "sh_calls s t"
  have "call_step el answer stray t s = move t (?c\<lparr>el_point := Locked\<rparr>) (s\<lparr>sh_lock := Some t\<rparr>)"
    using assms False by (simp add: call_step_def)
  then show ?thesis
    using assms False line_alone_cong [of "?c\<lparr>el_point := Locked\<rparr>" ?c]
    by (intro step_okI [of _ _ _ "?c\<lparr>el_point := Locked\<rparr>"]) (auto simp: call_points call_alone_def after_done_def)
qed

lemma after_done_cong: "el_done c' = el_done c \<Longrightarrow> after_done c' = after_done c"
  by (simp add: after_done_def fun_eq_iff)

lemma stands_cong: "sh_init s' = sh_init s \<Longrightarrow> sh_voice s' = sh_voice s \<Longrightarrow> stands el s' c = stands el s c"
  by (simp add: stands_def cong: call_point.case_cong)

lemma move_simps [simp]:
  "sh_calls (move t c s) = (sh_calls s)(t := c)" "sh_lock (move t c s) = sh_lock s"
  "sh_init (move t c s) = sh_init s" "sh_voice (move t c s) = sh_voice s" "stands el (move t c s) d = stands el s d"
  by (simp_all add: move_def stands_cong [of "s\<lparr>sh_calls := (sh_calls s)(t := c)\<rparr>" s])

text \<open>Moving on within a line, or leaving it with the error that the line answers.\<close>

lemma step_moves_on:
  assumes "call_step el answer stray t s = move t (c\<lparr>el_point := p\<rparr>) s'" "c = sh_calls s t"
    "sh_calls s' = sh_calls s" "sh_lock s' = Some t" "inside p" "stands el s' (c\<lparr>el_point := p\<rparr>)"
    "\<And>r. sh_init s' = None \<or> sh_init s' = Some r \<Longrightarrow> still_answers el r (c\<lparr>el_point := p\<rparr>) = still_answers el r c"
    "sh_init s = None \<or> sh_init s' = sh_init s"
  shows "step_ok el t s (call_step el answer stray t s)"
  unfolding assms(1)
  using assms(2-8) by (intro step_okI [of _ _ _ "c\<lparr>el_point := p\<rparr>"]) (auto simp: call_alone_def)

lemma step_leaves:
  assumes "call_step el answer stray t s = leave_with t c e s'" "c = sh_calls s t" "sh_calls s' = sh_calls s"
    "\<And>r. sh_init s' = None \<or> sh_init s' = Some r \<Longrightarrow> still_answers el r c = Some (Inl e)"
    "sh_init s = None \<or> sh_init s' = sh_init s"
  shows "step_ok el t s (call_step el answer stray t s)"
proof -
  have "still_answers el r (c\<lparr>el_point := Answered (Inl e)\<rparr>) = Some (Inl e)" for r by (simp add: still_answers_def)
  then show ?thesis
    unfolding assms(1)
    using assms(2-5) by (intro step_okI [of _ _ _ "c\<lparr>el_point := Answered (Inl e)\<rparr>"])
      (auto simp: leave_with_def call_alone_def stands_def inside_def)
qed

lemma step_locked:
  assumes "el_point (sh_calls s t) = Locked" "sh_lock s = Some t" "stands el s (sh_calls s t)"
  shows "step_ok el t s (call_step el answer stray t s)"
proof -
  let ?c = "sh_calls s t" and ?r = "force_init answer (sh_init s)"
  have todo: "el_todo ?c \<noteq> []" using assms by (simp add: stands_def)
  have kept: "sh_init s = None \<or> Some ?r = sh_init s" by (cases "sh_init s") (simp_all add: force_init_def unwrap_or_def)
  show ?thesis
  proof (cases ?r)
    case (Inl e)
    show ?thesis
      by (rule step_leaves [where c = ?c and e = e and s' = "s\<lparr>sh_init := Some ?r\<rparr>"])
        (use assms Inl todo kept in \<open>auto simp: call_step_def still_answers_def lines_alone\<close>)
  next
    case (Inr u)
    show ?thesis
      by (rule step_moves_on [where c = ?c and p = InitDone and s' = "s\<lparr>sh_init := Some ?r\<rparr>"])
        (use assms Inr todo kept line_alone_cong [of "?c\<lparr>el_point := InitDone\<rparr>" ?c]
          after_done_cong [of "?c\<lparr>el_point := InitDone\<rparr>" ?c] in
          \<open>auto simp: call_step_def still_answers_def stands_def inside_def\<close>)
  qed
qed

lemma step_init_done:
  assumes "el_point (sh_calls s t) = InitDone" "sh_lock s = Some t" "stands el s (sh_calls s t)"
  shows "step_ok el t s (call_step el answer stray t s)"
proof -
  let ?c = "sh_calls s t"
  have st: "el_todo ?c \<noteq> []" "sh_init s = Some (Inr ())" using assms by (simp_all add: stands_def)
  consider (nul) "0 \<in> set (el_language ?c)"
    | (known) "0 \<notin> set (el_language ?c)" "el_set_voice el (el_language ?c)"
    | (unknown) "0 \<notin> set (el_language ?c)" "\<not> el_set_voice el (el_language ?c)" by blast
  then show ?thesis
  proof cases
    case nul
    show ?thesis
      by (rule step_leaves [where c = ?c and e = "no_such_voice (el_language ?c)" and s' = s])
        (use assms nul st in \<open>auto simp: call_step_def still_answers_def lines_alone\<close>)
  next
    case known
    show ?thesis
      by (rule step_moves_on [where c = ?c and p = VoiceSet and s' = "s\<lparr>sh_voice := el_language ?c\<rparr>"])
        (use assms known st line_alone_cong [of "?c\<lparr>el_point := VoiceSet\<rparr>" ?c]
          after_done_cong [of "?c\<lparr>el_point := VoiceSet\<rparr>" ?c] in
          \<open>auto simp: call_step_def still_answers_def stands_def inside_def\<close>)
  next
    case unknown
    show ?thesis
      by (rule step_leaves [where c = ?c and e = "no_such_voice (el_language ?c)" and s' = "s\<lparr>sh_voice := stray\<rparr>"])
        (use assms unknown st in \<open>auto simp: call_step_def still_answers_def lines_alone\<close>)
  qed
qed

lemma step_voice_set:
  assumes "el_point (sh_calls s t) = VoiceSet" "sh_lock s = Some t" "stands el s (sh_calls s t)"
  shows "step_ok el t s (call_step el answer stray t s)"
proof -
  let ?c = "sh_calls s t"
  have st: "el_todo ?c \<noteq> []" "sh_init s = Some (Inr ())" "0 \<notin> set (el_language ?c)"
    "el_set_voice el (el_language ?c)" "sh_voice s = el_language ?c" using assms by (simp_all add: stands_def)
  show ?thesis
  proof (cases "0 \<in> set (hd (el_todo ?c))")
    case True
    show ?thesis
      by (rule step_leaves [where c = ?c and e = nul_in_input and s' = s])
        (use assms True st in \<open>auto simp: call_step_def still_answers_def lines_alone\<close>)
  next
    case False
    let ?p = "Reading (el_start el (hd (el_todo ?c))) [] []"
    obtain l ls where todo: "el_todo ?c = l # ls" using st(1) by (cases "el_todo ?c") auto
    have "still_answers el (Inr ()) (?c\<lparr>el_point := ?p\<rparr>) = still_answers el (Inr ()) ?c"
      using False todo assms(1) line_read_alone [OF st(3,4), of l] line_alone_cong [of "?c\<lparr>el_point := ?p\<rparr>" ?c]
        after_done_cong [of "?c\<lparr>el_point := ?p\<rparr>" ?c]
      by (simp add: still_answers_def)
    then show ?thesis
      by (intro step_moves_on [where c = ?c and p = ?p and s' = s])
        (use assms False st in \<open>auto simp: call_step_def stands_def inside_def\<close>)
  qed
qed

lemma step_reading:
  assumes "el_point (sh_calls s t) = Reading cursor pending sentences" "sh_lock s = Some t" "stands el s (sh_calls s t)"
  shows "step_ok el t s (call_step el answer stray t s)"
proof -
  let ?c = "sh_calls s t" and ?clause = "el_clause el (el_language (sh_calls s t)) (phoneme_mode (el_separator (sh_calls s t)))"
  have st: "el_todo ?c \<noteq> []" "sh_init s = Some (Inr ())" "sh_voice s = el_language ?c"
    using assms by (simp_all add: stands_def)
  show ?thesis
  proof (cases cursor)
    case None
    let ?ss = "strip_matches (el_remove_stress ?c)
                 (strip_matches (el_remove_flags ?c) (sentences @ (if pending = [] then [] else [pending])) strip_language_switches)
                 strip_stress_markers"
    let ?c' = "?c\<lparr>el_todo := tl (el_todo ?c), el_done := el_done ?c @ ?ss, el_point := AtLine\<rparr>"
    have "still_answers el r ?c' = still_answers el r ?c" for r
      using assms(1) None line_alone_cong [of ?c' ?c] after_done_line [of ?c' ?c ?ss]
      by (subst (2) still_answers_def) (simp add: still_answers_def read_clauses.simps finish_line_def)
    moreover have "call_step el answer stray t s = move t ?c' (s\<lparr>sh_lock := None\<rparr>)"
      using assms None by (simp add: call_step_def)
    ultimately show ?thesis
      by (intro step_okI [of _ _ _ ?c']) (auto simp: stands_def inside_def call_alone_def)
  next
    case (Some k)
    obtain ph tm nx where clause: "?clause k = (ph, tm, nx)" by (cases "?clause k")
    let ?cl = "pending @ ph @ clause_break_suffix tm"
    define p where "p = (if ends_sentence tm then Reading nx [] (sentences @ [?cl]) else Reading nx ?cl sentences)"
    have "still_answers el r (?c\<lparr>el_point := p\<rparr>) = still_answers el r ?c" for r
      using assms(1) Some clause line_alone_cong [of "?c\<lparr>el_point := p\<rparr>" ?c] after_done_cong [of "?c\<lparr>el_point := p\<rparr>" ?c]
      by (subst (2) still_answers_def) (auto simp: p_def still_answers_def read_clauses.simps [of _ "Some k"])
    moreover have "call_step el answer stray t s = move t (?c\<lparr>el_point := p\<rparr>) s"
      using assms(1) Some clause st(3) by (simp add: call_step_def p_def)
    ultimately show ?thesis
      using st assms(2) by (intro step_moves_on [where c = ?c and p = p and s' = s]) (auto simp: p_def stands_def inside_def)
  qed
qed

lemma call_step_ok:
  assumes "espeak_inv el s" "can_act t s"
  shows "step_ok el t s (call_step el answer stray t s)"
proof -
  from assms(1) have inv: "inside (el_point (sh_calls s t)) = (sh_lock s = Some t)" "stands el s (sh_calls s t)"
    by (simp_all add: espeak_inv_def)
  show ?thesis
  proof (cases "el_point (sh_calls s t)")
    case AtLine
    with inv(1) have "sh_lock s \<noteq> Some t" by (simp add: inside_def)
    with AtLine assms(2) show ?thesis by (rule step_at_line)
  next
    case (Answered r)
    with assms(2) show ?thesis by (simp add: can_act_def)
  qed (use inv in \<open>auto simp: inside_def intro: step_locked step_init_done step_voice_set step_reading\<close>)
qed

lemma espeak_inv_step:
  assumes inv: "espeak_inv el s" and t: "can_act t s"
  shows "espeak_inv el (call_step el answer stray t s)"
proof -
  let ?s = "call_step el answer stray t s"
  from call_step_ok [OF inv t, of answer stray] obtain c' where c':
    "sh_calls ?s = (sh_calls s)(t := c')" "stands el ?s c'" "inside (el_point c') \<longleftrightarrow> sh_lock ?s = Some t"
    "\<not> inside (el_point c') \<longrightarrow> sh_lock ?s = None \<or> sh_lock ?s = sh_lock s"
    "\<And>r. sh_init ?s = None \<or> sh_init ?s = Some r \<Longrightarrow>
       still_answers el r c' = still_answers el r (sh_calls s t) \<and> call_alone el r c' = call_alone el r (sh_calls s t)"
    "sh_init s = None \<or> sh_init ?s = sh_init s" unfolding step_ok_def by blast
  have others: "inside (el_point (sh_calls s u)) = (sh_lock ?s = Some u) \<and> stands el ?s (sh_calls s u)" if "u \<noteq> t" for u
  proof (cases "sh_lock s = Some u")
    case True
    with inv \<open>u \<noteq> t\<close> have "\<not> inside (el_point (sh_calls s t))" by (simp add: espeak_inv_def)
    with t True have "el_point (sh_calls s t) = AtLine \<and> el_todo (sh_calls s t) = []"
      by (cases "el_point (sh_calls s t)") (auto simp: inside_def can_act_def)
    then have "?s = move t ((sh_calls s t)\<lparr>el_point := Answered (Inr (el_done (sh_calls s t)))\<rparr>) s"
      by (simp add: call_step_def)
    with inv True show ?thesis by (simp add: espeak_inv_def)
  next
    case False
    with inv have out: "\<not> inside (el_point (sh_calls s u))" by (simp add: espeak_inv_def)
    moreover have "sh_lock ?s \<noteq> Some u" using c'(3,4) False \<open>u \<noteq> t\<close> by auto
    ultimately show ?thesis by (cases "el_point (sh_calls s u)") (auto simp: inside_def stands_def)
  qed
  show ?thesis
    unfolding espeak_inv_def using c' others inv by (auto simp: espeak_inv_def)
qed

lemma espeak_inv_reach: "espeak_reach el s0 s \<Longrightarrow> espeak_inv el s0 \<Longrightarrow> espeak_inv el s"
  by (induction rule: espeak_reach.induct) (auto elim!: espeak_step.cases intro: espeak_inv_step)

lemma espeak_inv_start: "espeak_start s \<Longrightarrow> espeak_inv el s"
proof -
  assume s: "espeak_start s"
  have "still_answers el r c = call_alone el r c" if "requested c" for r c
  proof -
    have "after_done c x = x" for x
    proof (cases x)
      case (Some a)
      with that show ?thesis by (cases a) (simp_all add: requested_def)
    qed simp
    with that show ?thesis
      by (simp add: requested_def still_answers_def call_alone_def text_to_phonemes_def line_alone_def)
  qed
  with s show ?thesis by (simp add: espeak_start_def espeak_inv_def requested_def inside_def stands_def)
qed

text \<open>
  \<^bold>\<open>C5\<close>: threads that phonemize at the same time never hear each other's language. Whatever order the
  steps of any number of calls run in, whoever initializes the library and whatever voice a refused name leaves
  behind, a call that has answered has answered exactly what it would have with the library to itself,
  initialized with the one outcome that all calls share; and as long as a call has not
  answered, some call can take a step.
\<close>

theorem espeak_calls_are_serial:
  assumes "espeak_start s0" "espeak_reach el s0 s"
  shows "case el_point (sh_calls s t) of
      Answered a \<Rightarrow> call_alone el (unwrap_or (Inr ()) (sh_init s)) (sh_calls s t) = Some a
    | _ \<Rightarrow> can_act t s \<or> (\<exists>u. sh_lock s = Some u \<and> can_act u s)"
proof -
  have inv: "espeak_inv el s" using assms by (auto intro: espeak_inv_reach espeak_inv_start)
  let ?r = "unwrap_or (Inr ()) (sh_init s)"
  have "sh_init s = None \<or> sh_init s = Some ?r" by (cases "sh_init s") (simp_all add: unwrap_or_def)
  with inv have same: "still_answers el ?r (sh_calls s t) = call_alone el ?r (sh_calls s t)"
    unfolding espeak_inv_def by blast
  have held: "can_act u s" if "sh_lock s = Some u" for u
  proof -
    from inv that have "inside (el_point (sh_calls s u))" by (simp add: espeak_inv_def)
    then show ?thesis by (cases "el_point (sh_calls s u)") (simp_all add: inside_def can_act_def)
  qed
  show ?thesis
  proof (cases "el_point (sh_calls s t)")
    case (Answered a)
    with same show ?thesis by (simp add: still_answers_def)
  next
    case AtLine
    then show ?thesis using held by (cases "sh_lock s") (auto simp: can_act_def)
  qed (auto simp: can_act_def)
qed

text \<open>Two threads, two languages, one line each, and a library that spells out its current voice.\<close>

definition demo_library :: "unit espeak_library" where
  "demo_library =
     \<lparr>el_initialize = (\<lambda>_. 22050), el_set_voice = (\<lambda>_. True), el_start = (\<lambda>_. Some ()),
      el_clause = (\<lambda>voice _ _. (voice, CLAUSE_TYPE_SENTENCE, None))\<rparr>"

definition demo_request :: "str \<Rightarrow> unit espeak_call" where
  "demo_request language =
     \<lparr>el_text = lit ''hi'', el_language = language, el_separator = None, el_remove_flags = False,
      el_remove_stress = False, el_todo = [lit ''hi''], el_done = [], el_point = AtLine\<rparr>"

definition demo_shared :: "unit espeak_shared" where
  "demo_shared =
     \<lparr>sh_lock = None, sh_init = None, sh_voice = [],
      sh_calls = (\<lambda>t. demo_request (if t = 0 then lit ''en'' else lit ''he''))\<rparr>"

definition demo_process :: process_env where
  "demo_process = \<lparr>pr_var = (\<lambda>_. None), pr_current_exe = None, pr_exists = (\<lambda>_. False)\<rparr>"

fun run_threads :: "'c espeak_library \<Rightarrow> process_env \<Rightarrow> nat list \<Rightarrow> 'c espeak_shared \<Rightarrow> 'c espeak_shared" where
  "run_threads el pr [] s = s"
| "run_threads el pr (t # ts) s = (if can_act t s then run_threads el pr ts (call_step el (init_espeakng el pr) [] t s) else s)"

lemma run_threads_reach: "espeak_reach el s0 s \<Longrightarrow> espeak_reach el s0 (run_threads el pr ts s)"
  by (induction ts arbitrary: s) (auto intro: espeak_reach.intros espeak_step.intros)

theorem espeak_calls_are_serial_witness:
  "\<exists>s. espeak_reach demo_library demo_shared s \<and>
     el_point (sh_calls s 0) = Answered (Inr [lit ''en.'']) \<and> el_point (sh_calls s 1) = Answered (Inr [lit ''he.'']) \<and>
     call_alone demo_library (unwrap_or (Inr ()) (sh_init s)) (sh_calls s 0) = Some (Inr [lit ''en.''])"
proof -
  let ?s = "run_threads demo_library demo_process [0, 0, 0, 0, 0, 0, 1, 0, 1, 1, 1, 1, 1, 1] demo_shared"
  have "text_lines (lit ''hi'') = [lit ''hi'']" by code_simp
  then have start: "espeak_start demo_shared"
    by (simp add: espeak_start_def demo_shared_def requested_def demo_request_def)
  have reach: "espeak_reach demo_library demo_shared ?s" by (rule run_threads_reach [OF at_start])
  have ends: "el_point (sh_calls ?s 0) = Answered (Inr [lit ''en.''])" "el_point (sh_calls ?s 1) = Answered (Inr [lit ''he.''])"
    by code_simp+
  from espeak_calls_are_serial [OF start reach, of 0] ends show ?thesis by (intro exI [of _ ?s]) (use reach in simp)
qed

end
