(* ===== verification/HebrewIpa.thy ===== *)
theory HebrewIpa
  imports Errors
begin

section \<open>Hebrew phonemes\<close>

text \<open>
  \<^verbatim>\<open>crates/text/hebrew-phonemizer/src/ipa.rs\<close>: reading a pointed Hebrew text. A word is cut into
  glyphs (a letter and its marks), glyphs into segments (consonants, a vowel, closing consonants),
  the shevas of the segments are decided, and the segments are written with one stress mark. The
  Unicode tables are two arguments: \<open>nfc\<close> is the normalization and \<open>is_mark\<close> says which characters
  combine with the one before. The theorems hold for all of them: every word that has a vowel sign
  gets one stress mark before a vowel and is free of placeholders, and deciding the shevas loses no
  consonant, unless the word ends in a sheva followed by a bare consonant, which it drops.
\<close>

subsection \<open>Letters and glyphs\<close>

definition TAAMIM_START :: uchar where "TAAMIM_START = 0x591"
definition TAAMIM_END :: uchar where "TAAMIM_END = 0x5AF"
definition DAGESH :: uchar where "DAGESH = 0x5BC"
definition SHIN_DOT :: uchar where "SHIN_DOT = 0x5C1"
definition SIN_DOT :: uchar where "SIN_DOT = 0x5C2"
definition GERESH :: uchar where "GERESH = 0x5F3"
definition ALEF :: uchar where "ALEF = 0x5D0"
definition BET :: uchar where "BET = 0x5D1"
definition GIMEL :: uchar where "GIMEL = 0x5D2"
definition DALET :: uchar where "DALET = 0x5D3"
definition HE :: uchar where "HE = 0x5D4"
definition VAV :: uchar where "VAV = 0x5D5"
definition ZAYIN :: uchar where "ZAYIN = 0x5D6"
definition HET :: uchar where "HET = 0x5D7"
definition TET :: uchar where "TET = 0x5D8"
definition YOD :: uchar where "YOD = 0x5D9"
definition KAF :: uchar where "KAF = 0x5DB"
definition KAF_FINAL :: uchar where "KAF_FINAL = 0x5DA"
definition LAMED :: uchar where "LAMED = 0x5DC"
definition MEM :: uchar where "MEM = 0x5DE"
definition MEM_FINAL :: uchar where "MEM_FINAL = 0x5DD"
definition NUN :: uchar where "NUN = 0x5E0"
definition NUN_FINAL :: uchar where "NUN_FINAL = 0x5DF"
definition SAMEKH :: uchar where "SAMEKH = 0x5E1"
definition AYIN :: uchar where "AYIN = 0x5E2"
definition PE :: uchar where "PE = 0x5E4"
definition PE_FINAL :: uchar where "PE_FINAL = 0x5E3"
definition TSADI :: uchar where "TSADI = 0x5E6"
definition TSADI_FINAL :: uchar where "TSADI_FINAL = 0x5E5"
definition QOF :: uchar where "QOF = 0x5E7"
definition RESH :: uchar where "RESH = 0x5E8"
definition SHIN :: uchar where "SHIN = 0x5E9"
definition TAV :: uchar where "TAV = 0x5EA"

lemmas letter_defs = TAAMIM_START_def TAAMIM_END_def DAGESH_def SHIN_DOT_def SIN_DOT_def GERESH_def ALEF_def BET_def GIMEL_def DALET_def HE_def VAV_def ZAYIN_def HET_def TET_def YOD_def KAF_def KAF_FINAL_def LAMED_def MEM_def MEM_FINAL_def NUN_def NUN_FINAL_def SAMEKH_def AYIN_def PE_def PE_FINAL_def TSADI_def TSADI_FINAL_def QOF_def RESH_def SHIN_def TAV_def

definition final_form_base :: "uchar \<Rightarrow> uchar" where
  "final_form_base c =
     (if c = KAF_FINAL then KAF
      else if c = MEM_FINAL then MEM
      else if c = NUN_FINAL then NUN
      else if c = PE_FINAL then PE
      else if c = TSADI_FINAL then TSADI
      else c)"

definition geresh_digraphs :: "(str \<times> str) list" where
  "geresh_digraphs =
     [([GIMEL, GERESH], [100, 0x361, 0x292]),
      ([ZAYIN, GERESH], [0x292]),
      ([TSADI, GERESH], [116, 0x361, 0x283])]"

record glyph =
  glyph_base :: str
  glyph_marks :: "uchar list"

definition plain_glyph :: "uchar \<Rightarrow> glyph" where
  "plain_glyph b = \<lparr>glyph_base = [b], glyph_marks = []\<rparr>"

definition glyph_has :: "glyph \<Rightarrow> uchar \<Rightarrow> bool" where
  "glyph_has g mark \<longleftrightarrow> mark \<in> set (glyph_marks g)"

definition strip_taamim :: "str \<Rightarrow> str" where
  "strip_taamim s = filter (\<lambda>c. \<not> (TAAMIM_START \<le> c \<and> c \<le> TAAMIM_END)) s"

definition push_glyph_char :: "(uchar \<Rightarrow> bool) \<Rightarrow> glyph list \<Rightarrow> uchar \<Rightarrow> glyph list" where
  "push_glyph_char is_mark glyphs ch =
     (if is_mark ch then
        (if glyphs = [] then []
         else butlast glyphs @ [(last glyphs)\<lparr>glyph_marks := glyph_marks (last glyphs) @ [ch]\<rparr>])
      else glyphs @ [plain_glyph ch])"

definition iter_glyphs :: "(str \<Rightarrow> str) \<Rightarrow> (uchar \<Rightarrow> bool) \<Rightarrow> str \<Rightarrow> glyph list" where
  "iter_glyphs nfc is_mark w = foldl (push_glyph_char is_mark) [] (nfc (strip_taamim w))"

text \<open>
  A digraph with a geresh becomes one glyph whose base is the placeholder
  \<^verbatim>\<open><IPA:...>\<close>; the marks of both glyphs are kept.
\<close>

definition placeholder :: "str \<Rightarrow> str" where
  "placeholder ipa = lit ''<IPA:'' @ ipa @ lit ''>''"

fun apply_geresh_digraphs :: "glyph list \<Rightarrow> glyph list" where
  "apply_geresh_digraphs [] = []"
| "apply_geresh_digraphs [g] = [g]"
| "apply_geresh_digraphs (g # h # gs) =
     (case (if glyph_base h = [GERESH] then map_of geresh_digraphs (glyph_base g @ glyph_base h)
            else None) of
        Some ipa \<Rightarrow>
          \<lparr>glyph_base = placeholder ipa, glyph_marks = glyph_marks g @ glyph_marks h\<rparr>
            # apply_geresh_digraphs gs
      | None \<Rightarrow> g # apply_geresh_digraphs (h # gs))"

definition digraph_ipa :: "str \<Rightarrow> str option" where
  "digraph_ipa b =
     (case strip_prefix (lit ''<IPA:'') b of
        None \<Rightarrow> None
      | Some rest \<Rightarrow> if rest \<noteq> [] \<and> last rest = of_char (CHR ''>'') then Some (butlast rest) else None)"

definition GLT :: str where "GLT = lit ''<GLT>''"

definition map_consonant :: "uchar \<Rightarrow> uchar list \<Rightarrow> bool \<Rightarrow> str" where
  "map_consonant c marks is_last =
     (let b = final_form_base c; has = (\<lambda>m. m \<in> set marks) in
      if b = ALEF \<or> b = AYIN then GLT
      else if b = HE then (if is_last \<and> \<not> has DAGESH then [] else lit ''h'')
      else if b = YOD then lit ''j''
      else if b = VAV then lit ''v''
      else if b = SHIN then
        (if has SHIN_DOT then [0x283] else if has SIN_DOT then lit ''s'' else [0x283])
      else if b = BET then (if has DAGESH then lit ''b'' else lit ''v'')
      else if b = KAF then (if has DAGESH then lit ''k'' else [0x3C7])
      else if b = PE then (if has DAGESH then lit ''p'' else lit ''f'')
      else if b = GIMEL then lit ''g''
      else if b = DALET then lit ''d''
      else if b = HET then [0x3C7]
      else if b = TET then lit ''t''
      else if b = LAMED then lit ''l''
      else if b = MEM then lit ''m''
      else if b = NUN then lit ''n''
      else if b = SAMEKH then lit ''s''
      else if b = TSADI then [116, 0x361, 115]
      else if b = QOF then lit ''k''
      else if b = RESH then [0x281]
      else if b = TAV then lit ''t''
      else if b = ZAYIN then lit ''z''
      else [])"

definition glyph_consonant :: "glyph \<Rightarrow> bool \<Rightarrow> str" where
  "glyph_consonant g is_last =
     (case digraph_ipa (glyph_base g) of
        Some ipa \<Rightarrow> ipa
      | None \<Rightarrow> map_consonant (unwrap_or 0 (first_of (glyph_base g))) (glyph_marks g) is_last)"

subsection \<open>Vowels\<close>

definition SHEVA :: uchar where "SHEVA = 0x5B0"
definition HATAF_SEGOL :: uchar where "HATAF_SEGOL = 0x5B1"
definition HATAF_PATAH :: uchar where "HATAF_PATAH = 0x5B2"
definition HATAF_QAMATS :: uchar where "HATAF_QAMATS = 0x5B3"
definition HIRIQ :: uchar where "HIRIQ = 0x5B4"
definition TSERE :: uchar where "TSERE = 0x5B5"
definition SEGOL :: uchar where "SEGOL = 0x5B6"
definition PATAH :: uchar where "PATAH = 0x5B7"
definition QAMATS :: uchar where "QAMATS = 0x5B8"
definition HOLAM :: uchar where "HOLAM = 0x5B9"
definition QUBUTZ :: uchar where "QUBUTZ = 0x5BB"
definition QAMATS_QATAN :: uchar where "QAMATS_QATAN = 0x5C7"

lemmas vowel_mark_defs = SHEVA_def HATAF_SEGOL_def HATAF_PATAH_def HATAF_QAMATS_def HIRIQ_def TSERE_def SEGOL_def PATAH_def QAMATS_def HOLAM_def QUBUTZ_def QAMATS_QATAN_def

definition SCHWA :: str where "SCHWA = [0x259]"

definition map_basic_vowel :: "glyph \<Rightarrow> str \<times> bool" where
  "map_basic_vowel g =
     (if glyph_has g QAMATS_QATAN then (lit ''o'', True)
      else if glyph_has g QUBUTZ then (lit ''u'', True)
      else if glyph_has g HIRIQ then (lit ''i'', True)
      else if glyph_has g TSERE \<or> glyph_has g SEGOL then (lit ''e'', True)
      else if glyph_has g PATAH \<or> glyph_has g QAMATS \<or> glyph_has g HATAF_PATAH
        then (lit ''a'', True)
      else if glyph_has g HATAF_SEGOL then (lit ''e'', True)
      else if glyph_has g HATAF_QAMATS then (lit ''o'', True)
      else if glyph_has g SHEVA then (SCHWA, False)
      else ([], False))"

definition vowel_marks :: "uchar list" where
  "vowel_marks =
     [SHEVA, HATAF_SEGOL, HATAF_PATAH, HATAF_QAMATS, HIRIQ, TSERE, SEGOL, PATAH, QAMATS, HOLAM,
      QUBUTZ, QAMATS_QATAN]"

definition has_any_vowel_mark :: "uchar list \<Rightarrow> bool" where
  "has_any_vowel_mark ms \<longleftrightarrow> list_ex (\<lambda>m. m \<in> set vowel_marks) ms"

definition is_shuruk :: "glyph \<Rightarrow> bool" where
  "is_shuruk g \<longleftrightarrow>
     \<not> (glyph_base g \<noteq> [VAV] \<or> \<not> glyph_has g DAGESH) \<and>
     \<not> list_ex (\<lambda>m. m \<in> set vowel_marks) (glyph_marks g)"

definition is_holam_male :: "glyph \<Rightarrow> bool" where
  "is_holam_male g \<longleftrightarrow> glyph_base g = [VAV] \<and> glyph_has g HOLAM \<and> \<not> glyph_has g DAGESH"

fun is_hiriq_yod :: "glyph \<Rightarrow> glyph option \<Rightarrow> bool" where
  "is_hiriq_yod g None = False"
| "is_hiriq_yod g (Some nxt) \<longleftrightarrow>
     glyph_has g HIRIQ \<and> glyph_base nxt = [YOD] \<and> \<not> has_any_vowel_mark (glyph_marks nxt)"

subsection \<open>Segments\<close>

record segment =
  onset :: "str list"
  nucleus :: str
  coda :: "str list"
  seg_dagesh :: bool

definition new_segment :: "str list \<Rightarrow> str \<Rightarrow> bool \<Rightarrow> segment" where
  "new_segment cs v dagesh = \<lparr>onset = cs, nucleus = v, coda = [], seg_dagesh = dagesh\<rparr>"

definition push_consonant :: "str list \<Rightarrow> str \<Rightarrow> str list" where
  "push_consonant cs c = (if c \<noteq> [] \<and> c \<noteq> GLT then cs @ [c] else cs)"

definition GLOTTAL :: uchar where "GLOTTAL = 0x294"
definition STRESS :: uchar where "STRESS = 0x2C8"
definition TIE_BAR :: uchar where "TIE_BAR = 0x361"

text \<open>
  The loop over the glyphs of a word: the glyphs that remain, the consonants that wait for a vowel
  and the segments found so far. It ends with the consonants that no vowel followed.
\<close>

function (sequential) segment_loop ::
  "glyph list \<Rightarrow> str list \<Rightarrow> segment list \<Rightarrow> segment list \<times> str list" where
  "segment_loop [] cs segs = (segs, cs)"
| "segment_loop (g # gs) cs segs =
     (if is_shuruk g then segment_loop gs [] (segs @ [new_segment cs (lit ''u'') False])
      else if is_hiriq_yod g (first_of gs) then
        segment_loop (drop 1 gs) []
          (segs @ [new_segment (push_consonant cs (glyph_consonant g False)) (lit ''i'') False])
      else if is_holam_male g then segment_loop gs [] (segs @ [new_segment cs (lit ''o'') False])
      else
        (let cons = glyph_consonant g (gs = []); vowel = map_basic_vowel g in
         if snd vowel then
           segment_loop gs [] (segs @ [new_segment (push_consonant cs cons) (fst vowel) False])
         else if glyph_has g SHEVA then
           segment_loop gs []
             (segs @ [new_segment (push_consonant cs cons) SCHWA (glyph_has g DAGESH)])
         else if cons = GLT then segment_loop gs (cs @ [[GLOTTAL]]) segs
         else if cons \<noteq> [] then segment_loop gs (cs @ [cons]) segs
         else segment_loop gs cs segs))"
  by pat_completeness auto
termination by (relation "measure (\<lambda>(gs, cs, segs). length gs)") auto

definition close_word :: "segment list \<times> str list \<Rightarrow> segment list" where
  "close_word r =
     (case r of (segs, cs) \<Rightarrow>
        if cs \<noteq> [] \<and> segs \<noteq> [] then
          butlast segs @ [(last segs)\<lparr>coda := coda (last segs) @ cs\<rparr>]
        else segs)"

definition word_to_segments :: "(str \<Rightarrow> str) \<Rightarrow> (uchar \<Rightarrow> bool) \<Rightarrow> str \<Rightarrow> segment list" where
  "word_to_segments nfc is_mark w =
     close_word (segment_loop (apply_geresh_digraphs (iter_glyphs nfc is_mark w)) [] [])"

text \<open>
  The first pass decides each sheva: \<open>past\<close> are the segments already passed and \<open>silenced\<close> says
  that the last of them was a sheva that fell silent. A silent sheva gives its consonants to the
  segment before it and keeps an empty nucleus; the second pass drops such segments.
\<close>

fun decide_shevas :: "bool \<Rightarrow> segment list \<Rightarrow> segment list \<Rightarrow> segment list" where
  "decide_shevas silenced past [] = past"
| "decide_shevas silenced past (s # rest) =
     (if nucleus s \<noteq> SCHWA then decide_shevas False (past @ [s]) rest
      else
        (let has_previous = (past \<noteq> []);
             na = (\<not> has_previous \<or> (seg_dagesh s \<and> has_previous) \<or> silenced) in
         if na then decide_shevas False (past @ [s\<lparr>nucleus := lit ''e''\<rparr>]) rest
         else
           decide_shevas True
             (butlast past @ [(last past)\<lparr>coda := coda (last past) @ onset s\<rparr>]
                @ [s\<lparr>onset := [], nucleus := []\<rparr>]) rest))"

definition merge_segment :: "segment list \<Rightarrow> segment \<Rightarrow> segment list" where
  "merge_segment merged s =
     (if nucleus s = [] then
        (if merged \<noteq> [] then
           butlast merged @ [(last merged)\<lparr>coda := coda (last merged) @ onset s\<rparr>]
         else merged @ [s])
      else merged @ [s])"

definition resolve_sheva_and_qamats :: "segment list \<Rightarrow> segment list" where
  "resolve_sheva_and_qamats segs = foldl merge_segment [] (decide_shevas False [] segs)"

definition stress_index :: "segment list \<Rightarrow> nat" where
  "stress_index segs =
     (case segs of
        [_, second] \<Rightarrow> if coda second \<noteq> [] then 0 else length segs - 1
      | _ \<Rightarrow> length segs - 1)"

definition segment_ipa :: "bool \<Rightarrow> segment \<Rightarrow> str" where
  "segment_ipa stressed s =
     concat (onset s) @ (if stressed then [STRESS] else []) @ nucleus s @ concat (coda s)"

definition syllabify_to_ipa :: "segment list \<Rightarrow> str" where
  "syllabify_to_ipa segs =
     concat (map (\<lambda>(idx, s). segment_ipa (idx = stress_index segs) s) (enumerate 0 segs))"

definition spoken_vowels :: "uchar list" where
  "spoken_vowels = lit ''aeiou'' @ SCHWA"

definition vowel_follows :: "str \<Rightarrow> bool" where
  "vowel_follows cs =
     (case first_of (if first_of cs = Some STRESS then drop 1 cs else cs) of
        None \<Rightarrow> False
      | Some c \<Rightarrow> c \<in> set spoken_vowels)"

fun strip_unrealized_glottal_stops :: "str \<Rightarrow> str" where
  "strip_unrealized_glottal_stops [] = []"
| "strip_unrealized_glottal_stops (c # cs) =
     (if c \<noteq> GLOTTAL \<or> vowel_follows cs then c # strip_unrealized_glottal_stops cs
      else strip_unrealized_glottal_stops cs)"

definition hebrew_word_to_ipa :: "(str \<Rightarrow> str) \<Rightarrow> (uchar \<Rightarrow> bool) \<Rightarrow> str \<Rightarrow> str" where
  "hebrew_word_to_ipa nfc is_mark w =
     filter (\<lambda>c. c \<noteq> TIE_BAR)
       (strip_unrealized_glottal_stops
          (syllabify_to_ipa (resolve_sheva_and_qamats (word_to_segments nfc is_mark w))))"

definition hebrew_to_ipa :: "(str \<Rightarrow> str) \<Rightarrow> (uchar \<Rightarrow> bool) \<Rightarrow> str \<Rightarrow> str" where
  "hebrew_to_ipa nfc is_mark text =
     join_text (lit '' '')
       (map (hebrew_word_to_ipa nfc is_mark) (split_whitespace (nfc (strip_taamim text))))"

subsection \<open>The shape of the segments\<close>

text \<open>
  Every consonant the reading can write, and the invariant of a segment: its consonants are among
  them, and its nucleus is one spoken vowel.
\<close>

definition phones :: "str list" where
  "phones =
     map (\<lambda>c. [c]) (lit ''hjvsbkpfgdtlmnz'' @ [0x283, 0x3C7, 0x281, 0x292, GLOTTAL])
       @ [[116, 0x361, 115], [100, 0x361, 0x292], [116, 0x361, 0x283]]"

definition full_vowels :: "str list" where
  "full_vowels = map (\<lambda>c. [c]) (lit ''aeiou'')"

definition seg_ok :: "str list \<Rightarrow> segment \<Rightarrow> bool" where
  "seg_ok vs s \<longleftrightarrow>
     set (onset s) \<subseteq> set phones \<and> set (coda s) \<subseteq> set phones \<and> nucleus s \<in> set vs"

lemma digraph_ipa_placeholder: "digraph_ipa (placeholder ipa) = Some ipa"
  by (simp add: digraph_ipa_def placeholder_def strip_prefix_def starts_with_def)

lemma digraph_ipa_short: "length b \<le> 1 \<Longrightarrow> digraph_ipa b = None"
  by (cases b) (auto simp: digraph_ipa_def strip_prefix_def starts_with_def)

lemma if_mem: "a \<in> S \<Longrightarrow> b \<in> S \<Longrightarrow> (if P then a else b) \<in> S"
  by simp

lemma map_consonant_range: "map_consonant c ms f \<in> set (GLT # [] # phones)"
  unfolding map_consonant_def Let_def
  by (intro if_mem; simp add: phones_def)

definition glyph_ok :: "glyph \<Rightarrow> bool" where
  "glyph_ok g \<longleftrightarrow>
     length (glyph_base g) = 1 \<or> (\<exists>ipa. glyph_base g = placeholder ipa \<and> ipa \<in> set phones)"

lemma glyph_consonant_range: "glyph_ok g \<Longrightarrow> glyph_consonant g f \<in> set (GLT # [] # phones)"
  unfolding glyph_ok_def glyph_consonant_def
  using map_consonant_range [of "unwrap_or 0 (first_of (glyph_base g))" "glyph_marks g" f]
  by (elim disjE exE conjE) (simp_all add: digraph_ipa_placeholder digraph_ipa_short)

lemma iter_glyphs_ok: "g \<in> set (iter_glyphs nfc is_mark w) \<Longrightarrow> length (glyph_base g) = 1"
proof -
  have "\<forall>g \<in> set (foldl (push_glyph_char is_mark) gs s). length (glyph_base g) = 1"
    if "\<forall>g \<in> set gs. length (glyph_base g) = 1" for gs s
    using that
  proof (induction s arbitrary: gs)
    case (Cons c s)
    have "\<forall>g \<in> set (push_glyph_char is_mark gs c). length (glyph_base g) = 1"
      using Cons.prems by (auto simp: push_glyph_char_def plain_glyph_def dest: in_set_butlastD)
    then show ?case by (simp add: Cons.IH)
  qed simp
  from this [of "[]" "nfc (strip_taamim w)"]
  show "g \<in> set (iter_glyphs nfc is_mark w) \<Longrightarrow> length (glyph_base g) = 1"
    by (simp add: iter_glyphs_def)
qed

lemma digraphs_are_phones: "map_of geresh_digraphs k = Some ipa \<Longrightarrow> ipa \<in> set phones"
  by (auto simp: geresh_digraphs_def phones_def split: if_splits)

lemma apply_geresh_ok:
  "list_all (\<lambda>g. length (glyph_base g) = 1) gs \<Longrightarrow> list_all glyph_ok (apply_geresh_digraphs gs)"
proof (induction gs rule: apply_geresh_digraphs.induct)
  case (3 g h gs)
  then show ?case
    by (auto simp: glyph_ok_def split: option.splits if_splits dest: digraphs_are_phones)
qed (auto simp: glyph_ok_def)

lemma word_glyphs_ok: "list_all glyph_ok (apply_geresh_digraphs (iter_glyphs nfc is_mark w))"
  by (rule apply_geresh_ok) (simp add: list_all_iff iter_glyphs_ok)

lemma push_consonant_phones:
  "glyph_ok g \<Longrightarrow> set cs \<subseteq> set phones \<Longrightarrow> set (push_consonant cs (glyph_consonant g f)) \<subseteq> set phones"
  using glyph_consonant_range [of g f] by (auto simp: push_consonant_def)

lemma map_basic_vowel_vocalic:
  "snd (map_basic_vowel g) \<Longrightarrow> fst (map_basic_vowel g) \<in> set full_vowels"
  by (auto simp: map_basic_vowel_def full_vowels_def split: if_splits)

lemma glottal_phone: "[GLOTTAL] \<in> set phones"
  by (simp add: phones_def)

lemma segment_loop_ok:
  "list_all glyph_ok gs \<Longrightarrow> set cs \<subseteq> set phones \<Longrightarrow> list_all (seg_ok (SCHWA # full_vowels)) segs \<Longrightarrow>
   list_all (\<lambda>s. coda s = []) segs \<Longrightarrow> segment_loop gs cs segs = (segs', cs') \<Longrightarrow>
   set cs' \<subseteq> set phones \<and> list_all (seg_ok (SCHWA # full_vowels)) segs' \<and> list_all (\<lambda>s. coda s = []) segs'"
proof (induction gs cs segs rule: segment_loop.induct)
  case (2 g gs cs segs)
  have tail: "list_all glyph_ok (drop (Suc 0) gs)" "list_all glyph_ok gs" "glyph_ok g"
    using "2.prems"(1) by (auto simp: list_all_iff dest: in_set_dropD)
  have phs: "set (push_consonant cs (glyph_consonant g f)) \<subseteq> set phones" for f
    using push_consonant_phones tail "2.prems"(2) by blast
  have seg: "seg_ok (SCHWA # full_vowels) (new_segment cs' v d) \<longleftrightarrow>
      set cs' \<subseteq> set phones \<and> v \<in> set (SCHWA # full_vowels)" for cs' v d
    by (simp add: seg_ok_def new_segment_def)
  have coda: "coda (new_segment cs' v d) = []" for cs' v d
    by (simp add: new_segment_def)
  have vowels: "[117] \<in> set full_vowels" "[105] \<in> set full_vowels" "[111] \<in> set full_vowels"
    by (simp_all add: full_vowels_def)
  have range: "glyph_consonant g (gs = []) \<in> set (GLT # [] # phones)"
    by (rule glyph_consonant_range [OF tail(3)])
  note facts = tail phs seg coda vowels "2.prems"(2-4) map_basic_vowel_vocalic glottal_phone
  consider (shuruk) "is_shuruk g" | (hiriq) "\<not> is_shuruk g" "is_hiriq_yod g (first_of gs)"
    | (holam) "\<not> is_shuruk g" "\<not> is_hiriq_yod g (first_of gs)" "is_holam_male g"
    | (other) "\<not> is_shuruk g" "\<not> is_hiriq_yod g (first_of gs)" "\<not> is_holam_male g"
    by blast
  then show ?case
  proof cases
    case shuruk
    then show ?thesis using "2.IH"(1) "2.prems"(5) by (simp add: facts)
  next
    case hiriq
    then show ?thesis using "2.IH"(2) "2.prems"(5) by (simp add: facts)
  next
    case holam
    then show ?thesis using "2.IH"(3) "2.prems"(5) by (simp add: facts)
  next
    case other
    note eq = "2.prems"(5) [unfolded segment_loop.simps(2) Let_def, simplified other if_False]
    consider (vocalic) "snd (map_basic_vowel g)"
      | (sheva) "\<not> snd (map_basic_vowel g)" "glyph_has g SHEVA"
      | (glt) "\<not> snd (map_basic_vowel g)" "\<not> glyph_has g SHEVA" "glyph_consonant g (gs = []) = GLT"
      | (cons) "\<not> snd (map_basic_vowel g)" "\<not> glyph_has g SHEVA" "glyph_consonant g (gs = []) \<noteq> GLT"
          "glyph_consonant g (gs = []) \<noteq> []"
      | (silent) "\<not> snd (map_basic_vowel g)" "\<not> glyph_has g SHEVA" "glyph_consonant g (gs = []) \<noteq> GLT"
          "glyph_consonant g (gs = []) = []"
      by blast
    then show ?thesis
    proof cases
      case vocalic
      then show ?thesis using "2.IH"(4) [OF other refl refl] eq by (simp add: facts)
    next
      case sheva
      then show ?thesis using "2.IH"(5) [OF other refl refl] eq by (simp add: facts)
    next
      case glt
      then show ?thesis using "2.IH"(6) [OF other refl refl] eq by (simp add: facts)
    next
      case cons
      then show ?thesis using "2.IH"(7) [OF other refl refl] eq range by (simp add: facts)
    next
      case silent
      then show ?thesis using "2.IH"(8) [OF other refl refl] eq by (simp add: facts)
    qed
  qed
qed simp

definition no_inner_coda :: "segment list \<Rightarrow> bool" where
  "no_inner_coda segs \<longleftrightarrow> list_all (\<lambda>s. coda s = []) (butlast segs)"

lemma word_to_segments_ok:
  "list_all (seg_ok (SCHWA # full_vowels)) (word_to_segments nfc is_mark w) \<and>
   no_inner_coda (word_to_segments nfc is_mark w)"
proof -
  obtain segs cs where r: "segment_loop (apply_geresh_digraphs (iter_glyphs nfc is_mark w)) [] [] = (segs, cs)"
    by force
  have ok: "set cs \<subseteq> set phones \<and> list_all (seg_ok (SCHWA # full_vowels)) segs \<and> list_all (\<lambda>s. coda s = []) segs"
    by (rule segment_loop_ok [OF word_glyphs_ok _ _ _ r]) simp_all
  show ?thesis
  proof (cases segs rule: rev_cases)
    case Nil
    then show ?thesis by (simp add: word_to_segments_def r close_word_def no_inner_coda_def)
  next
    case (snoc ss s)
    then show ?thesis using ok
      by (simp add: word_to_segments_def r close_word_def no_inner_coda_def seg_ok_def)
  qed
qed

subsection \<open>Deciding the shevas\<close>

definition consonants :: "segment \<Rightarrow> str list" where
  "consonants s = onset s @ coda s"

definition all_consonants :: "segment list \<Rightarrow> str list" where
  "all_consonants segs = concat (map consonants segs)"

text \<open>What the first pass leaves behind: a silent segment has no consonants of its own.\<close>

definition decided :: "segment \<Rightarrow> bool" where
  "decided s \<longleftrightarrow> seg_ok ([] # full_vowels) s \<and> (nucleus s = [] \<longrightarrow> onset s = [])"

definition passed :: "bool \<Rightarrow> segment list \<Rightarrow> bool" where
  "passed silenced past \<longleftrightarrow>
     list_all decided past \<and>
     (if past = [] then \<not> silenced
      else nucleus (hd past) \<noteq> [] \<and> (silenced \<longleftrightarrow> nucleus (last past) = []))"

lemma vowel_nonempty: "v \<in> set full_vowels \<Longrightarrow> v \<noteq> []"
  by (auto simp: full_vowels_def)

lemma schwa_not_full: "SCHWA \<notin> set full_vowels" "SCHWA \<noteq> []" "[101] \<in> set full_vowels"
  by (simp_all add: SCHWA_def full_vowels_def)

lemma passed_vowel:
  "passed silenced past \<Longrightarrow> seg_ok (SCHWA # full_vowels) s \<Longrightarrow> nucleus s \<noteq> SCHWA \<Longrightarrow> passed False (past @ [s])"
  by (auto simp: passed_def decided_def seg_ok_def dest: vowel_nonempty split: if_splits)

lemma passed_na:
  "passed silenced past \<Longrightarrow> seg_ok (SCHWA # full_vowels) s \<Longrightarrow> passed False (past @ [s\<lparr>nucleus := [101]\<rparr>])"
  by (auto simp: passed_def decided_def seg_ok_def schwa_not_full split: if_splits)

lemma passed_silent:
  assumes p: "passed False past" and ne: "past \<noteq> []" and s: "seg_ok (SCHWA # full_vowels) s"
  shows "passed True
    (butlast past @ [(last past)\<lparr>coda := coda (last past) @ onset s\<rparr>] @ [s\<lparr>onset := [], nucleus := []\<rparr>])"
proof -
  obtain xs x where past: "past = xs @ [x]" using ne by (metis rev_exhaust)
  show ?thesis using p s
    by (cases xs) (auto simp: passed_def decided_def seg_ok_def past)
qed

lemma all_consonants_silent:
  "past \<noteq> [] \<Longrightarrow>
   all_consonants (butlast past @ [(last past)\<lparr>coda := coda (last past) @ onset s\<rparr>]
     @ [s\<lparr>onset := [], nucleus := []\<rparr>]) = all_consonants past @ consonants s"
  by (cases past rule: rev_cases) (auto simp: all_consonants_def consonants_def)

lemma decide_na:
  "nucleus s = SCHWA \<Longrightarrow> past = [] \<or> (seg_dagesh s \<and> past \<noteq> []) \<or> silenced \<Longrightarrow>
   decide_shevas silenced past (s # rest) = decide_shevas False (past @ [s\<lparr>nucleus := [101]\<rparr>]) rest"
  by auto

lemma decide_silent:
  "nucleus s = SCHWA \<Longrightarrow> past \<noteq> [] \<Longrightarrow> \<not> seg_dagesh s \<Longrightarrow> \<not> silenced \<Longrightarrow>
   decide_shevas silenced past (s # rest) =
     decide_shevas True
       (butlast past @ [(last past)\<lparr>coda := coda (last past) @ onset s\<rparr>] @ [s\<lparr>onset := [], nucleus := []\<rparr>])
       rest"
  by simp

lemma decide_shevas_inv:
  "passed silenced past \<Longrightarrow> list_all (seg_ok (SCHWA # full_vowels)) rest \<Longrightarrow>
   (\<exists>sil. passed sil (decide_shevas silenced past rest)) \<and>
   length (decide_shevas silenced past rest) = length past + length rest \<and>
   all_consonants (decide_shevas silenced past rest) = all_consonants past @ all_consonants rest"
proof (induction silenced past rest rule: decide_shevas.induct)
  case (2 silenced past s rest)
  have s: "seg_ok (SCHWA # full_vowels) s" and rest: "list_all (seg_ok (SCHWA # full_vowels)) rest"
    using "2.prems"(2) by simp_all
  consider (vowel) "nucleus s \<noteq> SCHWA"
    | (na) "nucleus s = SCHWA" "past = [] \<or> (seg_dagesh s \<and> past \<noteq> []) \<or> silenced"
    | (silent) "nucleus s = SCHWA" "past \<noteq> []" "\<not> seg_dagesh s" "\<not> silenced"
    by blast
  then show ?case
  proof cases
    case vowel
    then show ?thesis using "2.IH"(1) passed_vowel [OF "2.prems"(1) s] rest
      by (simp add: all_consonants_def)
  next
    case na
    have "passed False (past @ [s\<lparr>nucleus := [101]\<rparr>])" by (rule passed_na [OF "2.prems"(1) s])
    then show ?thesis using "2.IH"(2) [OF _ refl refl] na rest unfolding decide_na [OF na]
      by (auto simp: all_consonants_def consonants_def)
  next
    case silent
    have p: "passed False past" using silent "2.prems"(1) by simp
    have "length past = Suc (length (butlast past))" using silent(2) by simp
    then show ?thesis using silent "2.IH"(3) [OF _ refl refl] passed_silent [OF p silent(2) s] rest
        all_consonants_silent [OF silent(2), of s]
      unfolding decide_silent [OF silent] by (simp add: all_consonants_def)
  qed
qed (auto simp: all_consonants_def)

lemma decide_shevas_no_loss:
  "passed silenced past \<Longrightarrow> list_all (seg_ok (SCHWA # full_vowels)) rest \<Longrightarrow>
   list_all (\<lambda>s. nucleus s = [] \<longrightarrow> coda s = []) past \<Longrightarrow>
   list_all (\<lambda>s. nucleus s = SCHWA \<longrightarrow> coda s = []) rest \<Longrightarrow>
   list_all (\<lambda>s. nucleus s = [] \<longrightarrow> coda s = []) (decide_shevas silenced past rest)"
proof (induction silenced past rest rule: decide_shevas.induct)
  case (2 silenced past s rest)
  have s: "seg_ok (SCHWA # full_vowels) s" and rest: "list_all (seg_ok (SCHWA # full_vowels)) rest"
    "list_all (\<lambda>s. nucleus s = SCHWA \<longrightarrow> coda s = []) rest" "nucleus s = SCHWA \<longrightarrow> coda s = []"
    using "2.prems"(2,4) by simp_all
  consider (vowel) "nucleus s \<noteq> SCHWA"
    | (na) "nucleus s = SCHWA" "past = [] \<or> (seg_dagesh s \<and> past \<noteq> []) \<or> silenced"
    | (silent) "nucleus s = SCHWA" "past \<noteq> []" "\<not> seg_dagesh s" "\<not> silenced"
    by blast
  then show ?case
  proof cases
    case vowel
    then have "nucleus s \<noteq> []" using s by (auto simp: seg_ok_def dest: vowel_nonempty)
    then show ?thesis using vowel "2.IH"(1) passed_vowel [OF "2.prems"(1) s] rest "2.prems"(3) by simp
  next
    case na
    have "passed False (past @ [s\<lparr>nucleus := [101]\<rparr>])" by (rule passed_na [OF "2.prems"(1) s])
    then show ?thesis using "2.IH"(2) [OF _ refl refl] na rest "2.prems"(3) unfolding decide_na [OF na]
      by auto
  next
    case silent
    have p: "passed False past" using silent "2.prems"(1) by simp
    have last: "nucleus (last past) \<noteq> []" using p silent(2) by (simp add: passed_def)
    have "list_all (\<lambda>s. nucleus s = [] \<longrightarrow> coda s = [])
        (butlast past @ [(last past)\<lparr>coda := coda (last past) @ onset s\<rparr>] @ [s\<lparr>onset := [], nucleus := []\<rparr>])"
      using "2.prems"(3) last rest(3) silent(1) by (auto simp: list_all_iff dest: in_set_butlastD)
    then show ?thesis using silent "2.IH"(3) [OF _ refl refl] passed_silent [OF p silent(2) s] rest
      unfolding decide_silent [OF silent] by simp
  qed
qed simp

lemma merge_is_filter:
  "list_all decided r \<Longrightarrow> (r \<noteq> [] \<longrightarrow> nucleus (hd r) \<noteq> []) \<or> merged \<noteq> [] \<Longrightarrow>
   foldl merge_segment merged r = merged @ filter (\<lambda>s. nucleus s \<noteq> []) r"
proof (induction r arbitrary: merged)
  case (Cons s r)
  have "merge_segment merged s = merged @ filter (\<lambda>s. nucleus s \<noteq> []) [s]"
    using Cons.prems by (cases "merged = []") (auto simp: merge_segment_def decided_def)
  moreover have "merge_segment merged s \<noteq> []" by (simp add: merge_segment_def)
  ultimately show ?case using Cons.IH [of "merge_segment merged s"] Cons.prems by simp
qed simp

lemma passed_start: "passed False []"
  by (simp add: passed_def)

lemma resolve_is_filter:
  assumes "list_all (seg_ok (SCHWA # full_vowels)) segs"
  shows "resolve_sheva_and_qamats segs =
    filter (\<lambda>s. nucleus s \<noteq> []) (decide_shevas False [] segs)"
proof -
  obtain sil where "passed sil (decide_shevas False [] segs)"
    using decide_shevas_inv [OF passed_start assms] by blast
  then have "list_all decided (decide_shevas False [] segs)"
    and "decide_shevas False [] segs \<noteq> [] \<longrightarrow> nucleus (hd (decide_shevas False [] segs)) \<noteq> []"
    by (auto simp: passed_def)
  then show ?thesis by (simp add: resolve_sheva_and_qamats_def merge_is_filter)
qed

lemma resolve_nil [simp]: "resolve_sheva_and_qamats [] = []"
  by (simp add: resolve_sheva_and_qamats_def)

lemma resolve_ok:
  assumes "list_all (seg_ok (SCHWA # full_vowels)) segs"
  shows "list_all (seg_ok full_vowels) (resolve_sheva_and_qamats segs) \<and>
    (resolve_sheva_and_qamats segs = [] \<longleftrightarrow> segs = [])"
proof -
  obtain sil where p: "passed sil (decide_shevas False [] segs)"
    and len: "length (decide_shevas False [] segs) = length segs"
    using decide_shevas_inv [OF passed_start assms] by auto
  have "list_all (seg_ok full_vowels) (resolve_sheva_and_qamats segs)"
    using p by (auto simp: resolve_is_filter [OF assms] passed_def list_all_iff decided_def seg_ok_def)
  moreover have "resolve_sheva_and_qamats segs = [] \<longleftrightarrow> segs = []"
  proof (cases "segs = []")
    case False
    then have "decide_shevas False [] segs \<noteq> []" using len by auto
    then have "filter (\<lambda>s. nucleus s \<noteq> []) (decide_shevas False [] segs) \<noteq> []"
      using p by (cases "decide_shevas False [] segs") (auto simp: passed_def)
    then show ?thesis using False by (simp add: resolve_is_filter [OF assms])
  qed simp
  ultimately show ?thesis by simp
qed

lemma all_consonants_filter:
  "list_all (\<lambda>s. nucleus s = [] \<longrightarrow> consonants s = []) r \<Longrightarrow>
   all_consonants (filter (\<lambda>s. nucleus s \<noteq> []) r) = all_consonants r"
  by (induction r) (auto simp: all_consonants_def)

text \<open>
  \<^bold>\<open>C34\<close>: deciding which shevas of a Hebrew word are spoken loses no consonant and keeps their order:
  the consonants of a silent sheva close the syllable before it. The word must not end in a sheva
  that a bare consonant follows.
\<close>

theorem sheva_resolution_keeps_consonants:
  assumes "segs = word_to_segments nfc is_mark w"
    and "segs = [] \<or> nucleus (last segs) \<noteq> SCHWA \<or> coda (last segs) = []"
  shows "all_consonants (resolve_sheva_and_qamats segs) = all_consonants segs"
proof -
  have ok: "list_all (seg_ok (SCHWA # full_vowels)) segs" and inner: "no_inner_coda segs"
    using word_to_segments_ok assms(1) by auto
  have "list_all (\<lambda>s. nucleus s = SCHWA \<longrightarrow> coda s = []) segs"
    using inner assms(2) by (cases segs rule: rev_cases) (auto simp: no_inner_coda_def list_all_iff)
  then have codas: "list_all (\<lambda>s. nucleus s = [] \<longrightarrow> coda s = []) (decide_shevas False [] segs)"
    by (intro decide_shevas_no_loss [OF passed_start ok]) simp_all
  obtain sil where p: "passed sil (decide_shevas False [] segs)"
    and eq: "all_consonants (decide_shevas False [] segs) = all_consonants segs"
    using decide_shevas_inv [OF passed_start ok] by (auto simp: all_consonants_def)
  have "list_all (\<lambda>s. nucleus s = [] \<longrightarrow> consonants s = []) (decide_shevas False [] segs)"
    using p codas by (auto simp: passed_def decided_def list_all_iff consonants_def)
  then show ?thesis by (simp add: resolve_is_filter [OF ok] all_consonants_filter eq)
qed

text \<open>A table for the examples: the points of the Hebrew block combine.\<close>

definition demo_mark :: "uchar \<Rightarrow> bool" where
  "demo_mark c \<longleftrightarrow> 0x591 \<le> c \<and> c \<le> 0x5C7"

theorem sheva_resolution_keeps_consonants_witness:
  "all_consonants (resolve_sheva_and_qamats
     (word_to_segments id demo_mark [MEM, HIRIQ, DALET, SHEVA, BET, QAMATS, RESH])) =
   [[109], [100], [118], [0x281]]"
proof -
  define segs where "segs = word_to_segments id demo_mark [MEM, HIRIQ, DALET, SHEVA, BET, QAMATS, RESH]"
  have segs: "segs = [new_segment [[109]] [105] False, new_segment [[100]] SCHWA False,
      (new_segment [[118]] [97] False)\<lparr>coda := [[0x281]]\<rparr>]"
    unfolding segs_def by code_simp
  have "all_consonants (resolve_sheva_and_qamats segs) = all_consonants segs"
    by (rule sheva_resolution_keeps_consonants [OF segs_def])
      (simp add: segs new_segment_def SCHWA_def)
  then show ?thesis
    by (simp add: segs_def [symmetric]) (simp add: segs all_consonants_def consonants_def new_segment_def)
qed

text \<open>
  A word that ends in a sheva and a bare consonant loses the consonant: the reading of
  \<^verbatim>\<open>bank\<close> (bet with patah, nun with sheva, qof) is \<^verbatim>\<open>ban\<close>. A consonant with a holam
  and no vav gets no vowel at all, so that the reading of \<^verbatim>\<open>kol\<close> is empty.
\<close>

lemma final_consonant_after_sheva_is_lost:
  "hebrew_word_to_ipa id demo_mark [BET, PATAH, DAGESH, NUN, SHEVA, QOF] = [98, STRESS, 97, 110]"
  by code_simp

lemma holam_without_vav_is_lost:
  "hebrew_word_to_ipa id demo_mark [KAF, HOLAM, DAGESH, LAMED] = []"
  by code_simp

subsection \<open>Writing the syllables\<close>

lemma phones_unstressed: "p \<in> set phones \<Longrightarrow> STRESS \<notin> set p \<and> hd SCHWA \<notin> set p"
  by (auto simp: phones_def STRESS_def GLOTTAL_def SCHWA_def)

definition plain_of :: "segment \<Rightarrow> str" where
  "plain_of s = segment_ipa False s"

lemma segment_unstressed:
  "seg_ok full_vowels s \<Longrightarrow> STRESS \<notin> set (plain_of s) \<and> hd SCHWA \<notin> set (plain_of s)"
  using phones_unstressed
  by (fastforce simp: plain_of_def segment_ipa_def seg_ok_def full_vowels_def STRESS_def SCHWA_def)

lemma enumerate_split_at:
  "i < length xs \<Longrightarrow>
   concat (map (\<lambda>(j, s). segment_ipa (j = i) s) (enumerate 0 xs)) =
     concat (map plain_of (take i xs)) @ segment_ipa True (xs ! i) @ concat (map plain_of (drop (Suc i) xs))"
proof -
  assume i: "i < length xs"
  have unst: "map (\<lambda>(j, s). segment_ipa (j = i) s) (enumerate n ys) = map plain_of ys"
    if "n + length ys \<le> i \<or> i < n" for n ys
    using that by (induction ys arbitrary: n) (auto simp: plain_of_def)
  have "xs = take i xs @ xs ! i # drop (Suc i) xs"
    using i by (rule id_take_nth_drop)
  then have "enumerate 0 xs = enumerate 0 (take i xs @ xs ! i # drop (Suc i) xs)" by simp
  also have "\<dots> = enumerate 0 (take i xs) @ (i, xs ! i) # enumerate (Suc i) (drop (Suc i) xs)"
    using i by (simp add: enumerate_append_eq del: append_take_drop_id)
  finally show ?thesis using i by (simp add: unst)
qed

lemma stress_index_bound: "segs \<noteq> [] \<Longrightarrow> stress_index segs < length segs"
  by (auto simp: stress_index_def split: list.splits)

fun realized :: "str \<Rightarrow> bool" where
  "realized [] = True"
| "realized (c # cs) \<longleftrightarrow> (c = GLOTTAL \<longrightarrow> vowel_follows cs) \<and> realized cs"

lemma vowel_follows_cases:
  "vowel_follows cs \<Longrightarrow>
   (\<exists>v r. cs = v # r \<and> v \<in> set spoken_vowels) \<or> (\<exists>v r. cs = STRESS # v # r \<and> v \<in> set spoken_vowels)"
  by (cases cs; cases "tl cs") (auto simp: vowel_follows_def split: if_splits)

lemma vowel_followsI:
  "v \<in> set spoken_vowels \<Longrightarrow> vowel_follows (v # r)"
  "v \<in> set spoken_vowels \<Longrightarrow> vowel_follows (STRESS # v # r)"
  by (auto simp: vowel_follows_def spoken_vowels_def STRESS_def SCHWA_def)

lemma not_special: "v \<in> set spoken_vowels \<Longrightarrow> v \<noteq> GLOTTAL \<and> v \<noteq> TIE_BAR" "STRESS \<noteq> GLOTTAL" "STRESS \<noteq> TIE_BAR"
  by (auto simp: spoken_vowels_def GLOTTAL_def TIE_BAR_def STRESS_def SCHWA_def)

lemma vowel_follows_strip: "vowel_follows cs \<Longrightarrow> vowel_follows (strip_unrealized_glottal_stops cs)"
  by (drule vowel_follows_cases) (auto simp: not_special vowel_followsI)

lemma vowel_follows_filter: "vowel_follows cs \<Longrightarrow> vowel_follows (filter (\<lambda>c. c \<noteq> TIE_BAR) cs)"
  by (drule vowel_follows_cases) (auto simp: not_special vowel_followsI)

lemma realized_strip: "realized (strip_unrealized_glottal_stops s)"
  by (induction s) (auto simp: vowel_follows_strip)

lemma realized_filter: "realized s \<Longrightarrow> realized (filter (\<lambda>c. c \<noteq> TIE_BAR) s)"
  by (induction s) (auto simp: vowel_follows_filter)

lemma strip_subset: "set (strip_unrealized_glottal_stops s) \<subseteq> set s"
  by (induction s) auto

lemma strip_around_stress:
  "v \<in> set spoken_vowels \<Longrightarrow>
   \<exists>p. strip_unrealized_glottal_stops (pre @ STRESS # v # post) =
         p @ STRESS # v # strip_unrealized_glottal_stops post \<and> set p \<subseteq> set pre"
proof (induction pre)
  case Nil
  then show ?case by (simp add: not_special)
next
  case (Cons c pre)
  then obtain p where "strip_unrealized_glottal_stops (pre @ STRESS # v # post) =
      p @ STRESS # v # strip_unrealized_glottal_stops post" "set p \<subseteq> set pre" by blast
  then have "strip_unrealized_glottal_stops ((c # pre) @ STRESS # v # post) =
        (c # p) @ STRESS # v # strip_unrealized_glottal_stops post \<or>
      strip_unrealized_glottal_stops ((c # pre) @ STRESS # v # post) =
        p @ STRESS # v # strip_unrealized_glottal_stops post"
    by simp
  moreover have "set (c # p) \<subseteq> set (c # pre)" "set p \<subseteq> set (c # pre)"
    using \<open>set p \<subseteq> set pre\<close> by auto
  ultimately show ?case by blast
qed

lemma syllabify_shape:
  assumes ok: "list_all (seg_ok full_vowels) segs" and ne: "segs \<noteq> []"
  obtains pre v post where "syllabify_to_ipa segs = pre @ STRESS # v # post" "v \<in> set (lit ''aeiou'')"
    "STRESS \<notin> set (pre @ post)" "hd SCHWA \<notin> set (pre @ post)"
proof -
  define i where "i = stress_index segs"
  have i: "i < length segs" unfolding i_def by (rule stress_index_bound [OF ne])
  define s where "s = segs ! i"
  have s: "seg_ok full_vowels s" using ok i by (simp add: s_def list_all_length)
  have clean: "STRESS \<notin> set (concat (map plain_of xs)) \<and> hd SCHWA \<notin> set (concat (map plain_of xs))"
    if "set xs \<subseteq> set segs" for xs
    using that ok segment_unstressed by (auto simp: list_all_iff)
  obtain v where v: "nucleus s = [v]" "v \<in> set (lit ''aeiou'')"
    using s by (auto simp: seg_ok_def full_vowels_def)
  have parts: "STRESS \<notin> set (concat (onset s) @ concat (coda s)) \<and> hd SCHWA \<notin> set (concat (onset s) @ concat (coda s))"
    using segment_unstressed [OF s] by (auto simp: plain_of_def segment_ipa_def)
  show thesis
  proof (rule that)
    show "syllabify_to_ipa segs =
        (concat (map plain_of (take i segs)) @ concat (onset s)) @ STRESS # v #
          (concat (coda s) @ concat (map plain_of (drop (Suc i) segs)))"
      unfolding syllabify_to_ipa_def i_def [symmetric] enumerate_split_at [OF i] s_def [symmetric]
      by (simp add: segment_ipa_def v)
    show "v \<in> set (lit ''aeiou'')" by (rule v)
  next
    show "STRESS \<notin> set ((concat (map plain_of (take i segs)) @ concat (onset s)) @
        concat (coda s) @ concat (map plain_of (drop (Suc i) segs)))"
      using clean [of "take i segs"] clean [of "drop (Suc i) segs"] parts
      by (simp only: set_append Un_iff set_take_subset set_drop_subset) simp
    show "hd SCHWA \<notin> set ((concat (map plain_of (take i segs)) @ concat (onset s)) @
        concat (coda s) @ concat (map plain_of (drop (Suc i) segs)))"
      using clean [of "take i segs"] clean [of "drop (Suc i) segs"] parts
      by (simp only: set_append Un_iff set_take_subset set_drop_subset) simp
  qed
qed

definition well_read :: "str \<Rightarrow> bool" where
  "well_read ipa \<longleftrightarrow>
     (\<exists>pre v post. ipa = pre @ STRESS # v # post \<and> v \<in> set (lit ''aeiou'') \<and> STRESS \<notin> set (pre @ post)) \<and>
     hd SCHWA \<notin> set ipa \<and> TIE_BAR \<notin> set ipa \<and> realized ipa"

lemma well_readI:
  assumes "ipa = pre @ STRESS # v # post" "v \<in> set (lit ''aeiou'')" "STRESS \<notin> set (pre @ post)"
    "hd SCHWA \<notin> set (pre @ post)" "TIE_BAR \<notin> set (pre @ post)" "realized ipa"
  shows "well_read ipa"
proof -
  have "hd SCHWA \<noteq> STRESS" "hd SCHWA \<noteq> v" "TIE_BAR \<noteq> STRESS" "TIE_BAR \<noteq> v"
    using assms(2) by (auto simp: SCHWA_def STRESS_def TIE_BAR_def)
  then have "hd SCHWA \<notin> set ipa" "TIE_BAR \<notin> set ipa" using assms by simp_all
  then show ?thesis unfolding well_read_def using assms by blast
qed

text \<open>
  A Hebrew word without a vowel sign is read as nothing; the reading of every other word has
  exactly one stress mark, which stands before a full vowel, no undecided sheva and no tie bar, and
  every glottal stop in it is followed by a vowel.
\<close>

theorem hebrew_word_reading:
  "if word_to_segments nfc is_mark w = [] then hebrew_word_to_ipa nfc is_mark w = []
   else well_read (hebrew_word_to_ipa nfc is_mark w)"
proof (cases "word_to_segments nfc is_mark w = []")
  case True
  then show ?thesis by (simp add: hebrew_word_to_ipa_def syllabify_to_ipa_def)
next
  case False
  let ?segs = "resolve_sheva_and_qamats (word_to_segments nfc is_mark w)"
  let ?drop = "filter (\<lambda>c. c \<noteq> TIE_BAR)"
  have ok: "list_all (seg_ok full_vowels) ?segs" "?segs \<noteq> []"
    using resolve_ok word_to_segments_ok False by blast+
  obtain pre v post where s: "syllabify_to_ipa ?segs = pre @ STRESS # v # post" "v \<in> set (lit ''aeiou'')"
    "STRESS \<notin> set (pre @ post)" "hd SCHWA \<notin> set (pre @ post)"
    using syllabify_shape [OF ok] .
  have v: "v \<in> set spoken_vowels" "v \<noteq> hd SCHWA"
    using s(2) by (auto simp: spoken_vowels_def SCHWA_def)
  obtain p where p: "strip_unrealized_glottal_stops (pre @ STRESS # v # post) =
      p @ STRESS # v # strip_unrealized_glottal_stops post" "set p \<subseteq> set pre"
    using strip_around_stress [OF v(1)] by blast
  have ipa: "hebrew_word_to_ipa nfc is_mark w =
      ?drop p @ STRESS # v # ?drop (strip_unrealized_glottal_stops post)"
    unfolding hebrew_word_to_ipa_def s(1) p(1) using not_special v(1) by simp
  have real: "realized (hebrew_word_to_ipa nfc is_mark w)"
    unfolding hebrew_word_to_ipa_def by (intro realized_filter realized_strip)
  have "STRESS \<notin> set (?drop p @ ?drop (strip_unrealized_glottal_stops post))"
    "hd SCHWA \<notin> set (?drop p @ ?drop (strip_unrealized_glottal_stops post))"
    "TIE_BAR \<notin> set (?drop p @ ?drop (strip_unrealized_glottal_stops post))"
    using s(3,4) p(2) strip_subset [of post] by auto
  then have "well_read (hebrew_word_to_ipa nfc is_mark w)"
    by (rule well_readI [OF ipa s(2) _ _ _ real])
  then show ?thesis using False by simp
qed

end
