(* ===== verification/Nakdimon.thy ===== *)
theory Nakdimon
  imports HebrewIpa F32
begin

section \<open>Pointing Hebrew text\<close>

text \<open>
  \<^verbatim>\<open>crates/text/hebrew-phonemizer/src/chars.rs\<close>, \<^verbatim>\<open>nakdimon.rs\<close> and \<^verbatim>\<open>lib.rs\<close>: the character tables of
  the Nakdimon model, the checks on its output, the choice of a class per letter and the merge of
  the chosen points into the text. The inference session is the argument \<open>run\<close>; an output that
  is not a tensor of floats is an \<open>Inl\<close> with the reason, and \<open>show_shape\<close> renders a shape in
  messages. The theorems show that pointing a text changes nothing but its points, that every
  character has an id of the model, and that the class chosen is the best one the model knows.
\<close>

subsection \<open>Character tables\<close>

definition RAFE :: uchar where "RAFE = 0x5BF"
definition DAGESH_LETTER :: uchar where "DAGESH_LETTER = 0x5BC"
definition SHIN_YEMANIT :: uchar where "SHIN_YEMANIT = 0x5C1"
definition SHIN_SMALIT :: uchar where "SHIN_SMALIT = 0x5C2"

definition hebrew_letters :: "uchar list" where "hebrew_letters = [0x5D0..<0x5EB]"

definition niqqud_classes :: "uchar list" where
  "niqqud_classes = [RAFE] @ [0x5B0..<0x5BD] @ [0x5B7]"

definition sin_classes :: "uchar list" where "sin_classes = [RAFE, SHIN_YEMANIT, SHIN_SMALIT]"

definition dagesh_classes :: "uchar list" where "dagesh_classes = [RAFE, DAGESH_LETTER]"

definition PUNCTUATION :: str where
  "PUNCTUATION = [32, 33, 34, 39, 40, 41, 44, 45, 46, 58, 59, 63]"

definition valid_letters :: "uchar list" where "valid_letters = PUNCTUATION @ hebrew_letters"

definition is_valid_letter :: "uchar \<Rightarrow> bool" where
  "is_valid_letter c \<longleftrightarrow> c \<in> set PUNCTUATION \<or> (0x5D0 \<le> c \<and> c \<le> 0x5EA)"

definition is_niqqud :: "uchar \<Rightarrow> bool" where
  "is_niqqud c \<longleftrightarrow> (0x5B0 \<le> c \<and> c \<le> 0x5C7) \<and> c \<notin> set [0x5BE, 0x5C0, 0x5C3, 0x5C6]"

definition SPECIAL_TOKENS :: "uchar list" where "SPECIAL_TOKENS = lit ''HO5''"

definition model_chars :: "uchar list" where "model_chars = SPECIAL_TOKENS @ valid_letters"

definition char_to_id_map :: "(uchar \<times> nat) list" where
  "char_to_id_map = zip model_chars [1..<Suc (length model_chars)]"

definition normalize_char :: "uchar \<Rightarrow> uchar" where
  "normalize_char c =
     (if is_valid_letter c then c
      else if c = 10 \<or> c = 9 then 32
      else if c \<in> set [0x5BE, 0x2012, 0x2013, 0x2014, 0x2015, 0x2212] then 45
      else if c = 91 then 40
      else if c = 93 then 41
      else if c \<in> set [0xB4, 0x2018, 0x2019] then 39
      else if c \<in> set [0x201C, 0x201D, 0x5F4] then 34
      else if is_ascii_digit c then 53
      else if c = 0x2026 then 44
      else if c \<in> set [0x5F2, 0x5F0, 0x5F1] then 72
      else 79)"

subsection \<open>Which letters take which marks\<close>

definition can_dagesh :: "uchar \<Rightarrow> bool" where
  "can_dagesh c \<longleftrightarrow> c \<in> set
     [0x5D1, 0x5D2, 0x5D3, 0x5D4, 0x5D5, 0x5D6, 0x5D8, 0x5D9, 0x5DB, 0x5DC, 0x5DE, 0x5E0, 0x5E1, 0x5E4,
      0x5E6, 0x5E7, 0x5E9, 0x5EA, 0x5DA, 0x5E3]"

definition can_sin :: "uchar \<Rightarrow> bool" where "can_sin c \<longleftrightarrow> c = 0x5E9"

definition can_niqqud :: "uchar \<Rightarrow> bool" where
  "can_niqqud c \<longleftrightarrow> c \<in> set
     [0x5D0, 0x5D1, 0x5D2, 0x5D3, 0x5D4, 0x5D5, 0x5D6, 0x5D7, 0x5D8, 0x5D9, 0x5DB, 0x5DC, 0x5DE, 0x5E0,
      0x5E1, 0x5E2, 0x5E4, 0x5E6, 0x5E7, 0x5E8, 0x5E9, 0x5EA, 0x5DA, 0x5DF]"

text \<open>The mark of a class id at a position, if there is one: class 0 is the mask.\<close>

definition class_char :: "nat list \<Rightarrow> uchar list \<Rightarrow> nat \<Rightarrow> uchar list" where
  "class_char ids classes i =
     (case get_at ids i of
        None \<Rightarrow> []
      | Some k \<Rightarrow> if k = 0 then [] else (case get_at classes (k - 1) of None \<Rightarrow> [] | Some c \<Rightarrow> [c]))"

definition pointed_letter :: "nat list \<Rightarrow> nat list \<Rightarrow> nat list \<Rightarrow> nat \<times> uchar \<Rightarrow> str" where
  "pointed_letter niqqud_ids dagesh_ids sin_ids = (\<lambda>(i, c).
     [c] @ (if can_dagesh c then class_char dagesh_ids dagesh_classes i else [])
         @ (if can_sin c then class_char sin_ids sin_classes i else [])
         @ (if can_niqqud c then class_char niqqud_ids niqqud_classes i else []))"

definition merge_diacritics :: "str \<Rightarrow> nat list \<Rightarrow> nat list \<Rightarrow> nat list \<Rightarrow> str" where
  "merge_diacritics cs niqqud_ids dagesh_ids sin_ids =
     filter (\<lambda>c. c \<noteq> RAFE)
       (concat (map (pointed_letter niqqud_ids dagesh_ids sin_ids) (enumerate 0 cs)))"

subsection \<open>Reading the outputs of the model\<close>

definition nakdimon_error :: "str \<Rightarrow> dengjen_error" where
  "nakdimon_error why = InferenceError (lit ''Nakdimon inference failed: '' @ why)"

definition num_classes :: "(int list \<Rightarrow> str) \<Rightarrow> int list \<Rightarrow> nat \<Rightarrow> nat \<Rightarrow> nat dengjen_result" where
  "num_classes show_shape dims seq_len expected_classes =
     (if length dims \<noteq> 3 then
        Inl (nakdimon_error (lit ''expected a rank-3 output tensor, got shape '' @ show_shape dims))
      else
        (case get_at dims 2 of
           None \<Rightarrow> Inl (nakdimon_error (lit ''expected a rank-3 output tensor, got shape '' @ show_shape dims))
         | Some classes \<Rightarrow>
             if first_of dims \<noteq> Some 1 then
               Inl (nakdimon_error (lit ''expected batch size 1, model produced shape '' @ show_shape dims))
             else if get_at dims 1 \<noteq> Some (int seq_len) then
               Inl (nakdimon_error (lit ''expected output sequence length '' @ show_nat seq_len
                 @ lit '', model produced shape '' @ show_shape dims))
             else if classes < 0 then
               Inl (nakdimon_error (lit ''expected a non-negative class dimension, model produced shape ''
                 @ show_shape dims))
             else if nat classes \<noteq> expected_classes then
               Inl (nakdimon_error (lit ''expected '' @ show_nat expected_classes
                 @ lit '' classes, model produced shape '' @ show_shape dims))
             else Inr (nat classes)))"

definition argmax_per_position :: "f32 list \<Rightarrow> nat \<Rightarrow> nat \<Rightarrow> nat list" where
  "argmax_per_position data seq_len classes =
     map (\<lambda>pos. if (pos + 1) * classes \<le> length data
                then argmax_row (take classes (drop (pos * classes) data)) else 0) [0..<seq_len]"

definition remove_niqqud :: "str \<Rightarrow> str" where
  "remove_niqqud text = filter (\<lambda>c. \<not> is_niqqud c) text"

definition char_id :: "uchar \<Rightarrow> nat" where
  "char_id c = unwrap_or 0 (map_of char_to_id_map (normalize_char c))"

type_synonym nak_output = "str + int list \<times> f32 list"

definition head_ids ::
  "(int list \<Rightarrow> str) \<Rightarrow> nat \<Rightarrow> uchar list \<Rightarrow> int list \<times> f32 list \<Rightarrow> nat list dengjen_result" where
  "head_ids show_shape seq_len classes out =
     res_map (argmax_per_position (snd out) seq_len)
       (num_classes show_shape (fst out) seq_len (length classes + 1))"

definition diacritize ::
  "(f32 list \<Rightarrow> str + nak_output list) \<Rightarrow> (int list \<Rightarrow> str) \<Rightarrow> str \<Rightarrow> str dengjen_result" where
  "diacritize run show_shape input =
     (let text = remove_niqqud input; n = length text in
      if text = [] then Inr text
      else
        res_bind (res_map_err nakdimon_error (run (map (\<lambda>c. f_of_nat (char_id c)) text))) (\<lambda>outputs.
          case outputs of
            niqqud_out # dagesh_out # sin_out # _ \<Rightarrow>
              res_bind (res_map_err nakdimon_error niqqud_out) (\<lambda>n_out.
              res_bind (res_map_err nakdimon_error dagesh_out) (\<lambda>d_out.
              res_bind (res_map_err nakdimon_error sin_out) (\<lambda>s_out.
              res_bind (head_ids show_shape n niqqud_classes n_out) (\<lambda>niqqud_ids.
              res_bind (head_ids show_shape n dagesh_classes d_out) (\<lambda>dagesh_ids.
              res_map (\<lambda>sin_ids. merge_diacritics text niqqud_ids dagesh_ids sin_ids)
                (head_ids show_shape n sin_classes s_out))))))
          | _ \<Rightarrow> Inl (nakdimon_error
              (lit ''expected 3 output tensors (niqqud, dagesh, sin), model produced ''
                @ show_nat (length outputs)))))"

subsection \<open>From text to phonemes\<close>

definition already_diacritized :: "str \<Rightarrow> bool" where
  "already_diacritized text \<longleftrightarrow> list_ex is_niqqud text"

definition phonemes_from_diacritized ::
  "(str \<Rightarrow> str) \<Rightarrow> (uchar \<Rightarrow> bool) \<Rightarrow> str \<Rightarrow> str list" where
  "phonemes_from_diacritized nfc is_mark diacritized =
     (let ipa = hebrew_to_ipa nfc is_mark diacritized in if ipa = [] then [] else [ipa])"

definition text_to_hebrew_phonemes ::
  "(str \<Rightarrow> str) \<Rightarrow> (uchar \<Rightarrow> bool) \<Rightarrow> (str \<Rightarrow> str dengjen_result) \<Rightarrow> str \<Rightarrow> str list dengjen_result" where
  "text_to_hebrew_phonemes nfc is_mark engine text =
     res_map (phonemes_from_diacritized nfc is_mark)
       (if already_diacritized text then Inr text else engine text)"

subsection \<open>Properties\<close>

lemma class_char_niqqud:
  "list_all is_niqqud classes \<Longrightarrow> filter (\<lambda>c. \<not> is_niqqud c) (class_char ids classes i) = []"
  by (auto simp: class_char_def get_at_Some list_all_length split: option.splits)

lemma classes_are_niqqud:
  "list_all is_niqqud niqqud_classes" "list_all is_niqqud dagesh_classes" "list_all is_niqqud sin_classes"
  by (auto simp del: upt_rec_numeral simp: list_all_iff niqqud_classes_def dagesh_classes_def
      sin_classes_def is_niqqud_def RAFE_def DAGESH_LETTER_def SHIN_YEMANIT_def SHIN_SMALIT_def)

lemma filter_pointed_letter:
  "\<not> is_niqqud c \<Longrightarrow> filter (\<lambda>c. \<not> is_niqqud c) (pointed_letter n d s (i, c)) = [c]"
  by (simp add: pointed_letter_def class_char_niqqud classes_are_niqqud)

lemma remove_after_merge:
  assumes "list_all (\<lambda>c. \<not> is_niqqud c) cs"
  shows "remove_niqqud (merge_diacritics cs n d s) = cs"
proof -
  have rafe: "is_niqqud RAFE" by (simp add: is_niqqud_def RAFE_def)
  have "filter (\<lambda>c. \<not> is_niqqud c) (concat (map (pointed_letter n d s) (enumerate k cs))) = cs" for k
    using assms by (induction cs arbitrary: k) (auto simp: filter_pointed_letter)
  moreover have "filter (\<lambda>c. \<not> is_niqqud c) (filter (\<lambda>c. c \<noteq> RAFE) xs) = filter (\<lambda>c. \<not> is_niqqud c) xs" for xs
    using rafe by (auto simp: filter_filter intro: filter_cong)
  ultimately show ?thesis by (simp add: remove_niqqud_def merge_diacritics_def)
qed

lemma nakdimon_error_category [simp]: "category (nakdimon_error why) = CatInference"
  by (simp add: nakdimon_error_def category_def)

text \<open>Every failure of this component is an inference error.\<close>

abbreviation inference_errors :: "('a \<Rightarrow> bool) \<Rightarrow> 'a dengjen_result \<Rightarrow> bool" where
  "inference_errors P \<equiv> res_all (\<lambda>e. category e = CatInference) P"

lemma num_classes_inference: "inference_errors (\<lambda>n. n = expected) (num_classes sh dims seq expected)"
  unfolding num_classes_def by (intro res_all_rules) simp_all

lemma head_ids_inference: "inference_errors (\<lambda>_. True) (head_ids sh n classes out)"
  using num_classes_inference [of "length classes + 1" sh "fst out" n]
  by (cases "num_classes sh (fst out) n (length classes + 1)") (simp_all add: head_ids_def)

lemma head_ids_bind:
  "(\<And>ids. inference_errors P (f ids)) \<Longrightarrow> inference_errors P (res_bind (head_ids sh n classes out) f)"
  using head_ids_inference [of sh n classes out] by (cases "head_ids sh n classes out") auto

lemma head_ids_map:
  "(\<And>ids. P (f ids)) \<Longrightarrow> inference_errors P (res_map f (head_ids sh n classes out))"
  using head_ids_inference [of sh n classes out] by (cases "head_ids sh n classes out") auto

lemma nakdimon_bind:
  "(\<And>x. inference_errors P (f x)) \<Longrightarrow> inference_errors P (res_bind (res_map_err nakdimon_error r) f)"
  by (cases r) auto

text \<open>
  \<^bold>\<open>C35\<close>: pointing a Hebrew text changes nothing but its points: whatever the model answers, the
  pointed text has the characters of the given text in order once the points of both are removed.
  Every failure is an inference error.
\<close>

theorem diacritize_keeps_text:
  "res_all (\<lambda>e. category e = CatInference) (\<lambda>pointed. remove_niqqud pointed = remove_niqqud text)
     (diacritize run show_shape text)"
proof -
  have idem: "remove_niqqud [] = []"
    by (simp add: remove_niqqud_def)
  have plain: "list_all (\<lambda>c. \<not> is_niqqud c) (remove_niqqud text)"
    by (simp add: remove_niqqud_def list_all_iff)
  have heads: "inference_errors (\<lambda>pointed. remove_niqqud pointed = remove_niqqud text)
      (case outputs of
         n # d # s # rest \<Rightarrow> f n d s
       | _ \<Rightarrow> Inl (nakdimon_error msg))"
    if "\<And>n d s. inference_errors (\<lambda>pointed. remove_niqqud pointed = remove_niqqud text) (f n d s)"
    for outputs :: "nak_output list" and f msg
    using that by (auto split: list.splits)
  show ?thesis
    unfolding diacritize_def Let_def
    by (intro res_all_if nakdimon_bind heads head_ids_bind head_ids_map)
      (simp_all add: idem remove_after_merge [OF plain])
qed

text \<open>
  The checks on an output of the model accept exactly the shape [1, length of the text,
  number of classes], so that each position has its own row of the data.
\<close>

theorem num_classes_accepts:
  "num_classes show_shape dims seq_len classes = Inr n \<longleftrightarrow>
     dims = [1, int seq_len, int classes] \<and> n = classes"
proof
  assume "num_classes show_shape dims seq_len classes = Inr n"
  then show "dims = [1, int seq_len, int classes] \<and> n = classes"
    by (auto simp: num_classes_def get_at_def length_Suc_conv numeral_3_eq_3 split: if_splits option.splits)
next
  assume "dims = [1, int seq_len, int classes] \<and> n = classes"
  then show "num_classes show_shape dims seq_len classes = Inr n"
    by (simp add: num_classes_def get_at_def)
qed

lemma char_ids_distinct: "distinct model_chars"
  by (auto simp del: upt_rec_numeral simp: model_chars_def valid_letters_def hebrew_letters_def
      SPECIAL_TOKENS_def PUNCTUATION_def)

lemma normalized_has_id: "normalize_char c \<in> set model_chars"
proof (cases "is_valid_letter c")
  case True
  then show ?thesis
    by (auto simp del: upt_rec_numeral simp: normalize_char_def is_valid_letter_def model_chars_def
        valid_letters_def hebrew_letters_def)
next
  case False
  have "{32, 45, 40, 41, 39, 34, 53, 44, 72, 79} \<subseteq> set model_chars"
    by (simp del: upt_rec_numeral add: model_chars_def valid_letters_def hebrew_letters_def
        SPECIAL_TOKENS_def PUNCTUATION_def)
  then show ?thesis using False unfolding normalize_char_def by (simp add: if_bool_eq_conj)
qed

text \<open>
  Every character of a text, known to the model or not, is sent to it under an id between 1
  and the size of the table, and the id names the normalized character; the fallback id 0 is never
  sent.
\<close>

theorem every_character_has_an_id:
  "1 \<le> char_id c \<and> char_id c \<le> 42 \<and> model_chars ! (char_id c - 1) = normalize_char c"
proof -
  obtain i where i: "i < length model_chars" "model_chars ! i = normalize_char c"
    using normalized_has_id by (metis in_set_conv_nth)
  have len: "length model_chars = 42"
    by (simp del: upt_rec_numeral add: model_chars_def valid_letters_def hebrew_letters_def
        SPECIAL_TOKENS_def PUNCTUATION_def)
  have "(normalize_char c, Suc i) \<in> set char_to_id_map"
    unfolding char_to_id_map_def in_set_zip using i by (intro exI [of _ i]) (simp del: upt_Suc)
  then have "map_of char_to_id_map (normalize_char c) = Some (Suc i)"
    by (intro map_of_is_SomeI) (simp_all add: char_to_id_map_def char_ids_distinct del: upt_Suc)
  then have "char_id c = Suc i" by (simp add: char_id_def)
  then show ?thesis using i len by simp
qed

text \<open>
  For every position of the text the class chosen is one the model scores, no class has a
  higher score there, and of equal scores the last wins.
\<close>

theorem argmax_is_best:
  assumes "length data = seq_len * classes" and "0 < classes" and "pos < seq_len"
    and "k = argmax_per_position data seq_len classes ! pos"
  shows "k < classes \<and>
    (\<forall>j<classes. total_le (data ! (pos * classes + j)) (data ! (pos * classes + k))) \<and>
    (\<forall>j. k < j \<and> j < classes \<longrightarrow> \<not> total_le (data ! (pos * classes + k)) (data ! (pos * classes + j)))"
proof -
  define row where "row = take classes (drop (pos * classes) data)"
  have "(pos + 1) * classes \<le> seq_len * classes" using assms(3) by (intro mult_le_mono1) simp
  then have fits: "(pos + 1) * classes \<le> length data" using assms(1) by simp
  then have len: "length row = classes" by (simp add: row_def)
  have row: "row ! j = data ! (pos * classes + j)" if "j < classes" for j
    using that fits by (simp add: row_def)
  have "k = argmax_row row"
    using assms(3,4) fits by (simp add: argmax_per_position_def row_def)
  then have "best_of (Some (k, row ! k)) row"
    using argmax_row_best [of row] len assms(2) by auto
  then show ?thesis by (auto simp: best_of_def len row)
qed

theorem argmax_is_best_witness:
  "argmax_per_position [F_Fin False 1, F_Fin False 2, F_Fin False 2, F_Fin False 0] 2 2 ! 0 < 2"
  using argmax_is_best [of "[F_Fin False 1, F_Fin False 2, F_Fin False 2, F_Fin False 0]" 2 2 0, OF _ _ _ refl]
  by simp

text \<open>
  Hebrew text becomes at most one sentence of phonemes and never an empty one; text that
  carries points is read as it is, without asking the model, and a failure is one of the model.
\<close>

theorem hebrew_sentences:
  "res_all (\<lambda>e. already_diacritized text = False \<and> engine text = Inl e)
     (\<lambda>sentences. length sentences \<le> 1 \<and> [] \<notin> set sentences \<and>
        (already_diacritized text = False \<or> sentences = phonemes_from_diacritized nfc is_mark text))
     (text_to_hebrew_phonemes nfc is_mark engine text)"
  by (cases "engine text")
    (auto simp: text_to_hebrew_phonemes_def phonemes_from_diacritized_def Let_def)

end
