(* ===== verification/Voices.thy ===== *)
theory Voices
  imports Runtime Synthesizer PiperStreaming Kokoro KokoroJa Melo EspeakShared Nakdimon Pinyin
begin

section \<open>Loaded voices\<close>

text \<open>
  What the backends put together: the constructors of their models
  (\<^verbatim>\<open>crates/dengjen/models/{piper,kokoro,melotts}\<close>, \<^verbatim>\<open>from_config_path\<close> and \<^verbatim>\<open>from_config\<close>), their
  implementations of the trait \<^verbatim>\<open>DengjenModel\<close>, and \<^verbatim>\<open>load_voice\<close>, which the front ends share. A model is
  a record of its voice state, its inference sessions and its phonemizer engines; its methods are a
  \<open>dengjen_model\<close> built from the definitions of the backend theories. What is not in the repository
  is one record \<open>voice_env\<close>: the disk, the parsers, ONNX Runtime, eSpeak-ng, libtashkeel, the Japanese
  analyser, Unicode tables and the features the program was built with. \<open>VoiceFiles\<close> and \<open>VoiceStates\<close>
  hold the theorems.
\<close>

subsection \<open>The environment\<close>

text \<open>
  A session takes its inputs by position or by name and answers named outputs in order. A
  \<^verbatim>\<open>HashMap\<close> of speakers iterates in an order of its own, \<open>ve_iterate\<close>.
\<close>

datatype session_inputs = Positional "tensor list" | Named "(str \<times> tensor) list"

record ('b, 's, 't, 'c) voice_env =
  ve_providers :: provider_features
  ve_features :: piper_features
  ve_japanese :: bool
  ve_onnx :: "('b, 's) onnx"
  ve_run :: "'s \<Rightarrow> session_inputs \<Rightarrow> str + (str \<times> tensor) list"
  ve_type_why :: str
  ve_shape_why :: str
  ve_elapsed_ms :: f32
  ve_read :: "path \<Rightarrow> str + str"
  ve_read_bytes :: "path \<Rightarrow> str + byte list"
  ve_open :: "path \<Rightarrow> std_error + str"
  ve_parse_json :: "str \<Rightarrow> str + json"
  ve_parse_piper :: "str \<Rightarrow> str + model_config"
  ve_parse_kokoro :: "str \<Rightarrow> std_error + raw_kokoro_voice_config"
  ve_parse_melo :: "str \<Rightarrow> std_error + raw_melo_voice_config"
  ve_espeak :: "'c espeak_library"
  ve_process :: process_env
  ve_create_tashkeel :: "unit \<Rightarrow> str + 't"
  ve_tashkeel :: "'t \<Rightarrow> str \<Rightarrow> str + str"
  ve_create_pinyin :: "path \<Rightarrow> pinyin_engine dengjen_result"
  ve_nfc :: "str \<Rightarrow> str"
  ve_is_mark :: "uchar \<Rightarrow> bool"
  ve_show_shape :: "int list \<Rightarrow> str"
  ve_nakdimon :: "'s \<Rightarrow> f32 list \<Rightarrow> str + nak_output list"
  ve_ja_dir :: "str option"
  ve_ja_load :: "str \<Rightarrow> (str \<Rightarrow> analysis) dictionary_load"
  ve_arrays :: array_ops
  ve_sin :: "f32 \<Rightarrow> f32"
  ve_iterate :: "(int \<Rightarrow> str option) \<Rightarrow> (int \<times> str) list"

definition iterates_entries :: "((int \<Rightarrow> str option) \<Rightarrow> (int \<times> str) list) \<Rightarrow> bool" where
  "iterates_entries it \<longleftrightarrow>
     (\<forall>m. finite (dom m) \<longrightarrow> map_of (it m) = m \<and> distinct (map fst (it m)))"

text \<open>The call of eSpeak-ng that the three backends make: language switches removed, stress kept. Other
  calls going on at the same time do not change it (theory \<open>EspeakShared\<close>).\<close>

definition espeak_port :: "'c espeak_library \<Rightarrow> process_env \<Rightarrow> str \<Rightarrow> str \<Rightarrow> str + str list" where
  "espeak_port el pr text language =
     res_map_err display_espeak_error
       (the (text_to_phonemes (espeak_alone el (init_espeakng el pr) language) text language None True False))"

definition espeak_feature ::
  "('b, 's, 't, 'c) voice_env \<Rightarrow> (str \<Rightarrow> str \<Rightarrow> str + str list) option" where
  "espeak_feature env = (if ft_espeak (ve_features env) then Some (espeak_port (ve_espeak env) (ve_process env)) else None)"

subsection \<open>Piper\<close>

record 't vits_commons =
  cm_voice :: piper_voice
  cm_tashkeel :: "'t option"
  cm_hebrew :: "(str \<Rightarrow> str dengjen_result) option"
  cm_pinyin :: "pinyin_engine option"

record ('t, 's) vits_model = "'t vits_commons" +
  vm_session :: 's

record ('t, 's) vits_streaming_model = "'t vits_commons" +
  sm_encoder :: 's
  sm_decoder :: 's

definition nakdimon_init_error :: "str \<Rightarrow> dengjen_error" where
  "nakdimon_init_error cause =
     InferenceError (lit ''Failed to initialize the Nakdimon inference session: '' @ cause)"

text \<open>The engine is its session, kept as the diacritizer that runs it.\<close>

definition create_nakdimon_engine ::
  "('b, 's, 't, 'c) voice_env \<Rightarrow> path \<Rightarrow> (str \<Rightarrow> str dengjen_result) dengjen_result" where
  "create_nakdimon_engine env model_path =
     res_bind (res_map_err nakdimon_init_error (ox_builder (ve_onnx env))) (\<lambda>b.
     res_map (\<lambda>s. diacritize (ve_nakdimon env s) (ve_show_shape env))
       (res_map_err nakdimon_init_error (ox_commit_from_file (ve_onnx env) b model_path)))"

definition vits_engines ::
  "('b, 's, 't, 'c) voice_env \<Rightarrow> model_config \<Rightarrow> piper_synthesis_config \<Rightarrow> path
     \<Rightarrow> 't vits_commons dengjen_result" where
  "vits_engines env cfg sc config_path =
     res_bind (create_tashkeel_engine (ve_features env) (ve_create_tashkeel env) cfg) (\<lambda>t.
     res_bind (create_hebrew_engine (ve_features env) (create_nakdimon_engine env) cfg config_path) (\<lambda>h.
     res_map (\<lambda>p. \<lparr>cm_voice = piper_voice_of cfg sc, cm_tashkeel = t, cm_hebrew = h, cm_pinyin = p\<rparr>)
       (create_pinyin_engine (ve_features env) (ve_create_pinyin env) cfg config_path)))"

definition vits_session :: "('b, 's, 't, 'c) voice_env \<Rightarrow> path \<Rightarrow> 's dengjen_result" where
  "vits_session env p =
     res_map_err session_init_error (create_inference_session (ve_providers env) (ve_onnx env) p)"

definition vits_from_config ::
  "('b, 's, 't, 'c) voice_env \<Rightarrow> model_config \<Rightarrow> piper_synthesis_config \<Rightarrow> path \<Rightarrow> path
     \<Rightarrow> ('t, 's) vits_model dengjen_result" where
  "vits_from_config env cfg sc config_path onnx_path =
     res_bind (vits_session env onnx_path) (\<lambda>s.
     res_map (\<lambda>c. vits_commons.extend c \<lparr>vm_session = s\<rparr>) (vits_engines env cfg sc config_path))"

text \<open>\<^verbatim>\<open>VitsModel::new\<close> of the library's users, who load the config themselves.\<close>

definition vits_new ::
  "('b, 's, 't, 'c) voice_env \<Rightarrow> path \<Rightarrow> path \<Rightarrow> ('t, 's) vits_model dengjen_result" where
  "vits_new env config_path onnx_path =
     res_bind (load_model_config (ve_read env) (ve_parse_piper env) config_path) (\<lambda>(cfg, sc).
       vits_from_config env cfg sc config_path onnx_path)"

definition vits_streaming_from_config ::
  "('b, 's, 't, 'c) voice_env \<Rightarrow> model_config \<Rightarrow> piper_synthesis_config \<Rightarrow> path \<Rightarrow> path \<Rightarrow> path
     \<Rightarrow> ('t, 's) vits_streaming_model dengjen_result" where
  "vits_streaming_from_config env cfg sc config_path encoder_path decoder_path =
     res_bind (vits_session env encoder_path) (\<lambda>enc.
     res_bind (vits_session env decoder_path) (\<lambda>dec.
     res_map (\<lambda>c. vits_commons.extend c \<lparr>sm_encoder = enc, sm_decoder = dec\<rparr>)
       (vits_engines env cfg sc config_path)))"

datatype ('t, 's) piper_model = Vits "('t, 's) vits_model" | VitsStreaming "('t, 's) vits_streaming_model"

definition piper_from_config_path ::
  "('b, 's, 't, 'c) voice_env \<Rightarrow> path \<Rightarrow> ('t, 's) piper_model dengjen_result" where
  "piper_from_config_path env config_path =
     res_bind (load_model_config (ve_read env) (ve_parse_piper env) config_path) (\<lambda>(cfg, sc).
     res_bind (vits_model_files cfg config_path) (\<lambda>files.
       case files of
         StreamingFiles enc dec \<Rightarrow>
           res_map VitsStreaming (vits_streaming_from_config env cfg sc config_path enc dec)
       | SingleFile onnx \<Rightarrow> res_map Vits (vits_from_config env cfg sc config_path onnx)))"

text \<open>The default methods of \<^verbatim>\<open>VitsModelCommons\<close>, for both models.\<close>

definition vits_phonemize ::
  "('b, 's, 't, 'c) voice_env \<Rightarrow> ('t, 'z) vits_commons_scheme \<Rightarrow> str \<Rightarrow> str list dengjen_result" where
  "vits_phonemize env m text =
     do_phonemize_text (ve_features env) (espeak_port (ve_espeak env) (ve_process env)) (ve_tashkeel env) (cm_tashkeel m)
       (text_to_hebrew_phonemes (ve_nfc env) (ve_is_mark env)) (cm_hebrew m)
       text_to_pinyin_phonemes (cm_pinyin m) (pv_config (cm_voice m)) text"

definition vits_model_methods ::
  "('b, 's, 't, 'c) voice_env \<Rightarrow> ('t, 's) vits_model \<Rightarrow> dengjen_model" where
  "vits_model_methods env m =
     (case (\<lambda>inputs. res_map (map snd) (ve_run env (vm_session m) (Positional inputs))) of run \<Rightarrow>
       \<lparr>audio_output_info = Inr (piper_audio_output_info (pv_config (cm_voice m))),
        phonemize_text = vits_phonemize env m,
        speak_batch = piper_speak_batch run (ve_type_why env) (ve_elapsed_ms env) (cm_voice m),
        speak_one_sentence = piper_speak_one_sentence run (ve_type_why env) (ve_elapsed_ms env) (cm_voice m),
        get_language = Inr (piper_language (pv_config (cm_voice m))),
        get_speakers = Inr (Some (ve_iterate env (pv_speaker_map (cm_voice m)))),
        own_name_to_id = Some (piper_speaker_name_to_id (cm_voice m)), supports_streaming_output = False,
        stream_synthesis = default_stream_synthesis\<rparr>)"

text \<open>The streaming model: an encoder, whose outputs a decoder turns into samples.\<close>

definition streaming_decoder ::
  "('b, 's, 't, 'c) voice_env \<Rightarrow> ('t, 's) vits_streaming_model \<Rightarrow> nd_array list \<Rightarrow> str + tensor list" where
  "streaming_decoder env m inputs =
     res_map (map snd) (ve_run env (sm_decoder m)
       (Positional (map (\<lambda>a. TensorF32 (nd_shape a) (nd_data a)) inputs)))"

definition streaming_infer_encoder ::
  "('b, 's, 't, 'c) voice_env \<Rightarrow> ('t, 's) vits_streaming_model \<Rightarrow> int list
     \<Rightarrow> encoder_outputs dengjen_result" where
  "streaming_infer_encoder env m ids =
     (case snapshot_scales_and_speaker (pv_synth_config (cm_voice m))
             (mc_num_speakers (pv_config (cm_voice m))) (resolve_default_speaker_id (pv_config (cm_voice m))) of
        (scales, sid) \<Rightarrow>
          res_bind (res_map_err inference_error
              (ve_run env (sm_encoder m) (Positional (build_vits_inputs ids scales sid))))
            (encoder_outputs_from_values (ve_type_why env) (ve_shape_why env)))"

definition streaming_infer ::
  "('b, 's, 't, 'c) voice_env \<Rightarrow> ('t, 's) vits_streaming_model \<Rightarrow> int list \<Rightarrow> audio dengjen_result" where
  "streaming_infer env m ids =
     res_bind (streaming_infer_encoder env m ids) (\<lambda>eo.
     res_map (\<lambda>xs. new_audio xs (mc_sample_rate (pv_config (cm_voice m))) (Some (ve_elapsed_ms env)))
       (infer_decoder (streaming_decoder env m) (ve_type_why env) eo))"

definition streaming_ids ::
  "('t, 'z) vits_commons_scheme \<Rightarrow> str \<Rightarrow> int \<times> int \<times> int \<Rightarrow> int list" where
  "streaming_ids m phonemes meta =
     (case meta of (pad, bos, eos) \<Rightarrow>
        map_phonemes_to_ids (mc_phoneme_id_map (pv_config (cm_voice m))) phonemes pad bos eos)"

text \<open>
  The items of a stream opened without a cancellation: every chunk but the last moves the chunker
  forward by at least one frame, so one item per frame and one more are enough to reach the end
  (\<open>streaming_fuel\<close>).
\<close>

definition streaming_items ::
  "('b, 's, 't, 'c) voice_env \<Rightarrow> ('t, 's) vits_streaming_model \<Rightarrow> encoder_outputs \<times> speech_streamer
     \<Rightarrow> samples dengjen_result list" where
  "streaming_items env m es =
     (case es of (eo, st) \<Rightarrow>
        drain (streamer_next (infer_decoder (streaming_decoder env m) (ve_type_why env) eo)
            (synthesize_chunk (ve_arrays env) (ve_sin env) (streaming_decoder env m) (ve_type_why env) eo))
          (Suc (nat (num_frames (st_chunker st)))) st)"

definition vits_streaming_methods ::
  "('b, 's, 't, 'c) voice_env \<Rightarrow> ('t, 's) vits_streaming_model \<Rightarrow> dengjen_model" where
  "vits_streaming_methods env m =
     \<lparr>audio_output_info = Inr (piper_audio_output_info (pv_config (cm_voice m))),
      phonemize_text = vits_phonemize env m,
      speak_batch = (\<lambda>batches. res_bind (get_meta_ids (pv_config (cm_voice m))) (\<lambda>meta.
        collect_map (\<lambda>phonemes. streaming_infer env m (streaming_ids m phonemes meta)) batches)),
      speak_one_sentence = (\<lambda>phonemes. res_bind (get_meta_ids (pv_config (cm_voice m))) (\<lambda>meta.
        streaming_infer env m (streaming_ids m phonemes meta))),
      get_language = Inr (piper_language (pv_config (cm_voice m))),
      get_speakers = Inr (Some (ve_iterate env (pv_speaker_map (cm_voice m)))),
      own_name_to_id = Some (piper_speaker_name_to_id (cm_voice m)), supports_streaming_output = True,
      stream_synthesis = (\<lambda>phonemes chunk_size chunk_padding.
        res_map (\<lambda>opened. case opened of None \<Rightarrow> [] | Some es \<Rightarrow> streaming_items env m es)
          (piper_stream_synthesis (\<lambda>inputs. ve_run env (sm_encoder m) (Positional inputs))
             (ve_type_why env) (ve_shape_why env) (cm_voice m) False phonemes chunk_size chunk_padding))\<rparr>"

subsection \<open>Kokoro\<close>

record 's kokoro_model =
  km_voice :: kokoro_voice
  km_session :: 's
  km_japanese :: "japanese_dictionary option"

definition wants_japanese :: "kokoro_voice_config \<Rightarrow> bool" where
  "wants_japanese cfg \<longleftrightarrow> list_ex (starts_with (lit ''j'')) (kc_voices cfg)"

definition kokoro_dictionary ::
  "('b, 's, 't, 'c) voice_env \<Rightarrow> kokoro_voice_config \<Rightarrow> japanese_dictionary option dengjen_result" where
  "kokoro_dictionary env cfg =
     (if ve_japanese env \<and> wants_japanese cfg
      then res_map Some (dictionary_from_env (ve_ja_load env) (ve_ja_dir env)) else Inr None)"

definition kokoro_model_from_config ::
  "('b, 's, 't, 'c) voice_env \<Rightarrow> kokoro_voice_config \<Rightarrow> 's kokoro_model dengjen_result" where
  "kokoro_model_from_config env cfg =
     res_bind (create_named_session (lit ''Kokoro'') (ve_providers env) (ve_onnx env) (kc_model_path cfg)) (\<lambda>s.
     res_bind (kokoro_from_config (load_vocab (ve_read env) (ve_parse_json env)) (ve_read_bytes env) cfg) (\<lambda>v.
     res_map (\<lambda>ja. \<lparr>km_voice = v, km_session = s, km_japanese = ja\<rparr>) (kokoro_dictionary env cfg)))"

definition kokoro_from_config_path ::
  "('b, 's, 't, 'c) voice_env \<Rightarrow> path \<Rightarrow> 's kokoro_model dengjen_result" where
  "kokoro_from_config_path env config_path =
     res_bind (kokoro_load_config (ve_open env) (ve_parse_kokoro env) config_path)
       (kokoro_model_from_config env)"

text \<open>What \<^verbatim>\<open>synthesize_token_chunk\<close> does with its session.\<close>

definition kokoro_run ::
  "('b, 's, 't, 'c) voice_env \<Rightarrow> 's \<Rightarrow> int list \<Rightarrow> f32 list \<Rightarrow> f32 \<Rightarrow> samples dengjen_result" where
  "kokoro_run env s token_ids style speed =
     res_bind (res_map_err (\<lambda>e. InferenceError (lit ''Kokoro inference failed: '' @ e))
       (ve_run env s (Positional [TensorI64 [1, length token_ids] token_ids,
          TensorF32 [1, length style] style, TensorF32 [1] [speed]]))) (\<lambda>outputs.
     res_bind (ok_or (InferenceError (lit ''Kokoro inference returned no outputs'')) (first_of outputs)) (\<lambda>out.
       case snd out of
         TensorF32 sh xs \<Rightarrow> Inr xs
       | TensorI64 sh xs \<Rightarrow> Inl (InferenceError (lit ''Failed to extract Kokoro output: '' @ ve_type_why env))))"

text \<open>Splitting the tokens always ends (\<open>kokoro_synthesis\<close>), so the value taken is there.\<close>

definition kokoro_speak ::
  "('b, 's, 't, 'c) voice_env \<Rightarrow> 's kokoro_model \<Rightarrow> str \<Rightarrow> audio dengjen_result" where
  "kokoro_speak env m phonemes = the (synthesize_phonemes (kokoro_run env (km_session m)) (km_voice m) phonemes)"

text \<open>The items of a stream opened without a cancellation; a chunk is never empty.\<close>

definition kokoro_items :: "kokoro_stream \<Rightarrow> samples dengjen_result list" where
  "kokoro_items st =
     (case st of EmptyStream \<Rightarrow> [] | Streaming s \<Rightarrow> drain kokoro_next (length (ks_samples s)) s)"

definition kokoro_methods :: "('b, 's, 't, 'c) voice_env \<Rightarrow> 's kokoro_model \<Rightarrow> dengjen_model" where
  "kokoro_methods env m =
     \<lparr>audio_output_info = Inr \<lparr>sample_rate = kk_sample_rate (km_voice m), num_channels = 1, sample_width = 2\<rparr>,
      phonemize_text = kokoro_phonemize_text (map_option dictionary_phonemize (km_japanese m))
        (espeak_feature env) (km_voice m),
      speak_batch = collect_map (kokoro_speak env m),
      speak_one_sentence = kokoro_speak env m,
      get_language = Inr None,
      get_speakers = Inr (Some (ve_iterate env (map_of (kk_speaker_map (km_voice m))))),
      own_name_to_id = None, supports_streaming_output = True,
      stream_synthesis = (\<lambda>phonemes chunk_size chunk_padding.
        res_map kokoro_items (kokoro_stream_synthesis (kokoro_speak env m) False phonemes chunk_size))\<rparr>"

subsection \<open>MeloTTS\<close>

record 's melo_model =
  mm_voice :: "pinyin_engine melo_voice"
  mm_session :: 's

definition melo_create_pinyin ::
  "('b, 's, 't, 'c) voice_env \<Rightarrow> path \<Rightarrow> pinyin_engine dengjen_result" where
  "melo_create_pinyin env model_dir =
     (if ft_pinyin (ve_features env) then ve_create_pinyin env model_dir
      else Inl (PhonemizationError (lit ''MeloTTS pinyin phonemization requires the `pinyin` feature, but it is disabled'')))"

definition melo_pinyin ::
  "('b, 's, 't, 'c) voice_env \<Rightarrow> pinyin_engine \<Rightarrow> (str \<Rightarrow> pinyin_token list list dengjen_result) option" where
  "melo_pinyin env e = (if ft_pinyin (ve_features env) then Some (text_to_pinyin_tokens e) else None)"

definition melo_session :: "('b, 's, 't, 'c) voice_env \<Rightarrow> path \<Rightarrow> 's dengjen_result" where
  "melo_session env model_path = create_named_session (lit ''MeloTTS'') (ve_providers env) (ve_onnx env) model_path"

definition melo_from_config_path ::
  "('b, 's, 't, 'c) voice_env \<Rightarrow> path \<Rightarrow> 's melo_model dengjen_result" where
  "melo_from_config_path env config_path =
     res_bind (melo_load_config (ve_open env) (ve_parse_melo env) config_path) (\<lambda>cfg.
     res_bind (create_backend (melo_create_pinyin env) (ml_phonemizer cfg)) (\<lambda>backend.
     res_map (\<lambda>s. \<lparr>mm_voice = melo_voice_of backend cfg, mm_session = s\<rparr>)
       (melo_session env (ml_model_path cfg))))"

definition melo_methods :: "('b, 's, 't, 'c) voice_env \<Rightarrow> 's melo_model \<Rightarrow> dengjen_model" where
  "melo_methods env m =
     (case (\<lambda>inputs. ve_run env (mm_session m) (Named inputs)) of run \<Rightarrow>
       \<lparr>audio_output_info = Inr \<lparr>sample_rate = ml_sample_rate (mv_config (mm_voice m)),
          num_channels = 1, sample_width = 2\<rparr>,
        phonemize_text = melo_phonemize_text (espeak_feature env) (melo_pinyin env) (mm_voice m),
        speak_batch = melo_speak_batch run (ve_type_why env) (mm_voice m),
        speak_one_sentence = melo_speak_one_sentence run (ve_type_why env) (mm_voice m),
        get_language = Inr None,
        get_speakers = Inr (Some (ve_iterate env (mv_speaker_map (mm_voice m)))),
        own_name_to_id = None, supports_streaming_output = False,
        stream_synthesis = default_stream_synthesis\<rparr>)"

subsection \<open>Any voice\<close>

datatype ('t, 's) loaded_voice =
    PiperVoice "('t, 's) piper_model"
  | KokoroVoice "'s kokoro_model"
  | MeloVoice "'s melo_model"

text \<open>\<^verbatim>\<open>load_voice\<close> of the front ends, with all three backends built in.\<close>

definition load_any_voice ::
  "('b, 's, 't, 'c) voice_env \<Rightarrow> path \<Rightarrow> ('t, 's) loaded_voice dengjen_result" where
  "load_any_voice env config_path =
     load_voice_with (ve_read env) (ve_parse_json env) config_path (\<lambda>mt p.
       case mt of
         Piper \<Rightarrow> res_map PiperVoice (piper_from_config_path env p)
       | Kokoro \<Rightarrow> res_map KokoroVoice (kokoro_from_config_path env p)
       | MeloTts \<Rightarrow> res_map MeloVoice (melo_from_config_path env p))"

fun voice_methods :: "('b, 's, 't, 'c) voice_env \<Rightarrow> ('t, 's) loaded_voice \<Rightarrow> dengjen_model" where
  "voice_methods env (PiperVoice (Vits m)) = vits_model_methods env m"
| "voice_methods env (PiperVoice (VitsStreaming m)) = vits_streaming_methods env m"
| "voice_methods env (KokoroVoice m) = kokoro_methods env m"
| "voice_methods env (MeloVoice m) = melo_methods env m"

fun voice_default :: "('t, 's) loaded_voice \<Rightarrow> synthesis_config option" where
  "voice_default (PiperVoice (Vits m)) = piper_get_default (cm_voice m)"
| "voice_default (PiperVoice (VitsStreaming m)) = piper_get_default (cm_voice m)"
| "voice_default (KokoroVoice m) = kokoro_get_default (km_voice m)"
| "voice_default (MeloVoice m) = melo_get_default (mm_voice m)"

fun voice_fallback :: "('t, 's) loaded_voice \<Rightarrow> synthesis_config option" where
  "voice_fallback (PiperVoice (Vits m)) = piper_get_fallback (cm_voice m)"
| "voice_fallback (PiperVoice (VitsStreaming m)) = piper_get_fallback (cm_voice m)"
| "voice_fallback (KokoroVoice m) = kokoro_get_fallback (km_voice m)"
| "voice_fallback (MeloVoice m) = melo_get_fallback (mm_voice m)"

fun voice_set_fallback ::
  "synthesis_config \<Rightarrow> ('t, 's) loaded_voice \<Rightarrow> ('t, 's) loaded_voice dengjen_result" where
  "voice_set_fallback c (PiperVoice (Vits m)) =
     res_map (\<lambda>v. PiperVoice (Vits (m\<lparr>cm_voice := v\<rparr>))) (piper_set_fallback c (cm_voice m))"
| "voice_set_fallback c (PiperVoice (VitsStreaming m)) =
     res_map (\<lambda>v. PiperVoice (VitsStreaming (m\<lparr>cm_voice := v\<rparr>))) (piper_set_fallback c (cm_voice m))"
| "voice_set_fallback c (KokoroVoice m) =
     res_map (\<lambda>v. KokoroVoice (m\<lparr>km_voice := v\<rparr>)) (kokoro_set_fallback c (km_voice m))"
| "voice_set_fallback c (MeloVoice m) =
     res_map (\<lambda>v. MeloVoice (m\<lparr>mm_voice := v\<rparr>)) (melo_set_fallback c (mm_voice m))"

fun voice_knows :: "('t, 's) loaded_voice \<Rightarrow> int \<Rightarrow> bool" where
  "voice_knows (PiperVoice (Vits m)) sid = (pv_speaker_map (cm_voice m) sid \<noteq> None)"
| "voice_knows (PiperVoice (VitsStreaming m)) sid = (pv_speaker_map (cm_voice m) sid \<noteq> None)"
| "voice_knows (KokoroVoice m) sid = (map_of (kk_speaker_map (km_voice m)) sid \<noteq> None)"
| "voice_knows (MeloVoice m) sid = (mv_speaker_map (mm_voice m) sid \<noteq> None)"

text \<open>What the front ends hold of a voice.\<close>

definition voice_backend :: "('b, 's, 't, 'c) voice_env \<Rightarrow> ('t, 's) loaded_voice backend" where
  "voice_backend env = store_backend (voice_methods env) voice_default voice_fallback voice_set_fallback"

text \<open>The chunks of a sentence, as the realtime worker opens them.\<close>

definition voice_source ::
  "('b, 's, 't, 'c) voice_env \<Rightarrow> ('t, 's) loaded_voice \<Rightarrow> str \<Rightarrow> nat \<Rightarrow> nat \<Rightarrow> chunk_source" where
  "voice_source env v phonemes chunk_size chunk_padding =
     (case stream_synthesis (voice_methods env v) phonemes chunk_size chunk_padding of
        Inl e \<Rightarrow> SourceErr e
      | Inr items \<Rightarrow> SourceItems items None)"

lemma voice_knows_fun:
  "voice_knows (PiperVoice (Vits m)) = (\<lambda>sid. pv_speaker_map (cm_voice m) sid \<noteq> None)"
  "voice_knows (PiperVoice (VitsStreaming n)) = (\<lambda>sid. pv_speaker_map (cm_voice n) sid \<noteq> None)"
  "voice_knows (KokoroVoice k) = (\<lambda>sid. map_of (kk_speaker_map (km_voice k)) sid \<noteq> None)"
  "voice_knows (MeloVoice l) = (\<lambda>sid. mv_speaker_map (mm_voice l) sid \<noteq> None)"
  by (rule ext, simp)+

lemma res_map_succeeds: "(\<exists>y. res_map f r = Inr y) \<longleftrightarrow> (\<exists>x. r = Inr x)"
  by (cases r) simp_all

text \<open>Whatever backend a config selects, the voice keeps the contract that the front ends use.\<close>

interpretation voice_store: config_store voice_fallback voice_set_fallback voice_knows piper_names
proof
  fix c and v :: "('t, 's) loaded_voice"
  show "(\<exists>v'. voice_set_fallback c v = Inr v') \<longleftrightarrow> speaker_known (voice_knows v) c"
    by (cases v rule: voice_fallback.cases)
      (simp_all only: voice_set_fallback.simps res_map_succeeds voice_knows_fun piper_store.accepts
        kokoro_store.accepts melo_store.accepts)
next
  fix c and v v' :: "('t, 's) loaded_voice" assume "voice_set_fallback c v = Inr v'"
  then show "voice_knows v' = voice_knows v"
    by (cases v rule: voice_fallback.cases)
      (auto simp: res_conv fun_eq_iff dest!: piper_store.keeps_known kokoro_store.keeps_known melo_store.keeps_known)
next
  fix c and v v' :: "('t, 's) loaded_voice" assume "voice_set_fallback c v = Inr v'"
  then show "\<exists>c'. voice_fallback v' = Some c' \<and>
      (\<forall>n x. n \<in> piper_names \<and> parameters c n = Some x \<longrightarrow> parameters c' n = Some x) \<and>
      (speaker c' = speaker c \<or>
       speaker c = None \<and> (\<exists>c0. voice_fallback v = Some c0 \<and> speaker c' = speaker c0))"
    by (cases v rule: voice_fallback.cases)
      (auto simp: res_conv dest!: piper_store.reads_back kokoro_store.reads_back melo_store.reads_back)
qed

end
