(* ===== verification/VoiceFiles.thy ===== *)
theory VoiceFiles
  imports Voices
begin

section \<open>The files of a voice\<close>

text \<open>
  What \<open>Voices\<close> reads when it loads a voice, compared between two disks: which paths the answer can
  depend on, with the concrete environments that the examples use.
\<close>

subsection \<open>What loading reads\<close>

text \<open>
  What loading a voice asks of the disk: texts, style tables, models, phonemizer directories and the
  directory of a Japanese dictionary.
\<close>

record ('b, 's) voice_disk =
  dk_read :: "path \<Rightarrow> str + str"
  dk_read_bytes :: "path \<Rightarrow> str + byte list"
  dk_open :: "path \<Rightarrow> std_error + str"
  dk_commit :: "'b \<Rightarrow> path \<Rightarrow> str + 's"
  dk_pinyin :: "path \<Rightarrow> pinyin_engine dengjen_result"
  dk_ja_load :: "path \<Rightarrow> (str \<Rightarrow> analysis) dictionary_load"

definition with_disk ::
  "('b, 's) voice_disk \<Rightarrow> ('b, 's, 't, 'c) voice_env \<Rightarrow> ('b, 's, 't, 'c) voice_env" where
  "with_disk d env =
     env\<lparr>ve_read := dk_read d, ve_read_bytes := dk_read_bytes d, ve_open := dk_open d,
         ve_onnx := (ve_onnx env)\<lparr>ox_commit_from_file := dk_commit d\<rparr>, ve_create_pinyin := dk_pinyin d,
         ve_ja_load := dk_ja_load d\<rparr>"

definition same_files :: "(path \<Rightarrow> bool) \<Rightarrow> ('b, 's) voice_disk \<Rightarrow> ('b, 's, 't, 'c) voice_env \<Rightarrow> bool" where
  "same_files P d env \<longleftrightarrow>
     (\<forall>q. P q \<longrightarrow> dk_read d q = ve_read env q \<and> dk_read_bytes d q = ve_read_bytes env q \<and>
        dk_open d q = ve_open env q \<and> (\<forall>b. dk_commit d b q = ox_commit_from_file (ve_onnx env) b q) \<and>
        dk_pinyin d q = ve_create_pinyin env q \<and> dk_ja_load d q = ve_ja_load env q)"

definition own_files :: "path \<Rightarrow> path \<Rightarrow> bool" where
  "own_files config_path q \<longleftrightarrow> q = config_path \<or> below (config_dir config_path) q"

lemma res_bind_cong [fundef_cong]:
  "r = r' \<Longrightarrow> (\<And>x. r' = Inr x \<Longrightarrow> f x = g x) \<Longrightarrow> res_bind r f = res_bind r' g"
  by (cases r') simp_all

lemma with_disk_simps [simp]:
  "ve_read (with_disk d env) = dk_read d" "ve_read_bytes (with_disk d env) = dk_read_bytes d"
  "ve_open (with_disk d env) = dk_open d" "ve_create_pinyin (with_disk d env) = dk_pinyin d"
  "ve_onnx (with_disk d env) = (ve_onnx env)\<lparr>ox_commit_from_file := dk_commit d\<rparr>"
  "ve_providers (with_disk d env) = ve_providers env" "ve_features (with_disk d env) = ve_features env"
  "ve_japanese (with_disk d env) = ve_japanese env" "ve_parse_json (with_disk d env) = ve_parse_json env"
  "ve_parse_kokoro (with_disk d env) = ve_parse_kokoro env" "ve_parse_melo (with_disk d env) = ve_parse_melo env"
  "ve_ja_dir (with_disk d env) = ve_ja_dir env" "ve_ja_load (with_disk d env) = dk_ja_load d"
  by (simp_all add: with_disk_def)

lemma named_session_file:
  "(\<And>b. c b p = ox_commit_from_file ox b p) \<Longrightarrow>
     create_named_session n ft (ox\<lparr>ox_commit_from_file := c\<rparr>) p = create_named_session n ft ox p"
  by (simp add: create_named_session_def cong: res_bind_cong)

lemma style_file:
  "(\<And>q. below dir q \<Longrightarrow> rd q = rd' q) \<Longrightarrow> load_voice rd dir v = load_voice rd' dir v"
proof (cases "is_plain_file_stem v")
  case True
  assume same: "\<And>q. below dir q \<Longrightarrow> rd q = rd' q"
  have "below dir (path_join dir (v @ lit ''.bin''))"
    unfolding below_def voice_file_in_voices_dir [OF True] by simp
  then have "rd (path_join dir (v @ lit ''.bin'')) = rd' (path_join dir (v @ lit ''.bin''))" by (rule same)
  with True show ?thesis by (simp add: load_voice_def)
qed (simp add: load_voice_def)

lemma style_files:
  "(\<And>q. below dir q \<Longrightarrow> rd q = rd' q) \<Longrightarrow> load_voice_styles rd dir vs m = load_voice_styles rd' dir vs m"
proof (induction vs arbitrary: m)
  case (Cons v vs)
  from style_file [of dir rd rd' v] Cons show ?case by (simp split: sum.split)
qed simp

lemma kokoro_config_files:
  "kokoro_load_config op parse p = Inr cfg \<Longrightarrow>
     below (config_dir p) (kc_model_path cfg) \<and> below (config_dir p) (kc_voices_dir cfg) \<and>
     below (config_dir p) (kc_vocab_path cfg)"
  by (auto simp: kokoro_load_config_def res_conv split: if_splits intro: resolve_within_is_below)

lemma melo_config_file:
  "melo_load_config rd parse p = Inr cfg \<Longrightarrow> below (config_dir p) (ml_model_path cfg)"
  by (auto simp: melo_load_config_def res_conv intro: resolve_within_is_below)

definition melo_by_espeak :: "('b, 's, 't, 'c) voice_env \<Rightarrow> path \<Rightarrow> bool" where
  "melo_by_espeak env p \<longleftrightarrow>
     (case melo_load_config (ve_open env) (ve_parse_melo env) p of
        Inl _ \<Rightarrow> True
      | Inr cfg \<Rightarrow> (case ml_phonemizer cfg of EspeakPhonemizer _ \<Rightarrow> True | PinyinPhonemizer _ \<Rightarrow> False))"

text \<open>
  A Kokoro voice with a Japanese preset needs a dictionary, whose directory an environment variable
  names: the one file outside the config's directory. The other disk may lack it or hold another.
\<close>

definition dictionary_agrees :: "('b, 's) voice_disk \<Rightarrow> ('b, 's, 't, 'c) voice_env \<Rightarrow> path \<Rightarrow> bool" where
  "dictionary_agrees d env p \<longleftrightarrow>
     (case (kokoro_load_config (ve_open env) (ve_parse_kokoro env) p, ve_ja_dir env) of
        (Inr cfg, Some dir) \<Rightarrow> ve_japanese env \<and> wants_japanese cfg \<longrightarrow> dk_ja_load d dir = ve_ja_load env dir
      | _ \<Rightarrow> True)"

lemma dictionary_file:
  assumes "dictionary_agrees d env p" "kokoro_load_config (ve_open env) (ve_parse_kokoro env) p = Inr cfg"
  shows "kokoro_dictionary (with_disk d env) cfg = kokoro_dictionary env cfg"
  using assms by (auto simp: dictionary_agrees_def kokoro_dictionary_def dictionary_from_env_def split: option.splits)

text \<open>
  \<^bold>\<open>C12\<close>: loading a Kokoro voice, or a MeloTTS voice that uses eSpeak, reads only its config, what lies below
  the config's directory, and, for a Kokoro voice with a Japanese preset, the dictionary that the
  environment names: on two disks that agree on these, the same voice or the same error comes out,
  whatever paths the config names.
\<close>

theorem voices_load_from_their_directory:
  assumes "same_files (own_files config_path) d env"
  shows "(dictionary_agrees d env config_path \<longrightarrow>
      kokoro_from_config_path (with_disk d env) config_path = kokoro_from_config_path env config_path) \<and>
    (melo_by_espeak env config_path \<longrightarrow>
      melo_from_config_path (with_disk d env) config_path = melo_from_config_path env config_path)"
proof (intro conjI impI)
  have own: "dk_open d config_path = ve_open env config_path"
    using assms by (simp add: same_files_def own_files_def)
  have at: "dk_read d q = ve_read env q" "dk_read_bytes d q = ve_read_bytes env q"
    "dk_commit d b q = ox_commit_from_file (ve_onnx env) b q" if "below (config_dir config_path) q" for q b
    using assms that by (auto simp: same_files_def own_files_def)
  have cfg: "kokoro_load_config (dk_open d) (ve_parse_kokoro env) config_path =
      kokoro_load_config (ve_open env) (ve_parse_kokoro env) config_path"
    by (simp add: kokoro_load_config_def own)
  have model: "kokoro_model_from_config (with_disk d env) c = kokoro_model_from_config env c"
    if "dictionary_agrees d env config_path" "kokoro_load_config (ve_open env) (ve_parse_kokoro env) config_path = Inr c" for c
  proof -
    note files = kokoro_config_files [OF that(2)]
    have v: "load_vocab (dk_read d) (ve_parse_json env) (kc_vocab_path c) =
        load_vocab (ve_read env) (ve_parse_json env) (kc_vocab_path c)"
      using files by (simp add: load_vocab_def at)
    have s: "load_voice_styles (dk_read_bytes d) (kc_voices_dir c) vs m =
        load_voice_styles (ve_read_bytes env) (kc_voices_dir c) vs m" for vs m
      using files by (intro style_files at) (blast intro: below_trans)
    have m: "create_named_session n ft ((ve_onnx env)\<lparr>ox_commit_from_file := dk_commit d\<rparr>) (kc_model_path c) =
        create_named_session n ft (ve_onnx env) (kc_model_path c)" for n ft
      using files by (intro named_session_file at) simp
    show ?thesis
      by (simp add: kokoro_model_from_config_def dictionary_file [OF that] kokoro_from_config_def m v s)
  qed
  show "kokoro_from_config_path (with_disk d env) config_path = kokoro_from_config_path env config_path"
    if "dictionary_agrees d env config_path"
    unfolding kokoro_from_config_path_def by (simp add: cfg model [OF that] cong: res_bind_cong)
  assume espeak: "melo_by_espeak env config_path"
  have mcfg: "melo_load_config (dk_open d) (ve_parse_melo env) config_path =
      melo_load_config (ve_open env) (ve_parse_melo env) config_path"
    by (simp add: melo_load_config_def own)
  have rest: "create_backend (melo_create_pinyin (with_disk d env)) (ml_phonemizer c) =
        create_backend (melo_create_pinyin env) (ml_phonemizer c) \<and>
      create_named_session n ft ((ve_onnx env)\<lparr>ox_commit_from_file := dk_commit d\<rparr>) (ml_model_path c) =
        create_named_session n ft (ve_onnx env) (ml_model_path c)"
    if "melo_load_config (ve_open env) (ve_parse_melo env) config_path = Inr c" for c n ft
    using espeak that melo_config_file [OF that]
    by (auto simp: melo_by_espeak_def create_backend_def split: phonemizer_config.splits
        intro!: named_session_file at)
  show "melo_from_config_path (with_disk d env) config_path = melo_from_config_path env config_path"
    unfolding melo_from_config_path_def melo_session_def by (simp add: mcfg rest cong: res_bind_cong)
qed

text \<open>A small environment: one Kokoro and one MeloTTS config, sessions that answer two samples.\<close>

definition demo_raw_kokoro :: raw_kokoro_voice_config where
  "demo_raw_kokoro =
     \<lparr>raw_model_type = lit ''kokoro'', raw_model_path = lit ''m.onnx'', raw_voices_dir = lit ''styles'',
      raw_vocab_path = lit ''vocab.json'', raw_sample_rate = 24000, raw_voices = [lit ''af'']\<rparr>"

definition demo_raw_melo :: raw_melo_voice_config where
  "demo_raw_melo =
     \<lparr>rm_sample_rate = 44100, rm_phonemizer = EspeakPhonemizer (lit ''en''), rm_phone_id_map = [],
      rm_tone_id_map = [], rm_speaker_id_map = [(lit ''EN'', 0)], rm_default_speaker_id = Some 0,
      rm_inference = \<lparr>mi_noise_scale = f_lit 1, mi_length_scale = f_lit 1, mi_noise_scale_w = f_lit 1\<rparr>,
      rm_model_path = lit ''m.onnx''\<rparr>"

definition demo_kokoro_json :: json where
  "demo_kokoro_json =
     JObject [(lit ''model_type'', JString (lit ''kokoro'')), (lit ''model'', JObject [(lit ''vocab'',
       JObject [(lit ''$'', JInteger 0), (lit ''a'', JInteger 1), (lit ''ab'', JInteger 2)])])]"

definition demo_voice_env :: "(unit, unit, unit, unit) voice_env" where
  "demo_voice_env =
     \<lparr>ve_providers = \<lparr>ft_cuda = False, ft_directml = False, ft_coreml = False\<rparr>,
      ve_features = \<lparr>ft_espeak = True, ft_tashkeel = True, ft_hebrew = True, ft_pinyin = True\<rparr>,
      ve_japanese = True,
      ve_onnx = \<lparr>ox_builder = Inr (), ox_with_providers = (\<lambda>_ _. Inr ()), ox_commit_from_file = (\<lambda>_ _. Inr ())\<rparr>,
      ve_run = (\<lambda>_ _. Inr [(lit ''y'', TensorF32 [2] [f_lit 1, f_lit 1])]),
      ve_type_why = [], ve_shape_why = [], ve_elapsed_ms = f_lit 1,
      ve_read = (\<lambda>_. Inr []), ve_read_bytes = (\<lambda>_. Inr (replicate EXPECTED_FILE_BYTES 0)),
      ve_open = (\<lambda>_. Inr []), ve_parse_json = (\<lambda>_. Inr demo_kokoro_json),
      ve_parse_piper = (\<lambda>_. Inr demo_config), ve_parse_kokoro = (\<lambda>_. Inr demo_raw_kokoro),
      ve_parse_melo = (\<lambda>_. Inr demo_raw_melo),
      ve_espeak = \<lparr>el_initialize = (\<lambda>_. 22050), el_set_voice = (\<lambda>_. True), el_start = (\<lambda>_. Some ()),
                   el_clause = (\<lambda>_ _ c. (lit ''ab'', CLAUSE_TYPE_SENTENCE, None))\<rparr>,
      ve_process = demo_process,
      ve_create_tashkeel = (\<lambda>_. Inr ()), ve_tashkeel = (\<lambda>_ t. Inr t),
      ve_create_pinyin = (\<lambda>_. Inl (OperationError [])),
      ve_nfc = id, ve_is_mark = (\<lambda>_. False), ve_show_shape = (\<lambda>_. []),
      ve_nakdimon = (\<lambda>_ _. Inl []), ve_ja_dir = None, ve_ja_load = (\<lambda>_. LoadPanicked),
      ve_arrays = \<lparr>slice_axis2 = (\<lambda>a _. a), slice_wave = back_slice\<rparr>, ve_sin = id,
      ve_iterate = (\<lambda>_. [])\<rparr>"

lemma demo_paths:
  "config_dir (lit ''v/c.json'') = lit ''v''"
  "resolve_within (lit ''v'') f (lit ''m.onnx'') = Inr (lit ''v/m.onnx'')"
  "resolve_within (lit ''v'') f (lit ''styles'') = Inr (lit ''v/styles'')"
  "resolve_within (lit ''v'') f (lit ''vocab.json'') = Inr (lit ''v/vocab.json'')"
  by (simp_all add: config_dir_def parent_path_def resolve_within_def core_resolve_within_def
      path_components_def is_absolute_def starts_with_def slash_def dot_def path_join_def)

lemma demo_vocab:
  "load_vocab (\<lambda>_. Inr []) (\<lambda>_. Inr demo_kokoro_json) p =
     Inr \<lparr>vc_map = [(lit ''$'', 0), (lit ''a'', 1), (lit ''ab'', 2)], vc_bos_id = 0, vc_max_token_chars = 2\<rparr>"
  by (simp add: load_vocab_def demo_kokoro_json_def vocab_object_def in_isize_def longest_key_def)

lemma demo_kokoro_config:
  "kokoro_load_config (\<lambda>_. Inr []) (\<lambda>_. Inr demo_raw_kokoro) (lit ''v/c.json'') =
     Inr \<lparr>kc_model_path = lit ''v/m.onnx'', kc_voices_dir = lit ''v/styles'', kc_vocab_path = lit ''v/vocab.json'',
          kc_sample_rate = 24000, kc_voices = [lit ''af'']\<rparr>"
  unfolding kokoro_load_config_def demo_paths by (simp add: demo_raw_kokoro_def demo_paths [simplified])

lemma demo_styles: "\<exists>vs. load_voice_styles (\<lambda>_. Inr (replicate EXPECTED_FILE_BYTES 0)) dir [lit ''af''] Map.empty = Inr vs"
proof -
  have "is_plain_file_stem (lit ''af'')"
    by (simp add: is_plain_file_stem_def path_components_def is_absolute_def starts_with_def slash_def)
  then show ?thesis by (simp add: load_voice_def)
qed

lemma demo_env:
  "ve_open demo_voice_env = (\<lambda>_. Inr [])" "ve_parse_kokoro demo_voice_env = (\<lambda>_. Inr demo_raw_kokoro)"
  "ve_read demo_voice_env = (\<lambda>_. Inr [])" "ve_parse_json demo_voice_env = (\<lambda>_. Inr demo_kokoro_json)"
  "ve_read_bytes demo_voice_env = (\<lambda>_. Inr (replicate EXPECTED_FILE_BYTES 0))"
  "ox_builder (ve_onnx demo_voice_env) = Inr ()" "ox_with_providers (ve_onnx demo_voice_env) fs b = Inr ()"
  "ox_commit_from_file (ve_onnx demo_voice_env) b p = Inr ()"
  "ve_run demo_voice_env s i = Inr [(lit ''y'', TensorF32 [2] [f_lit 1, f_lit 1])]"
  by (simp_all add: demo_voice_env_def)

lemma demo_kokoro_loads: "\<exists>m. kokoro_from_config_path demo_voice_env (lit ''v/c.json'') = Inr m"
proof -
  obtain vs where vs: "load_voice_styles (\<lambda>_. Inr (replicate EXPECTED_FILE_BYTES 0)) (lit ''v/styles'') [lit ''af''] Map.empty = Inr vs"
    using demo_styles by blast
  have "\<not> wants_japanese c" if "kc_voices c = [lit ''af'']" for c
    using that by (simp add: wants_japanese_def starts_with_def)
  then show ?thesis
    unfolding kokoro_from_config_path_def demo_env demo_kokoro_config
    by (simp add: demo_env kokoro_model_from_config_def create_named_session_def
      kokoro_from_config_def demo_vocab vs [simplified] kokoro_dictionary_def)
qed

lemma demo_melo_espeak: "melo_by_espeak demo_voice_env (lit ''v/c.json'')"
  by (auto simp: melo_by_espeak_def melo_load_config_def demo_voice_env_def demo_raw_melo_def res_conv
      split: sum.splits)

definition strict_disk :: "path \<Rightarrow> ('b, 's, 't, 'c) voice_env \<Rightarrow> ('b, 's) voice_disk" where
  "strict_disk p env =
     \<lparr>dk_read = (\<lambda>q. if own_files p q then ve_read env q else Inl (lit ''denied'')),
      dk_read_bytes = (\<lambda>q. if own_files p q then ve_read_bytes env q else Inl (lit ''denied'')),
      dk_open = (\<lambda>q. if own_files p q then ve_open env q else Inl (ForeignError (lit ''denied'') None)),
      dk_commit = (\<lambda>b q. if own_files p q then ox_commit_from_file (ve_onnx env) b q else Inl (lit ''denied'')),
      dk_pinyin = (\<lambda>q. if own_files p q then ve_create_pinyin env q else Inl (OperationError [])),
      dk_ja_load = (\<lambda>q. if own_files p q then ve_ja_load env q else LoadFailed (lit ''denied''))\<rparr>"

lemma strict_disk_agrees: "same_files (own_files p) (strict_disk p env) env"
  by (simp add: same_files_def strict_disk_def)

lemma demo_dictionary: "dictionary_agrees d demo_voice_env p"
  by (simp add: dictionary_agrees_def demo_voice_env_def split: sum.split)

theorem voices_load_from_their_directory_witness:
  "(\<exists>m. kokoro_from_config_path (with_disk (strict_disk (lit ''v/c.json'') demo_voice_env) demo_voice_env)
      (lit ''v/c.json'') = Inr m) \<and>
   melo_from_config_path (with_disk (strict_disk (lit ''v/c.json'') demo_voice_env) demo_voice_env) (lit ''v/c.json'')
     = melo_from_config_path demo_voice_env (lit ''v/c.json'')"
  using voices_load_from_their_directory [OF strict_disk_agrees, of "lit ''v/c.json''" demo_voice_env]
    demo_kokoro_loads demo_melo_espeak demo_dictionary by metis

text \<open>
  The paths of a phonemizer are not confined in the same way: an absolute path in a Piper config, or
  any path in a MeloTTS config, is opened as it stands.
\<close>

lemma with_absolute_file_name: "is_absolute x \<Longrightarrow> with_file_name p x = x"
  by (simp add: with_file_name_def path_join_def)

lemma phonemizer_files_unconfined:
  "ft_hebrew ft \<Longrightarrow> mc_phoneme_type cfg = Some PtHebrew \<Longrightarrow> mc_hebrew_model_path cfg = Some x \<Longrightarrow>
     is_absolute x \<Longrightarrow> create_hebrew_engine ft create cfg config_path = res_map Some (create x)"
  "ft_pinyin ft \<Longrightarrow> mc_phoneme_type cfg = Some PtPinyin \<Longrightarrow> mc_pinyin_model_dir cfg = Some x \<Longrightarrow>
     is_absolute x \<Longrightarrow> create_pinyin_engine ft create' cfg config_path = res_map Some (create' x)"
  "create_backend create' (PinyinPhonemizer x) = res_map PinyinBackend (create' x)"
  by (simp_all add: create_hebrew_engine_def create_pinyin_engine_def create_path_engine_def
      create_backend_def with_absolute_file_name)

end
