(* ===== verification/VoiceStates.thy ===== *)
theory VoiceStates
  imports VoiceFiles
begin

section \<open>Voices in use\<close>

text \<open>
  The states of a voice that was really loaded: what holds after any number of accepted settings, what can
  still fail when it speaks, how it phonemizes, and what a Kokoro voice streams in real time.
\<close>

subsection \<open>Settings and failures\<close>

text \<open>A voice after any number of accepted changes of its config.\<close>

inductive reconfigured :: "('t, 's) loaded_voice \<Rightarrow> ('t, 's) loaded_voice \<Rightarrow> bool" for v0 where
  as_loaded: "reconfigured v0 v0"
| config_set: "reconfigured v0 v \<Longrightarrow> voice_set_fallback c v = Inr v' \<Longrightarrow> reconfigured v0 v'"

text \<open>What loading establishes of a Kokoro voice: a style table for the default voice and every speaker.\<close>

definition has_style :: "voice_styles \<Rightarrow> str \<Rightarrow> bool" where
  "has_style vs n \<longleftrightarrow> (\<exists>t. vs n = Some t \<and> length t = MAX_TOKEN_LEN * STYLE_DIM)"

definition kokoro_ok :: "kokoro_voice \<Rightarrow> bool" where
  "kokoro_ok v \<longleftrightarrow> has_style (kk_styles v) (kk_default_voice v) \<and>
     (\<forall>(sid, n) \<in> set (kk_speaker_map v). has_style (kk_styles v) n)"

text \<open>And of a Piper voice: the engine that its phoneme type asks for.\<close>

definition vits_ok :: "('b, 's, 't, 'c) voice_env \<Rightarrow> ('t, 'z) vits_commons_scheme \<Rightarrow> bool" where
  "vits_ok env m \<longleftrightarrow>
     (\<exists>p. create_tashkeel_engine (ve_features env) (ve_create_tashkeel env) (pv_config (cm_voice m)) = Inr (cm_tashkeel m) \<and>
        create_hebrew_engine (ve_features env) (create_nakdimon_engine env) (pv_config (cm_voice m)) p = Inr (cm_hebrew m) \<and>
        create_pinyin_engine (ve_features env) (ve_create_pinyin env) (pv_config (cm_voice m)) p = Inr (cm_pinyin m))"

fun voice_ok :: "('b, 's, 't, 'c) voice_env \<Rightarrow> ('t, 's) loaded_voice \<Rightarrow> bool" where
  "voice_ok env (PiperVoice (Vits m)) = vits_ok env m"
| "voice_ok env (PiperVoice (VitsStreaming m)) = vits_ok env m"
| "voice_ok env (KokoroVoice m) = kokoro_ok (km_voice m)"
| "voice_ok env (MeloVoice m) = True"

lemma vits_engines_ok: "vits_engines env cfg sc p = Inr c \<Longrightarrow> vits_ok env (vits_commons.extend c z)"
  by (auto simp: vits_engines_def res_conv vits_ok_def vits_commons.extend_def piper_voice_of_def intro!: exI [of _ p])

lemma loaded_styles:
  assumes "load_voice_styles rd dir voices Map.empty = Inr vs" "n \<in> set voices"
  shows "has_style vs n"
  using load_voice_styles_tables [OF assms(1)] assms(2) by (fastforce simp: has_style_def)

lemma kokoro_from_config_ok: "kokoro_from_config vc rd cfg = Inr v \<Longrightarrow> kokoro_ok v"
proof -
  assume "kokoro_from_config vc rd cfg = Inr v"
  then obtain vs dflt where vs: "load_voice_styles rd (kc_voices_dir cfg) (kc_voices cfg) Map.empty = Inr vs"
    and d: "first_of (kc_voices cfg) = Some dflt" and v: "kk_styles v = vs" "kk_default_voice v = dflt"
      "kk_speaker_map v = zip (map int [0..<length (kc_voices cfg)]) (kc_voices cfg)"
    by (auto simp: kokoro_from_config_def res_conv)
  have "dflt \<in> set (kc_voices cfg)" using d by (cases "kc_voices cfg") auto
  with loaded_styles [OF vs] show ?thesis by (auto simp: kokoro_ok_def v dest: set_zip_rightD)
qed

lemma piper_loaded_ok: "piper_from_config_path env p = Inr m \<Longrightarrow> voice_ok env (PiperVoice m)"
proof -
  assume "piper_from_config_path env p = Inr m"
  then obtain cfg sc files where
    "(case files of StreamingFiles e d \<Rightarrow> res_map VitsStreaming (vits_streaming_from_config env cfg sc p e d)
      | SingleFile x \<Rightarrow> res_map Vits (vits_from_config env cfg sc p x)) = Inr m"
    by (auto simp: piper_from_config_path_def res_conv)
  then show ?thesis
    by (cases files) (auto simp: res_conv vits_from_config_def vits_streaming_from_config_def intro: vits_engines_ok)
qed

lemma kokoro_loaded_ok: "kokoro_from_config_path env p = Inr m \<Longrightarrow> voice_ok env (KokoroVoice m)"
  by (auto simp: kokoro_from_config_path_def kokoro_model_from_config_def res_conv intro: kokoro_from_config_ok)

lemma loaded_voice_ok: "load_any_voice env p = Inr v \<Longrightarrow> voice_ok env v"
proof -
  assume "load_any_voice env p = Inr v"
  then obtain mt where "(case mt of
         Piper \<Rightarrow> res_map PiperVoice (piper_from_config_path env p)
       | Kokoro \<Rightarrow> res_map KokoroVoice (kokoro_from_config_path env p)
       | MeloTts \<Rightarrow> res_map MeloVoice (melo_from_config_path env p)) = Inr v"
    by (auto simp: load_any_voice_def load_voice_with_def res_conv)
  then show ?thesis by (cases mt) (auto simp: res_conv simp del: voice_ok.simps(1,2,3) dest: piper_loaded_ok kokoro_loaded_ok)
qed

lemma set_fallback_keeps_ok:
  "voice_set_fallback c v = Inr v' \<Longrightarrow> voice_ok env v \<Longrightarrow> voice_ok env v'"
  by (cases v rule: voice_fallback.cases)
    (auto simp: res_conv vits_ok_def kokoro_ok_def piper_set_fallback_def do_set_default_synth_config_def
      kokoro_set_fallback_def split: option.splits if_splits)

lemma reconfigured_ok: "reconfigured v0 v \<Longrightarrow> voice_ok env v0 \<Longrightarrow> voice_ok env v"
  by (induction rule: reconfigured.induct) (auto intro: set_fallback_keeps_ok)

text \<open>What can go wrong when a loaded voice speaks.\<close>

fun is_inference_error :: "dengjen_error \<Rightarrow> bool" where
  "is_inference_error (InferenceError _) = True"
| "is_inference_error _ = False"

fun speech_error :: "('t, 's) loaded_voice \<Rightarrow> dengjen_error \<Rightarrow> bool" where
  "speech_error (PiperVoice (Vits m)) e \<longleftrightarrow> is_inference_error e \<or> get_meta_ids (pv_config (cm_voice m)) = Inl e"
| "speech_error (PiperVoice (VitsStreaming m)) e \<longleftrightarrow>
     is_inference_error e \<or> get_meta_ids (pv_config (cm_voice m)) = Inl e \<or>
     (\<exists>name a. check_dims name a = Inl e)"
| "speech_error (KokoroVoice m) e = is_inference_error e"
| "speech_error (MeloVoice m) e = is_inference_error e"

lemma inference_error_is [simp]: "is_inference_error (inference_error why)"
  by (simp add: inference_error_def)

lemma extract_errors: "extract_f32 why t = Inl e \<Longrightarrow> is_inference_error e"
  by (cases t) auto

lemma first_output_errors: "first_output outs = Inl e \<Longrightarrow> is_inference_error e"
  by (auto simp: first_output_def res_failed)

lemma piper_infer_errors: "infer_with_values run why ms v ids = Inl e \<Longrightarrow> is_inference_error e"
  by (auto simp: infer_with_values_def res_failed split: prod.splits dest: extract_errors first_output_errors)

lemma named_array_errors: "extract_named_array tw sw outs n = Inl e \<Longrightarrow> is_inference_error e"
  by (auto simp: extract_named_array_def split: option.splits tensor.splits if_splits)

lemma optional_array_errors: "optional_array tw sw outs n = Inl e \<Longrightarrow> is_inference_error e"
  by (auto simp: optional_array_def res_failed split: if_splits dest: named_array_errors)

lemma encoder_errors:
  "encoder_outputs_from_values tw sw outs = Inl e \<Longrightarrow> is_inference_error e \<or> (\<exists>n a. check_dims n a = Inl e)"
  unfolding encoder_outputs_from_values_def
  by (auto simp only: res_failed dest: named_array_errors optional_array_errors)

lemma decoder_errors: "infer_decoder run why eo = Inl e \<Longrightarrow> is_inference_error e"
  by (auto simp: infer_decoder_def run_decoder_def res_failed dest: extract_errors first_output_errors)

lemma streaming_infer_errors:
  "streaming_infer env m ids = Inl e \<Longrightarrow> is_inference_error e \<or> (\<exists>n a. check_dims n a = Inl e)"
  by (auto simp: streaming_infer_def streaming_infer_encoder_def res_failed split: prod.splits
      dest: encoder_errors decoder_errors)

lemma kokoro_run_errors: "kokoro_run env s ids style speed = Inl e \<Longrightarrow> is_inference_error e"
proof -
  have "res_all is_inference_error (\<lambda>_. True) (kokoro_run env s ids style speed)"
    by (auto simp: kokoro_run_def res_all_def res_bind_def res_map_err_def ok_or_def
        split: sum.split option.split tensor.split)
  then show "kokoro_run env s ids style speed = Inl e \<Longrightarrow> is_inference_error e" by simp
qed

text \<open>The style table of the preset a Kokoro voice speaks with.\<close>

definition style_in_use :: "kokoro_voice \<Rightarrow> bool" where
  "style_in_use v \<longleftrightarrow>
     has_style (kk_styles v) (resolve_voice_name (kk_speaker_map v) (kk_default_voice v) (kk_synth_config v))"

lemma kokoro_ok_style: "kokoro_ok v \<Longrightarrow> style_in_use v"
  by (auto simp: style_in_use_def kokoro_ok_def resolve_voice_name_def unwrap_or_def dest!: map_of_SomeD
      split: option.splits)

lemma kokoro_chunk_errors:
  assumes "kokoro_ok v" "synthesize_token_chunk (kokoro_run env s) v tokens = Inl e"
  shows "is_inference_error e"
proof -
  let ?n = "resolve_voice_name (kk_speaker_map v) (kk_default_voice v) (kk_synth_config v)"
  have "has_style (kk_styles v) ?n" using kokoro_ok_style [OF assms(1)] by (simp add: style_in_use_def)
  then have "style_for (kk_styles v) ?n k \<noteq> Inl e" for k
    by (auto simp: has_style_def style_for_def)
  with assms(2) show ?thesis
    by (auto simp: synthesize_token_chunk_def res_failed dest: kokoro_run_errors)
qed

lemma kokoro_synthesis:
  "\<exists>chunks. kokoro_speak env m s =
     res_map (\<lambda>parts. new_audio (concat parts) (kk_sample_rate (km_voice m)) None)
       (collect_map (synthesize_token_chunk (kokoro_run env (km_session m)) (km_voice m)) chunks)"
  using split_tokens_total [of MAX_TOKEN_LEN "vocab_tokenize (kk_vocab (km_voice m)) s"
      "first_of (vocab_tokenize (kk_vocab (km_voice m)) (lit '' ''))"]
  by (auto simp: kokoro_speak_def synthesize_phonemes_def MAX_TOKEN_LEN_def)

lemma kokoro_speak_errors:
  assumes "kokoro_ok (km_voice m)" "kokoro_speak env m s = Inl e"
  shows "is_inference_error e"
proof -
  obtain chunks where "collect_map (synthesize_token_chunk (kokoro_run env (km_session m)) (km_voice m)) chunks = Inl e"
    using kokoro_synthesis [of env m s] assms(2) by (metis res_map_eq_Inl)
  then show ?thesis using kokoro_chunk_errors [OF assms(1)] collect_map_Inl by metis
qed

lemma melo_speak_errors: "melo_speak_one_sentence run why v s = Inl e \<Longrightarrow> is_inference_error e"
proof -
  have "res_all is_inference_error (\<lambda>_. True) (melo_speak_one_sentence run why v s)"
    by (auto simp: melo_speak_one_sentence_def synthesize_phone_tone_pairs_def res_all_def res_bind_def
        res_map_err_def split: prod.split sum.split option.split tensor.split)
  then show "melo_speak_one_sentence run why v s = Inl e \<Longrightarrow> is_inference_error e" by simp
qed

text \<open>A voice starts without a speaker in force.\<close>

lemma vits_engines_speaker:
  "vits_engines env cfg sc p = Inr c \<Longrightarrow> ps_speaker sc = None \<Longrightarrow>
     ps_speaker (pv_synth_config (cm_voice (vits_commons.extend c z))) = None"
  by (auto simp: vits_engines_def res_conv vits_commons.extend_def piper_voice_of_def)

lemma config_without_speaker: "load_model_config op parse p = Inr (cfg, sc) \<Longrightarrow> ps_speaker sc = None"
  by (auto simp: load_model_config_def res_bind_eq_Inr res_map_eq_Inr)

lemma piper_loaded_speaker:
  "piper_from_config_path env p = Inr m \<Longrightarrow> voice_fallback (PiperVoice m) = Some c \<Longrightarrow> speaker c = None"
proof -
  assume m: "piper_from_config_path env p = Inr m" and c: "voice_fallback (PiperVoice m) = Some c"
  then obtain cfg sc files where sc: "load_model_config (ve_read env) (ve_parse_piper env) p = Inr (cfg, sc)" and
    "(case files of StreamingFiles e d \<Rightarrow> res_map VitsStreaming (vits_streaming_from_config env cfg sc p e d)
      | SingleFile x \<Rightarrow> res_map Vits (vits_from_config env cfg sc p x)) = Inr m"
    by (auto simp: piper_from_config_path_def res_conv)
  moreover note config_without_speaker [OF sc]
  ultimately obtain e where e: "vits_engines env cfg sc p = Inr e" "ps_speaker sc = None"
    "(\<exists>z. m = Vits (vits_commons.extend e z)) \<or> (\<exists>z. m = VitsStreaming (vits_commons.extend e z))"
    by (cases files) (auto simp: res_conv vits_from_config_def vits_streaming_from_config_def)
  with c show ?thesis
    by (auto simp: vits_engines_speaker [OF e(1,2)] piper_get_fallback_def piper_to_synthesis_config_def)
qed

lemma loaded_speaker:
  "load_any_voice env p = Inr v \<Longrightarrow> voice_fallback v = Some c \<Longrightarrow> speaker c = None"
proof -
  assume v: "load_any_voice env p = Inr v" and c: "voice_fallback v = Some c"
  then obtain mt where "(case mt of
         Piper \<Rightarrow> res_map PiperVoice (piper_from_config_path env p)
       | Kokoro \<Rightarrow> res_map KokoroVoice (kokoro_from_config_path env p)
       | MeloTts \<Rightarrow> res_map MeloVoice (melo_from_config_path env p)) = Inr v"
    by (auto simp: load_any_voice_def load_voice_with_def res_conv)
  with c show ?thesis
    by (cases mt)
      (auto simp: res_conv kokoro_from_config_path_def kokoro_model_from_config_def kokoro_from_config_def
        kokoro_get_fallback_def default_synthesis_config_def melo_from_config_path_def melo_session_def melo_voice_of_def
        melo_get_fallback_def simp del: voice_fallback.simps(1,2) dest: piper_loaded_speaker)
qed

lemma loaded_speaker_known: "load_any_voice env p = Inr v \<Longrightarrow> voice_store.valid v"
  using loaded_speaker by (fastforce simp: voice_store.valid_def speaker_known_def)

text \<open>
  \<^bold>\<open>C10\<close>: a loaded voice stays usable through any sequence of accepted config changes. The speaker its config
  sets, if it sets one, is one the voice has. The preset a Kokoro voice speaks with, set or default, always
  has its style table. When the voice speaks, nothing can fail but inference, apart from two
  failures of Piper voices: a config without a required token, and a streaming encoder whose answer has too few
  dimensions. What a MeloTTS config names as its default speaker is used unchecked when no speaker is set.
\<close>

theorem loaded_voices_stay_usable:
  assumes "load_any_voice env p = Inr v0" "reconfigured v0 v"
  shows "(case voice_fallback v of None \<Rightarrow> True | Some c \<Rightarrow> speaker_known (voice_knows v) c) \<and>
    (case v of KokoroVoice m \<Rightarrow> style_in_use (km_voice m) | _ \<Rightarrow> True) \<and>
    res_all (speech_error v) (\<lambda>_. True) (speak_one_sentence (voice_methods env v) phonemes)"
proof (intro conjI)
  have "voice_store.valid v"
    using assms(2) loaded_speaker_known [OF assms(1)]
    by (induction rule: reconfigured.induct) (auto intro: voice_store.set_keeps_valid)
  then show "case voice_fallback v of None \<Rightarrow> True | Some c \<Rightarrow> speaker_known (voice_knows v) c"
    by (simp add: voice_store.valid_def split: option.split)
  have ok: "voice_ok env v" using assms by (blast intro: reconfigured_ok loaded_voice_ok)
  then show "case v of KokoroVoice m \<Rightarrow> style_in_use (km_voice m) | _ \<Rightarrow> True"
    by (cases v) (auto intro: kokoro_ok_style)
  show "res_all (speech_error v) (\<lambda>_. True) (speak_one_sentence (voice_methods env v) phonemes)"
  proof (rule res_allI)
    fix e assume "speak_one_sentence (voice_methods env v) phonemes = Inl e"
    with ok show "speech_error v e"
      by (cases v rule: voice_fallback.cases)
        (auto simp: vits_model_methods_def vits_streaming_methods_def kokoro_methods_def melo_methods_def
          piper_speak_one_sentence_def res_failed dest: piper_infer_errors streaming_infer_errors
          kokoro_speak_errors melo_speak_errors)
  qed simp
qed

lemma demo_voice_loads:
  "\<exists>m. load_any_voice demo_voice_env (lit ''v/c.json'') = Inr (KokoroVoice m) \<and>
     kk_speaker_map (km_voice m) = [(0, lit ''af'')] \<and> kk_default_voice (km_voice m) = lit ''af''"
proof -
  obtain m where m: "kokoro_from_config_path demo_voice_env (lit ''v/c.json'') = Inr m"
    using demo_kokoro_loads by blast
  have "read_model_type (ve_read demo_voice_env) (ve_parse_json demo_voice_env) (lit ''v/c.json'') = Inr Kokoro"
    by (simp add: read_model_type_def detect_model_type_def demo_env demo_kokoro_json_def model_type_from_str_def)
  moreover have "kk_speaker_map (km_voice m) = [(0, lit ''af'')] \<and> kk_default_voice (km_voice m) = lit ''af''"
    using m unfolding kokoro_from_config_path_def demo_env demo_kokoro_config
    by (auto simp: kokoro_model_from_config_def kokoro_from_config_def res_conv)
  ultimately show ?thesis using m unfolding load_any_voice_def load_voice_with_def by simp
qed

theorem loaded_voices_stay_usable_witness:
  "\<exists>m v. load_any_voice demo_voice_env (lit ''v/c.json'') = Inr (KokoroVoice m) \<and>
     voice_set_fallback \<lparr>speaker = Some 0, parameters = Map.empty\<rparr> (KokoroVoice m :: (unit, unit) loaded_voice) = Inr v \<and>
     (case voice_fallback v of None \<Rightarrow> True | Some c \<Rightarrow> speaker_known (voice_knows v) c) \<and>
     res_all (speech_error v) (\<lambda>_. True) (speak_one_sentence (voice_methods demo_voice_env v) (lit ''ab''))"
proof -
  obtain m where m: "load_any_voice demo_voice_env (lit ''v/c.json'') = Inr (KokoroVoice m)"
    "kk_speaker_map (km_voice m) = [(0, lit ''af'')]" using demo_voice_loads by blast
  then obtain v where v: "voice_set_fallback \<lparr>speaker = Some 0, parameters = Map.empty\<rparr> (KokoroVoice m :: (unit, unit) loaded_voice) = Inr v"
    by (simp add: kokoro_set_fallback_def)
  from loaded_voices_stay_usable [OF m(1) config_set [OF as_loaded v], of "lit ''ab''"] m v show ?thesis by blast
qed

definition piper_phonemes ::
  "('b, 's, 't, 'c) voice_env \<Rightarrow> ('t, 'z) vits_commons_scheme \<Rightarrow> str \<Rightarrow> str list dengjen_result" where
  "piper_phonemes env m text =
     (case unwrap_or PtEspeak (mc_phoneme_type (pv_config (cm_voice m))) of
        PtText \<Rightarrow> Inr [text]
      | PtHebrew \<Rightarrow> text_to_hebrew_phonemes (ve_nfc env) (ve_is_mark env) (the (cm_hebrew m)) text
      | PtPinyin \<Rightarrow> text_to_pinyin_phonemes (the (cm_pinyin m)) text
      | PtEspeak \<Rightarrow>
          res_bind (if should_diacritize (ve_features env) (mc_espeak_voice (pv_config (cm_voice m)))
                    then res_map_err (\<lambda>msg. InferenceError
                        (lit ''Failed to diacritize text using libtashkeel. '' @ msg))
                      (ve_tashkeel env (the (cm_tashkeel m)) text)
                    else Inr text)
            (\<lambda>source. res_map_err (\<lambda>e. PhonemizationError
                (lit ''Failed to phonemize given text using espeak-ng. Error: '' @ e))
              (espeak_port (ve_espeak env) (ve_process env) source (mc_espeak_voice (pv_config (cm_voice m))))))"

fun loaded_phonemes :: "('b, 's, 't, 'c) voice_env \<Rightarrow> ('t, 's) piper_model \<Rightarrow> str \<Rightarrow> str list dengjen_result" where
  "loaded_phonemes env (Vits m) text = piper_phonemes env m text"
| "loaded_phonemes env (VitsStreaming m) text = piper_phonemes env m text"

lemma vits_ok_phonemes:
  assumes "vits_ok env m" "ft_espeak (ve_features env)" "ft_hebrew (ve_features env)" "ft_pinyin (ve_features env)"
  shows "vits_phonemize env m text = piper_phonemes env m text"
  using assms(1) unfolding vits_ok_def
  by (auto simp: vits_phonemize_def piper_phonemes_def created_engines_suffice assms(2-4))

text \<open>
  A loaded Piper voice phonemizes by its phoneme type with an engine that is there: text
  passes as it is, Hebrew and Mandarin go to the engine loaded from the config, everything else goes to
  eSpeak-ng, diacritized first for an Arabic voice.
\<close>

theorem loaded_piper_phonemizes:
  assumes "load_any_voice env p = Inr v0" "reconfigured v0 (PiperVoice m)"
    "ft_espeak (ve_features env)" "ft_hebrew (ve_features env)" "ft_pinyin (ve_features env)"
  shows "phonemize_text (voice_methods env (PiperVoice m)) text = loaded_phonemes env m text"
proof -
  have "voice_ok env (PiperVoice m)" using reconfigured_ok [OF assms(2) loaded_voice_ok [OF assms(1)]] .
  then show ?thesis
    by (cases m) (simp_all add: vits_model_methods_def vits_streaming_methods_def vits_ok_phonemes assms(3-5))
qed

definition demo_piper_env :: "(unit, unit, unit, unit) voice_env" where
  "demo_piper_env = demo_voice_env\<lparr>ve_parse_json := (\<lambda>_. Inr (JObject []))\<rparr>"

lemma demo_piper_env_simps:
  "ve_features demo_piper_env = \<lparr>ft_espeak = True, ft_tashkeel = True, ft_hebrew = True, ft_pinyin = True\<rparr>"
  "ve_onnx demo_piper_env = ve_onnx demo_voice_env" "ve_create_tashkeel demo_piper_env = (\<lambda>_. Inr ())"
  "ve_read demo_piper_env = (\<lambda>_. Inr [])" "ve_parse_json demo_piper_env = (\<lambda>_. Inr (JObject []))"
  "ve_parse_piper demo_piper_env = (\<lambda>_. Inr demo_config)"
  "ve_nfc demo_piper_env = id" "ve_is_mark demo_piper_env = (\<lambda>_. False)"
  by (simp_all add: demo_piper_env_def demo_voice_env_def)

lemma demo_piper_loads:
  "\<exists>m h. load_any_voice demo_piper_env (lit ''v/c.json'') = Inr (PiperVoice (Vits m)) \<and>
     pv_config (cm_voice m) = demo_config \<and> cm_hebrew m = Some h"
proof -
  have mt: "read_model_type (ve_read demo_piper_env) (ve_parse_json demo_piper_env) p = Inr Piper" for p
    by (simp add: read_model_type_def detect_model_type_def demo_piper_env_simps model_type_from_str_def)
  obtain sc where cfg: "load_model_config (ve_read demo_piper_env) (ve_parse_piper demo_piper_env) p = Inr (demo_config, sc)" for p
    by (simp add: load_model_config_def demo_piper_env_simps)
  have files: "vits_model_files demo_config (lit ''v/c.json'') =
      Inr (SingleFile (with_file_name (lit ''v/c.json'') (lit ''c'')))"
    by (simp add: vits_model_files_def demo_config_def file_name_def path_components_def is_absolute_def
        starts_with_def slash_def last_of_def stem_and_extension_def dot_def)
  have session: "vits_session demo_piper_env p = Inr ()" for p
    by (simp add: vits_session_def create_inference_session_def demo_piper_env_simps demo_env)
  have nakdimon: "\<exists>h. create_nakdimon_engine demo_piper_env p = Inr h" for p
    by (simp add: create_nakdimon_engine_def demo_piper_env_simps demo_env)
  obtain h where h: "create_nakdimon_engine demo_piper_env (with_file_name (lit ''v/c.json'') (lit ''nakdimon.onnx'')) = Inr h"
    using nakdimon by blast
  have "\<exists>c. vits_engines demo_piper_env demo_config sc (lit ''v/c.json'') = Inr c \<and>
      pv_config (cm_voice c) = demo_config \<and> cm_hebrew c = Some h" for sc
    by (simp add: vits_engines_def create_tashkeel_engine_def create_hebrew_engine_def create_pinyin_engine_def
        create_path_engine_def demo_piper_env_simps piper_voice_of_def h [simplified] demo_config_def)
  then obtain c where "vits_engines demo_piper_env demo_config sc (lit ''v/c.json'') = Inr c"
    "pv_config (cm_voice c) = demo_config" "cm_hebrew c = Some h" by blast
  then show ?thesis
    using files mt cfg session
    by (simp add: load_any_voice_def load_voice_with_def piper_from_config_path_def vits_from_config_def
        vits_commons.extend_def)
qed

theorem loaded_piper_phonemizes_witness:
  "\<exists>m h. load_any_voice demo_piper_env (lit ''v/c.json'') = Inr (PiperVoice (Vits m)) \<and>
     phonemize_text (voice_methods demo_piper_env (PiperVoice (Vits m))) [1488, 1463] =
       text_to_hebrew_phonemes id (\<lambda>_. False) h [1488, 1463]"
proof -
  obtain m h where m: "load_any_voice demo_piper_env (lit ''v/c.json'') = Inr (PiperVoice (Vits m))"
    "pv_config (cm_voice m) = demo_config" "cm_hebrew m = Some h"
    using demo_piper_loads by blast
  then have "phonemize_text (voice_methods demo_piper_env (PiperVoice (Vits m))) [1488, 1463] =
       text_to_hebrew_phonemes id (\<lambda>_. False) h [1488, 1463]"
    using loaded_piper_phonemizes [OF m(1) as_loaded, of "[1488, 1463]"]
    by (simp add: piper_phonemes_def demo_piper_env_def demo_voice_env_def demo_config_def)
  with m(1) show ?thesis by blast
qed

subsection \<open>Realtime chunks of a Kokoro voice\<close>

lemma kokoro_source_speaks:
  assumes "0 < chunk_size" "kokoro_speak env m s = Inr a" "length (samples a) \<le> 2 ^ 61"
  shows "\<exists>chunks. voice_source env (KokoroVoice m) s chunk_size pad = SourceItems (map Inr chunks) None \<and>
    concat chunks = samples a"
proof -
  obtain st where st: "kokoro_stream_synthesis (kokoro_speak env m) False s chunk_size = Inr (Streaming st)"
    and len: "length (ks_samples st) = length (samples a)"
    using assms(1,2) by (simp add: kokoro_stream_synthesis_def)
  from kokoro_streams_all [OF st assms(2,3) order_refl] obtain chunks
    where "drain kokoro_next (length (samples a)) st = map Inr chunks" "concat chunks = samples a" by blast
  with st len show ?thesis
    by (intro exI [of _ chunks]) (simp add: voice_source_def kokoro_methods_def kokoro_items_def)
qed

lemma kokoro_source_fails:
  "0 < chunk_size \<Longrightarrow> kokoro_speak env m s = Inl e \<Longrightarrow>
     voice_source env (KokoroVoice m) s chunk_size pad = SourceErr e"
  by (simp add: voice_source_def kokoro_methods_def kokoro_stream_synthesis_def)

lemma demo_espeak_answers: "0 \<notin> set l \<Longrightarrow> espeak_port (ve_espeak demo_voice_env) (ve_process demo_voice_env) (lit ''ab'') l = Inr [lit ''ab.'']"
proof -
  assume l: "0 \<notin> set l"
  have "text_lines (lit ''ab'') = [lit ''ab'']" "lit ''ab'' @ clause_break_suffix CLAUSE_TYPE_SENTENCE = lit ''ab.''"
    "strip_language_switches (lit ''ab.'') = lit ''ab.''" "0 \<notin> set (lit ''ab'')"
    by code_simp+
  with l have "text_to_phonemes (espeak_alone (ve_espeak demo_voice_env)
      (init_espeakng (ve_espeak demo_voice_env) (ve_process demo_voice_env)) l) (lit ''ab'') l None True False = Some (Inr [lit ''ab.''])"
    by (simp add: text_to_phonemes_def phonemize_line_def select_voice_def demo_voice_env_def espeak_alone_def init_espeakng_def read_clauses.simps
      ends_sentence_def strip_matches_def CLAUSE_TYPE_SENTENCE_def)
  then show ?thesis by (simp add: espeak_port_def)
qed

lemma demo_ipa: "espeak_ipa_to_kokoro (lit ''ab.'') = lit ''ab.''"
  by code_simp

subsection \<open>Settings have no history\<close>

text \<open>
  Piper keeps the speaker in force when a config names none; Kokoro and MeloTTS go back to their default.
\<close>

fun speaker_after :: "synthesis_config \<Rightarrow> ('t, 's) loaded_voice \<Rightarrow> int option" where
  "speaker_after c (PiperVoice m) =
     (case speaker c of Some sid \<Rightarrow> Some sid
      | None \<Rightarrow> Option.bind (voice_fallback (PiperVoice m)) speaker)"
| "speaker_after c v = speaker c"

text \<open>A voice that differs from another in its config alone.\<close>

fun with_settings :: "synthesis_config option \<Rightarrow> ('t, 's) loaded_voice \<Rightarrow> ('t, 's) loaded_voice" where
  "with_settings c (PiperVoice (Vits m)) =
     PiperVoice (Vits (m\<lparr>cm_voice := (cm_voice m)\<lparr>pv_synth_config := piper_of_synthesis_config (the c)\<rparr>\<rparr>))"
| "with_settings c (PiperVoice (VitsStreaming m)) =
     PiperVoice (VitsStreaming (m\<lparr>cm_voice := (cm_voice m)\<lparr>pv_synth_config := piper_of_synthesis_config (the c)\<rparr>\<rparr>))"
| "with_settings c (KokoroVoice m) = KokoroVoice (m\<lparr>km_voice := (km_voice m)\<lparr>kk_synth_config := the c\<rparr>\<rparr>)"
| "with_settings c (MeloVoice m) = MeloVoice (m\<lparr>mm_voice := (mm_voice m)\<lparr>mv_fallback_config := c\<rparr>\<rparr>)"

lemma with_settings_simps [simp]:
  "with_settings c (with_settings d v) = with_settings c v"
  "voice_knows (with_settings c v) = voice_knows v"
  "with_settings (voice_fallback v) v = v"
  by (cases v rule: voice_fallback.cases;
      simp add: fun_eq_iff piper_get_fallback_def kokoro_get_fallback_def melo_get_fallback_def piper_config_roundtrip
        voice_knows_fun)+

text \<open>Setting a config, in terms of the voice with other settings.\<close>

lemma set_fallback_settings:
  "voice_set_fallback c v =
     (if speaker_known (voice_knows v) c then Inr (with_settings (Some (c\<lparr>speaker := speaker_after c v\<rparr>)) v)
      else Inl (unknown_speaker (the (speaker c))))"
  by (cases v rule: voice_fallback.cases; cases "speaker c")
    (auto simp: speaker_known_def piper_set_fallback_def do_set_default_synth_config_def piper_of_synthesis_config_def
      piper_get_fallback_def piper_to_synthesis_config_def kokoro_set_fallback_def melo_set_fallback_def
      ensure_known_speaker_def)

lemma reconfigured_valid: "reconfigured v0 v \<Longrightarrow> voice_store.valid v0 \<Longrightarrow> voice_store.valid v"
  by (induction rule: reconfigured.induct) (auto intro: voice_store.set_keeps_valid)

lemma reconfigured_settings: "reconfigured v0 v \<Longrightarrow> \<exists>d. v = with_settings d v0"
proof (induction rule: reconfigured.induct)
  case as_loaded
  show ?case by (rule exI [of _ "voice_fallback v0"]) simp
next
  case (config_set v c v')
  then show ?case by (auto simp: set_fallback_settings split: if_splits)
qed

text \<open>
  \<^bold>\<open>C9\<close>: what a voice does depends on the last settings alone. Whatever was set on a loaded voice
  before, after setting a config it is exactly the voice one gets by setting that config once on the voice
  as it was loaded; only Piper carries one thing over, the speaker in force when the config names none.
\<close>

theorem settings_have_no_history:
  assumes "load_any_voice env p = Inr v0" "reconfigured v0 v" "voice_set_fallback c v = Inr w"
  shows "voice_set_fallback (c\<lparr>speaker := speaker_after c v\<rparr>) v0 = Inr w"
proof -
  obtain d where d: "v = with_settings d v0" using reconfigured_settings [OF assms(2)] ..
  let ?c = "c\<lparr>speaker := speaker_after c v\<rparr>"
  from assms(3) have w: "speaker_known (voice_knows v) c" "w = with_settings (Some ?c) v"
    by (auto simp: set_fallback_settings split: if_splits)
  have "voice_store.valid v" using assms(2) loaded_speaker_known [OF assms(1)] by (rule reconfigured_valid)
  then have "\<forall>c'. voice_fallback v = Some c' \<longrightarrow> speaker_known (voice_knows v) c'"
    by (simp add: voice_store.valid_def)
  with w(1) have "speaker_known (voice_knows v) ?c"
    by (cases v; cases "speaker c"; cases "voice_fallback v") (auto simp: speaker_known_def split: option.splits)
  with d have known: "speaker_known (voice_knows v0) ?c" by simp
  have "Option.bind (voice_fallback v0) speaker = None"
    using loaded_speaker [OF assms(1)] by (cases "voice_fallback v0") auto
  then have "?c\<lparr>speaker := speaker_after ?c v0\<rparr> = ?c"
    by (cases v0; cases "speaker ?c") auto
  with known w(2) d show ?thesis by (simp add: set_fallback_settings)
qed

theorem settings_have_no_history_witness:
  "\<exists>m v w. load_any_voice demo_voice_env (lit ''v/c.json'') = Inr (KokoroVoice m) \<and>
     voice_set_fallback \<lparr>speaker = Some 0, parameters = Map.empty\<rparr> (KokoroVoice m :: (unit, unit) loaded_voice) = Inr v \<and>
     voice_set_fallback default_synthesis_config v = Inr w \<and> voice_set_fallback default_synthesis_config (KokoroVoice m) = Inr w"
proof -
  obtain m where m: "load_any_voice demo_voice_env (lit ''v/c.json'') = Inr (KokoroVoice m)"
    "kk_speaker_map (km_voice m) = [(0, lit ''af'')]" using demo_voice_loads by blast
  then obtain v where v: "voice_set_fallback \<lparr>speaker = Some 0, parameters = Map.empty\<rparr> (KokoroVoice m :: (unit, unit) loaded_voice) = Inr v"
    by (simp add: kokoro_set_fallback_def)
  then obtain k where k: "v = KokoroVoice k" by (auto simp: res_map_eq_Inr)
  then obtain w where w: "voice_set_fallback default_synthesis_config v = Inr w"
    by (simp add: kokoro_set_fallback_def default_synthesis_config_def)
  from settings_have_no_history [OF m(1) config_set [OF as_loaded v] w] k
  have "voice_set_fallback default_synthesis_config (KokoroVoice m :: (unit, unit) loaded_voice) = Inr w" by simp
  with m(1) v w show ?thesis by blast
qed

end
