(* ===== verification/SharedVoice.thy ===== *)
theory SharedVoice
  imports VoiceStates
begin

section \<open>A voice that threads share\<close>

text \<open>
  A loaded voice is one object behind an \<^verbatim>\<open>Arc\<close>: any number of threads speak with it while others change
  its config (a realtime worker and its caller, the handlers of the server). This theory takes the
  methods of theory \<open>Voices\<close> apart into the steps between which other threads run: reading the config under its
  lock, running a session under its mutex. The theorems show that a sentence is spoken
  as the sequential method speaks it with one config that was in force during the call, and the exception:
  a Kokoro sentence that is too long for one pass of the model, which reads the config once for each pass.
\<close>

subsection \<open>The passes of a sentence\<close>

text \<open>
  Kokoro cuts the tokens of a sentence into chunks, each a pass over the model; the other
  backends speak a sentence in one pass.
\<close>

datatype pass = TokenChunk "int list" | WholeSentence str

definition kokoro_chunks :: "kokoro_voice \<Rightarrow> str \<Rightarrow> int list list" where
  "kokoro_chunks v phonemes =
     the (split_tokens (vocab_tokenize (kk_vocab v) phonemes) MAX_TOKEN_LEN
       (first_of (vocab_tokenize (kk_vocab v) (lit '' ''))))"

fun passes :: "('t, 's) loaded_voice \<Rightarrow> str \<Rightarrow> pass list" where
  "passes (KokoroVoice m) phonemes = map TokenChunk (kokoro_chunks (km_voice m) phonemes)"
| "passes v phonemes = [WholeSentence phonemes]"

text \<open>
  What a pass has computed when it lets go of the config: Kokoro its inputs, the others the settings. A
  chunk is never asked of another backend, nor inputs of Kokoro; the last equations below are there for totality.
\<close>

datatype ('t, 's) pass_inputs =
    KokoroInputs "int list" "f32 list"
  | SnapshotOf "('t, 's) loaded_voice" str

definition kokoro_prepare :: "kokoro_voice \<Rightarrow> int list \<Rightarrow> (int list \<times> f32 list) dengjen_result" where
  "kokoro_prepare v tokens =
     (case vc_bos_id (kk_vocab v) # tokens @ [vc_bos_id (kk_vocab v)] of token_ids \<Rightarrow>
        res_map (\<lambda>style. (token_ids, style))
          (style_for (kk_styles v)
            (resolve_voice_name (kk_speaker_map v) (kk_default_voice v) (kk_synth_config v))
            (length token_ids)))"

fun prepare_pass :: "('t, 's) loaded_voice \<Rightarrow> pass \<Rightarrow> ('t, 's) pass_inputs dengjen_result" where
  "prepare_pass (KokoroVoice m) (TokenChunk tokens) =
     res_map (\<lambda>(ids, style). KokoroInputs ids style) (kokoro_prepare (km_voice m) tokens)"
| "prepare_pass v (WholeSentence phonemes) = Inr (SnapshotOf v phonemes)"
| "prepare_pass v (TokenChunk tokens) = Inr (SnapshotOf v [])"

text \<open>
  The sessions a pass runs, each under its mutex and one after the other; a pass that fails before does
  not wait for them.
\<close>

fun sessions_run :: "('b, 's, 't, 'c) voice_env \<Rightarrow> ('t, 's) pass_inputs \<Rightarrow> nat" where
  "sessions_run env (SnapshotOf (PiperVoice (Vits m)) phonemes) =
     (case get_meta_ids (pv_config (cm_voice m)) of Inl _ \<Rightarrow> 0 | Inr _ \<Rightarrow> 1)"
| "sessions_run env (SnapshotOf (PiperVoice (VitsStreaming m)) phonemes) =
     (case get_meta_ids (pv_config (cm_voice m)) of
        Inl _ \<Rightarrow> 0
      | Inr meta \<Rightarrow>
          (case streaming_infer_encoder env m (streaming_ids m phonemes meta) of Inl _ \<Rightarrow> 1 | Inr _ \<Rightarrow> 2))"
| "sessions_run env i = 1"

fun infer_pass ::
  "('b, 's, 't, 'c) voice_env \<Rightarrow> ('t, 's) loaded_voice \<Rightarrow> ('t, 's) pass_inputs \<Rightarrow> audio dengjen_result" where
  "infer_pass env (KokoroVoice m) (KokoroInputs ids style) =
     res_map (\<lambda>xs. new_audio xs (kk_sample_rate (km_voice m)) None)
       (kokoro_run env (km_session m) ids style (f_lit 1))"
| "infer_pass env v (SnapshotOf w phonemes) = speak_one_sentence (voice_methods env w) phonemes"
| "infer_pass env v (KokoroInputs ids style) = Inr (new_audio [] 0 None)"

fun join_parts :: "('t, 's) loaded_voice \<Rightarrow> audio list \<Rightarrow> audio" where
  "join_parts (KokoroVoice m) parts = new_audio (concat (map samples parts)) (kk_sample_rate (km_voice m)) None"
| "join_parts v parts = hd parts"

text \<open>A pass with the config of \<open>v\<close>, and a sentence whose passes see the configs \<open>vs\<close>.\<close>

definition pass_result ::
  "('b, 's, 't, 'c) voice_env \<Rightarrow> ('t, 's) loaded_voice \<Rightarrow> pass \<Rightarrow> audio dengjen_result" where
  "pass_result env v p = res_bind (prepare_pass v p) (infer_pass env v)"

definition speak_with ::
  "('b, 's, 't, 'c) voice_env \<Rightarrow> ('t, 's) loaded_voice \<Rightarrow> ('t, 's) loaded_voice list \<Rightarrow> str \<Rightarrow> audio dengjen_result" where
  "speak_with env v vs phonemes =
     res_map (join_parts v) (collect_map (\<lambda>(w, p). pass_result env w p) (zip vs (passes v phonemes)))"

lemma kokoro_chunk_in_steps:
  "synthesize_token_chunk run v tokens =
     res_bind (kokoro_prepare v tokens) (\<lambda>(ids, style). run ids style (f_lit 1))"
  by (cases "style_for (kk_styles v)
      (resolve_voice_name (kk_speaker_map v) (kk_default_voice v) (kk_synth_config v)) (Suc (Suc (length tokens)))")
    (simp_all add: synthesize_token_chunk_def kokoro_prepare_def)

lemma collect_map_cong: "(\<And>x. x \<in> set xs \<Longrightarrow> f x = g x) \<Longrightarrow> collect_map f xs = collect_map g xs"
  by (induction xs) (simp_all split: sum.split)

lemma collect_map_res_map:
  "collect_map (\<lambda>x. res_map h (f x)) xs = res_map (map h) (collect_map f xs)"
  by (induction xs) (auto split: sum.split)

lemma kokoro_speaks_in_chunks:
  "kokoro_speak env m phonemes =
     res_map (\<lambda>parts. new_audio (concat parts) (kk_sample_rate (km_voice m)) None)
       (collect_map (synthesize_token_chunk (kokoro_run env (km_session m)) (km_voice m))
         (kokoro_chunks (km_voice m) phonemes))"
proof -
  obtain chunks where "split_tokens (vocab_tokenize (kk_vocab (km_voice m)) phonemes) MAX_TOKEN_LEN
      (first_of (vocab_tokenize (kk_vocab (km_voice m)) (lit '' ''))) = Some chunks"
    using split_tokens_total [of MAX_TOKEN_LEN "vocab_tokenize (kk_vocab (km_voice m)) phonemes"
        "first_of (vocab_tokenize (kk_vocab (km_voice m)) (lit '' ''))"] by (auto simp: MAX_TOKEN_LEN_def)
  then show ?thesis by (simp add: kokoro_speak_def synthesize_phonemes_def kokoro_chunks_def)
qed

lemma zip_replicate_map: "zip (replicate (length xs) y) (map g xs) = map (\<lambda>x. (y, g x)) xs"
  by (induction xs) simp_all

lemma collect_map_map: "collect_map f (map g xs) = collect_map (\<lambda>x. f (g x)) xs"
  by (induction xs) (simp_all split: sum.split)

lemma res_map_map: "res_map f (res_map g r) = res_map (\<lambda>x. f (g x)) r"
  by (cases r) simp_all

text \<open>With one config throughout, the passes give what the sequential method gives.\<close>

lemma speak_with_one_config:
  "speak_with env v (replicate (length (passes v phonemes)) v) phonemes =
     speak_one_sentence (voice_methods env v) phonemes"
proof (cases v rule: voice_fallback.cases)
  case (3 m)
  have "pass_result env v (TokenChunk c) =
      res_map (\<lambda>xs. new_audio xs (kk_sample_rate (km_voice m)) None)
        (synthesize_token_chunk (kokoro_run env (km_session m)) (km_voice m) c)" for c
    by (cases "kokoro_prepare (km_voice m) c")
      (auto simp: 3 pass_result_def kokoro_chunk_in_steps split: prod.split)
  then have "speak_with env v (replicate (length (passes v phonemes)) v) phonemes =
      res_map (join_parts v \<circ> map (\<lambda>xs. new_audio xs (kk_sample_rate (km_voice m)) None))
        (collect_map (synthesize_token_chunk (kokoro_run env (km_session m)) (km_voice m)) (kokoro_chunks (km_voice m) phonemes))"
    by (simp add: 3 speak_with_def zip_replicate_map collect_map_map collect_map_res_map res_map_map comp_def del: replicate.simps)
  also have "join_parts v \<circ> map (\<lambda>xs. new_audio xs (kk_sample_rate (km_voice m)) None) =
      (\<lambda>parts. new_audio (concat parts) (kk_sample_rate (km_voice m)) None)"
    by (rule ext) (simp add: 3 new_audio_def comp_def)
  finally show ?thesis by (simp add: 3 kokoro_methods_def kokoro_speaks_in_chunks)
qed (simp_all add: speak_with_def pass_result_def split: sum.split)

fun is_kokoro :: "('t, 's) loaded_voice \<Rightarrow> bool" where
  "is_kokoro (KokoroVoice m) = True"
| "is_kokoro v = False"

lemma passes_short:
  "\<not> is_kokoro v \<Longrightarrow> length (passes v phonemes) = 1"
  "length (vocab_tokenize (kk_vocab (km_voice m)) phonemes) \<le> MAX_TOKEN_LEN \<Longrightarrow>
     length (passes (KokoroVoice m) phonemes) = 1"
  by (cases v rule: is_kokoro.cases; simp) (simp add: kokoro_chunks_def split_tokens.simps)

text \<open>Nothing but the config itself depends on it.\<close>

lemma settings_irrelevant [simp]:
  "passes (with_settings d v) phonemes = passes v phonemes"
  "infer_pass env (with_settings d v) i = infer_pass env v i"
  "join_parts (with_settings d v) = join_parts v"
  by (cases v rule: voice_fallback.cases; simp add: kokoro_chunks_def)
    (cases v rule: voice_fallback.cases; cases i; simp add: fun_eq_iff)+

subsection \<open>Threads\<close>

text \<open>
  The configs the voice has had, the last one in force; who holds each session; and a call for each
  thread: the index of the config in force when it began, what is left to do, what is done. A call is between
  passes, works without a lock, or holds a session. One that has answered keeps the index of the config
  in force then.
\<close>

datatype ('t, 's) speak_point =
    Uncalled
  | AtPass
  | Working "('t, 's) pass_inputs" nat
  | Inferring "('t, 's) pass_inputs" nat
  | Spoken "audio dengjen_result" nat

record ('t, 's) speak_call =
  sc_phonemes :: str
  sc_from :: nat
  sc_todo :: "pass list"
  sc_done :: "audio list"
  sc_point :: "('t, 's) speak_point"

record ('t, 's) shared_voice =
  vo_configs :: "('t, 's) loaded_voice list"
  vo_sessions :: "nat \<Rightarrow> nat option"
  vo_calls :: "nat \<Rightarrow> ('t, 's) speak_call"

definition in_force :: "('t, 's) shared_voice \<Rightarrow> ('t, 's) loaded_voice" where
  "in_force s = last (vo_configs s)"

definition config_index :: "('t, 's) shared_voice \<Rightarrow> nat" where
  "config_index s = length (vo_configs s) - 1"

definition with_call :: "nat \<Rightarrow> ('t, 's) speak_call \<Rightarrow> ('t, 's) shared_voice \<Rightarrow> ('t, 's) shared_voice" where
  "with_call t c s = s\<lparr>vo_calls := (vo_calls s)(t := c)\<rparr>"

definition begin_call :: "nat \<Rightarrow> str \<Rightarrow> ('t, 's) shared_voice \<Rightarrow> ('t, 's) shared_voice" where
  "begin_call t phonemes s =
     with_call t \<lparr>sc_phonemes = phonemes, sc_from = config_index s, sc_todo = passes (in_force s) phonemes,
       sc_done = [], sc_point = AtPass\<rparr> s"

definition can_speak :: "('b, 's, 't, 'c) voice_env \<Rightarrow> nat \<Rightarrow> ('t, 's) shared_voice \<Rightarrow> bool" where
  "can_speak env t s =
     (case sc_point (vo_calls s t) of
        Uncalled \<Rightarrow> False
      | Spoken _ _ \<Rightarrow> False
      | Working i k \<Rightarrow> sessions_run env i \<le> k \<or> vo_sessions s k = None
      | _ \<Rightarrow> True)"

definition speak_step ::
  "('b, 's, 't, 'c) voice_env \<Rightarrow> nat \<Rightarrow> ('t, 's) shared_voice \<Rightarrow> ('t, 's) shared_voice" where
  "speak_step env t s =
     (case vo_calls s t of c \<Rightarrow>
        (case sc_point c of
           AtPass \<Rightarrow>
             (case sc_todo c of
                [] \<Rightarrow> with_call t (c\<lparr>sc_point := Spoken (Inr (join_parts (in_force s) (sc_done c))) (config_index s)\<rparr>) s
              | p # ps \<Rightarrow>
                  (case prepare_pass (in_force s) p of
                     Inl e \<Rightarrow> with_call t (c\<lparr>sc_point := Spoken (Inl e) (config_index s)\<rparr>) s
                   | Inr i \<Rightarrow> with_call t (c\<lparr>sc_point := Working i 0\<rparr>) s))
         | Working i k \<Rightarrow>
             (if k < sessions_run env i
              then with_call t (c\<lparr>sc_point := Inferring i k\<rparr>) (s\<lparr>vo_sessions := (vo_sessions s)(k := Some t)\<rparr>)
              else case infer_pass env (in_force s) i of
                Inl e \<Rightarrow> with_call t (c\<lparr>sc_point := Spoken (Inl e) (config_index s)\<rparr>) s
              | Inr a \<Rightarrow>
                  with_call t (c\<lparr>sc_todo := tl (sc_todo c), sc_done := sc_done c @ [a], sc_point := AtPass\<rparr>) s)
         | Inferring i k \<Rightarrow>
             with_call t (c\<lparr>sc_point := Working i (Suc k)\<rparr>) (s\<lparr>vo_sessions := (vo_sessions s)(k := None)\<rparr>)
         | _ \<Rightarrow> s))"

text \<open>A change of config is one step: the speakers it is checked against never change. A refused one is none.\<close>

inductive shared_step ::
  "('b, 's, 't, 'c) voice_env \<Rightarrow> ('t, 's) shared_voice \<Rightarrow> ('t, 's) shared_voice \<Rightarrow> bool" for env where
  begins: "sc_point (vo_calls s t) = Uncalled \<Longrightarrow> shared_step env s (begin_call t phonemes s)"
| speaks: "can_speak env t s \<Longrightarrow> shared_step env s (speak_step env t s)"
| sets: "voice_set_fallback c (in_force s) = Inr v \<Longrightarrow>
    shared_step env s (s\<lparr>vo_configs := vo_configs s @ [v]\<rparr>)"

definition shared_start :: "('t, 's) loaded_voice \<Rightarrow> ('t, 's) shared_voice \<Rightarrow> bool" where
  "shared_start v s \<longleftrightarrow> vo_configs s = [v] \<and> (\<forall>k. vo_sessions s k = None) \<and>
     (\<forall>t. sc_point (vo_calls s t) = Uncalled)"

lemma with_call_simps [simp]:
  "vo_configs (with_call t c s) = vo_configs s" "vo_sessions (with_call t c s) = vo_sessions s"
  "vo_calls (with_call t c s) = (vo_calls s)(t := c)"
  "config_index (with_call t c s) = config_index s" "in_force (with_call t c s) = in_force s"
  by (simp_all add: with_call_def config_index_def in_force_def)

subsection \<open>What a call has seen\<close>

text \<open>The configs \<open>js\<close> of the finished passes \<open>ps\<close> of a call, and what the passes gave.\<close>

definition passes_seen ::
  "('b, 's, 't, 'c) voice_env \<Rightarrow> ('t, 's) loaded_voice list \<Rightarrow> ('t, 's) speak_call \<Rightarrow> nat list \<Rightarrow> pass list \<Rightarrow> bool" where
  "passes_seen env cs c js ps \<longleftrightarrow> passes (hd cs) (sc_phonemes c) = ps @ sc_todo c \<and> length js = length ps \<and>
     (\<forall>j \<in> set js. sc_from c \<le> j \<and> j < length cs) \<and>
     list_all2 (\<lambda>(j, p) a. pass_result env (cs ! j) p = Inr a) (zip js ps) (sc_done c)"

definition under_way :: 
  "('b, 's, 't, 'c) voice_env \<Rightarrow> ('t, 's) loaded_voice list \<Rightarrow> ('t, 's) speak_call \<Rightarrow> ('t, 's) pass_inputs \<Rightarrow> bool" where
  "under_way env cs c i \<longleftrightarrow>
     (\<exists>js ps p rest j. sc_todo c = p # rest \<and> passes_seen env cs c js ps \<and> sc_from c \<le> j \<and> j < length cs \<and>
        prepare_pass (cs ! j) p = Inr i)"

definition spoken_in ::
  "('b, 's, 't, 'c) voice_env \<Rightarrow> ('t, 's) loaded_voice list \<Rightarrow> ('t, 's) speak_call \<Rightarrow> audio dengjen_result \<Rightarrow> nat \<Rightarrow> bool" where
  "spoken_in env cs c r u \<longleftrightarrow>
     (\<exists>js. length js = length (passes (hd cs) (sc_phonemes c)) \<and> (\<forall>j \<in> set js. sc_from c \<le> j \<and> j \<le> u) \<and>
        r = speak_with env (hd cs) (map (nth cs) js) (sc_phonemes c))"

definition call_inv ::
  "('b, 's, 't, 'c) voice_env \<Rightarrow> ('t, 's) loaded_voice list \<Rightarrow> ('t, 's) speak_call \<Rightarrow> bool" where
  "call_inv env cs c \<longleftrightarrow>
     (case sc_point c of
        Uncalled \<Rightarrow> True
      | AtPass \<Rightarrow> sc_from c < length cs \<and> (\<exists>js ps. passes_seen env cs c js ps)
      | Working i k \<Rightarrow> under_way env cs c i
      | Inferring i k \<Rightarrow> under_way env cs c i
      | Spoken r u \<Rightarrow> sc_from c \<le> u \<and> u < length cs \<and> spoken_in env cs c r u)"

definition shared_inv :: "('b, 's, 't, 'c) voice_env \<Rightarrow> ('t, 's) shared_voice \<Rightarrow> bool" where
  "shared_inv env s \<longleftrightarrow> vo_configs s \<noteq> [] \<and>
     (\<forall>v \<in> set (vo_configs s). \<exists>d. v = with_settings d (hd (vo_configs s))) \<and>
     (\<forall>k t. vo_sessions s k = Some t \<longrightarrow> (\<exists>i. sc_point (vo_calls s t) = Inferring i k)) \<and>
     (\<forall>t. call_inv env (vo_configs s) (vo_calls s t))"

lemma passes_seen_more: "passes_seen env cs c js ps \<Longrightarrow> cs \<noteq> [] \<Longrightarrow> passes_seen env (cs @ [v]) c js ps"
  unfolding passes_seen_def by (auto elim!: list_all2_mono [rotated] simp: nth_append list_all2_conv_all_nth)

lemma under_way_more: "under_way env cs c i \<Longrightarrow> cs \<noteq> [] \<Longrightarrow> under_way env (cs @ [v]) c i"
  unfolding under_way_def by (force simp: nth_append dest: passes_seen_more)

lemma spoken_more: "spoken_in env cs c r u \<Longrightarrow> u < length cs \<Longrightarrow> spoken_in env (cs @ [v]) c r u"
proof -
  assume "spoken_in env cs c r u" and u: "u < length cs"
  then obtain js where js: "length js = length (passes (hd cs) (sc_phonemes c))" "\<forall>j \<in> set js. sc_from c \<le> j \<and> j \<le> u"
      "r = speak_with env (hd cs) (map (nth cs) js) (sc_phonemes c)"
    by (auto simp: spoken_in_def)
  moreover have "map (nth (cs @ [v])) js = map (nth cs) js" using js(2) u by (auto simp: nth_append)
  moreover have "hd (cs @ [v]) = hd cs" using u by (cases cs) auto
  ultimately show ?thesis unfolding spoken_in_def by metis
qed

lemma call_inv_more: "call_inv env cs c \<Longrightarrow> cs \<noteq> [] \<Longrightarrow> call_inv env (cs @ [v]) c"
  by (auto simp: call_inv_def intro: passes_seen_more under_way_more spoken_more less_SucI split: speak_point.splits)

text \<open>Finishing a pass, well or not, and finishing the sentence.\<close>

lemma collect_map_append_fails:
  "list_all2 (\<lambda>x y. f x = Inr y) xs ys \<Longrightarrow> f x = Inl e \<Longrightarrow> collect_map f (xs @ x # zs) = Inl e"
  by (induction rule: list_all2_induct) simp_all

lemma pass_seen:
  assumes "passes_seen env cs c js ps" "sc_todo c = p # rest" "sc_from c \<le> j" "j < length cs"
    "pass_result env (cs ! j) p = Inr a" "sc_phonemes c' = sc_phonemes c" "sc_from c' = sc_from c"
    "sc_todo c' = rest" "sc_done c' = sc_done c @ [a]"
  shows "passes_seen env cs c' (js @ [j]) (ps @ [p])"
  using assms by (auto simp: passes_seen_def intro!: list_all2_appendI)

lemma pass_failed:
  assumes "passes_seen env cs c js ps" "sc_todo c = p # rest" "sc_from c \<le> j" "j < length cs"
    "pass_result env (cs ! j) p = Inl e"
  shows "spoken_in env cs c (Inl e) (length cs - 1)"
  unfolding spoken_in_def
proof (intro exI conjI)
  let ?js = "js @ j # replicate (length rest) j"
  from assms(1,2) have len: "length js = length ps" and p: "passes (hd cs) (sc_phonemes c) = ps @ p # rest"
    and fin: "list_all2 (\<lambda>(j, p) a. pass_result env (cs ! j) p = Inr a) (zip js ps) (sc_done c)"
    by (auto simp: passes_seen_def)
  show "length ?js = length (passes (hd cs) (sc_phonemes c))" using len p by simp
  show "\<forall>j \<in> set ?js. sc_from c \<le> j \<and> j \<le> length cs - 1" using assms(1,3,4) by (auto simp: passes_seen_def)
  have z: "zip (map (nth cs) ?js) (ps @ p # rest) =
      map (\<lambda>(j, p). (cs ! j, p)) (zip js ps) @ (cs ! j, p) # zip (replicate (length rest) (cs ! j)) rest"
    using len by (simp add: zip_map1)
  have "list_all2 (\<lambda>(w, p) a. pass_result env w p = Inr a) (map (\<lambda>(j, p). (cs ! j, p)) (zip js ps)) (sc_done c)"
    using fin by (simp add: list.rel_map case_prod_unfold)
  then have "list_all2 (\<lambda>x y. (\<lambda>(w, p). pass_result env w p) x = Inr y) (map (\<lambda>(j, p). (cs ! j, p)) (zip js ps)) (sc_done c)"
    by (simp add: case_prod_unfold)
  from collect_map_append_fails [OF this, of "(cs ! j, p)" e] assms(5)
  show "Inl e = speak_with env (hd cs) (map (nth cs) ?js) (sc_phonemes c)"
    unfolding speak_with_def p z by simp
qed

lemma all_passes_seen:
  assumes "passes_seen env cs c js ps" "sc_todo c = []" "cs \<noteq> []"
  shows "spoken_in env cs c (Inr (join_parts (hd cs) (sc_done c))) (length cs - 1)"
  unfolding spoken_in_def
proof (intro exI conjI)
  from assms(1,2) have len: "length js = length ps" and p: "passes (hd cs) (sc_phonemes c) = ps"
    and fin: "list_all2 (\<lambda>(j, p) a. pass_result env (cs ! j) p = Inr a) (zip js ps) (sc_done c)"
    by (auto simp: passes_seen_def)
  show "length js = length (passes (hd cs) (sc_phonemes c))" using len p by simp
  show "\<forall>j \<in> set js. sc_from c \<le> j \<and> j \<le> length cs - 1" using assms(1) by (auto simp: passes_seen_def)
  have "list_all2 (\<lambda>x y. (\<lambda>(w, p). pass_result env w p) x = Inr y) (zip (map (nth cs) js) ps) (sc_done c)"
    using fin by (simp add: zip_map1 list.rel_map case_prod_unfold)
  then have "collect_map (\<lambda>(w, p). pass_result env w p) (zip (map (nth cs) js) ps) = Inr (sc_done c)"
    by (simp add: collect_map_Inr)
  then show "Inr (join_parts (hd cs) (sc_done c)) = speak_with env (hd cs) (map (nth cs) js) (sc_phonemes c)"
    unfolding speak_with_def p by simp
qed

lemma current_config:
  assumes "shared_inv env s"
  shows "in_force s = vo_configs s ! config_index s" "config_index s < length (vo_configs s)"
    "\<exists>d. in_force s = with_settings d (hd (vo_configs s))"
  using assms by (auto simp: shared_inv_def in_force_def config_index_def last_conv_nth)

lemma config_settings:
  "shared_inv env s \<Longrightarrow> j < length (vo_configs s) \<Longrightarrow> \<exists>d. vo_configs s ! j = with_settings d (hd (vo_configs s))"
  unfolding shared_inv_def by (blast dest: nth_mem)

lemma call_step_inv:
  assumes inv: "shared_inv env s" and can: "can_speak env t s"
  shows "call_inv env (vo_configs s) (vo_calls (speak_step env t s) t)"
proof -
  let ?c = "vo_calls s t" and ?cs = "vo_configs s"
  note cur = current_config [OF inv]
  obtain d where d: "in_force s = with_settings d (hd ?cs)" using cur(3) ..
  have c: "call_inv env ?cs ?c" and ne: "?cs \<noteq> []" using inv by (auto simp: shared_inv_def)
  have last: "config_index s = length ?cs - 1" by (simp add: config_index_def)
  have from_le: "sc_from ?c \<le> length ?cs - 1" if "sc_from ?c < length ?cs" using that by simp
  show ?thesis
  proof (cases "sc_point ?c")
    case AtPass
    with c obtain js ps where s: "passes_seen env ?cs ?c js ps" and f: "sc_from ?c < length ?cs"
      by (auto simp: call_inv_def)
    show ?thesis
    proof (cases "sc_todo ?c")
      case Nil
      have "spoken_in env ?cs (?c\<lparr>sc_point := x\<rparr>) r u = spoken_in env ?cs ?c r u" for x r u
        by (simp add: spoken_in_def)
      with all_passes_seen [OF s Nil ne] AtPass Nil f ne d last show ?thesis
        by (simp add: speak_step_def call_inv_def)
    next
      case (Cons p rest)
      have fr: "sc_from ?c \<le> config_index s" using f last by simp
      show ?thesis
      proof (cases "prepare_pass (in_force s) p")
        case (Inl e)
        have "pass_result env (?cs ! config_index s) p = Inl e" using Inl cur(1) by (simp add: pass_result_def)
        from pass_failed [OF s Cons fr cur(2) this] Inl AtPass Cons fr cur(2) last show ?thesis
          by (simp add: speak_step_def call_inv_def spoken_in_def)
      next
        case (Inr i)
        have "under_way env ?cs (?c\<lparr>sc_point := Working i 0\<rparr>) i"
          using s Cons fr cur(1,2) Inr by (force simp: under_way_def passes_seen_def)
        with Inr AtPass Cons show ?thesis by (simp add: speak_step_def call_inv_def)
      qed
    qed
  next
    case (Working i k)
    with c obtain js ps p rest j where u: "sc_todo ?c = p # rest" "passes_seen env ?cs ?c js ps" "sc_from ?c \<le> j"
        "j < length ?cs" "prepare_pass (?cs ! j) p = Inr i"
      by (auto simp: call_inv_def under_way_def)
    show ?thesis
    proof (cases "k < sessions_run env i")
      case True
      with Working c show ?thesis by (simp add: speak_step_def call_inv_def under_way_def passes_seen_def)
    next
      case False
      obtain d' where "?cs ! j = with_settings d' (hd ?cs)"
        using config_settings [OF inv u(4)] ..
      then have r: "pass_result env (?cs ! j) p = infer_pass env (in_force s) i"
        using u(5) d by (simp add: pass_result_def)
      show ?thesis
      proof (cases "infer_pass env (in_force s) i")
        case (Inl e)
        have "sc_from ?c \<le> config_index s" using u(3,4) last by simp
        with Inl pass_failed [OF u(2,1,3,4)] r Working False cur(2) last show ?thesis
          by (simp add: speak_step_def call_inv_def spoken_in_def)
      next
        case (Inr a)
        let ?c' = "?c\<lparr>sc_todo := tl (sc_todo ?c), sc_done := sc_done ?c @ [a], sc_point := AtPass\<rparr>"
        have "passes_seen env ?cs ?c' (js @ [j]) (ps @ [p])"
          using u r Inr by (intro pass_seen [OF u(2,1,3,4)]) simp_all
        with Inr Working False u(3,4) show ?thesis by (auto simp: speak_step_def call_inv_def)
      qed
    qed
  next
    case (Inferring i k)
    with c show ?thesis by (simp add: speak_step_def call_inv_def under_way_def passes_seen_def)
  qed (use can in \<open>simp_all add: can_speak_def\<close>)
qed

lemma speak_step_frame:
  "vo_configs (speak_step env t s) = vo_configs s"
  "u \<noteq> t \<Longrightarrow> vo_calls (speak_step env t s) u = vo_calls s u"
  by (simp_all add: speak_step_def Let_def split: speak_point.split list.split sum.split)

lemma sessions_are_held:
  assumes "\<forall>k t. vo_sessions s k = Some t \<longrightarrow> (\<exists>i. sc_point (vo_calls s t) = Inferring i k)" "can_speak env t s"
    "vo_sessions (speak_step env t s) k = Some u"
  shows "\<exists>i. sc_point (vo_calls (speak_step env t s) u) = Inferring i k"
  using assms
  by (cases "sc_point (vo_calls s t)"; cases "u = t")
    (force simp: speak_step_def can_speak_def split: if_splits list.splits sum.splits)+

lemma shared_step_inv: "shared_step env s s' \<Longrightarrow> shared_inv env s \<Longrightarrow> shared_inv env s'"
proof (induction rule: shared_step.induct)
  case (begins s t phonemes)
  obtain d where "in_force s = with_settings d (hd (vo_configs s))" using current_config(3) [OF begins(2)] ..
  then have "call_inv env (vo_configs s) (vo_calls (begin_call t phonemes s) t)"
    using current_config(2) [OF begins(2)]
    by (auto simp: begin_call_def call_inv_def passes_seen_def intro!: exI [of _ "[]"])
  with begins show ?case by (fastforce simp: shared_inv_def begin_call_def)
next
  case (speaks t s)
  note held = sessions_are_held [OF _ speaks(1)]
  have "call_inv env (vo_configs s) (vo_calls (speak_step env t s) u)" for u
    using call_step_inv [OF speaks(2,1)] speaks(2) by (cases "u = t") (auto simp: speak_step_frame shared_inv_def)
  moreover have "\<forall>k u. vo_sessions (speak_step env t s) k = Some u \<longrightarrow>
      (\<exists>i. sc_point (vo_calls (speak_step env t s) u) = Inferring i k)"
    using held speaks(2) unfolding shared_inv_def by blast
  ultimately show ?case using speaks(2) by (simp add: shared_inv_def speak_step_frame)
next
  case (sets c s v)
  obtain d where d: "in_force s = with_settings d (hd (vo_configs s))" using current_config(3) [OF sets(2)] ..
  have "\<exists>d. v = with_settings d (hd (vo_configs s))"
    using sets(1) unfolding d by (auto simp: set_fallback_settings split: if_splits)
  with sets(2) show ?case by (auto simp: shared_inv_def intro: call_inv_more)
qed

lemma shared_start_inv: "shared_start v s \<Longrightarrow> shared_inv env s"
  by (auto simp: shared_start_def shared_inv_def call_inv_def intro: exI [of _ "voice_fallback v"])

lemma shared_reach_inv: "(shared_step env)\<^sup>*\<^sup>* s s' \<Longrightarrow> shared_inv env s \<Longrightarrow> shared_inv env s'"
  by (induction rule: rtranclp_induct) (auto intro: shared_step_inv)

subsection \<open>Sentences keep their settings\<close>

lemma first_config: "(shared_step env)\<^sup>*\<^sup>* s0 s \<Longrightarrow> shared_start v s0 \<Longrightarrow> \<exists>rest. vo_configs s = v # rest"
proof (induction rule: rtranclp_induct)
  case (step s s')
  then obtain rest where rest: "vo_configs s = v # rest" by blast
  from step(2) show ?case
    by (cases rule: shared_step.cases) (auto simp: rest begin_call_def speak_step_frame)
qed (simp add: shared_start_def)

lemma holders_go_on:
  assumes "shared_inv env s" "vo_sessions s k = Some u"
  shows "can_speak env u s"
proof -
  obtain i where "sc_point (vo_calls s u) = Inferring i k" using assms unfolding shared_inv_def by blast
  then show ?thesis by (simp add: can_speak_def)
qed

text \<open>
  \<^bold>\<open>C6\<close>: threads that share a voice hear sentences, not mixtures. In every interleaving of calls and config
  changes, a call that has answered has answered what its passes give with configs that were in force during the
  call; if the sentence takes one pass, as with Piper and MeloTTS always and with Kokoro up to the length of the model, or
  if no config was set meanwhile, that is the sequential answer of the voice with one of these configs. And a
  call that has not answered can go on, or waits for a session whose holder can.
\<close>

theorem sentences_keep_their_settings:
  assumes "shared_start v s0" "(shared_step env)\<^sup>*\<^sup>* s0 s"
  shows "case sc_point (vo_calls s t) of
      Uncalled \<Rightarrow> True
    | Spoken r u \<Rightarrow>
        (case vo_calls s t of c \<Rightarrow>
          u < length (vo_configs s) \<and>
          (\<exists>js. length js = length (passes v (sc_phonemes c)) \<and> (\<forall>j \<in> set js. sc_from c \<le> j \<and> j \<le> u) \<and>
             r = speak_with env v (map (nth (vo_configs s)) js) (sc_phonemes c)) \<and>
          (length (passes v (sc_phonemes c)) = 1 \<or> sc_from c = u \<longrightarrow>
             (\<exists>j. sc_from c \<le> j \<and> j \<le> u \<and>
                r = speak_one_sentence (voice_methods env (vo_configs s ! j)) (sc_phonemes c))))
    | _ \<Rightarrow> can_speak env t s \<or> (\<exists>k u. vo_sessions s k = Some u \<and> can_speak env u s)"
proof -
  have inv: "shared_inv env s" using assms shared_start_inv shared_reach_inv by blast
  obtain rest where rest: "vo_configs s = v # rest" using first_config [OF assms(2,1)] ..
  have c: "call_inv env (vo_configs s) (vo_calls s t)" using inv by (simp add: shared_inv_def)
  show ?thesis
  proof (cases "sc_point (vo_calls s t)")
    case (Spoken r u)
    let ?c = "vo_calls s t" and ?cs = "vo_configs s"
    from c Spoken obtain js where js: "length js = length (passes v (sc_phonemes ?c))"
        "\<forall>j \<in> set js. sc_from ?c \<le> j \<and> j \<le> u" "r = speak_with env v (map (nth ?cs) js) (sc_phonemes ?c)"
      and u: "sc_from ?c \<le> u" "u < length ?cs"
      by (auto simp: call_inv_def spoken_in_def rest)
    have one: "r = speak_one_sentence (voice_methods env (?cs ! j)) (sc_phonemes ?c)"
      if j: "j < length ?cs" "js = replicate (length js) j" for j
    proof -
      obtain d where d: "?cs ! j = with_settings d v" using config_settings [OF inv j(1)] by (auto simp: rest)
      have "map (nth ?cs) js = replicate (length (passes v (sc_phonemes ?c))) (?cs ! j)"
        by (subst j(2)) (simp add: js(1))
      with speak_with_one_config [of env "?cs ! j" "sc_phonemes ?c"] show ?thesis
        by (simp add: js(3) d speak_with_def)
    qed
    have "\<exists>j. sc_from ?c \<le> j \<and> j \<le> u \<and> r = speak_one_sentence (voice_methods env (?cs ! j)) (sc_phonemes ?c)"
      if "length (passes v (sc_phonemes ?c)) = 1 \<or> sc_from ?c = u"
    proof (cases "sc_from ?c = u")
      case True
      then have "js = replicate (length js) u" using js(2) by (intro replicate_eqI) auto
      from one [OF u(2) this] u True show ?thesis by blast
    next
      case False
      with that js(1) obtain j where "js = [j]" by (cases js) auto
      with one [of j] js(2) u show ?thesis by auto
    qed
    with js u Spoken show ?thesis by auto
  next
    case (Working i k)
    show ?thesis
    proof (cases "vo_sessions s k")
      case (Some u)
      with holders_go_on [OF inv this] Working show ?thesis by auto
    qed (simp add: Working can_speak_def)
  qed (simp_all add: can_speak_def)
qed

subsection \<open>Going on undisturbed\<close>

text \<open>With all sessions free, a call can take a whole pass without a step of another thread, and then answer.\<close>

lemma pass_works:
  assumes "vo_calls s t = c" "sc_point c = Working i k" "\<forall>k. vo_sessions s k = None" "k \<le> sessions_run env i"
  shows "(shared_step env)\<^sup>*\<^sup>* s (with_call t (c\<lparr>sc_point := Working i (sessions_run env i)\<rparr>) s)"
  using assms
proof (induction "sessions_run env i - k" arbitrary: s c k)
  case 0
  then have "with_call t (c\<lparr>sc_point := Working i (sessions_run env i)\<rparr>) s = s"
    by (cases s) (auto simp: with_call_def)
  then show ?case by simp
next
  case (Suc n)
  then have k: "k < sessions_run env i" by simp
  let ?s1 = "with_call t (c\<lparr>sc_point := Inferring i k\<rparr>) (s\<lparr>vo_sessions := (vo_sessions s)(k := Some t)\<rparr>)"
  let ?s2 = "with_call t (c\<lparr>sc_point := Working i (Suc k)\<rparr>) s"
  have s1: "shared_step env s ?s1"
    using shared_step.speaks [of env t s] Suc.prems k by (simp add: can_speak_def speak_step_def)
  have undone: "(vo_sessions s)(k := None) = vo_sessions s" using Suc.prems(3) by auto
  have "shared_step env ?s1 ?s2"
    using shared_step.speaks [of env t ?s1]
    by (simp add: can_speak_def speak_step_def with_call_def undone)
  moreover have "(shared_step env)\<^sup>*\<^sup>* ?s2 (with_call t (c\<lparr>sc_point := Working i (Suc k), sc_point := Working i (sessions_run env i)\<rparr>) ?s2)"
    using Suc.hyps(2) Suc.prems k by (intro Suc.hyps(1)) auto
  moreover have "with_call t (c\<lparr>sc_point := Working i (Suc k), sc_point := Working i (sessions_run env i)\<rparr>) ?s2 =
      with_call t (c\<lparr>sc_point := Working i (sessions_run env i)\<rparr>) s"
    by (simp add: with_call_def)
  ultimately show ?case using s1 by (metis converse_rtranclp_into_rtranclp)
qed

lemma pass_goes_through:
  assumes "vo_calls s t = c" "sc_point c = AtPass" "sc_todo c = p # rest" "\<forall>k. vo_sessions s k = None"
    "pass_result env (in_force s) p = Inr a"
  shows "(shared_step env)\<^sup>*\<^sup>* s (with_call t (c\<lparr>sc_todo := rest, sc_done := sc_done c @ [a]\<rparr>) s)"
proof -
  from assms(5) obtain i where i: "prepare_pass (in_force s) p = Inr i" "infer_pass env (in_force s) i = Inr a"
    by (auto simp: pass_result_def res_conv)
  let ?n = "sessions_run env i"
  let ?s1 = "with_call t (c\<lparr>sc_point := Working i 0\<rparr>) s" and ?s2 = "with_call t (c\<lparr>sc_point := Working i ?n\<rparr>) s"
  have "shared_step env s ?s1"
    using shared_step.speaks [of env t s] assms i by (simp add: can_speak_def speak_step_def)
  moreover have "(shared_step env)\<^sup>*\<^sup>* ?s1 ?s2"
    using pass_works [of ?s1 t "c\<lparr>sc_point := Working i 0\<rparr>" i 0 env] assms(4) by (simp add: with_call_def)
  moreover have same: "c\<lparr>sc_todo := rest, sc_done := sc_done c @ [a], sc_point := AtPass\<rparr> =
      c\<lparr>sc_todo := rest, sc_done := sc_done c @ [a]\<rparr>" using assms(2) by (cases c) simp
  have "shared_step env ?s2 (with_call t (c\<lparr>sc_todo := rest, sc_done := sc_done c @ [a]\<rparr>) s)"
    using shared_step.speaks [of env t ?s2] i assms(3) by (simp add: can_speak_def speak_step_def with_call_def in_force_def same)
  ultimately show ?thesis
    by (meson converse_rtranclp_into_rtranclp rtranclp.rtrancl_into_rtrancl)
qed

lemma call_answers:
  assumes "vo_calls s t = c" "sc_point c = AtPass" "sc_todo c = []"
  shows "shared_step env s (with_call t (c\<lparr>sc_point := Spoken (Inr (join_parts (in_force s) (sc_done c))) (config_index s)\<rparr>) s)"
  using shared_step.speaks [of env t s] assms by (simp add: can_speak_def speak_step_def)

subsection \<open>A long Kokoro sentence in two voices\<close>

text \<open>
  A voice with two speakers whose model answers one sample, the first of the style it is given; a sentence of one token
  more than the model takes.
\<close>

definition duet_env :: "(unit, unit, unit, unit) voice_env" where
  "duet_env = demo_voice_env\<lparr>ve_run := (\<lambda>_ inputs. case inputs of
     Positional [ids, TensorF32 shape style, speed] \<Rightarrow> Inr [(lit ''y'', TensorF32 [1] (take 1 style))] | _ \<Rightarrow> Inl [])\<rparr>"

definition duet_voice :: kokoro_voice where
  "duet_voice = \<lparr>kk_vocab = \<lparr>vc_map = [(lit ''a'', 1)], vc_bos_id = 0, vc_max_token_chars = 1\<rparr>,
     kk_styles = [lit ''f'' \<mapsto> replicate (MAX_TOKEN_LEN * STYLE_DIM) (f_lit 1),
                  lit ''m'' \<mapsto> replicate (MAX_TOKEN_LEN * STYLE_DIM) (f_lit 2)],
     kk_sample_rate = 24000, kk_default_voice = lit ''f'', kk_speaker_map = [(0, lit ''f''), (1, lit ''m'')],
     kk_synth_config = default_synthesis_config\<rparr>"

definition duet :: "synthesis_config \<Rightarrow> (unit, unit) loaded_voice" where
  "duet c = KokoroVoice \<lparr>km_voice = duet_voice\<lparr>kk_synth_config := c\<rparr>, km_session = (), km_japanese = None\<rparr>"

definition shared_from :: "('t, 's) loaded_voice \<Rightarrow> ('t, 's) shared_voice" where
  "shared_from v = \<lparr>vo_configs = [v], vo_sessions = (\<lambda>_. None),
     vo_calls = (\<lambda>_. \<lparr>sc_phonemes = [], sc_from = 0, sc_todo = [], sc_done = [], sc_point = Uncalled\<rparr>)\<rparr>"

definition long_sentence :: str where "long_sentence = replicate (Suc MAX_TOKEN_LEN) 97"

lemma duet_tokens: "vocab_tokenize (kk_vocab duet_voice) (replicate n 97) = replicate n 1"
proof -
  have step: "widest_match (map_of [([97], 1)]) (min 1 (length (97 # s))) (97 # s) = Some (1, 1 :: int)" for s :: str
    by (simp add: widest_match_def match_at_def)
  show ?thesis
  proof (induction n)
    case (Suc n)
    then show ?case using step [of "replicate n 97"] by (simp add: vocab_tokenize_def duet_voice_def)
  qed (simp add: vocab_tokenize_def)
qed

lemma duet_passes:
  "passes (duet c) long_sentence = [TokenChunk (replicate MAX_TOKEN_LEN 1), TokenChunk [1]]"
proof -
  have space: "vocab_tokenize (kk_vocab duet_voice) (lit '' '') = []"
    by (simp add: vocab_tokenize_def duet_voice_def widest_match_def match_at_def)
  have split_one: "split_tokens (replicate (Suc n) 1) n None = Some [replicate n 1, [1 :: int]]" if "0 < n" for n
  proof -
    have "split_tokens [1 :: int] n None = Some [[1]]" using that by (subst split_tokens.simps) simp
    moreover have "drop n (replicate (Suc n) (1 :: int)) = [1]" "take n (replicate (Suc n) (1 :: int)) = replicate n 1"
      by (simp_all add: drop_replicate take_replicate del: replicate.simps) simp
    ultimately show ?thesis by (subst split_tokens.simps) (simp add: cut_point_def del: replicate.simps)
  qed
  have "split_tokens (replicate (Suc MAX_TOKEN_LEN) 1) MAX_TOKEN_LEN None = Some [replicate MAX_TOKEN_LEN 1, [1 :: int]]"
    by (rule split_one) (simp add: MAX_TOKEN_LEN_def)
  then show ?thesis
    using duet_tokens [of "Suc MAX_TOKEN_LEN"] space
    by (simp add: duet_def kokoro_chunks_def long_sentence_def del: replicate.simps)
qed

definition duet_sample :: "synthesis_config \<Rightarrow> f32" where
  "duet_sample c = (if speaker c = Some 1 then f_lit 2 else f_lit 1)"

lemma table_row: "r < n \<Longrightarrow> take k (drop (r * k) (replicate (n * k) x)) = replicate k x"
  by (cases "n - r") (simp_all add: take_replicate drop_replicate flip: diff_mult_distrib)

lemma duet_style:
  "style_for (kk_styles duet_voice) (resolve_voice_name (kk_speaker_map duet_voice) (kk_default_voice duet_voice) c) n =
     Inr (replicate STYLE_DIM (duet_sample c))"
proof -
  have row: "min (n - 1) (MAX_TOKEN_LEN - 1) < MAX_TOKEN_LEN" by (simp add: MAX_TOKEN_LEN_def)
  have name: "resolve_voice_name (kk_speaker_map duet_voice) (kk_default_voice duet_voice) c =
      (if speaker c = Some 1 then lit ''m'' else lit ''f'')"
    by (simp add: resolve_voice_name_def duet_voice_def split: option.split)
  have "kk_styles duet_voice (if speaker c = Some 1 then lit ''m'' else lit ''f'') =
      Some (replicate (MAX_TOKEN_LEN * STYLE_DIM) (duet_sample c))"
    by (simp add: duet_voice_def duet_sample_def)
  then show ?thesis
    unfolding name style_for_def using table_row [OF row] by (simp del: take_replicate drop_replicate)
qed

lemma duet_pass:
  "pass_result duet_env (duet c) (TokenChunk ts) = Inr (new_audio [duet_sample c] 24000 None)"
proof -
  have "kokoro_prepare (duet_voice\<lparr>kk_synth_config := c\<rparr>) ts = Inr (0 # ts @ [0], replicate STYLE_DIM (duet_sample c))"
    using duet_style by (simp add: kokoro_prepare_def) (simp add: duet_voice_def)
  moreover have "take 1 (replicate STYLE_DIM x) = [x]" for x :: f32 by (simp add: STYLE_DIM_def)
  ultimately show ?thesis
    by (simp add: pass_result_def duet_def kokoro_run_def duet_env_def) (simp add: duet_voice_def)
qed

lemma duet_set: "voice_set_fallback \<lparr>speaker = Some 1, parameters = Map.empty\<rparr> (duet c) = Inr (duet \<lparr>speaker = Some 1, parameters = Map.empty\<rparr>)"
  by (simp add: duet_def duet_voice_def kokoro_set_fallback_def)

text \<open>The config is set between the two passes.\<close>

lemma duet_run:
  "\<exists>s. (shared_step duet_env)\<^sup>*\<^sup>* (shared_from (duet default_synthesis_config)) s \<and>
     sc_point (vo_calls s 0) = Spoken (Inr (new_audio [f_lit 1, f_lit 2] 24000 None)) 1 \<and>
     sc_phonemes (vo_calls s 0) = long_sentence"
proof -
  let ?d = default_synthesis_config and ?c = "\<lparr>speaker = Some 1, parameters = Map.empty\<rparr>"
  let ?a = "\<lambda>c. new_audio [duet_sample c] 24000 None"
  let ?call = "\<lambda>todo done. \<lparr>sc_phonemes = long_sentence, sc_from = 0, sc_todo = todo, sc_done = done, sc_point = AtPass\<rparr>"
  let ?s = "\<lambda>cs call. \<lparr>vo_configs = cs, vo_sessions = (\<lambda>_. None), vo_calls = (vo_calls (shared_from (duet ?d)))(0 := call)\<rparr>"
  let ?one = "[duet ?d]" and ?two = "[duet ?d, duet ?c]"
  let ?p1 = "TokenChunk (replicate MAX_TOKEN_LEN 1)" and ?p2 = "TokenChunk [1]"
  let ?final = "(?call [] [?a ?d, ?a ?c])\<lparr>sc_point := Spoken (Inr (join_parts (duet ?c) [?a ?d, ?a ?c])) 1\<rparr>"
  have free: "\<forall>k. vo_sessions (?s cs call) k = None" for cs call by (simp add: shared_from_def)
  have "shared_step duet_env (shared_from (duet ?d)) (begin_call 0 long_sentence (shared_from (duet ?d)))"
    by (rule shared_step.begins) (simp add: shared_from_def)
  moreover have "begin_call 0 long_sentence (shared_from (duet ?d)) = ?s ?one (?call [?p1, ?p2] [])"
    by (simp add: begin_call_def with_call_def config_index_def in_force_def shared_from_def duet_passes)
  ultimately have r1: "(shared_step duet_env)\<^sup>*\<^sup>* (shared_from (duet ?d)) (?s ?one (?call [?p1, ?p2] []))" by auto
  have r2: "(shared_step duet_env)\<^sup>*\<^sup>* (?s ?one (?call [?p1, ?p2] [])) (?s ?one (?call [?p2] [?a ?d]))"
    using pass_goes_through [of "?s ?one (?call [?p1, ?p2] [])" 0 "?call [?p1, ?p2] []" ?p1 "[?p2]" duet_env "?a ?d"]
      free duet_pass [of ?d] by (simp add: in_force_def with_call_def)
  have r3: "(shared_step duet_env)\<^sup>*\<^sup>* (?s ?one (?call [?p2] [?a ?d])) (?s ?two (?call [?p2] [?a ?d]))"
    using shared_step.sets [of ?c "?s ?one (?call [?p2] [?a ?d])" "duet ?c" duet_env]
    by (intro r_into_rtranclp) (simp add: in_force_def duet_set)
  have r4: "(shared_step duet_env)\<^sup>*\<^sup>* (?s ?two (?call [?p2] [?a ?d])) (?s ?two (?call [] [?a ?d, ?a ?c]))"
    using pass_goes_through [of "?s ?two (?call [?p2] [?a ?d])" 0 "?call [?p2] [?a ?d]" ?p2 "[]" duet_env "?a ?c"]
      free duet_pass [of ?c] by (simp add: in_force_def with_call_def)
  have r5: "(shared_step duet_env)\<^sup>*\<^sup>* (?s ?two (?call [] [?a ?d, ?a ?c])) (?s ?two ?final)"
    using call_answers [of "?s ?two (?call [] [?a ?d, ?a ?c])" 0 "?call [] [?a ?d, ?a ?c]" duet_env]
    by (intro r_into_rtranclp) (simp add: in_force_def config_index_def with_call_def)
  note run = rtranclp_trans [OF r1 rtranclp_trans [OF r2 rtranclp_trans [OF r3 rtranclp_trans [OF r4 r5]]]]
  have "join_parts (duet ?c) [?a ?d, ?a ?c] = new_audio [f_lit 1, f_lit 2] 24000 None"
    by (simp add: duet_def duet_voice_def duet_sample_def default_synthesis_config_def new_audio_def)
  with run show ?thesis by (intro exI [of _ "?s ?two ?final"]) simp
qed

text \<open>
  A Kokoro sentence that takes two passes can come out in two voices: there is a run in which the
  answer is that of no config at all.
\<close>

theorem long_kokoro_sentence_in_two_voices:
  "\<exists>s r u. (shared_step duet_env)\<^sup>*\<^sup>* (shared_from (duet default_synthesis_config)) s \<and>
     sc_point (vo_calls s 0) = Spoken r u \<and> sc_phonemes (vo_calls s 0) = long_sentence \<and>
     (\<forall>c. r \<noteq> speak_one_sentence (voice_methods duet_env (duet c)) long_sentence)"
proof -
  have "speak_one_sentence (voice_methods duet_env (duet c)) long_sentence =
      Inr (new_audio [duet_sample c, duet_sample c] 24000 None)" for c
    by (subst speak_with_one_config [symmetric])
      (simp add: speak_with_def duet_passes duet_pass, simp add: duet_def duet_voice_def new_audio_def)
  moreover have "f_lit 1 \<noteq> f_lit 2" by code_simp
  ultimately have "Inr (new_audio [f_lit 1, f_lit 2] 24000 None) \<noteq>
      speak_one_sentence (voice_methods duet_env (duet c)) long_sentence" for c
    by (auto simp: new_audio_def)
  with duet_run show ?thesis by metis
qed

theorem sentences_keep_their_settings_witness:
  "\<exists>s r u js. (shared_step duet_env)\<^sup>*\<^sup>* (shared_from (duet default_synthesis_config)) s \<and>
     sc_point (vo_calls s 0) = Spoken r u \<and> length js = 2 \<and>
     r = speak_with duet_env (duet default_synthesis_config) (map (nth (vo_configs s)) js) long_sentence"
proof -
  obtain s where s: "(shared_step duet_env)\<^sup>*\<^sup>* (shared_from (duet default_synthesis_config)) s"
    "sc_point (vo_calls s 0) = Spoken (Inr (new_audio [f_lit 1, f_lit 2] 24000 None)) 1"
    "sc_phonemes (vo_calls s 0) = long_sentence" using duet_run by blast
  have "shared_start (duet default_synthesis_config) (shared_from (duet default_synthesis_config))"
    by (simp add: shared_start_def shared_from_def)
  from sentences_keep_their_settings [OF this s(1), of 0] s(2,3) obtain js where
    "length js = length (passes (duet default_synthesis_config) long_sentence)"
    "Inr (new_audio [f_lit 1, f_lit 2] 24000 None) =
       speak_with duet_env (duet default_synthesis_config) (map (nth (vo_configs s)) js) long_sentence"
    by auto
  moreover from this(1) have "length js = 2" by (simp add: duet_passes)
  ultimately show ?thesis using s(1,2) by blast
qed

end
