(* ===== verification/Cli.thy ===== *)
theory Cli
  imports ConfigStore Piper Synthesizer
begin

section \<open>The command line front end\<close>

text \<open>
  \<^verbatim>\<open>crates/frontends/cli/src/main.rs\<close>: requests from the command line or as JSON lines on standard
  input, their synthesis configs, and how the audio of a request is written to a file or a writer. The
  argument parser and the JSON reader are third-party crates: a parsed command line is a record, and the
  reader of a line is an argument. A writer is a state with its two fallible operations. The theorems
  show what a request writes whatever its mode and wherever the writer fails, that requests do not
  influence each other, and that the numbered output files of a session are distinct.
\<close>

subsection \<open>Arguments\<close>

datatype cli_mode = CliLazy | CliParallel | CliBatched | CliRealtime

text \<open>
  \<^verbatim>\<open>to_lowercase\<close> before a comparison with ASCII words: no character outside ASCII has one of their
  letters as its lower case, so that lowering the ASCII letters decides the comparison.
\<close>

definition ascii_lower :: "str \<Rightarrow> str" where
  "ascii_lower s = map (\<lambda>c. if 65 \<le> c \<and> c \<le> 90 then c + 32 else c) s"

definition cli_mode_from_str :: "str \<Rightarrow> str + cli_mode" where
  "cli_mode_from_str s =
     (let normalized = ascii_lower s in
      if normalized = lit ''lazy'' then Inr CliLazy
      else if normalized = lit ''parallel'' then Inr CliParallel
      else if normalized = lit ''batched'' then Inr CliBatched
      else if normalized = lit ''realtime'' then Inr CliRealtime
      else Inl (lit ''Unknown synthesis mode: '' @ quoted s))"

text \<open>\<^verbatim>\<open>str::parse::<f32>\<close>, which rounds the exact decimal value once.\<close>

definition take_digits :: "str \<Rightarrow> str \<times> str" where
  "take_digits s = (takeWhile is_ascii_digit s, dropWhile is_ascii_digit s)"

definition digits_value :: "str \<Rightarrow> nat" where
  "digits_value ds = foldl (\<lambda>n c. 10 * n + (c - 48)) 0 ds"

definition take_sign :: "str \<Rightarrow> bool \<times> str" where
  "take_sign s =
     (case s of c # r \<Rightarrow> if c = 45 then (True, r) else if c = 43 then (False, r) else (False, s) | [] \<Rightarrow> (False, s))"

definition parse_exponent :: "str \<Rightarrow> int option" where
  "parse_exponent s =
     (case s of
        [] \<Rightarrow> Some 0
      | c # r \<Rightarrow>
          if c = 101 \<or> c = 69 then
            (case take_sign r of (neg, ds) \<Rightarrow>
               if ds \<noteq> [] \<and> list_all is_ascii_digit ds
               then Some (if neg then - int (digits_value ds) else int (digits_value ds)) else None)
          else None)"

definition decimal_value :: "nat \<Rightarrow> int \<Rightarrow> rat" where
  "decimal_value digits e = (if 0 \<le> e then of_nat digits * 10 ^ nat e else of_nat digits / 10 ^ nat (- e))"

definition parse_f32 :: "str \<Rightarrow> f32 option" where
  "parse_f32 s =
     (case take_sign s of (neg, body) \<Rightarrow>
        if ascii_lower body = lit ''inf'' \<or> ascii_lower body = lit ''infinity'' then Some (F_Inf neg)
        else if ascii_lower body = lit ''nan'' then Some (F_NaN neg)
        else case take_digits body of (whole, r1) \<Rightarrow>
          (case (if first_of r1 = Some dot then take_digits (drop 1 r1) else ([], r1)) of (fraction, r2) \<Rightarrow>
             if whole = [] \<and> fraction = [] then None
             else map_option (\<lambda>e. mk_f32 neg (decimal_value (digits_value (whole @ fraction)) (e - int (length fraction))))
               (parse_exponent r2)))"

definition parse_param :: "str \<Rightarrow> str + str \<times> f32" where
  "parse_param s =
     (case split_char 61 s of
        key # v # vs \<Rightarrow>
          (case parse_f32 (join_text [61] (v # vs)) of
             Some x \<Rightarrow> Inr (key, x)
           | None \<Rightarrow> Inl (quoted (join_text [61] (v # vs)) @ lit '' is not a valid float''))
      | _ \<Rightarrow> Inl (lit ''expected KEY=VALUE, got '' @ quoted s))"

record cli =
  cl_config :: path
  cl_input_file :: "path option"
  cl_output_file :: "path option"
  cl_mode :: "cli_mode option"
  cl_speaker_id :: "nat option"
  cl_length_scale :: "f32 option"
  cl_noise_scale :: "f32 option"
  cl_noise_w :: "f32 option"
  cl_rate :: "nat option"
  cl_pitch :: "nat option"
  cl_volume :: "nat option"
  cl_silence :: "nat option"
  cl_chunk_size :: "nat option"
  cl_chunk_padding :: "nat option"
  cl_batch_size :: "nat option"
  cl_param :: "(str \<times> f32) list"

subsection \<open>Requests\<close>

record synthesis_request =
  rq_text :: str
  rq_mode :: "cli_mode option"
  rq_speaker_id :: "nat option"
  rq_length_scale :: "f32 option"
  rq_noise_scale :: "f32 option"
  rq_noise_w :: "f32 option"
  rq_rate :: "nat option"
  rq_pitch :: "nat option"
  rq_volume :: "nat option"
  rq_appended_silence_ms :: "nat option"
  rq_chunk_size :: "nat option"
  rq_chunk_padding :: "nat option"
  rq_batch_size :: "nat option"
  rq_parameters :: "(str \<times> f32) list"

definition insert_some :: "str \<Rightarrow> f32 option \<Rightarrow> (str \<Rightarrow> f32 option) \<Rightarrow> str \<Rightarrow> f32 option" where
  "insert_some key v ps = (case v of None \<Rightarrow> ps | Some x \<Rightarrow> ps(key \<mapsto> x))"

definition as_synthesis_config :: "synthesis_request \<Rightarrow> synthesis_config \<Rightarrow> synthesis_config" where
  "as_synthesis_config rq dflt =
     \<lparr>speaker = (case rq_speaker_id rq of Some sid \<Rightarrow> Some (int sid) | None \<Rightarrow> speaker dflt),
      parameters =
        insert_some NOISE_W (rq_noise_w rq)
          (insert_some NOISE_SCALE (rq_noise_scale rq)
            (insert_some LENGTH_SCALE (rq_length_scale rq)
              (foldl (\<lambda>ps (key, v). ps(key \<mapsto> v)) (parameters dflt) (rq_parameters rq))))\<rparr>"

definition as_audio_output_config :: "synthesis_request \<Rightarrow> audio_output_config" where
  "as_audio_output_config rq =
     \<lparr>rate = rq_rate rq, volume = rq_volume rq, pitch = rq_pitch rq,
      appended_silence_ms = rq_appended_silence_ms rq\<rparr>"

definition synthesis_request_from_cli :: "cli \<Rightarrow> str \<Rightarrow> synthesis_request" where
  "synthesis_request_from_cli c text =
     \<lparr>rq_text = text, rq_mode = cl_mode c, rq_speaker_id = cl_speaker_id c, rq_length_scale = cl_length_scale c,
      rq_noise_scale = cl_noise_scale c, rq_noise_w = cl_noise_w c, rq_rate = cl_rate c, rq_pitch = cl_pitch c,
      rq_volume = cl_volume c, rq_appended_silence_ms = cl_silence c, rq_chunk_size = cl_chunk_size c,
      rq_chunk_padding = cl_chunk_padding c, rq_batch_size = cl_batch_size c, rq_parameters = cl_param c\<rparr>"

subsection \<open>Errors and the writer\<close>

text \<open>An \<^verbatim>\<open>anyhow::Error\<close> by what it came from.\<close>

datatype cli_error =
    CliDengjen dengjen_error
  | CliJson str
  | CliIo str
  | CliMessage str

record 'o writer =
  wr_write_all :: "byte list \<Rightarrow> 'o \<Rightarrow> 'o \<times> (str + unit)"
  wr_flush :: "'o \<Rightarrow> 'o \<times> (str + unit)"

definition write_chunk :: "'o writer \<Rightarrow> samples \<Rightarrow> 'o \<Rightarrow> 'o \<times> (cli_error + unit)" where
  "write_chunk w xs out =
     (case wr_write_all w (as_wave_bytes xs) out of
        (out1, Inl why) \<Rightarrow> (out1, Inl (CliIo why))
      | (out1, Inr _) \<Rightarrow>
          (case wr_flush w out1 of
             (out2, Inl why) \<Rightarrow> (out2, Inl (CliIo why))
           | (out2, Inr _) \<Rightarrow> (out2, Inr ())))"

partial_function (option) consume_stream ::
  "('s \<Rightarrow> (samples dengjen_result \<times> 's) option) \<Rightarrow> 'o writer \<Rightarrow> 's \<Rightarrow> 'o \<Rightarrow> ('o \<times> (cli_error + unit)) option" where
  "consume_stream nxt w s out =
     (case nxt s of
        None \<Rightarrow> Some (out, Inr ())
      | Some (chunk, s') \<Rightarrow>
          (case chunk of
             Inl e \<Rightarrow> Some (out, Inl (CliDengjen e))
           | Inr xs \<Rightarrow>
               (case write_chunk w xs out of
                  (out', Inl e) \<Rightarrow> Some (out', Inl e)
                | (out', Inr _) \<Rightarrow> consume_stream nxt w s' out')))"

text \<open>What a list of results should write.\<close>

fun write_items :: "'o writer \<Rightarrow> samples dengjen_result list \<Rightarrow> 'o \<Rightarrow> 'o \<times> (cli_error + unit)" where
  "write_items w [] out = (out, Inr ())"
| "write_items w (Inl e # rs) out = (out, Inl (CliDengjen e))"
| "write_items w (Inr xs # rs) out =
     (case write_chunk w xs out of (out', Inl e) \<Rightarrow> (out', Inl e) | (out', Inr _) \<Rightarrow> write_items w rs out')"

lemma consume_stream_items:
  fixes nxt :: "'s \<Rightarrow> (samples dengjen_result \<times> 's) option"
  assumes stream: "audio_stream nxt rem sinv" and "sinv s"
  shows "consume_stream nxt w s out = Some (write_items w (rem s) out)"
  using assms(2)
proof (induction "rem s" arbitrary: s out)
  case Nil
  have "nxt s = None"
    using audio_stream.yields [OF stream Nil.prems] Nil.hyps by (cases "nxt s") force+
  then show ?case using Nil.hyps [symmetric] by (subst consume_stream.simps) simp
next
  case (Cons x xs)
  obtain s' where s': "nxt s = Some (x, s')" "rem s' = xs" "sinv s'"
    using audio_stream.yields [OF stream Cons.prems] audio_stream.ends [OF stream Cons.prems] Cons.hyps(2)
    by (cases "nxt s") force+
  note IH = Cons.hyps(1) [OF s'(2) [symmetric] s'(3), unfolded s'(2)]
  show ?case
    unfolding Cons.hyps(2) [symmetric]
    by (subst consume_stream.simps; cases x) (auto simp: s'(1) IH split: prod.split sum.split)
qed

subsection \<open>Processing a request\<close>

text \<open>
  What a run of the command line tool needs of its surroundings: the backend of the voice, the time
  stretcher, the chunk sources of realtime synthesis and the schedule of its worker, the pool, the
  RIFF encoder, the faults of the file system, and the writer on standard output.
\<close>

record ('m, 's, 'w, 'o) cli_env =
  ce_backend :: "'m backend"
  ce_sonic :: "'s sonic"
  ce_sin32 :: "f32 \<Rightarrow> f32"
  ce_source :: "'m \<Rightarrow> str \<Rightarrow> nat \<Rightarrow> nat \<Rightarrow> chunk_source"
  ce_ahead :: "rt_state \<Rightarrow> nat"
  ce_pool :: "unit dengjen_result"
  ce_default_batch_size :: nat
  ce_riff :: "'w riff"
  ce_io :: io_faults
  ce_pid :: nat
  ce_writer :: "'o writer"

record ('m, 'o) cli_state =
  cs_voice :: 'm
  cs_disk :: save_world
  cs_out :: 'o

definition cli_provider ::
  "('m, 's, 'w, 'o) cli_env \<Rightarrow> 'm \<Rightarrow> synthesis_request \<Rightarrow> 's task_provider" where
  "cli_provider env m rq =
     \<lparr>model = be_model (ce_backend env) m, text_input = rq_text rq,
      output_config = Some (as_audio_output_config rq), sonic_port = ce_sonic env, sin32 = ce_sin32 env\<rparr>"

definition stream_mode_of :: "nat \<Rightarrow> synthesis_request \<Rightarrow> cli_error + stream_mode" where
  "stream_mode_of default_size rq =
     (case unwrap_or CliLazy (rq_mode rq) of
        CliLazy \<Rightarrow> Inr ModeLazy
      | CliParallel \<Rightarrow> Inr ModeParallel
      | CliBatched \<Rightarrow>
          (case rq_batch_size rq of
             None \<Rightarrow> Inr (ModeBatched default_size)
           | Some n \<Rightarrow> if n = 0 then Inl (CliMessage (lit ''batch_size must be greater than zero''))
                       else Inr (ModeBatched n))
      | CliRealtime \<Rightarrow>
          Inr (ModeRealtime (unwrap_or 100 (rq_chunk_size rq)) (unwrap_or 3 (rq_chunk_padding rq))))"

definition write_samples_of ::
  "('m, 's, 'w, 'o) cli_env \<Rightarrow> 'm \<Rightarrow> synthesis_request \<Rightarrow> 'o \<Rightarrow> ('o \<times> (cli_error + unit)) option" where
  "write_samples_of env m rq out =
     (case stream_mode_of (ce_default_batch_size env) rq of
        Inl e \<Rightarrow> Some (out, Inl e)
      | Inr mode \<Rightarrow>
          (case synthesize_samples (ce_pool env) (ce_source env m) (cli_provider env m rq) mode of
             Inl e \<Rightarrow> Some (out, Inl (CliDengjen e))
           | Inr st \<Rightarrow> consume_stream (samples_next (ce_pool env) (ce_ahead env)) (ce_writer env) st out))"

definition process_synthesis_request ::
  "('m, 's, 'w, 'o) cli_env \<Rightarrow> path option \<Rightarrow> synthesis_config \<Rightarrow> synthesis_request \<Rightarrow> ('m, 'o) cli_state
     \<Rightarrow> (('m, 'o) cli_state \<times> (cli_error + unit)) option" where
  "process_synthesis_request env output_file dflt rq s =
     (case be_set_fallback (ce_backend env) (as_synthesis_config rq dflt) (cs_voice s) of
        Inl e \<Rightarrow> Some (s, Inl (CliDengjen e))
      | Inr m \<Rightarrow>
          (case output_file of
             Some p \<Rightarrow>
               (case synthesize_to_file (ce_pool env) (ce_riff env) (ce_io env) (ce_pid env) p
                       (cli_provider env m rq) (cs_disk s) of
                  (disk, r) \<Rightarrow> Some (s\<lparr>cs_voice := m, cs_disk := disk\<rparr>, res_map_err CliDengjen r))
           | None \<Rightarrow>
               map_option (\<lambda>(out, r). (s\<lparr>cs_voice := m, cs_out := out\<rparr>, r))
                 (write_samples_of env m rq (cs_out s))))"

definition resolve_default_synthesis_config :: "'m backend \<Rightarrow> 'm \<Rightarrow> synthesis_config dengjen_result" where
  "resolve_default_synthesis_config be m = res_map (unwrap_or default_synthesis_config) (be_default be m)"

definition synthesize_from_file ::
  "('m, 's, 'w, 'o) cli_env \<Rightarrow> cli \<Rightarrow> (path \<Rightarrow> str + str) \<Rightarrow> path \<Rightarrow> synthesis_config \<Rightarrow> ('m, 'o) cli_state
     \<Rightarrow> (('m, 'o) cli_state \<times> (cli_error + unit)) option" where
  "synthesize_from_file env c read_to_string input_path dflt s =
     (case read_to_string input_path of
        Inl why \<Rightarrow> Some (s, Inl (CliIo why))
      | Inr text \<Rightarrow>
          process_synthesis_request env (cl_output_file c) dflt (synthesis_request_from_cli c text) s)"

subsection \<open>The session on standard input\<close>

text \<open>
  What is left to read is the list of the lines to come, each read or failing. A request is
  numbered by its line, malformed ones included.
\<close>

definition enumerate_output_path :: "path \<Rightarrow> nat \<Rightarrow> path" where
  "enumerate_output_path p suffix_number =
     (case file_name p of
        None \<Rightarrow> p
      | Some name \<Rightarrow>
          (case stem_and_extension name of
             (stem, ext) \<Rightarrow> with_file_name p
               (stem @ lit ''-'' @ show_nat suffix_number @
                (case ext of None \<Rightarrow> [] | Some e \<Rightarrow> dot # e))))"

definition read_synthesis_request ::
  "(str \<Rightarrow> str + synthesis_request) \<Rightarrow> (str + str) list
     \<Rightarrow> (str + str) list \<times> (cli_error + synthesis_request option)" where
  "read_synthesis_request parse input =
     (case input of
        [] \<Rightarrow> ([], Inr None)
      | Inl why # rest \<Rightarrow> (rest, Inr None)
      | Inr line # rest \<Rightarrow> (rest, res_map Some (res_map_err CliJson (parse line))))"

lemma read_synthesis_request_shorter:
  "read_synthesis_request parse input = (rest, r) \<Longrightarrow> r \<noteq> Inr None \<Longrightarrow> length rest < length input"
  by (auto simp: read_synthesis_request_def split: list.splits sum.splits)

function synthesize_from_stdin ::
  "('m, 's, 'w, 'o) cli_env \<Rightarrow> path option \<Rightarrow> synthesis_config \<Rightarrow> (str \<Rightarrow> str + synthesis_request) \<Rightarrow> nat
     \<Rightarrow> (str + str) list \<Rightarrow> ('m, 'o) cli_state \<Rightarrow> (('m, 'o) cli_state \<times> (cli_error + unit)) option" where
  "synthesize_from_stdin env base_output dflt parse request_count input s =
     (case read_synthesis_request parse input of
        (rest, Inl malformed) \<Rightarrow> synthesize_from_stdin env base_output dflt parse (Suc request_count) rest s
      | (rest, Inr None) \<Rightarrow> Some (s, Inr ())
      | (rest, Inr (Some rq)) \<Rightarrow>
          (case process_synthesis_request env
                  (map_option (\<lambda>p. enumerate_output_path p request_count) base_output) dflt rq s of
             None \<Rightarrow> None
           | Some (s', Inl e) \<Rightarrow> Some (s', Inl e)
           | Some (s', Inr _) \<Rightarrow>
               synthesize_from_stdin env base_output dflt parse (Suc request_count) rest s'))"
  by auto
termination
  by (relation "measure (\<lambda>(env, b, d, parse, n, input, s). length input)")
     (auto dest: read_synthesis_request_shorter [OF sym])

declare synthesize_from_stdin.simps [simp del]

definition synthesize_from_stdin_forever ::
  "('m, 's, 'w, 'o) cli_env \<Rightarrow> path option \<Rightarrow> synthesis_config \<Rightarrow> (str \<Rightarrow> str + synthesis_request)
     \<Rightarrow> (str + str) list \<Rightarrow> ('m, 'o) cli_state \<Rightarrow> (('m, 'o) cli_state \<times> (cli_error + unit)) option" where
  "synthesize_from_stdin_forever env base_output dflt parse input s =
     synthesize_from_stdin env base_output dflt parse 1 input s"

subsection \<open>What a request writes\<close>

lemma stream_mode_of_ok: "stream_mode_of d rq = Inr mode \<Longrightarrow> 0 < d \<Longrightarrow> mode_ok mode"
  by (auto simp: stream_mode_of_def split: cli_mode.splits option.splits if_splits)

lemma write_samples_of_items:
  assumes "ce_pool env = Inr ()" "0 < ce_default_batch_size env"
  shows "write_samples_of env m rq out = Some
    (case res_bind (stream_mode_of (ce_default_batch_size env) rq) (\<lambda>mode.
        res_map_err CliDengjen (mode_items (ce_source env m) (cli_provider env m rq) mode)) of
       Inl e \<Rightarrow> (out, Inl e)
     | Inr items \<Rightarrow> write_items (ce_writer env) items out)"
proof (cases "stream_mode_of (ce_default_batch_size env) rq")
  case (Inl e)
  then show ?thesis by (simp add: write_samples_of_def)
next
  case (Inr mode)
  note items = synthesize_samples_items [OF stream_mode_of_ok [OF Inr assms(2)],
      where source = "ce_source env m" and p = "cli_provider env m rq"]
  show ?thesis
  proof (cases "synthesize_samples (Inr ()) (ce_source env m) (cli_provider env m rq) mode")
    case (Inl e)
    with items(1) show ?thesis by (simp add: write_samples_of_def Inr assms(1) flip: items(1))
  next
    case st: (Inr st)
    have "consume_stream (samples_next (Inr ()) (ce_ahead env)) (ce_writer env) st out =
        Some (write_items (ce_writer env) (samples_remaining (Inr ()) st) out)"
      by (rule consume_stream_items [OF chunks.audio_stream_axioms items(2) [OF st]])
    then show ?thesis by (simp add: write_samples_of_def Inr assms(1) st flip: items(1))
  qed
qed

lemma write_samples_of_cong:
  assumes "ce_pool env = Inr ()" "0 < ce_default_batch_size env"
    "cli_provider env m rq = cli_provider env m rq'"
    "stream_mode_of (ce_default_batch_size env) rq = Inr mode" "stream_mode_of (ce_default_batch_size env) rq' = Inr mode'"
    "mode_items (ce_source env m) (cli_provider env m rq) mode = mode_items (ce_source env m) (cli_provider env m rq) mode'"
  shows "write_samples_of env m rq out = write_samples_of env m rq' out"
  unfolding write_samples_of_items [OF assms(1,2)] by (simp add: assms(3-6) flip: assms(3))

lemma process_cong:
  assumes "as_synthesis_config rq dflt = as_synthesis_config rq' dflt"
    "\<And>m. write_samples_of env m rq (cs_out s) = write_samples_of env m rq' (cs_out s)"
  shows "process_synthesis_request env None dflt rq s = process_synthesis_request env None dflt rq' s"
  by (simp add: process_synthesis_request_def assms split: sum.split)

text \<open>
  A request without an output file is always answered, in whatever mode, and the lazy,
  parallel and batched modes write the same bytes and fail alike, wherever the voice, the
  synthesis or the writer fails.
\<close>

theorem cli_modes_write_the_same:
  assumes "ce_pool env = Inr ()" "0 < ce_default_batch_size env" "0 < n"
  shows "process_synthesis_request env None dflt (rq\<lparr>rq_mode := Some CliParallel\<rparr>) s =
      process_synthesis_request env None dflt (rq\<lparr>rq_mode := None\<rparr>) s \<and>
    process_synthesis_request env None dflt (rq\<lparr>rq_mode := Some CliBatched, rq_batch_size := Some n\<rparr>) s =
      process_synthesis_request env None dflt (rq\<lparr>rq_mode := None\<rparr>) s \<and>
    (\<exists>s' r. process_synthesis_request env None dflt rq s = Some (s', r))"
proof (intro conjI)
  show "process_synthesis_request env None dflt (rq\<lparr>rq_mode := Some CliParallel\<rparr>) s =
      process_synthesis_request env None dflt (rq\<lparr>rq_mode := None\<rparr>) s"
    by (intro process_cong write_samples_of_cong [OF assms(1,2), where mode = ModeParallel and mode' = ModeLazy])
       (simp_all add: as_synthesis_config_def cli_provider_def as_audio_output_config_def stream_mode_of_def)
  show "process_synthesis_request env None dflt (rq\<lparr>rq_mode := Some CliBatched, rq_batch_size := Some n\<rparr>) s =
      process_synthesis_request env None dflt (rq\<lparr>rq_mode := None\<rparr>) s"
    using assms(3)
    by (intro process_cong write_samples_of_cong [OF assms(1,2), where mode = "ModeBatched n" and mode' = ModeLazy])
       (simp_all add: as_synthesis_config_def cli_provider_def as_audio_output_config_def stream_mode_of_def)
  show "\<exists>s' r. process_synthesis_request env None dflt rq s = Some (s', r)"
    by (simp add: process_synthesis_request_def write_samples_of_items [OF assms(1,2)] split: sum.split prod.split)
qed

text \<open>Into a buffer, a request writes the audio up to the first failed item.\<close>

definition buffer_writer :: "byte list writer" where
  "buffer_writer = \<lparr>wr_write_all = (\<lambda>bytes out. (out @ bytes, Inr ())), wr_flush = (\<lambda>out. (out, Inr ()))\<rparr>"

lemma buffer_items:
  "write_items buffer_writer items out =
     (out @ concat (map (\<lambda>r. case r of Inr xs \<Rightarrow> as_wave_bytes xs | Inl _ \<Rightarrow> []) (takeWhile (\<lambda>r. \<exists>xs. r = Inr xs) items)),
      case find_map (\<lambda>r. case r of Inl e \<Rightarrow> Some e | Inr _ \<Rightarrow> None) items of None \<Rightarrow> Inr () | Some e \<Rightarrow> Inl (CliDengjen e))"
proof (induction items arbitrary: out)
  case (Cons r rs)
  then show ?case by (cases r) (simp_all add: write_chunk_def buffer_writer_def)
qed simp

text \<open>
  A batch size of zero is refused in batched mode only, before anything is written; the voice
  already has the config of the refused request.
\<close>

lemma zero_batch_refused:
  assumes "rq_mode rq = Some CliBatched" "rq_batch_size rq = Some 0"
    "be_set_fallback (ce_backend env) (as_synthesis_config rq dflt) (cs_voice s) = Inr m"
  shows "\<exists>msg. process_synthesis_request env None dflt rq s = Some (s\<lparr>cs_voice := m\<rparr>, Inl (CliMessage msg))"
  using assms by (auto simp: process_synthesis_request_def write_samples_of_def stream_mode_of_def)

subsection \<open>Numbered output files\<close>

lemma show_nat_inj: "show_nat m = show_nat n \<Longrightarrow> m = n"
proof (induction m arbitrary: n rule: show_nat.induct)
  case (1 m)
  have m: "show_nat m = (if m < 10 then [48 + m] else show_nat (m div 10) @ [48 + m mod 10])"
    and n: "show_nat n = (if n < 10 then [48 + n] else show_nat (n div 10) @ [48 + n mod 10])"
    by (rule show_nat.simps)+
  show ?case
  proof (cases "m < 10"; cases "n < 10")
    assume "m < 10" "n < 10"
    with 1(2) m n show ?thesis by simp
  next
    assume "m < 10" "\<not> n < 10"
    with 1(2) m n have False by (cases "show_nat (n div 10)") auto
    then show ?thesis ..
  next
    assume "\<not> m < 10" "n < 10"
    with 1(2) m n have False by (cases "show_nat (m div 10)") auto
    then show ?thesis ..
  next
    assume big: "\<not> m < 10" "\<not> n < 10"
    with 1(2) m n have "show_nat (m div 10) = show_nat (n div 10)" "m mod 10 = n mod 10" by simp_all
    with 1(1) [OF big(1)] have "m div 10 = n div 10" "m mod 10 = n mod 10" by blast+
    then show ?thesis by (metis div_mult_mod_eq)
  qed
qed

lemma with_file_name_inj:
  assumes "slash \<notin> set a" "slash \<notin> set b" "a \<noteq> []" "b \<noteq> []"
  shows "with_file_name p a = with_file_name p b \<longleftrightarrow> a = b"
proof -
  have "\<not> is_absolute c" if "slash \<notin> set c" "c \<noteq> []" for c
    using that by (cases c) (auto simp: is_absolute_def starts_with_def)
  with assms show ?thesis by (simp add: with_file_name_def path_join_def)
qed

lemma numbered_name_no_slash:
  assumes "file_name p = Some name" "stem_and_extension name = (stem, ext)"
  shows "slash \<notin> set (stem @ lit ''-'' @ show_nat n @ (case ext of None \<Rightarrow> [] | Some e \<Rightarrow> dot # e))"
proof -
  have "set stem \<subseteq> set name" "\<And>e. ext = Some e \<Longrightarrow> set e \<subseteq> set name"
    using assms(2) stem_and_extension_join [of name stem]
    by (cases ext; force simp: stem_and_extension_def split: option.splits if_splits prod.splits)+
  moreover have "slash \<notin> set (show_nat n)" using show_nat_digits [of n] by (auto simp: slash_def)
  ultimately show ?thesis
    using file_name_no_slash [OF assms(1)] by (auto simp: slash_def dot_def split: option.splits)
qed

text \<open>
  The requests of one session never overwrite each other's output: two different
  numbers give two different files, in the directory of the base path and with its extension,
  whenever the base path names a file at all.
\<close>

theorem numbered_outputs_distinct:
  assumes "file_name p = Some name"
  shows "(enumerate_output_path p m = enumerate_output_path p n \<longleftrightarrow> m = n) \<and>
    (\<exists>name'. file_name (enumerate_output_path p n) = Some name' \<and>
       snd (stem_and_extension name') = snd (stem_and_extension name))"
proof -
  obtain stem ext where se: "stem_and_extension name = (stem, ext)" by (cases "stem_and_extension name")
  let ?tail = "case ext of None \<Rightarrow> [] | Some e \<Rightarrow> dot # e"
  let ?name = "\<lambda>n. stem @ lit ''-'' @ show_nat n @ ?tail"
  have path: "enumerate_output_path p k = with_file_name p (?name k)" for k
    using assms se by (simp add: enumerate_output_path_def)
  have nonempty: "?name k \<noteq> []" for k by simp
  have "enumerate_output_path p m = enumerate_output_path p n \<longleftrightarrow> ?name m = ?name n"
    unfolding path by (intro with_file_name_inj numbered_name_no_slash [OF assms se] nonempty)
  also have "\<dots> \<longleftrightarrow> m = n" using show_nat_inj by auto
  finally have inj: "enumerate_output_path p m = enumerate_output_path p n \<longleftrightarrow> m = n" .
  have dash: "45 \<in> set (?name n)" by simp
  have "?name n \<noteq> x" if "45 \<notin> set x" for x using dash that by metis
  from this [of "lit ''.''"] this [of "lit ''..''"] have "?name n \<noteq> lit ''.''" "?name n \<noteq> lit ''..''"
    by simp_all
  then have fn: "file_name (enumerate_output_path p n) = Some (?name n)"
    unfolding path by (intro file_name_with_file_name numbered_name_no_slash [OF assms se] nonempty)
  have none: "split_at_last_dot s = None \<longleftrightarrow> dot \<notin> set s" for s
    by (induction s) (auto split: option.splits if_splits)
  have last_dot: "dot \<notin> set e \<Longrightarrow> split_at_last_dot (s @ dot # e) = Some (s, e)" for s e
    using none [of e] by (induction s) (auto split: option.split)
  have digits: "dot \<notin> set (show_nat n)" using show_nat_digits [of n] by (auto simp: dot_def)
  have "snd (stem_and_extension (?name n)) = ext"
  proof (cases ext)
    case (Some e)
    with se have "dot \<notin> set e"
      by (auto simp: stem_and_extension_def dest: split_at_last_dot_Some split: option.splits if_splits)
    with Some last_dot [of e "stem @ lit ''-'' @ show_nat n"] show ?thesis by (simp add: stem_and_extension_def)
  next
    case None
    show ?thesis
    proof (cases "split_at_last_dot stem")
      case None
      with digits \<open>ext = None\<close> have "split_at_last_dot (?name n) = None" by (simp add: none dot_def)
      then show ?thesis by (simp add: stem_and_extension_def \<open>ext = None\<close>)
    next
      case (Some ab)
      obtain a b where ab: "ab = (a, b)" by (cases ab)
      have "stem = name" "a = []" using se Some ab \<open>ext = None\<close>
        by (auto simp: stem_and_extension_def split: option.splits if_splits)
      with split_at_last_dot_Some [of stem a b] Some ab have "stem = dot # b" "dot \<notin> set b" by auto
      with digits last_dot [of "b @ lit ''-'' @ show_nat n" "[]"] have
        "split_at_last_dot (?name n) = Some ([], b @ lit ''-'' @ show_nat n)"
        by (auto simp: \<open>ext = None\<close> none dot_def split: option.split)
      then show ?thesis by (simp add: stem_and_extension_def \<open>ext = None\<close>)
    qed
  qed
  with inj fn se show ?thesis by auto
qed

theorem numbered_outputs_distinct_witness:
  "enumerate_output_path (lit ''a/out.wav'') 1 \<noteq> enumerate_output_path (lit ''a/out.wav'') 2"
proof -
  have "file_name (lit ''a/out.wav'') = Some (lit ''out.wav'')"
    by (simp add: file_name_def path_components_def is_absolute_def starts_with_def slash_def last_of_def)
  from numbered_outputs_distinct [OF this, of 1 2] show ?thesis by simp
qed

subsection \<open>Requests do not influence each other\<close>

lemma inserted_parameters:
  "foldl (\<lambda>ps (key, v). ps(key \<mapsto> v)) ps kvs k =
     (case map_of (rev kvs) k of Some v \<Rightarrow> Some v | None \<Rightarrow> ps k)"
  by (induction kvs arbitrary: ps) (auto simp: map_add_def split: option.splits)

text \<open>A named field wins over a generic parameter, the last one given, which wins over the default.\<close>

definition requested_scale :: "f32 option \<Rightarrow> (str \<times> f32) list \<Rightarrow> str \<Rightarrow> f32 \<Rightarrow> f32" where
  "requested_scale named generic key dflt =
     (case named of Some v \<Rightarrow> v
      | None \<Rightarrow> (case map_of (rev generic) key of Some v \<Rightarrow> v | None \<Rightarrow> dflt))"

definition spoken_config :: "synthesis_request \<Rightarrow> piper_synthesis_config \<Rightarrow> piper_synthesis_config" where
  "spoken_config rq dflt =
     \<lparr>ps_speaker = (case rq_speaker_id rq of Some sid \<Rightarrow> Some (int sid) | None \<Rightarrow> ps_speaker dflt),
      ps_length_scale = requested_scale (rq_length_scale rq) (rq_parameters rq) LENGTH_SCALE (ps_length_scale dflt),
      ps_noise_scale = requested_scale (rq_noise_scale rq) (rq_parameters rq) NOISE_SCALE (ps_noise_scale dflt),
      ps_noise_w = requested_scale (rq_noise_w rq) (rq_parameters rq) NOISE_W (ps_noise_w dflt)\<rparr>"

lemma request_config:
  "piper_of_synthesis_config (as_synthesis_config rq (piper_to_synthesis_config dflt)) = spoken_config rq dflt"
  by (simp add: piper_of_synthesis_config_def as_synthesis_config_def spoken_config_def insert_some_def
      requested_scale_def inserted_parameters piper_to_synthesis_config_def split: option.split)

lemma piper_set_of_request:
  assumes "piper_set_fallback (as_synthesis_config rq (piper_to_synthesis_config dflt)) v = r"
  shows "r = (case ps_speaker (spoken_config rq dflt) of
        None \<Rightarrow> Inr (v\<lparr>pv_synth_config := (spoken_config rq dflt)\<lparr>ps_speaker := ps_speaker (pv_synth_config v)\<rparr>\<rparr>)
      | Some sid \<Rightarrow> if pv_speaker_map v sid = None then Inl (unknown_speaker sid)
          else Inr (v\<lparr>pv_synth_config := spoken_config rq dflt\<rparr>))"
  using assms
  by (simp add: piper_set_fallback_def do_set_default_synth_config_def request_config split: option.splits)

definition same_voice :: "piper_voice \<Rightarrow> piper_voice \<Rightarrow> bool" where
  "same_voice v w \<longleftrightarrow> pv_config v = pv_config w \<and> pv_speaker_map v = pv_speaker_map w"

text \<open>
  A request to a Piper voice with several speakers, or one that names its speaker, is
  spoken with a config that depends on the request and the voice alone. Whatever requests came before,
  the same request is refused for the same reason or leaves the voice in the same state, in which
  every scale is the named field of the request, else its last generic parameter, else the default
  of the voice.
\<close>

theorem requests_are_independent:
  assumes "same_voice v w" "1 < mc_num_speakers (pv_config v) \<or> rq_speaker_id rq \<noteq> None"
    "piper_get_default v = Some dflt"
  shows "piper_set_fallback (as_synthesis_config rq dflt) v = piper_set_fallback (as_synthesis_config rq dflt) w \<and>
    res_all (\<lambda>e. \<exists>sid. pv_speaker_map v sid = None \<and> e = unknown_speaker sid)
      (\<lambda>v'. pv_synth_config v' = spoken_config rq (factory_synthesis_config (pv_config v)) \<and> same_voice v v')
      (piper_set_fallback (as_synthesis_config rq dflt) v)"
proof -
  have d: "dflt = piper_to_synthesis_config (factory_synthesis_config (pv_config v))"
    using assms(3) by (simp add: piper_get_default_def)
  obtain sid where sid: "ps_speaker (spoken_config rq (factory_synthesis_config (pv_config v))) = Some sid"
    using assms(2) by (cases "rq_speaker_id rq") (auto simp: spoken_config_def factory_synthesis_config_def)
  have same: "v\<lparr>pv_synth_config := c\<rparr> = w\<lparr>pv_synth_config := c\<rparr>" for c
    using assms(1) by (simp add: same_voice_def)
  have "piper_set_fallback (as_synthesis_config rq dflt) u =
      (if pv_speaker_map v sid = None then Inl (unknown_speaker sid)
       else Inr (v\<lparr>pv_synth_config := spoken_config rq (factory_synthesis_config (pv_config v))\<rparr>))"
    if "u = v \<or> u = w" for u
    using that piper_set_of_request [OF refl, of rq "factory_synthesis_config (pv_config v)" u] assms(1) same
    by (auto simp: d sid same_voice_def)
  from this [of v] this [of w] show ?thesis by (auto simp: same_voice_def)
qed

definition plain_request :: synthesis_request where
  "plain_request = \<lparr>rq_text = lit ''hi'', rq_mode = None, rq_speaker_id = None, rq_length_scale = None,
     rq_noise_scale = None, rq_noise_w = None, rq_rate = None, rq_pitch = None, rq_volume = None,
     rq_appended_silence_ms = None, rq_chunk_size = None, rq_chunk_padding = None, rq_batch_size = None,
     rq_parameters = [(LENGTH_SCALE, f_lit 1), (LENGTH_SCALE, f_lit 2)]\<rparr>"

definition duo_config :: model_config where
  "duo_config = demo_config\<lparr>mc_num_speakers := 2, mc_speaker_id_map := [(lit ''a'', 0), (lit ''b'', 1)]\<rparr>"

theorem requests_are_independent_witness:
  "\<exists>v'. piper_set_fallback (as_synthesis_config plain_request
        (piper_to_synthesis_config (factory_synthesis_config duo_config)))
        (piper_voice_of duo_config (factory_synthesis_config duo_config)) = Inr v' \<and>
     ps_length_scale (pv_synth_config v') = f_lit 2 \<and> ps_noise_w (pv_synth_config v') = f_lit 1"
proof -
  let ?v = "piper_voice_of duo_config (factory_synthesis_config duo_config)"
  let ?d = "piper_to_synthesis_config (factory_synthesis_config duo_config)"
  have d: "piper_get_default ?v = Some ?d" by (simp add: piper_get_default_def piper_voice_of_def)
  have two: "1 < mc_num_speakers (pv_config ?v) \<or> rq_speaker_id plain_request \<noteq> None"
    by (simp add: piper_voice_of_def duo_config_def)
  have default: "resolve_default_speaker_id duo_config = 0"
    by (simp add: resolve_default_speaker_id_def duo_config_def demo_config_def)
  have "\<exists>v'. piper_set_fallback (as_synthesis_config plain_request ?d) ?v = Inr v'"
    using default
    by (simp add: piper_store.accepts speaker_known_def as_synthesis_config_def plain_request_def
        piper_to_synthesis_config_def factory_synthesis_config_def piper_voice_of_def reversed_mapping_def
        duo_config_def demo_config_def)
  moreover have "same_voice ?v ?v" by (simp add: same_voice_def)
  note requests_are_independent [OF this two d]
  moreover have "requested_scale None [(LENGTH_SCALE, f_lit 1), (LENGTH_SCALE, f_lit 2)] LENGTH_SCALE x = f_lit 2"
      "requested_scale None [(LENGTH_SCALE, f_lit 1), (LENGTH_SCALE, f_lit 2)] NOISE_W x = x" for x
    by (simp_all add: requested_scale_def)
  ultimately show ?thesis
    by (auto simp: spoken_config_def plain_request_def piper_voice_of_def factory_synthesis_config_def
        duo_config_def demo_config_def)
qed

text \<open>
  With a single speaker the default config names none, and a request without a speaker keeps the
  one an earlier request chose.
\<close>

lemma single_speaker_is_kept:
  assumes "mc_num_speakers (pv_config v) \<le> 1" "rq_speaker_id rq = None" "piper_get_default v = Some dflt"
  shows "\<exists>v'. piper_set_fallback (as_synthesis_config rq dflt) v = Inr v' \<and>
    ps_speaker (pv_synth_config v') = ps_speaker (pv_synth_config v)"
  using assms piper_set_of_request [OF refl, of rq "factory_synthesis_config (pv_config v)" v]
  by (simp add: piper_get_default_def spoken_config_def factory_synthesis_config_def)

subsection \<open>A session\<close>

lemma process_answers:
  assumes "ce_pool env = Inr ()" "0 < ce_default_batch_size env"
  shows "\<exists>s' r. process_synthesis_request env p dflt rq s = Some (s', r)"
  by (cases p) (simp_all add: process_synthesis_request_def write_samples_of_items [OF assms] split: sum.split prod.split)

lemma session_ends:
  assumes "ce_pool env = Inr ()" "0 < ce_default_batch_size env"
  shows "\<exists>s' r. synthesize_from_stdin env base_output dflt parse n input s = Some (s', r)"
  using assms
proof (induction env base_output dflt parse n input s rule: synthesize_from_stdin.induct)
  case (1 env base_output dflt parse n input s)
  obtain rest q where q: "read_synthesis_request parse input = (rest, q)" by (cases "read_synthesis_request parse input")
  show ?case
  proof (cases "\<exists>rq. q = Inr (Some rq)")
    case True
    then obtain rq where rq: "q = Inr (Some rq)" ..
    let ?p = "map_option (\<lambda>p. enumerate_output_path p n) base_output"
    obtain t r where t: "process_synthesis_request env ?p dflt rq s = Some (t, r)"
      using process_answers [OF 1(3,4)] by blast
    show ?thesis
    proof (cases r)
      case (Inl e)
      with q rq t show ?thesis by (subst synthesize_from_stdin.simps) simp
    next
      case (Inr u)
      with 1(2) [OF q [symmetric] rq refl t refl Inr 1(3,4)] q rq t show ?thesis
        by (subst synthesize_from_stdin.simps) simp
    qed
  next
    case False
    with 1(1) [OF q [symmetric] _ 1(3,4)] q show ?thesis
      by (subst synthesize_from_stdin.simps) (auto split: sum.split option.split)
  qed
qed

context config_store
begin

lemma process_keeps_valid:
  assumes "be_set_fallback (ce_backend env) = set_cfg" "valid (cs_voice s)"
    "process_synthesis_request env p dflt rq s = Some (s', r)"
  shows "valid (cs_voice s')"
  using assms set_keeps_valid
  by (auto simp: process_synthesis_request_def split: sum.splits option.splits prod.splits)

lemma session_keeps_valid:
  "be_set_fallback (ce_backend env) = set_cfg \<Longrightarrow> valid (cs_voice s) \<Longrightarrow>
     synthesize_from_stdin env base_output dflt parse n input s = Some (s', r) \<Longrightarrow> valid (cs_voice s')"
proof (induction env base_output dflt parse n input s rule: synthesize_from_stdin.induct)
  case (1 env base_output dflt parse n input s)
  obtain rest q where q: "read_synthesis_request parse input = (rest, q)" by (cases "read_synthesis_request parse input")
  note run = 1(5) [unfolded synthesize_from_stdin.simps [of env base_output dflt parse n input s] q prod.case]
  show ?case
  proof (cases q)
    case (Inl e)
    with run 1(1) [OF q [symmetric] Inl 1(3,4)] show ?thesis by simp
  next
    case (Inr orq)
    show ?thesis
    proof (cases orq)
      case None
      with run Inr 1(4) show ?thesis by simp
    next
      case (Some rq)
      let ?p = "map_option (\<lambda>p. enumerate_output_path p n) base_output"
      from run Inr Some obtain t u where t: "process_synthesis_request env ?p dflt rq s = Some (t, u)"
        by (auto split: option.splits)
      note valid_t = process_keeps_valid [OF 1(3,4) t]
      show ?thesis
      proof (cases u)
        case (Inl e)
        with run \<open>q = Inr orq\<close> Some t valid_t show ?thesis by simp
      next
        case (Inr x)
        with run \<open>q = Inr orq\<close> Some t
          1(2) [OF q [symmetric] \<open>q = Inr orq\<close> Some t refl Inr 1(3) valid_t] show ?thesis by simp
      qed
    qed
  qed
qed

end

definition speaker_in_force_known :: "piper_voice \<Rightarrow> bool" where
  "speaker_in_force_known v =
     (case ps_speaker (pv_synth_config v) of None \<Rightarrow> True | Some sid \<Rightarrow> pv_speaker_map v sid \<noteq> None)"

lemma piper_valid_iff: "piper_store.valid v \<longleftrightarrow> speaker_in_force_known v"
  unfolding piper_store.valid_def
  by (simp add: piper_get_fallback_def speaker_known_def speaker_in_force_known_def piper_to_synthesis_config_def
      split: option.split)

text \<open>
  A session over finitely many input lines ends, malformed lines and failing requests
  included, and whatever requests it processed, the speaker the voice is left with is one it has.
\<close>

theorem session_ends_with_known_speaker:
  assumes "ce_pool env = Inr ()" "0 < ce_default_batch_size env"
    "be_set_fallback (ce_backend env) = piper_set_fallback" "speaker_in_force_known (cs_voice s)"
  shows "\<exists>s' r. synthesize_from_stdin_forever env base_output dflt parse input s = Some (s', r) \<and>
    speaker_in_force_known (cs_voice s')"
proof -
  obtain s' r where run: "synthesize_from_stdin env base_output dflt parse 1 input s = Some (s', r)"
    using session_ends [OF assms(1,2)] by blast
  from piper_store.session_keeps_valid [OF assms(3) _ run] assms(4) have "speaker_in_force_known (cs_voice s')"
    unfolding piper_valid_iff by blast
  with run show ?thesis by (auto simp: synthesize_from_stdin_forever_def)
qed

definition silent_riff :: "unit riff" where
  "silent_riff = \<lparr>riff_new = (\<lambda>_ _ _. Some ()), riff_write_sample = (\<lambda>_ _. Some ()), riff_sync_header = (\<lambda>_. Some [])\<rparr>"

definition demo_cli_env :: "(piper_voice, nat, unit, byte list) cli_env" where
  "demo_cli_env = \<lparr>ce_backend = store_backend (\<lambda>_. two_speaker_model) piper_get_default piper_get_fallback piper_set_fallback,
     ce_sonic = silent_sonic, ce_sin32 = (\<lambda>x. x), ce_source = (\<lambda>_ _ _ _. SourceItems [] None), ce_ahead = (\<lambda>_. 0),
     ce_pool = Inr (), ce_default_batch_size = 4, ce_riff = silent_riff,
     ce_io = \<lparr>create_fault = None, write_fault = None, rename_fault = None, remove_fails = False\<rparr>, ce_pid = 1,
     ce_writer = buffer_writer\<rparr>"

definition demo_cli_state :: "(piper_voice, byte list) cli_state" where
  "demo_cli_state = \<lparr>cs_voice = piper_voice_of duo_config (factory_synthesis_config duo_config),
     cs_disk = \<lparr>files = Map.empty, temp_counter = 0\<rparr>, cs_out = []\<rparr>"

lemma demo_speaker_known: "speaker_in_force_known (cs_voice demo_cli_state)"
  by (simp add: speaker_in_force_known_def demo_cli_state_def piper_voice_of_def factory_synthesis_config_def
      resolve_default_speaker_id_def duo_config_def demo_config_def reversed_mapping_def)

theorem session_ends_with_known_speaker_witness:
  "\<exists>s' r. synthesize_from_stdin_forever demo_cli_env (Some (lit ''out.wav'')) default_synthesis_config
       (\<lambda>line. if line = [] then Inl (lit ''EOF'') else Inr plain_request)
       [Inr [], Inr (lit ''x''), Inl (lit ''closed'')] demo_cli_state = Some (s', r) \<and>
     speaker_in_force_known (cs_voice s')"
  by (rule session_ends_with_known_speaker) (simp_all add: demo_cli_env_def demo_speaker_known)

theorem cli_modes_write_the_same_witness:
  "process_synthesis_request demo_cli_env None default_synthesis_config
      (plain_request\<lparr>rq_mode := Some CliBatched, rq_batch_size := Some 2\<rparr>) demo_cli_state =
   process_synthesis_request demo_cli_env None default_synthesis_config (plain_request\<lparr>rq_mode := None\<rparr>) demo_cli_state"
  using cli_modes_write_the_same [of demo_cli_env 2 default_synthesis_config plain_request demo_cli_state]
  by (simp add: demo_cli_env_def)

end
