(* ===== verification/Grpc.thy ===== *)
theory Grpc
  imports ConfigStore Piper Synthesizer
begin

section \<open>The gRPC front end\<close>

text \<open>
  \<^verbatim>\<open>crates/frontends/grpc/src/main.rs\<close> and \<^verbatim>\<open>limits.rs\<close>: the caps of the server, the mapping of errors
  to status codes, the registry of voices, the settings of a voice and the handlers. A loaded
  voice is a value of a type \<open>'m\<close> with the operations of its backend; the registry is the list of
  keyed voices, and a handler that changes a voice gives the changed registry. What the network and
  the thread pool do between two handlers is the step relation at the end. The generated message types
  are records here, a canonical path and its hash are arguments. The theorems show that the caps are
  positive and kept in every interleaving, that a voice key is never rebound, that a failed load tells the
  client no path and no cause, and that settings are reported as they were requested.
\<close>

subsection \<open>Caps\<close>

record limits =
  max_voices :: nat
  max_text_bytes :: nat
  max_concurrent_synthesis :: nat
  max_message_bytes :: nat

definition MAX_VOICES_VAR :: str where "MAX_VOICES_VAR = lit ''DENGJEN_GRPC_MAX_VOICES''"
definition MAX_TEXT_BYTES_VAR :: str where "MAX_TEXT_BYTES_VAR = lit ''DENGJEN_GRPC_MAX_TEXT_BYTES''"
definition MAX_CONCURRENT_SYNTHESIS_VAR :: str where
  "MAX_CONCURRENT_SYNTHESIS_VAR = lit ''DENGJEN_GRPC_MAX_CONCURRENT_SYNTHESIS''"
definition MAX_MESSAGE_BYTES_VAR :: str where "MAX_MESSAGE_BYTES_VAR = lit ''DENGJEN_GRPC_MAX_MESSAGE_BYTES''"

definition DEFAULT_MAX_VOICES :: nat where "DEFAULT_MAX_VOICES = 16"
definition DEFAULT_MAX_TEXT_BYTES :: nat where "DEFAULT_MAX_TEXT_BYTES = 64 * 1024"
definition DEFAULT_MAX_CONCURRENT_SYNTHESIS :: nat where "DEFAULT_MAX_CONCURRENT_SYNTHESIS = 4"
definition DEFAULT_MAX_MESSAGE_BYTES :: nat where "DEFAULT_MAX_MESSAGE_BYTES = 16 * 1024 * 1024"

definition default_limits :: limits where
  "default_limits =
     \<lparr>max_voices = DEFAULT_MAX_VOICES, max_text_bytes = DEFAULT_MAX_TEXT_BYTES,
      max_concurrent_synthesis = DEFAULT_MAX_CONCURRENT_SYNTHESIS,
      max_message_bytes = DEFAULT_MAX_MESSAGE_BYTES\<rparr>"

text \<open>\<^verbatim>\<open>str::parse::<usize>\<close>: an optional plus sign, then digits that fit.\<close>

definition parse_usize :: "str \<Rightarrow> nat option" where
  "parse_usize s =
     (let ds = (if first_of s = Some 43 then drop 1 s else s);
          v = foldl (\<lambda>n c. 10 * n + (c - 48)) 0 ds in
      if ds \<noteq> [] \<and> list_all is_ascii_digit ds \<and> v \<le> usize_max then Some v else None)"

definition positive_or :: "(str \<Rightarrow> str option) \<Rightarrow> str \<Rightarrow> nat \<Rightarrow> nat" where
  "positive_or lookup name dflt =
     (case Option.bind (lookup name) (\<lambda>raw. parse_usize (trim_text raw)) of
        None \<Rightarrow> dflt
      | Some v \<Rightarrow> if v > 0 then v else dflt)"

definition limits_from_lookup :: "(str \<Rightarrow> str option) \<Rightarrow> limits" where
  "limits_from_lookup lookup =
     \<lparr>max_voices = positive_or lookup MAX_VOICES_VAR (max_voices default_limits),
      max_text_bytes = positive_or lookup MAX_TEXT_BYTES_VAR (max_text_bytes default_limits),
      max_concurrent_synthesis =
        positive_or lookup MAX_CONCURRENT_SYNTHESIS_VAR (max_concurrent_synthesis default_limits),
      max_message_bytes = positive_or lookup MAX_MESSAGE_BYTES_VAR (max_message_bytes default_limits)\<rparr>"

subsection \<open>Errors\<close>

datatype grpc_error =
    GrpcDengjenError dengjen_error
  | VoiceNotFound str
  | InvalidArgument str
  | ResourceExhausted str

type_synonym 'a grpc_result = "grpc_error + 'a"

definition display_grpc_error :: "grpc_error \<Rightarrow> str" where
  "display_grpc_error e =
     (case e of
        GrpcDengjenError d \<Rightarrow> display_error d
      | VoiceNotFound msg \<Rightarrow> msg
      | InvalidArgument msg \<Rightarrow> msg
      | ResourceExhausted msg \<Rightarrow> msg)"

datatype status_code =
    Aborted
  | Internal
  | InvalidArgumentCode
  | Unimplemented
  | Unknown
  | NotFound
  | ResourceExhaustedCode

type_synonym status = "status_code \<times> str"

definition to_status :: "grpc_error \<Rightarrow> status" where
  "to_status e =
     (case e of
        GrpcDengjenError d \<Rightarrow>
          ((case kind d of
              FailedToLoadResource _ \<Rightarrow> Aborted
            | PhonemizationError _ \<Rightarrow> Aborted
            | InferenceError _ \<Rightarrow> Internal
            | InvalidConfiguration _ \<Rightarrow> InvalidArgumentCode
            | UnsupportedOperation _ \<Rightarrow> Unimplemented
            | _ \<Rightarrow> Unknown), message d)
      | VoiceNotFound msg \<Rightarrow> (NotFound, msg)
      | InvalidArgument msg \<Rightarrow> (InvalidArgumentCode, msg)
      | ResourceExhausted msg \<Rightarrow> (ResourceExhaustedCode, msg))"

definition sanitize_load_error :: "grpc_error \<Rightarrow> grpc_error" where
  "sanitize_load_error e =
     (case e of
        VoiceNotFound _ \<Rightarrow> VoiceNotFound (lit ''The voice config was not found or is not readable'')
      | GrpcDengjenError d \<Rightarrow>
          (case kind d of
             InvalidConfiguration _ \<Rightarrow>
               GrpcDengjenError (InvalidConfiguration (lit ''The voice config is invalid''))
           | _ \<Rightarrow> GrpcDengjenError (FailedToLoadResource (lit ''The voice could not be loaded'')))
      | other \<Rightarrow> other)"

subsection \<open>Prosody and batch size\<close>

record prosody_controls =
  pc_rate :: "nat option"
  pc_volume :: "nat option"
  pc_pitch :: "nat option"
  pc_appended_silence_ms :: "nat option"

definition narrow_prosody_value :: "str \<Rightarrow> nat \<Rightarrow> str + nat" where
  "narrow_prosody_value name v =
     (if v < 256 \<and> v \<le> 100 then Inr v
      else Inl (quoted name @ lit '' must be in the range 0-100, got '' @ show_nat v))"

definition narrow_optional :: "str \<Rightarrow> nat option \<Rightarrow> str + nat option" where
  "narrow_optional name v =
     (case v of None \<Rightarrow> Inr None | Some n \<Rightarrow> res_map Some (narrow_prosody_value name n))"

definition output_config_from_prosody :: "prosody_controls option \<Rightarrow> str + audio_output_config option" where
  "output_config_from_prosody args =
     (case args of
        None \<Rightarrow> Inr None
      | Some a \<Rightarrow>
          res_bind (narrow_optional (lit ''rate'') (pc_rate a)) (\<lambda>r.
          res_bind (narrow_optional (lit ''volume'') (pc_volume a)) (\<lambda>v.
          res_map (\<lambda>p. Some \<lparr>rate = r, volume = v, pitch = p, appended_silence_ms = pc_appended_silence_ms a\<rparr>)
            (narrow_optional (lit ''pitch'') (pc_pitch a)))))"

definition resolve_batch_size :: "nat \<Rightarrow> nat option \<Rightarrow> nat grpc_result" where
  "resolve_batch_size default_size requested =
     (case requested of
        None \<Rightarrow> Inr default_size
      | Some n \<Rightarrow> if n = 0 then Inl (GrpcDengjenError (InvalidConfiguration
            (lit ''batch_size must be greater than zero''))) else Inr n)"

subsection \<open>Voices and their settings\<close>

record synthesis_settings =
  ss_speaker :: "str option"
  ss_length_scale :: "f32 option"
  ss_noise_scale :: "f32 option"
  ss_noise_w :: "f32 option"
  ss_parameters :: "str \<Rightarrow> f32 option"

record audio_format =
  af_sample_rate :: nat
  af_num_channels :: nat
  af_sample_width :: nat

record voice_descriptor =
  vd_voice_key :: str
  vd_synthesis_options :: synthesis_settings
  vd_language :: "str option"
  vd_speakers :: "(int \<times> str) list"
  vd_audio :: audio_format
  vd_supports_streaming_output :: bool

abbreviation lift_error :: "'a dengjen_result \<Rightarrow> 'a grpc_result" where
  "lift_error \<equiv> res_map_err GrpcDengjenError"

definition named_keys :: "str list" where "named_keys = [LENGTH_SCALE, NOISE_SCALE, NOISE_W]"

definition synth_options_from_synthesis_config ::
  "dengjen_model \<Rightarrow> synthesis_config \<Rightarrow> str option grpc_result \<Rightarrow> synthesis_settings grpc_result" where
  "synth_options_from_synthesis_config mdl cfg on_unset_speaker =
     res_map (\<lambda>spk.
       let pc = piper_of_synthesis_config cfg;
           scale_if_set = (\<lambda>key v. if parameters cfg key \<noteq> None then Some v else None) in
       \<lparr>ss_speaker = spk,
        ss_length_scale = scale_if_set LENGTH_SCALE (ps_length_scale pc),
        ss_noise_scale = scale_if_set NOISE_SCALE (ps_noise_scale pc),
        ss_noise_w = scale_if_set NOISE_W (ps_noise_w pc),
        ss_parameters = (\<lambda>key. if key \<in> set named_keys then None else parameters cfg key)\<rparr>)
       (case speaker cfg of
          Some sid \<Rightarrow> lift_error (speaker_id_to_name mdl sid)
        | None \<Rightarrow> on_unset_speaker)"

definition synth_options_for_configless_backend ::
  "str option grpc_result \<Rightarrow> synthesis_settings grpc_result" where
  "synth_options_for_configless_backend on_unset_speaker =
     res_map (\<lambda>spk. \<lparr>ss_speaker = spk, ss_length_scale = None, ss_noise_scale = None, ss_noise_w = None,
                   ss_parameters = Map.empty\<rparr>) on_unset_speaker"

definition synth_options_from_default_config :: "'m backend \<Rightarrow> 'm \<Rightarrow> synthesis_settings grpc_result" where
  "synth_options_from_default_config be m =
     res_bind (lift_error (be_default be m)) (\<lambda>dflt.
       case dflt of
         Some cfg \<Rightarrow> synth_options_from_synthesis_config (be_model be m) cfg (Inr (Some (lit ''Default'')))
       | None \<Rightarrow> synth_options_for_configless_backend (Inr (Some (lit ''Default''))))"

definition synth_options_from_model :: "'m backend \<Rightarrow> 'm \<Rightarrow> synthesis_settings grpc_result" where
  "synth_options_from_model be m =
     res_bind (lift_error (be_fallback be m)) (\<lambda>fallback.
       case fallback of
         Some cfg \<Rightarrow> synth_options_from_synthesis_config (be_model be m) cfg
             (lift_error (speaker_id_to_name (be_model be m) 0))
       | None \<Rightarrow> synth_options_for_configless_backend (lift_error (speaker_id_to_name (be_model be m) 0)))"

definition as_u32 :: "nat \<Rightarrow> nat" where "as_u32 n = n mod 4294967296"

definition build_voice_info :: "'m backend \<Rightarrow> str \<Rightarrow> 'm \<Rightarrow> voice_descriptor grpc_result" where
  "build_voice_info be key m =
     res_bind (lift_error (audio_output_info (be_model be m))) (\<lambda>i.
     res_bind (lift_error (get_speakers (be_model be m))) (\<lambda>sp.
     res_bind (lift_error (get_language (be_model be m))) (\<lambda>lang.
     res_map (\<lambda>opts.
       \<lparr>vd_voice_key = key, vd_synthesis_options = opts, vd_language = lang,
        vd_speakers = unwrap_or [] sp,
        vd_audio = \<lparr>af_sample_rate = as_u32 (sample_rate i), af_num_channels = as_u32 (num_channels i),
                    af_sample_width = as_u32 (sample_width i)\<rparr>,
        vd_supports_streaming_output = supports_streaming_output (be_model be m)\<rparr>)
       (synth_options_from_default_config be m))))"

subsection \<open>The registry\<close>

record 'm service =
  sv_voices :: "(str \<times> 'm) list"
  sv_limits :: limits
  sv_free_permits :: nat

definition with_limits :: "limits \<Rightarrow> 'm service" where
  "with_limits caps = \<lparr>sv_voices = [], sv_limits = caps, sv_free_permits = max_concurrent_synthesis caps\<rparr>"

definition voice_not_loaded :: "str \<Rightarrow> grpc_error" where
  "voice_not_loaded key = VoiceNotFound (lit ''A voice with the key '' @ quoted key @ lit '' has not been loaded'')"

definition find_voice :: "'m service \<Rightarrow> str \<Rightarrow> 'm grpc_result" where
  "find_voice sv key = ok_or (voice_not_loaded key) (map_of (sv_voices sv) key)"

definition check_text_size :: "'m service \<Rightarrow> str \<Rightarrow> unit grpc_result" where
  "check_text_size sv text =
     (if utf8_len text > max_text_bytes (sv_limits sv) then
        Inl (InvalidArgument (lit ''Request text is '' @ show_nat (utf8_len text) @ lit '' bytes; the limit is ''
          @ show_nat (max_text_bytes (sv_limits sv)) @ lit '' bytes''))
      else Inr ())"

definition acquire_synthesis_permit :: "'m service \<Rightarrow> 'm service grpc_result" where
  "acquire_synthesis_permit sv =
     (if sv_free_permits sv = 0 then
        Inl (ResourceExhausted (lit ''Too many concurrent synthesis tasks; the limit is ''
          @ show_nat (max_concurrent_synthesis (sv_limits sv))))
      else Inr (sv\<lparr>sv_free_permits := sv_free_permits sv - 1\<rparr>))"

definition release_permit :: "'m service \<Rightarrow> 'm service" where
  "release_permit sv = sv\<lparr>sv_free_permits := sv_free_permits sv + 1\<rparr>"

definition hex_digit :: "nat \<Rightarrow> uchar" where
  "hex_digit d = (if d < 10 then 48 + d else 87 + d)"

definition hex16 :: "nat \<Rightarrow> str" where
  "hex16 v = map (\<lambda>i. hex_digit ((v div 16 ^ i) mod 16)) (rev [0..<16])"

definition voice_key_for_path :: "(path \<Rightarrow> str + path) \<Rightarrow> (path \<Rightarrow> nat) \<Rightarrow> path \<Rightarrow> str grpc_result" where
  "voice_key_for_path canonicalize xxh3_64 p =
     res_map (\<lambda>canonical. hex16 (xxh3_64 canonical))
       (res_map_err (\<lambda>why. VoiceNotFound (lit ''Could not resolve config path '' @ quoted p @ lit '': '' @ why))
         (canonicalize p))"

definition resolve_voice_key ::
  "(path \<Rightarrow> bool) \<Rightarrow> (path \<Rightarrow> str + path) \<Rightarrow> (path \<Rightarrow> nat) \<Rightarrow> path \<Rightarrow> str grpc_result" where
  "resolve_voice_key is_file canonicalize xxh3_64 p =
     (if \<not> is_file p then Inl (VoiceNotFound (lit ''Config file does not exists: '' @ quoted p))
      else voice_key_for_path canonicalize xxh3_64 p)"

definition cached_voice_info :: "'m backend \<Rightarrow> 'm service \<Rightarrow> str \<Rightarrow> voice_descriptor grpc_result option" where
  "cached_voice_info be sv key = map_option (build_voice_info be key) (map_of (sv_voices sv) key)"

definition register_voice ::
  "'m backend \<Rightarrow> str \<Rightarrow> 'm \<Rightarrow> 'm service \<Rightarrow> 'm service \<times> voice_descriptor grpc_result" where
  "register_voice be key candidate sv =
     (case map_of (sv_voices sv) key of
        Some m \<Rightarrow> (sv, build_voice_info be key m)
      | None \<Rightarrow>
          if length (sv_voices sv) \<ge> max_voices (sv_limits sv) then
            (sv, Inl (ResourceExhausted (lit ''Too many loaded voices; the limit is ''
              @ show_nat (max_voices (sv_limits sv)))))
          else
            (sv\<lparr>sv_voices := sv_voices sv @ [(key, candidate)]\<rparr>, build_voice_info be key candidate))"

definition lookup_synth_options :: "'m backend \<Rightarrow> 'm service \<Rightarrow> str \<Rightarrow> synthesis_settings grpc_result" where
  "lookup_synth_options be sv key = res_bind (find_voice sv key) (synth_options_from_model be)"

definition put_voice :: "str \<Rightarrow> 'm \<Rightarrow> 'm service \<Rightarrow> 'm service" where
  "put_voice key m sv =
     sv\<lparr>sv_voices := map (\<lambda>(k, v). (k, if k = key then m else v)) (sv_voices sv)\<rparr>"

text \<open>The config that a settings message asks for, from the one in force.\<close>

definition insert_if_set :: "str \<Rightarrow> f32 option \<Rightarrow> (str \<Rightarrow> f32 option) \<Rightarrow> str \<Rightarrow> f32 option" where
  "insert_if_set key v ps = (case v of None \<Rightarrow> ps | Some x \<Rightarrow> ps(key \<mapsto> x))"

definition requested_speaker :: "dengjen_model \<Rightarrow> str option \<Rightarrow> int option \<Rightarrow> int option dengjen_result" where
  "requested_speaker mdl name current =
     (case name of
        None \<Rightarrow> Inr current
      | Some n \<Rightarrow> res_map (\<lambda>sid. case sid of Some i \<Rightarrow> Some i | None \<Rightarrow> current) (speaker_name_to_id mdl n))"

definition merge_settings ::
  "dengjen_model \<Rightarrow> synthesis_settings \<Rightarrow> synthesis_config \<Rightarrow> synthesis_config dengjen_result" where
  "merge_settings mdl opts cfg =
     res_map (\<lambda>spk.
       cfg\<lparr>speaker := spk,
           parameters :=
             insert_if_set NOISE_W (ss_noise_w opts)
               (insert_if_set NOISE_SCALE (ss_noise_scale opts)
                 (insert_if_set LENGTH_SCALE (ss_length_scale opts)
                   (parameters cfg ++ ss_parameters opts)))\<rparr>)
       (requested_speaker mdl (ss_speaker opts) (speaker cfg))"

definition apply_to_voice :: "'m backend \<Rightarrow> synthesis_settings \<Rightarrow> 'm \<Rightarrow> 'm grpc_result" where
  "apply_to_voice be opts m =
     lift_error
       (res_bind (be_fallback be m) (\<lambda>fallback.
        res_bind (merge_settings (be_model be m) opts (unwrap_or default_synthesis_config fallback))
          (\<lambda>cfg. be_set_fallback be cfg m)))"

definition apply_synth_options ::
  "'m backend \<Rightarrow> str \<Rightarrow> synthesis_settings \<Rightarrow> 'm service \<Rightarrow> 'm service \<times> synthesis_settings grpc_result" where
  "apply_synth_options be key opts sv =
     (case res_bind (find_voice sv key) (apply_to_voice be opts) of
        Inl e \<Rightarrow> (sv, Inl e)
      | Inr m' \<Rightarrow> (put_voice key m' sv, synth_options_from_model be m'))"

subsection \<open>Handlers\<close>

definition status_of :: "'a grpc_result \<Rightarrow> status + 'a" where
  "status_of r = res_map_err to_status r"

text \<open>
  \<^verbatim>\<open>load_voice\<close> in its three parts: what it does before the voice is loaded on the thread pool, how
  the loaded voice is registered, and the error a failed load is answered with.
\<close>

datatype 'm load_start = Answered "status + voice_descriptor" | LoadStarted str "'m service"

definition load_voice_begin ::
  "(path \<Rightarrow> bool) \<Rightarrow> (path \<Rightarrow> str + path) \<Rightarrow> (path \<Rightarrow> nat) \<Rightarrow> 'm backend \<Rightarrow> path \<Rightarrow> 'm service
     \<Rightarrow> 'm load_start" where
  "load_voice_begin is_file canonicalize xxh3_64 be p sv =
     (case resolve_voice_key is_file canonicalize xxh3_64 p of
        Inl e \<Rightarrow> Answered (Inl (to_status (sanitize_load_error e)))
      | Inr key \<Rightarrow>
          (case cached_voice_info be sv key of
             Some r \<Rightarrow> Answered (status_of r)
           | None \<Rightarrow>
               (case acquire_synthesis_permit sv of
                  Inl e \<Rightarrow> Answered (Inl (to_status e))
                | Inr sv' \<Rightarrow> LoadStarted key sv')))"

text \<open>A task on the blocking pool returns, or fails to because it panicked or was cancelled.\<close>

datatype 'a blocking_task = TaskReturns "grpc_error + 'a" | TaskFails str

definition run_blocking :: "'a blocking_task \<Rightarrow> grpc_error + 'a" where
  "run_blocking task =
     (case task of
        TaskReturns r \<Rightarrow> r
      | TaskFails e \<Rightarrow> Inl (GrpcDengjenError (OperationError (lit ''Blocking task failed: '' @ e))))"

definition load_voice_failed :: "dengjen_error \<Rightarrow> status" where
  "load_voice_failed e = to_status (sanitize_load_error (GrpcDengjenError e))"

definition load_voice_end :: "'m backend \<Rightarrow> str \<Rightarrow> 'm \<Rightarrow> 'm service \<Rightarrow> 'm service \<times> (status + voice_descriptor)" where
  "load_voice_end be key m sv =
     (case register_voice be key m sv of (sv', r) \<Rightarrow> (sv', status_of r))"

definition get_voice_info :: "'m backend \<Rightarrow> str \<Rightarrow> 'm service \<Rightarrow> status + voice_descriptor" where
  "get_voice_info be key sv = status_of (res_bind (find_voice sv key) (build_voice_info be key))"

definition get_synthesis_options :: "'m backend \<Rightarrow> str \<Rightarrow> 'm service \<Rightarrow> status + synthesis_settings" where
  "get_synthesis_options be key sv = status_of (lookup_synth_options be sv key)"

definition set_synthesis_options ::
  "'m backend \<Rightarrow> str \<Rightarrow> synthesis_settings option \<Rightarrow> 'm service \<Rightarrow> 'm service \<times> (status + synthesis_settings)" where
  "set_synthesis_options be key opts sv =
     (case opts of
        None \<Rightarrow> (sv, Inl (InvalidArgumentCode, lit ''No synthesis options provided''))
      | Some o1 \<Rightarrow> (case apply_synth_options be key o1 sv of (sv', r) \<Rightarrow> (sv', status_of r)))"

datatype grpc_mode = ModeUnspecified | ModeLazyRpc | ModeParallelRpc | ModeBatchedRpc

record synthesis_rpc =
  sr_text :: str
  sr_voice_key :: str
  sr_prosody :: "prosody_controls option"
  sr_synthesis_mode :: int
  sr_batch_size :: "nat option"

text \<open>The enumeration of the generated message module is the argument \<open>mode_of\<close>.\<close>

definition admit_utterance ::
  "(int \<Rightarrow> grpc_mode option) \<Rightarrow> nat \<Rightarrow> synthesis_rpc \<Rightarrow> 'm service
     \<Rightarrow> status + ('m \<times> audio_output_config option \<times> grpc_mode \<times> 'm service)" where
  "admit_utterance mode_of default_size rq sv =
     res_bind (res_map_err (\<lambda>msg. (InvalidArgumentCode, msg)) (output_config_from_prosody (sr_prosody rq)))
       (\<lambda>out_cfg.
     res_bind (ok_or (InvalidArgumentCode, lit ''Unrecognized synthesis_mode value: '' @ show_int (sr_synthesis_mode rq))
       (mode_of (sr_synthesis_mode rq))) (\<lambda>mode.
     res_bind (if mode = ModeBatchedRpc
               then res_map (\<lambda>_. ()) (status_of (resolve_batch_size default_size (sr_batch_size rq)))
               else Inr ()) (\<lambda>_.
     res_bind (status_of (check_text_size sv (sr_text rq))) (\<lambda>_.
     res_bind (status_of (find_voice sv (sr_voice_key rq))) (\<lambda>m.
     res_map (\<lambda>sv'. (m, out_cfg, mode, sv')) (status_of (acquire_synthesis_permit sv)))))))"

definition admit_utterance_realtime ::
  "synthesis_rpc \<Rightarrow> 'm service \<Rightarrow> status + ('m \<times> audio_output_config option \<times> 'm service)" where
  "admit_utterance_realtime rq sv =
     res_bind (res_map_err (\<lambda>msg. (InvalidArgumentCode, msg)) (output_config_from_prosody (sr_prosody rq)))
       (\<lambda>out_cfg.
     res_bind (status_of (check_text_size sv (sr_text rq))) (\<lambda>_.
     res_bind (status_of (find_voice sv (sr_voice_key rq))) (\<lambda>m.
     res_map (\<lambda>sv'. (m, out_cfg, sv')) (status_of (acquire_synthesis_permit sv)))))"

subsection \<open>Streaming the answer\<close>

datatype 's synthesis_stream =
    RpcLazy "'s lazy_stream"
  | RpcParallel parallel_stream
  | RpcBatched "'s batched_stream"

fun rpc_next ::
  "unit dengjen_result \<Rightarrow> 's synthesis_stream \<Rightarrow> (audio dengjen_result \<times> 's synthesis_stream) option" where
  "rpc_next pool (RpcLazy s) = map_option (map_prod id RpcLazy) (lazy_next s)"
| "rpc_next pool (RpcParallel s) = map_option (map_prod id RpcParallel) (parallel_next s)"
| "rpc_next pool (RpcBatched s) = map_option (map_prod id RpcBatched) (batched_next pool s)"

definition build_synthesis_stream ::
  "unit dengjen_result \<Rightarrow> nat \<Rightarrow> 's task_provider \<Rightarrow> grpc_mode \<Rightarrow> nat option \<Rightarrow> 's synthesis_stream grpc_result" where
  "build_synthesis_stream pool default_size p mode requested =
     (case mode of
        ModeUnspecified \<Rightarrow> lift_error (res_map RpcLazy (lazy_new p))
      | ModeLazyRpc \<Rightarrow> lift_error (res_map RpcLazy (lazy_new p))
      | ModeParallelRpc \<Rightarrow> lift_error (res_map RpcParallel (parallel_new pool p))
      | ModeBatchedRpc \<Rightarrow>
          res_bind (resolve_batch_size default_size requested) (\<lambda>n.
            lift_error (res_map RpcBatched (batched_new p n))))"

record synthesis_chunk =
  ck_audio_bytes :: "byte list"
  ck_real_time_factor :: f32

definition to_chunk :: "audio \<Rightarrow> synthesis_chunk" where
  "to_chunk a =
     \<lparr>ck_audio_bytes = as_wave_bytes (samples a), ck_real_time_factor = unwrap_or (f_lit 0) (real_time_factor a)\<rparr>"

text \<open>
  The worker that sends a stream to the client: \<open>room\<close> is how many messages the client takes before
  it hangs up, after which sending fails.
\<close>

partial_function (option) drain_stream_into_channel ::
  "('s \<Rightarrow> ((dengjen_error + 'a) \<times> 's) option) \<Rightarrow> ('a \<Rightarrow> 'b) \<Rightarrow> nat \<Rightarrow> 's \<Rightarrow> (status + 'b) list
     \<Rightarrow> (status + 'b) list option" where
  "drain_stream_into_channel nxt to_message room s sent =
     (case nxt s of
        None \<Rightarrow> Some sent
      | Some (r, s') \<Rightarrow>
          (case r of
             Inl e \<Rightarrow> Some (if room = 0 then sent else sent @ [Inl (to_status (GrpcDengjenError e))])
           | Inr chunk \<Rightarrow>
               if room = 0 then Some sent
               else drain_stream_into_channel nxt to_message (room - 1) s' (sent @ [Inr (to_message chunk)])))"

text \<open>What a client should see of a list of results: the messages up to the first error.\<close>

fun until_error :: "('a \<Rightarrow> 'b) \<Rightarrow> (dengjen_error + 'a) list \<Rightarrow> (status + 'b) list" where
  "until_error f [] = []"
| "until_error f (Inl e # rs) = [Inl (to_status (GrpcDengjenError e))]"
| "until_error f (Inr x # rs) = Inr (f x) # until_error f rs"

lemma drain_from_stream:
  fixes nxt :: "'s \<Rightarrow> ((dengjen_error + 'a) \<times> 's) option"
  assumes stream: "audio_stream nxt rem sinv" and "sinv s"
  shows "drain_stream_into_channel nxt f room s sent = Some (sent @ take room (until_error f (rem s)))"
  using assms(2)
proof (induction "rem s" arbitrary: s room sent)
  case Nil
  have "nxt s = None"
    using audio_stream.yields [OF stream Nil.prems] Nil.hyps by (cases "nxt s") force+
  then show ?case using Nil.hyps [symmetric] by (subst drain_stream_into_channel.simps) simp
next
  case (Cons x xs)
  obtain s' where s': "nxt s = Some (x, s')" "rem s' = xs" "sinv s'"
    using audio_stream.yields [OF stream Cons.prems] audio_stream.ends [OF stream Cons.prems] Cons.hyps(2)
    by (cases "nxt s") force+
  show ?case
  proof (cases x)
    case (Inl e)
    then show ?thesis using s' Cons.hyps(2) [symmetric]
      by (subst drain_stream_into_channel.simps) (cases room; simp)
  next
    case (Inr a)
    have "drain_stream_into_channel nxt f (room - 1) s' (sent @ [Inr (f a)]) =
        Some ((sent @ [Inr (f a)]) @ take (room - 1) (until_error f (rem s')))"
      using Cons.hyps(1) [of s'] s' by simp
    then show ?thesis using s' Inr Cons.hyps(2) [symmetric]
      by (subst drain_stream_into_channel.simps) (cases room; simp)
  qed
qed

fun rpc_remaining :: "unit dengjen_result \<Rightarrow> 's synthesis_stream \<Rightarrow> audio dengjen_result list" where
  "rpc_remaining pool (RpcLazy s) = lazy_remaining s"
| "rpc_remaining pool (RpcParallel s) = finished s"
| "rpc_remaining pool (RpcBatched s) = batched_remaining pool s"

fun rpc_inv :: "'s synthesis_stream \<Rightarrow> bool" where
  "rpc_inv (RpcBatched s) = (0 < batch_size s)"
| "rpc_inv _ = True"

interpretation rpc: result_stream "rpc_next pool" "rpc_remaining pool" rpc_inv
proof
  fix s :: "'a synthesis_stream"
  assume "rpc_inv s" "rpc_next pool s = None"
  then show "rpc_remaining pool s = []"
    by (cases s) (auto dest: lazy.ends [OF TrueI] parallel.ends [OF TrueI] batched.ends)
next
  fix s s' :: "'a synthesis_stream" and x
  assume "rpc_inv s" "rpc_next pool s = Some (x, s')"
  then show "rpc_remaining pool s = x # rpc_remaining pool s' \<and> rpc_inv s'"
    by (cases s) (auto dest: lazy.yields [OF TrueI] parallel.yields [OF TrueI] batched.yields)
qed

subsection \<open>What a client hears\<close>

text \<open>
  The worker of \<^verbatim>\<open>synthesize_utterance\<close>: a stream that cannot be built is answered with its error.
\<close>

definition synthesize_utterance_worker ::
  "unit dengjen_result \<Rightarrow> nat \<Rightarrow> 's task_provider \<Rightarrow> grpc_mode \<Rightarrow> nat option \<Rightarrow> nat
     \<Rightarrow> (status + synthesis_chunk) list option" where
  "synthesize_utterance_worker pool default_size p mode requested room =
     (case build_synthesis_stream pool default_size p mode requested of
        Inl e \<Rightarrow> Some (take room [Inl (to_status e)])
      | Inr st \<Rightarrow> drain_stream_into_channel (rpc_next pool) to_chunk room st [])"

lemma built_stream_remaining:
  assumes "build_synthesis_stream (Inr ()) d p mode requested = Inr st" "0 < d"
  shows "rpc_inv st \<and> Inr (rpc_remaining (Inr ()) st) = res_map (map (process_one_sentence p)) (get_phonemes p)"
  using assms
  by (cases mode; cases "get_phonemes p")
     (auto simp: build_synthesis_stream_def resolve_batch_size_def lazy_new_def parallel_new_def
       batched_new_def lazy_remaining_def batched_remaining_def split: option.splits if_splits)

lemma unbuilt_stream:
  assumes "build_synthesis_stream (Inr ()) d p mode requested = Inl e"
    "mode = ModeBatchedRpc \<Longrightarrow> requested \<noteq> Some 0"
  shows "\<exists>e'. get_phonemes p = Inl e' \<and> e = GrpcDengjenError e'"
  using assms
  by (cases mode; cases "get_phonemes p")
     (auto simp: build_synthesis_stream_def resolve_batch_size_def lazy_new_def parallel_new_def
       batched_new_def split: option.splits if_splits)

lemma worker_sends:
  assumes "mode = ModeBatchedRpc \<Longrightarrow> requested \<noteq> Some 0" "0 < d"
  shows "synthesize_utterance_worker (Inr ()) d p mode requested room =
     Some (take room (case get_phonemes p of
        Inl e \<Rightarrow> [Inl (to_status (GrpcDengjenError e))]
      | Inr sentences \<Rightarrow> until_error to_chunk (map (process_one_sentence p) sentences)))"
proof (cases "build_synthesis_stream (Inr ()) d p mode requested")
  case (Inl e)
  then show ?thesis using unbuilt_stream [OF Inl assms(1)] by (auto simp: synthesize_utterance_worker_def)
next
  case (Inr st)
  from built_stream_remaining [OF Inr assms(2)] have st: "rpc_inv st"
    "res_map (map (process_one_sentence p)) (get_phonemes p) = Inr (rpc_remaining (Inr ()) st)"
    by simp_all
  have "drain_stream_into_channel (rpc_next (Inr ())) to_chunk room st [] =
      Some ([] @ take room (until_error to_chunk (rpc_remaining (Inr ()) st)))"
    by (rule drain_from_stream [OF rpc.audio_stream_axioms st(1)])
  with st(2) show ?thesis
    by (auto simp: synthesize_utterance_worker_def Inr res_conv)
qed

lemma admitted_batch_size:
  "admit_utterance mode_of d rq sv = Inr (m, out_cfg, mode, sv') \<Longrightarrow> mode = ModeBatchedRpc \<Longrightarrow>
     sr_batch_size rq \<noteq> Some 0"
  by (auto simp: admit_utterance_def res_conv status_of_def resolve_batch_size_def)

text \<open>
  A client of \<^verbatim>\<open>SynthesizeUtterance\<close> whose request was admitted gets, in every
  mode and with every batch size, the audio of the sentences in order and then either the end or the
  one error at which synthesis stopped, and the worker ends: it stops early only when the client
  has hung up. A text that cannot be phonemized is answered with that error alone.
\<close>

theorem client_hears_every_sentence:
  assumes "admit_utterance mode_of d rq sv = Inr (m, out_cfg, mode, sv')" "0 < d"
  shows "synthesize_utterance_worker (Inr ()) d p mode (sr_batch_size rq) room =
     Some (take room (case get_phonemes p of
        Inl e \<Rightarrow> [Inl (to_status (GrpcDengjenError e))]
      | Inr sentences \<Rightarrow> until_error to_chunk (map (process_one_sentence p) sentences)))"
  using admitted_batch_size [OF assms(1)] assms(2) by (rule worker_sends)

text \<open>
  The worker of \<^verbatim>\<open>synthesize_utterance_realtime\<close>, whose stream nobody cancels; its messages are the
  bytes of the chunks. The worker of the stream runs ahead as \<open>ahead\<close> says.
\<close>

definition synthesize_utterance_realtime_worker ::
  "unit dengjen_result \<Rightarrow> (str \<Rightarrow> nat \<Rightarrow> nat \<Rightarrow> chunk_source) \<Rightarrow> (rt_state \<Rightarrow> nat) \<Rightarrow> 's task_provider \<Rightarrow> nat
     \<Rightarrow> (status + byte list) list option" where
  "synthesize_utterance_realtime_worker pool source ahead p room =
     (case synthesize_streamed pool source p 55 3 of
        Inl e \<Rightarrow> Some (take room [Inl (to_status (GrpcDengjenError e))])
      | Inr (rq, st) \<Rightarrow> drain_stream_into_channel (rt_next ahead rq) as_wave_bytes room st [])"

lemma realtime_worker_sends:
  "synthesize_utterance_realtime_worker (Inr ()) source ahead p room =
     Some (take room (case mode_items source p (ModeRealtime 55 3) of
        Inl e \<Rightarrow> [Inl (to_status (GrpcDengjenError e))]
      | Inr items \<Rightarrow> until_error as_wave_bytes items))"
proof (cases "synthesize_streamed (Inr ()) source p 55 3")
  case (Inl e)
  then have "mode_items source p (ModeRealtime 55 3) = Inl e"
    using realtime_items(1) [of source p 55 3] by simp
  with Inl show ?thesis by (simp add: synthesize_utterance_realtime_worker_def)
next
  case (Inr st)
  obtain rq rs where st: "st = (rq, rs)" by (cases st)
  have items: "mode_items source p (ModeRealtime 55 3) = Inr (rt_remaining rq rs)"
    using realtime_items(1) [of source p 55 3] by (simp add: Inr st)
  have "drain_stream_into_channel (rt_next ahead rq) as_wave_bytes room rs [] =
      Some ([] @ take room (until_error as_wave_bytes (rt_remaining rq rs)))"
    by (rule drain_from_stream [OF rt.audio_stream_axioms realtime_items(2) [OF Inr [unfolded st]]])
  then show ?thesis
    by (simp add: synthesize_utterance_realtime_worker_def Inr st items del: mode_items.simps)
qed

definition demo_service :: "unit service" where
  "demo_service = (with_limits default_limits)\<lparr>sv_voices := [(lit ''k'', ())]\<rparr>"

definition demo_rpc :: synthesis_rpc where
  "demo_rpc = \<lparr>sr_text = lit ''hi'', sr_voice_key = lit ''k'', sr_prosody = None, sr_synthesis_mode = 3,
     sr_batch_size = Some 2\<rparr>"

lemma demo_admitted:
  "admit_utterance (\<lambda>_. Some ModeBatchedRpc) 4 demo_rpc demo_service =
     Inr ((), None, ModeBatchedRpc, demo_service\<lparr>sv_free_permits := 3\<rparr>)"
proof -
  have "max_concurrent_synthesis default_limits = 4" "max_text_bytes default_limits = 65536"
    by (simp_all add: default_limits_def DEFAULT_MAX_CONCURRENT_SYNTHESIS_def DEFAULT_MAX_TEXT_BYTES_def)
  moreover have "utf8_len (lit ''hi'') = 2" by (simp add: utf8_len_def char_utf8_len_def)
  ultimately show ?thesis
    by (simp add: admit_utterance_def demo_rpc_def demo_service_def output_config_from_prosody_def
        resolve_batch_size_def status_of_def check_text_size_def find_voice_def with_limits_def
        acquire_synthesis_permit_def ok_or_def)
qed

theorem client_hears_every_sentence_witness:
  "synthesize_utterance_worker (Inr ()) 4 two_sentence_provider ModeBatchedRpc (sr_batch_size demo_rpc) 512 =
     Some (take 512 (until_error to_chunk (replicate 3 (process_one_sentence two_sentence_provider (lit ''hi'')))))"
  using client_hears_every_sentence [OF demo_admitted, of two_sentence_provider 512]
  by (simp add: get_phonemes_def two_sentence_provider_def numeral_eq_Suc)

subsection \<open>Caps and errors\<close>

text \<open>
  Whatever the environment holds, missing, malformed, zero or overflowing values
  included, every cap of the server is positive, and a cap that is set to a plain positive number is used.
\<close>

theorem limits_are_positive:
  "(case limits_from_lookup lookup of l \<Rightarrow>
      0 < max_voices l \<and> 0 < max_text_bytes l \<and> 0 < max_concurrent_synthesis l \<and> 0 < max_message_bytes l \<and>
      max_voices l \<le> max usize_max (max_voices default_limits) \<and>
      (case lookup MAX_VOICES_VAR of
         None \<Rightarrow> max_voices l = max_voices default_limits
       | Some raw \<Rightarrow> max_voices l = (case parse_usize (trim_text raw) of
            Some v \<Rightarrow> if v = 0 then max_voices default_limits else v | None \<Rightarrow> max_voices default_limits)))"
proof -
  have pos: "0 < d \<Longrightarrow> 0 < positive_or lookup n d \<and> positive_or lookup n d \<le> max usize_max d" for n d
    by (auto simp: positive_or_def parse_usize_def Let_def max_def split: option.splits bind_split if_splits)
  have d: "0 < max_voices default_limits" "0 < max_text_bytes default_limits"
    "0 < max_concurrent_synthesis default_limits" "0 < max_message_bytes default_limits"
    by (simp_all add: default_limits_def DEFAULT_MAX_VOICES_def DEFAULT_MAX_TEXT_BYTES_def
        DEFAULT_MAX_CONCURRENT_SYNTHESIS_def DEFAULT_MAX_MESSAGE_BYTES_def)
  show ?thesis
    using pos [OF d(1), of MAX_VOICES_VAR] pos [OF d(2), of MAX_TEXT_BYTES_VAR]
      pos [OF d(3), of MAX_CONCURRENT_SYNTHESIS_VAR] pos [OF d(4), of MAX_MESSAGE_BYTES_VAR]
    by (simp add: limits_from_lookup_def positive_or_def split: option.split)
qed

definition is_invalid_config :: "dengjen_error \<Rightarrow> bool" where
  "is_invalid_config e = (case kind e of InvalidConfiguration _ \<Rightarrow> True | _ \<Rightarrow> False)"

definition registry_full :: "'m service \<Rightarrow> str \<Rightarrow> bool" where
  "registry_full sv key \<longleftrightarrow> map_of (sv_voices sv) key = None \<and> max_voices (sv_limits sv) \<le> length (sv_voices sv)"

text \<open>
  \<^bold>\<open>C30\<close>: what a client learns from a failed load does not depend on the path it asked for, on
  the files of the server or on what the operating system said. Two config paths that do not resolve get the
  same answer. Two loads that fail get the same answer when both or neither complain of the
  configuration, and a load that panicked is answered as one of the other failures. A voice that is loaded but
  finds the registry full gets an answer that depends on the cap alone.
\<close>

theorem load_errors_reveal_nothing:
  "(resolve_voice_key is_file canon hash p = Inl e \<and> resolve_voice_key is_file' canon' hash' q = Inl e' \<longrightarrow>
      load_voice_begin is_file canon hash be p sv = load_voice_begin is_file' canon' hash' be' q sv') \<and>
   (is_invalid_config d = is_invalid_config d' \<longrightarrow> load_voice_failed d = load_voice_failed d') \<and>
   (run_blocking (TaskFails panic) = (Inl b :: 'x grpc_result) \<and> \<not> is_invalid_config d \<longrightarrow>
      to_status (sanitize_load_error b) = load_voice_failed d) \<and>
   (registry_full sv key \<and> registry_full sv' key' \<and> max_voices (sv_limits sv) = max_voices (sv_limits sv') \<longrightarrow>
      snd (load_voice_end be key m sv) = snd (load_voice_end be' key' m' sv'))"
proof (intro conjI impI)
  assume "resolve_voice_key is_file canon hash p = Inl e \<and> resolve_voice_key is_file' canon' hash' q = Inl e'"
  moreover from this have "sanitize_load_error e = sanitize_load_error e'"
    by (auto simp: resolve_voice_key_def voice_key_for_path_def sanitize_load_error_def res_conv
        res_map_def res_map_err_def split: if_splits sum.splits)
  ultimately show "load_voice_begin is_file canon hash be p sv = load_voice_begin is_file' canon' hash' be' q sv'"
    by (simp add: load_voice_begin_def)
next
  assume "is_invalid_config d = is_invalid_config d'"
  then show "load_voice_failed d = load_voice_failed d'"
    by (simp add: load_voice_failed_def sanitize_load_error_def is_invalid_config_def split: dengjen_error.splits)
next
  assume "run_blocking (TaskFails panic) = (Inl b :: 'x grpc_result) \<and> \<not> is_invalid_config d"
  then show "to_status (sanitize_load_error b) = load_voice_failed d"
    by (auto simp: load_voice_failed_def run_blocking_def sanitize_load_error_def is_invalid_config_def
        split: dengjen_error.splits)
next
  assume "registry_full sv key \<and> registry_full sv' key' \<and> max_voices (sv_limits sv) = max_voices (sv_limits sv')"
  then show "snd (load_voice_end be key m sv) = snd (load_voice_end be' key' m' sv')"
    by (simp add: load_voice_end_def register_voice_def registry_full_def status_of_def)
qed

definition full_service :: "unit service" where
  "full_service = demo_service\<lparr>sv_limits := default_limits\<lparr>max_voices := 1\<rparr>\<rparr>"

theorem load_errors_reveal_nothing_witness:
  "load_voice_begin (\<lambda>_. False) Inr (\<lambda>_. 0) (undefined :: unit backend) (lit ''/etc/shadow'') full_service =
     load_voice_begin (\<lambda>_. True) (\<lambda>_. Inl (lit ''permission denied'')) (\<lambda>_. 0) undefined (lit ''/x'') full_service \<and>
   load_voice_failed (OperationError (lit ''/etc/x'')) = load_voice_failed (PhonemizationError []) \<and>
   snd (load_voice_end (undefined :: unit backend) (lit ''a'') () full_service) =
     snd (load_voice_end undefined (lit ''b'') () full_service)"
proof -
  have "registry_full full_service (lit ''a'')" "registry_full full_service (lit ''b'')"
    by (simp_all add: registry_full_def full_service_def demo_service_def)
  moreover have "\<exists>e. resolve_voice_key (\<lambda>_. False) Inr (\<lambda>_. 0) (lit ''/etc/shadow'') = Inl e"
    "\<exists>e. resolve_voice_key (\<lambda>_. True) (\<lambda>_. Inl (lit ''permission denied'')) (\<lambda>_. 0) (lit ''/x'') = Inl e"
    by (simp_all add: resolve_voice_key_def voice_key_for_path_def)
  moreover have "is_invalid_config (OperationError (lit ''/etc/x'')) = is_invalid_config (PhonemizationError [])"
    by (simp add: is_invalid_config_def)
  ultimately show ?thesis
    using load_errors_reveal_nothing [of "\<lambda>_. False" Inr "\<lambda>_. 0" "lit ''/etc/shadow''" _ "\<lambda>_. True"
        "\<lambda>_. Inl (lit ''permission denied'')" "\<lambda>_. 0" "lit ''/x''" _ "undefined :: unit backend" full_service
        "undefined :: unit backend" full_service "OperationError (lit ''/etc/x'')" "PhonemizationError []" "[]"
        "GrpcDengjenError (OperationError [])" "lit ''a''" "lit ''b''" "()" "()"]
    by blast
qed

text \<open>The answer to a failed load names no path: it is one of two constants.\<close>

lemma failed_load_statuses:
  "load_voice_failed d = (if is_invalid_config d then (InvalidArgumentCode, message (InvalidConfiguration (lit ''The voice config is invalid'')))
     else (Aborted, message (FailedToLoadResource (lit ''The voice could not be loaded''))))"
  by (simp add: load_voice_failed_def sanitize_load_error_def is_invalid_config_def to_status_def
      split: dengjen_error.splits)

text \<open>Nor does a load that panicked repeat the panic to the client.\<close>

lemma panicked_load_status:
  "run_blocking (TaskFails e) = Inl err \<Longrightarrow>
     to_status (sanitize_load_error err) = (Aborted, message (FailedToLoadResource (lit ''The voice could not be loaded'')))"
  by (auto simp: run_blocking_def sanitize_load_error_def to_status_def message_def)

subsection \<open>Settings\<close>

lemma put_voice_lookup [simp]:
  "map_of (sv_voices (put_voice key m sv)) k =
     (if k = key \<and> map_of (sv_voices sv) key \<noteq> None then Some m else map_of (sv_voices sv) k)"
proof -
  have "map_of (map (\<lambda>(k, v). (k, if k = key then m else v)) vs) k =
      (if k = key \<and> map_of vs key \<noteq> None then Some m else map_of vs k)" for vs
    by (induction vs) auto
  then show ?thesis by (simp add: put_voice_def)
qed

lemma put_voice_keys [simp]: "map fst (sv_voices (put_voice key m sv)) = map fst (sv_voices sv)"
  by (simp add: put_voice_def split_beta)

lemma put_voice_rest [simp]:
  "sv_limits (put_voice key m sv) = sv_limits sv" "sv_free_permits (put_voice key m sv) = sv_free_permits sv"
  "length (sv_voices (put_voice key m sv)) = length (sv_voices sv)"
  by (simp_all add: put_voice_def)

declare res_map_err_eq_Inr [simp]

lemma status_of_Inr [simp]: "status_of r = Inr x \<longleftrightarrow> r = Inr x"
  by (cases r) (simp_all add: status_of_def)

lemma set_synthesis_options_cases:
  assumes "set_synthesis_options be key opts sv = (sv', r)"
  obtains (refused) e where "sv' = sv" "r = Inl e"
  | (applied) m m' o1 where "opts = Some o1" "map_of (sv_voices sv) key = Some m"
      "apply_to_voice be o1 m = Inr m'" "sv' = put_voice key m' sv"
      "r = status_of (synth_options_from_model be m')"
proof (cases opts)
  case None
  then have "sv' = sv" "r = Inl (InvalidArgumentCode, lit ''No synthesis options provided'')"
    using assms unfolding set_synthesis_options_def by simp_all
  then show ?thesis by (rule refused)
next
  case (Some o1)
  show ?thesis
  proof (cases "res_bind (find_voice sv key) (apply_to_voice be o1)")
    case (Inl e)
    then have "sv' = sv" "r = Inl (to_status e)"
      using assms Some by (simp_all add: set_synthesis_options_def apply_synth_options_def status_of_def)
    then show ?thesis by (rule refused)
  next
    case (Inr m')
    then obtain m where m: "map_of (sv_voices sv) key = Some m" "apply_to_voice be o1 m = Inr m'"
      by (auto simp: res_conv find_voice_def)
    have "sv' = put_voice key m' sv" "r = status_of (synth_options_from_model be m')"
      using assms Some Inr by (simp_all add: set_synthesis_options_def apply_synth_options_def)
    with Some m show ?thesis by (rule applied)
  qed
qed

text \<open>The answer to a change of settings is what a later query of the settings gives.\<close>

lemma settings_read_back:
  assumes "set_synthesis_options be key opts sv = (sv', Inr back)"
  shows "get_synthesis_options be key sv' = Inr back"
  using assms
  by (cases rule: set_synthesis_options_cases)
     (auto simp: get_synthesis_options_def lookup_synth_options_def find_voice_def)

lemma other_voices_keep_settings:
  assumes "set_synthesis_options be key opts sv = (sv', r)" "k \<noteq> key"
  shows "get_synthesis_options be k sv' = get_synthesis_options be k sv"
  using assms(1)
  by (cases rule: set_synthesis_options_cases)
     (use assms(2) in \<open>auto simp: get_synthesis_options_def lookup_synth_options_def find_voice_def\<close>)

definition piper_backend :: "(piper_voice \<Rightarrow> dengjen_model) \<Rightarrow> piper_voice backend" where
  "piper_backend model_of = store_backend model_of piper_get_default piper_get_fallback piper_set_fallback"

definition override :: "'a option \<Rightarrow> 'a \<Rightarrow> 'a" where
  "override x y = (case x of Some v \<Rightarrow> v | None \<Rightarrow> y)"

text \<open>The speaker in force after a change that may name one: a name the voice does not know changes nothing.\<close>

definition speaker_after_options :: "dengjen_model \<Rightarrow> str option \<Rightarrow> int option \<Rightarrow> int option" where
  "speaker_after_options mdl name current =
     (case name of
        None \<Rightarrow> current
      | Some n \<Rightarrow> (case speaker_name_to_id mdl n of Inr (Some i) \<Rightarrow> Some i | _ \<Rightarrow> current))"

lemma override_simps [simp]: "override (Some x) y = x" "override None y = y"
  by (simp_all add: override_def)

lemma merged_parameter:
  assumes "merge_settings mdl opts cfg0 = Inr cfg"
  shows "parameters cfg LENGTH_SCALE = (case ss_length_scale opts of Some x \<Rightarrow> Some x
      | None \<Rightarrow> (parameters cfg0 ++ ss_parameters opts) LENGTH_SCALE)"
    "parameters cfg NOISE_SCALE = (case ss_noise_scale opts of Some x \<Rightarrow> Some x
      | None \<Rightarrow> (parameters cfg0 ++ ss_parameters opts) NOISE_SCALE)"
    "parameters cfg NOISE_W = (case ss_noise_w opts of Some x \<Rightarrow> Some x
      | None \<Rightarrow> (parameters cfg0 ++ ss_parameters opts) NOISE_W)"
    "speaker cfg = speaker_after_options mdl (ss_speaker opts) (speaker cfg0)"
proof -
  from assms obtain spk where "requested_speaker mdl (ss_speaker opts) (speaker cfg0) = Inr spk"
    "cfg = cfg0\<lparr>speaker := spk, parameters :=
       insert_if_set NOISE_W (ss_noise_w opts) (insert_if_set NOISE_SCALE (ss_noise_scale opts)
         (insert_if_set LENGTH_SCALE (ss_length_scale opts) (parameters cfg0 ++ ss_parameters opts)))\<rparr>"
    by (auto simp: merge_settings_def res_map_eq_Inr)
  moreover from this(1) have "spk = speaker_after_options mdl (ss_speaker opts) (speaker cfg0)"
    by (auto simp: requested_speaker_def speaker_after_options_def res_map_eq_Inr split: option.splits)
  ultimately show "parameters cfg LENGTH_SCALE = (case ss_length_scale opts of Some x \<Rightarrow> Some x
      | None \<Rightarrow> (parameters cfg0 ++ ss_parameters opts) LENGTH_SCALE)"
    "parameters cfg NOISE_SCALE = (case ss_noise_scale opts of Some x \<Rightarrow> Some x
      | None \<Rightarrow> (parameters cfg0 ++ ss_parameters opts) NOISE_SCALE)"
    "parameters cfg NOISE_W = (case ss_noise_w opts of Some x \<Rightarrow> Some x
      | None \<Rightarrow> (parameters cfg0 ++ ss_parameters opts) NOISE_W)"
    "speaker cfg = speaker_after_options mdl (ss_speaker opts) (speaker cfg0)"
    by (simp_all add: insert_if_set_def split: option.split)
qed

lemma merged_scales:
  assumes "merge_settings mdl opts (piper_to_synthesis_config c) = Inr cfg"
  shows "parameters cfg LENGTH_SCALE =
      Some (override (ss_length_scale opts) (override (ss_parameters opts LENGTH_SCALE) (ps_length_scale c))) \<and>
    parameters cfg NOISE_SCALE =
      Some (override (ss_noise_scale opts) (override (ss_parameters opts NOISE_SCALE) (ps_noise_scale c))) \<and>
    parameters cfg NOISE_W =
      Some (override (ss_noise_w opts) (override (ss_parameters opts NOISE_W) (ps_noise_w c))) \<and>
    speaker cfg = speaker_after_options mdl (ss_speaker opts) (ps_speaker c)"
  unfolding merged_parameter [OF assms]
  by (simp add: piper_to_synthesis_config_def override_def map_add_def split: option.split)

lemma piper_after_set:
  assumes "piper_set_fallback cfg v = Inr v'"
    "parameters cfg LENGTH_SCALE = Some l" "parameters cfg NOISE_SCALE = Some n" "parameters cfg NOISE_W = Some w"
  shows "ps_length_scale (pv_synth_config v') = l \<and> ps_noise_scale (pv_synth_config v') = n \<and>
    ps_noise_w (pv_synth_config v') = w \<and>
    ps_speaker (pv_synth_config v') = (case speaker cfg of None \<Rightarrow> ps_speaker (pv_synth_config v) | Some i \<Rightarrow> Some i)"
  using assms
  by (auto simp: piper_set_fallback_def do_set_default_synth_config_def piper_of_synthesis_config_def
      split: option.splits if_splits)

lemma piper_shared_parameters:
  "parameters (piper_to_synthesis_config c) LENGTH_SCALE = Some (ps_length_scale c)"
  "parameters (piper_to_synthesis_config c) NOISE_SCALE = Some (ps_noise_scale c)"
  "parameters (piper_to_synthesis_config c) NOISE_W = Some (ps_noise_w c)"
  "speaker (piper_to_synthesis_config c) = ps_speaker c"
  "(\<lambda>key. if key \<in> set named_keys then None else parameters (piper_to_synthesis_config c) key) = Map.empty"
  by (auto simp: piper_to_synthesis_config_def named_keys_def)

lemma piper_settings_reported:
  assumes "synth_options_from_model (piper_backend mo) v = Inr back"
  shows "ss_length_scale back = Some (ps_length_scale (pv_synth_config v)) \<and>
    ss_noise_scale back = Some (ps_noise_scale (pv_synth_config v)) \<and>
    ss_noise_w back = Some (ps_noise_w (pv_synth_config v)) \<and> ss_parameters back = Map.empty \<and>
    speaker_id_to_name (mo v) (unwrap_or 0 (ps_speaker (pv_synth_config v))) = Inr (ss_speaker back)"
  using assms
  by (auto simp: synth_options_from_model_def piper_backend_def piper_get_fallback_def res_conv
      synth_options_from_synthesis_config_def Let_def piper_config_roundtrip piper_shared_parameters
      split: option.splits)

text \<open>
  \<^bold>\<open>C29\<close>: a change of settings that is accepted for a loaded Piper voice is answered with the
  settings now in force, which a later query repeats. Each of the three scales has the value of its
  own field, else the value the parameters give under its name, else what it was. Other parameters
  are not kept: none is reported. The speaker in force is the one named, if the voice knows that name,
  else what it was, and is reported by its name (speaker 0 when none is set). No other voice is touched.
\<close>

theorem set_then_get_settings:
  assumes "set_synthesis_options (piper_backend mo) key (Some opts) sv = (sv', Inr back)"
    "map_of (sv_voices sv) key = Some v" "k \<noteq> key"
  shows "get_synthesis_options (piper_backend mo) key sv' = Inr back \<and>
    ss_length_scale back =
      Some (override (ss_length_scale opts) (override (ss_parameters opts LENGTH_SCALE) (ps_length_scale (pv_synth_config v)))) \<and>
    ss_noise_scale back =
      Some (override (ss_noise_scale opts) (override (ss_parameters opts NOISE_SCALE) (ps_noise_scale (pv_synth_config v)))) \<and>
    ss_noise_w back =
      Some (override (ss_noise_w opts) (override (ss_parameters opts NOISE_W) (ps_noise_w (pv_synth_config v)))) \<and>
    ss_parameters back = Map.empty \<and>
    (\<exists>v'. map_of (sv_voices sv') key = Some v' \<and>
      ps_speaker (pv_synth_config v') = speaker_after_options (mo v) (ss_speaker opts) (ps_speaker (pv_synth_config v)) \<and>
      speaker_id_to_name (mo v') (unwrap_or 0 (ps_speaker (pv_synth_config v'))) = Inr (ss_speaker back)) \<and>
    get_synthesis_options (piper_backend mo) k sv' = get_synthesis_options (piper_backend mo) k sv"
proof (cases rule: set_synthesis_options_cases [OF assms(1)])
  case (2 m m' o1)
  have "status_of (synth_options_from_model (piper_backend mo) m') = Inr back" by (simp add: 2(5))
  moreover have "o1 = opts" "m = v" using 2(1,2) assms(2) by simp_all
  ultimately have m': "apply_to_voice (piper_backend mo) opts v = Inr m'"
    "synth_options_from_model (piper_backend mo) m' = Inr back"
    using 2(3) by simp_all
  then obtain cfg where cfg: "merge_settings (mo v) opts (piper_to_synthesis_config (pv_synth_config v)) = Inr cfg"
    "piper_set_fallback cfg v = Inr m'"
    by (auto simp: apply_to_voice_def piper_backend_def piper_get_fallback_def res_conv)
  have "ps_speaker (pv_synth_config m') = speaker_after_options (mo v) (ss_speaker opts) (ps_speaker (pv_synth_config v))"
    using merged_scales [OF cfg(1)] piper_after_set [OF cfg(2)]
    by (auto simp: speaker_after_options_def split: option.splits sum.splits)
  moreover have "map_of (sv_voices sv') key = Some m'" using 2(4) assms(2) by simp
  ultimately show ?thesis
    using settings_read_back [OF assms(1)] other_voices_keep_settings [OF assms(1,3)]
      merged_scales [OF cfg(1)] piper_after_set [OF cfg(2)] piper_settings_reported [OF m'(2)]
    by auto
qed auto

definition demo_voice :: piper_voice where
  "demo_voice = piper_voice_of demo_config (factory_synthesis_config demo_config)"

definition slower :: synthesis_settings where
  "slower = \<lparr>ss_speaker = None, ss_length_scale = Some (f_lit 2), ss_noise_scale = None, ss_noise_w = None,
     ss_parameters = Map.empty\<rparr>"

definition piper_service :: "piper_voice service" where
  "piper_service = (with_limits default_limits)\<lparr>sv_voices := [(lit ''k'', demo_voice)]\<rparr>"

lemma slower_applied:
  "apply_to_voice (piper_backend (\<lambda>_. two_speaker_model)) slower demo_voice =
     Inr (demo_voice\<lparr>pv_synth_config := (pv_synth_config demo_voice)\<lparr>ps_length_scale := f_lit 2\<rparr>\<rparr>)"
  by (simp add: apply_to_voice_def piper_backend_def piper_get_fallback_def merge_settings_def slower_def
      requested_speaker_def insert_if_set_def piper_set_fallback_def do_set_default_synth_config_def
      piper_of_synthesis_config_def piper_to_synthesis_config_def demo_voice_def piper_voice_of_def
      factory_synthesis_config_def demo_config_def)

lemma slower_reported:
  assumes "pv_synth_config v = c" "ps_speaker c = None"
  shows "synth_options_from_model (piper_backend (\<lambda>_. two_speaker_model)) v =
    Inr \<lparr>ss_speaker = Some (lit ''amy''), ss_length_scale = Some (ps_length_scale c),
      ss_noise_scale = Some (ps_noise_scale c), ss_noise_w = Some (ps_noise_w c), ss_parameters = Map.empty\<rparr>"
  using assms
  by (simp add: synth_options_from_model_def piper_backend_def piper_get_fallback_def
      synth_options_from_synthesis_config_def piper_config_roundtrip piper_shared_parameters
      speaker_id_to_name_def two_speaker_model_def)

theorem set_then_get_settings_witness:
  "\<exists>sv' back. set_synthesis_options (piper_backend (\<lambda>_. two_speaker_model)) (lit ''k'') (Some slower) piper_service
       = (sv', Inr back) \<and> ss_length_scale back = Some (f_lit 2) \<and> ss_noise_w back = Some (f_lit 1) \<and>
     get_synthesis_options (piper_backend (\<lambda>_. two_speaker_model)) (lit ''k'') sv' = Inr back"
proof -
  define v' where "v' = demo_voice\<lparr>pv_synth_config := (pv_synth_config demo_voice)\<lparr>ps_length_scale := f_lit 2\<rparr>\<rparr>"
  have none: "ps_speaker (pv_synth_config v') = None"
    by (simp add: v'_def demo_voice_def piper_voice_of_def factory_synthesis_config_def demo_config_def)
  have set: "set_synthesis_options (piper_backend (\<lambda>_. two_speaker_model)) (lit ''k'') (Some slower) piper_service
      = (put_voice (lit ''k'') v' piper_service, Inr \<lparr>ss_speaker = Some (lit ''amy''),
          ss_length_scale = Some (ps_length_scale (pv_synth_config v')),
          ss_noise_scale = Some (ps_noise_scale (pv_synth_config v')),
          ss_noise_w = Some (ps_noise_w (pv_synth_config v')), ss_parameters = Map.empty\<rparr>)"
    using slower_reported [OF refl none]
    by (simp add: set_synthesis_options_def apply_synth_options_def find_voice_def piper_service_def
        slower_applied v'_def [symmetric])
  have w: "ps_noise_w (pv_synth_config demo_voice) = f_lit 1"
    by (simp add: demo_voice_def piper_voice_of_def factory_synthesis_config_def demo_config_def)
  from set_then_get_settings [OF set, of demo_voice "lit ''j''"] set w show ?thesis
    by (auto simp: piper_service_def slower_def override_def)
qed

subsection \<open>The server as a state machine\<close>

text \<open>
  Between its handlers the server has loads and syntheses on the blocking pool. A permit is held by
  a load until the voice is loaded or has failed, which is before the voice is registered, and by a
  synthesis until its worker ends. What does not belong to the crate (the files, the hash, the
  backend, the enumeration of modes) is the environment.
\<close>

record 'm grpc_env =
  ge_is_file :: "path \<Rightarrow> bool"
  ge_canonicalize :: "path \<Rightarrow> str + path"
  ge_hash :: "path \<Rightarrow> nat"
  ge_backend :: "'m backend"
  ge_mode_of :: "int \<Rightarrow> grpc_mode option"
  ge_default_batch :: nat

record 'm server =
  gs_service :: "'m service"
  gs_loading :: "str list"
  gs_loaded :: "(str \<times> 'm) list"
  gs_running :: nat

inductive grpc_step :: "'m grpc_env \<Rightarrow> 'm server \<Rightarrow> 'm server \<Rightarrow> bool" for env where
  load_begins: "load_voice_begin (ge_is_file env) (ge_canonicalize env) (ge_hash env) (ge_backend env) p (gs_service s)
      = LoadStarted key sv' \<Longrightarrow>
    grpc_step env s (s\<lparr>gs_service := sv', gs_loading := key # gs_loading s\<rparr>)"
| load_fails: "gs_loading s = before @ key # after \<Longrightarrow>
    grpc_step env s (s\<lparr>gs_service := release_permit (gs_service s), gs_loading := before @ after\<rparr>)"
| load_succeeds: "gs_loading s = before @ key # after \<Longrightarrow>
    grpc_step env s (s\<lparr>gs_service := release_permit (gs_service s), gs_loading := before @ after,
                       gs_loaded := (key, m) # gs_loaded s\<rparr>)"
| registers: "gs_loaded s = before @ (key, m) # after \<Longrightarrow>
    grpc_step env s (s\<lparr>gs_service := fst (load_voice_end (ge_backend env) key m (gs_service s)),
                       gs_loaded := before @ after\<rparr>)"
| synthesis_begins: "admit_utterance (ge_mode_of env) (ge_default_batch env) rq (gs_service s)
      = Inr (m, out_cfg, mode, sv') \<Longrightarrow>
    grpc_step env s (s\<lparr>gs_service := sv', gs_running := Suc (gs_running s)\<rparr>)"
| realtime_begins: "admit_utterance_realtime rq (gs_service s) = Inr (m, out_cfg, sv') \<Longrightarrow>
    grpc_step env s (s\<lparr>gs_service := sv', gs_running := Suc (gs_running s)\<rparr>)"
| synthesis_ends: "gs_running s = Suc n \<Longrightarrow>
    grpc_step env s (s\<lparr>gs_service := release_permit (gs_service s), gs_running := n\<rparr>)"
| sets_options: "set_synthesis_options (ge_backend env) key opts (gs_service s) = (sv', r) \<Longrightarrow>
    grpc_step env s (s\<lparr>gs_service := sv'\<rparr>)"

definition server_init :: "limits \<Rightarrow> 'm server" where
  "server_init caps = \<lparr>gs_service = with_limits caps, gs_loading = [], gs_loaded = [], gs_running = 0\<rparr>"

text \<open>What a client can count on in every reachable state.\<close>

definition server_ok :: "limits \<Rightarrow> 'm server \<Rightarrow> bool" where
  "server_ok caps s \<longleftrightarrow>
     sv_limits (gs_service s) = caps \<and>
     sv_free_permits (gs_service s) + length (gs_loading s) + gs_running s = max_concurrent_synthesis caps \<and>
     length (sv_voices (gs_service s)) \<le> max_voices caps \<and>
     distinct (map fst (sv_voices (gs_service s)))"

lemma permit_acquired:
  "acquire_synthesis_permit sv = Inr sv' \<Longrightarrow>
     sv_free_permits sv = Suc (sv_free_permits sv') \<and> sv_voices sv' = sv_voices sv \<and> sv_limits sv' = sv_limits sv"
  by (auto simp: acquire_synthesis_permit_def split: if_splits)

lemma load_started:
  "load_voice_begin isf canon hash be p sv = LoadStarted key sv' \<Longrightarrow>
     acquire_synthesis_permit sv = Inr sv' \<and> map_of (sv_voices sv) key = None"
  by (auto simp: load_voice_begin_def cached_voice_info_def split: sum.splits option.splits)

lemma admitted_permit:
  "admit_utterance mode_of d rq sv = Inr (m, out_cfg, mode, sv') \<Longrightarrow> acquire_synthesis_permit sv = Inr sv'"
  "admit_utterance_realtime rq sv = Inr (m, out_cfg, sv') \<Longrightarrow> acquire_synthesis_permit sv = Inr sv'"
  by (auto simp: admit_utterance_def admit_utterance_realtime_def res_conv)

lemma registered:
  assumes "fst (load_voice_end be key m sv) = sv'"
  shows "sv_limits sv' = sv_limits sv \<and> sv_free_permits sv' = sv_free_permits sv \<and>
    (sv_voices sv' = sv_voices sv \<or>
     map_of (sv_voices sv) key = None \<and> length (sv_voices sv) < max_voices (sv_limits sv) \<and>
     sv_voices sv' = sv_voices sv @ [(key, m)])"
  using assms by (auto simp: load_voice_end_def register_voice_def split: option.splits if_splits)

lemma options_set:
  assumes "set_synthesis_options be key opts sv = (sv', r)"
  shows "sv_limits sv' = sv_limits sv \<and> sv_free_permits sv' = sv_free_permits sv \<and>
    map fst (sv_voices sv') = map fst (sv_voices sv)"
  using assms by (cases rule: set_synthesis_options_cases) simp_all

lemma grpc_step_keeps_ok:
  assumes "grpc_step env s s'" "server_ok caps s"
  shows "server_ok caps s'"
  using assms
proof cases
  case (load_begins p key sv')
  then show ?thesis using assms(2) permit_acquired [of "gs_service s" sv'] load_started [OF load_begins(2)]
    by (simp add: server_ok_def)
next
  case (registers before key m after)
  show ?thesis using assms(2) registered [OF refl, of "ge_backend env" key m "gs_service s"]
    by (auto simp: server_ok_def registers(1) map_of_eq_None_iff)
next
  case (synthesis_begins rq m out_cfg mode sv')
  then show ?thesis using assms(2) permit_acquired [OF admitted_permit(1) [OF synthesis_begins(2)]]
    by (simp add: server_ok_def)
next
  case (realtime_begins rq m out_cfg sv')
  then show ?thesis using assms(2) permit_acquired [OF admitted_permit(2) [OF realtime_begins(2)]]
    by (simp add: server_ok_def)
next
  case (sets_options key opts sv' r)
  have "length (sv_voices sv') = length (sv_voices (gs_service s))"
    using options_set [OF sets_options(2)] by (metis length_map)
  then show ?thesis using assms(2) options_set [OF sets_options(2)]
    by (simp add: server_ok_def sets_options(1))
qed (auto simp: server_ok_def release_permit_def)

text \<open>
  \<^bold>\<open>C14\<close>: in every state the server can reach, however loads, syntheses and changes of settings
  interleave, the permits in use are exactly the loads and syntheses under way and never exceed the
  cap, no more voices are loaded than allowed, and no key names two voices.
\<close>

theorem caps_hold_always:
  assumes "(grpc_step env)\<^sup>*\<^sup>* (server_init caps) s"
  shows "server_ok caps s \<and> length (gs_loading s) + gs_running s \<le> max_concurrent_synthesis caps"
proof -
  have "server_ok caps s"
    using assms
  proof (induction rule: rtranclp_induct)
    case base
    show ?case by (simp add: server_ok_def server_init_def with_limits_def)
  next
    case (step y z)
    then show ?case by (blast intro: grpc_step_keeps_ok)
  qed
  then show ?thesis by (auto simp: server_ok_def)
qed

definition demo_env :: "unit grpc_env" where
  "demo_env = \<lparr>ge_is_file = (\<lambda>_. True), ge_canonicalize = Inr, ge_hash = (\<lambda>_. 0),
     ge_backend = store_backend (\<lambda>_. two_speaker_model) (\<lambda>_. None) (\<lambda>_. None) (\<lambda>_ _. Inr ()),
     ge_mode_of = (\<lambda>_. Some ModeBatchedRpc), ge_default_batch = 4\<rparr>"

lemma demo_loading:
  "\<exists>key. (grpc_step demo_env)\<^sup>*\<^sup>* (server_init default_limits)
     \<lparr>gs_service = (with_limits default_limits)\<lparr>sv_free_permits := 3\<rparr>, gs_loading = [key], gs_loaded = [], gs_running = 0\<rparr>"
proof
  have "max_concurrent_synthesis default_limits = 4"
    by (simp add: default_limits_def DEFAULT_MAX_CONCURRENT_SYNTHESIS_def)
  then have "load_voice_begin (ge_is_file demo_env) (ge_canonicalize demo_env) (ge_hash demo_env) (ge_backend demo_env)
      (lit ''c.json'') (gs_service (server_init default_limits)) =
      LoadStarted (hex16 0) ((with_limits default_limits)\<lparr>sv_free_permits := 3\<rparr>)"
    by (simp add: load_voice_begin_def resolve_voice_key_def voice_key_for_path_def demo_env_def
        server_init_def cached_voice_info_def acquire_synthesis_permit_def with_limits_def)
  from r_into_rtranclp [of "grpc_step demo_env", OF load_begins, OF this]
  show "(grpc_step demo_env)\<^sup>*\<^sup>* (server_init default_limits)
     \<lparr>gs_service = (with_limits default_limits)\<lparr>sv_free_permits := 3\<rparr>, gs_loading = [hex16 0], gs_loaded = [], gs_running = 0\<rparr>"
    by (simp add: server_init_def)
qed

theorem caps_hold_always_witness:
  "\<exists>key s. gs_loading s = [key] \<and> server_ok default_limits (s :: unit server) \<and>
     length (gs_loading s) + gs_running s \<le> max_concurrent_synthesis default_limits"
proof -
  obtain key where "(grpc_step demo_env)\<^sup>*\<^sup>* (server_init default_limits)
     \<lparr>gs_service = (with_limits default_limits)\<lparr>sv_free_permits := 3\<rparr>, gs_loading = [key], gs_loaded = [], gs_running = 0\<rparr>"
    using demo_loading by blast
  from caps_hold_always [OF this] show ?thesis by (intro exI conjI) auto
qed

subsection \<open>A key is never rebound\<close>

definition evolves :: "'m backend \<Rightarrow> 'm \<Rightarrow> 'm \<Rightarrow> bool" where
  "evolves be = (\<lambda>a b. \<exists>cfg. be_set_fallback be cfg a = Inr b)\<^sup>*\<^sup>*"

lemma evolves_refl [simp]: "evolves be m m"
  by (simp add: evolves_def)

lemma apply_evolves: "apply_to_voice be opts m = Inr m' \<Longrightarrow> evolves be m m'"
  unfolding evolves_def by (rule r_into_rtranclp) (auto simp: apply_to_voice_def res_conv)

lemma grpc_step_keeps_voice:
  assumes "grpc_step env s s'" "map_of (sv_voices (gs_service s)) key = Some m"
  shows "\<exists>m'. map_of (sv_voices (gs_service s')) key = Some m' \<and> evolves (ge_backend env) m m'"
  using assms(1)
proof cases
  case (load_begins p k sv')
  then show ?thesis using assms(2) permit_acquired [of "gs_service s" sv'] load_started [OF load_begins(2)] by simp
next
  case (registers before k m1 after)
  show ?thesis
    using registered [OF refl, of "ge_backend env" k m1 "gs_service s"] assms(2) registers(1)
    by (auto simp: map_add_Some_iff)
next
  case (synthesis_begins rq m1 out_cfg mode sv')
  then show ?thesis using assms(2) permit_acquired [OF admitted_permit(1) [OF synthesis_begins(2)]] by simp
next
  case (realtime_begins rq m1 out_cfg sv')
  then show ?thesis using assms(2) permit_acquired [OF admitted_permit(2) [OF realtime_begins(2)]] by simp
next
  case (sets_options k opts sv' r)
  show ?thesis
  proof (cases rule: set_synthesis_options_cases [OF sets_options(2)])
    case (1 e)
    then show ?thesis using assms(2) sets_options(1) by simp
  next
    case (2 m1 m' o1)
    then show ?thesis using assms(2) sets_options(1) apply_evolves [OF 2(3)] by auto
  qed
qed (use assms(2) in \<open>simp_all add: release_permit_def\<close>)

text \<open>
  \<^bold>\<open>C23\<close>: a key that names a voice keeps naming that very voice, whatever later loads finish for
  the same key: the voice a key names changes only by accepted changes of its own settings.
\<close>

theorem voice_key_is_stable:
  assumes "(grpc_step env)\<^sup>*\<^sup>* s s'" "map_of (sv_voices (gs_service s)) key = Some m"
  shows "\<exists>m'. map_of (sv_voices (gs_service s')) key = Some m' \<and> evolves (ge_backend env) m m'"
  using assms(1)
proof (induction rule: rtranclp_induct)
  case base
  then show ?case using assms(2) by simp
next
  case (step y z)
  then obtain m1 where m1: "map_of (sv_voices (gs_service y)) key = Some m1" "evolves (ge_backend env) m m1"
    by auto
  from grpc_step_keeps_voice [OF step(2) m1(1)] obtain m2
    where "map_of (sv_voices (gs_service z)) key = Some m2" "evolves (ge_backend env) m1 m2" by auto
  with m1(2) show ?case by (auto simp: evolves_def intro: rtranclp_trans)
qed

text \<open>A second load of the same voice, finished after the first was registered, is dropped.\<close>

theorem voice_key_is_stable_witness:
  "\<exists>s'. grpc_step demo_env
       \<lparr>gs_service = demo_service, gs_loading = [], gs_loaded = [(lit ''k'', ())], gs_running = 0\<rparr> s' \<and>
     gs_loaded s' = [] \<and> (\<exists>m'. map_of (sv_voices (gs_service s')) (lit ''k'') = Some m' \<and> evolves (ge_backend demo_env) () m')"
proof (intro exI conjI)
  let ?s = "\<lparr>gs_service = demo_service, gs_loading = [], gs_loaded = [(lit ''k'', ())], gs_running = 0\<rparr>"
  let ?s' = "?s\<lparr>gs_service := fst (load_voice_end (ge_backend demo_env) (lit ''k'') () demo_service), gs_loaded := []\<rparr>"
  show step: "grpc_step demo_env ?s ?s'"
    using registers [of ?s "[]" "lit ''k''" "()" "[]" demo_env] by simp
  show "gs_loaded ?s' = []" by simp
  have "map_of (sv_voices (gs_service ?s)) (lit ''k'') = Some ()" by (simp add: demo_service_def)
  from voice_key_is_stable [OF r_into_rtranclp, OF step this]
  show "map_of (sv_voices (gs_service ?s')) (lit ''k'') = Some ()"
    and "evolves (ge_backend demo_env) () ()" by auto
qed

subsection \<open>Two settings messages at once\<close>

text \<open>
  \<^verbatim>\<open>apply_synth_options\<close> reads the config, merges and writes it back under the shared lock of the
  registry, so that two messages may both read before either writes. Then the change of the first is lost.
\<close>

definition write_merged :: "'m backend \<Rightarrow> synthesis_config option \<Rightarrow> synthesis_settings \<Rightarrow> 'm \<Rightarrow> 'm grpc_result" where
  "write_merged be fallback opts m =
     lift_error (res_bind (merge_settings (be_model be m) opts (unwrap_or default_synthesis_config fallback))
       (\<lambda>cfg. be_set_fallback be cfg m))"

lemma apply_is_read_then_write:
  "apply_to_voice be opts m = res_bind (lift_error (be_fallback be m)) (\<lambda>fallback. write_merged be fallback opts m)"
  by (cases "be_fallback be m") (simp_all add: apply_to_voice_def write_merged_def)

lemma concurrent_settings_lost:
  fixes v :: piper_voice
  assumes "be = piper_backend mo" "be_fallback be v = Inr snapshot"
    "write_merged be snapshot opts1 v = Inr v1" "write_merged be snapshot opts2 v1 = Inr v2"
    "ss_length_scale opts1 = Some x" "ss_length_scale opts2 = None" "ss_parameters opts2 LENGTH_SCALE = None"
  shows "ps_length_scale (pv_synth_config v2) = ps_length_scale (pv_synth_config v)"
proof -
  have "snapshot = Some (piper_to_synthesis_config (pv_synth_config v))"
    using assms(1,2) by (simp add: piper_backend_def piper_get_fallback_def)
  with assms(1,4) obtain cfg where cfg:
    "merge_settings (mo v1) opts2 (piper_to_synthesis_config (pv_synth_config v)) = Inr cfg"
    "piper_set_fallback cfg v1 = Inr v2"
    by (auto simp: write_merged_def piper_backend_def res_conv)
  from piper_after_set [OF cfg(2)] merged_scales [OF cfg(1)] assms(6,7) show ?thesis by simp
qed

subsection \<open>Starting the server\<close>

text \<open>\<^verbatim>\<open>tokio::sync::Semaphore::new\<close> panics above its maximal number of permits: no service.\<close>

definition MAX_PERMITS :: nat where "MAX_PERMITS = usize_max div 8"

definition start_service :: "limits \<Rightarrow> 'm service option" where
  "start_service caps = (if max_concurrent_synthesis caps \<le> MAX_PERMITS then Some (with_limits caps) else None)"

lemma default_limits_start: "start_service default_limits = Some (with_limits default_limits)"
  by (simp add: start_service_def MAX_PERMITS_def usize_max_def default_limits_def
      DEFAULT_MAX_CONCURRENT_SYNTHESIS_def)

text \<open>A large cap, which the reader of the caps accepts, stops the server.\<close>

lemma huge_concurrency_panics:
  assumes "lookup MAX_CONCURRENT_SYNTHESIS_VAR = Some raw" "parse_usize (trim_text raw) = Some v" "MAX_PERMITS < v"
  shows "start_service (limits_from_lookup lookup) = None"
  using assms by (simp add: start_service_def limits_from_lookup_def positive_or_def)

definition DEFAULT_DENGJEN_GRPC_SERVER_PORT :: nat where "DEFAULT_DENGJEN_GRPC_SERVER_PORT = 49314"

definition resolve_listen_port :: "str option \<Rightarrow> nat" where
  "resolve_listen_port env_value =
     unwrap_or DEFAULT_DENGJEN_GRPC_SERVER_PORT
       (Option.bind env_value (\<lambda>raw. case parse_usize raw of
          Some v \<Rightarrow> if v < 65536 then Some v else None | None \<Rightarrow> None))"

definition listening_announcement :: "nat \<Rightarrow> str" where
  "listening_announcement port = lit ''DENGJEN_GRPC_LISTENING port='' @ show_nat port"

text \<open>\<^verbatim>\<open>load_voice\<close>: the loaders of the three backends are arguments.\<close>

definition grpc_load_voice ::
  "(path \<Rightarrow> str + str) \<Rightarrow> (str \<Rightarrow> str + json) \<Rightarrow> (path \<Rightarrow> 'm dengjen_result) \<Rightarrow> (path \<Rightarrow> 'm dengjen_result)
     \<Rightarrow> (path \<Rightarrow> 'm dengjen_result) \<Rightarrow> path \<Rightarrow> 'm dengjen_result" where
  "grpc_load_voice read parse piper kokoro melotts p =
     load_voice_with read parse p (\<lambda>mt q. case mt of
       Piper \<Rightarrow> piper q
     | Kokoro \<Rightarrow> kokoro q
     | MeloTts \<Rightarrow> melotts q)"

end
