(* ===== verification/Programs.thy ===== *)
theory Programs
  imports VoiceStates Cli Grpc
begin

section \<open>The programs\<close>

text \<open>
  How the two executables start and what they then run: \<^verbatim>\<open>main\<close> of
  \<^verbatim>\<open>crates/frontends/cli/src/main.rs\<close> and of \<^verbatim>\<open>crates/frontends/grpc/src/main.rs\<close>, with the voices of
  theory \<open>Voices\<close> as backends. The log subscriber, clap, the commit of the ONNX Runtime environment, the
  socket and the HTTP server are arguments. The theorems show that a session of the command line tool
  writes what a run of its own for each line would write, and what the server announces.
\<close>

subsection \<open>Logging\<close>

text \<open>
  The filter comes from an environment variable; malformed directives are reported on standard error and
  replaced. The subscriber can be installed once in a process.
\<close>

record 'f log_port =
  lg_parse :: "str \<Rightarrow> str + 'f"
  lg_info :: 'f
  lg_install :: "'f \<Rightarrow> str + unit"

definition log_filter :: "'f log_port \<Rightarrow> str \<Rightarrow> str option \<Rightarrow> 'f \<times> str list" where
  "log_filter lg name var =
     (case var of
        None \<Rightarrow> (lg_info lg, [])
      | Some directives \<Rightarrow>
          (case lg_parse lg directives of
             Inr f \<Rightarrow> (f, [])
           | Inl err \<Rightarrow>
               (lg_info lg,
                [lit ''warning: ignoring malformed '' @ name @ lit '' ('' @ err @ lit ''); defaulting to \"info\"''])))"

definition enable_logging :: "'f log_port \<Rightarrow> str option \<Rightarrow> str list \<times> (cli_error + unit)" where
  "enable_logging lg var =
     (case log_filter lg (lit ''DENGJEN_LOG'') var of (f, warnings) \<Rightarrow>
        (warnings, res_map_err CliMessage (lg_install lg f)))"

definition setup_logging :: "'f log_port \<Rightarrow> str option \<Rightarrow> str list \<times> (str + unit)" where
  "setup_logging lg var =
     (case log_filter lg (lit ''DENGJEN_GRPC'') var of (f, warnings) \<Rightarrow> (warnings, lg_install lg f))"

subsection \<open>The command line program\<close>

definition ort_commit_result :: "bool \<Rightarrow> cli_error + unit" where
  "ort_commit_result committed =
     (if committed then Inr () else Inl (CliMessage (lit ''Failed to initialize onnxruntime'')))"

text \<open>A synthesizer is its voice; making one does not fail.\<close>

definition cli_load_voice ::
  "('b, 's, 't, 'c) voice_env \<Rightarrow> path \<Rightarrow> cli_error + ('t, 's) loaded_voice" where
  "cli_load_voice env config_path = res_map_err CliDengjen (load_any_voice env config_path)"

definition synthesizer_new :: "'m \<Rightarrow> 'm dengjen_result" where
  "synthesizer_new voice = Inr voice"

definition build_synthesizer ::
  "('b, 's, 't, 'c) voice_env \<Rightarrow> path \<Rightarrow> cli_error + ('t, 's) loaded_voice" where
  "build_synthesizer env config_path =
     res_bind (cli_load_voice env config_path) (\<lambda>voice. res_map_err CliDengjen (synthesizer_new voice))"

text \<open>
  What a process is started with: the variable and the subscriber of the log, whether the runtime
  commits, what clap makes of the arguments (or the code it exits with), the files, the reader of a JSON line
  and the lines on standard input. What it leaves behind is the disk and standard output.
\<close>

record 'f process_start =
  pr_log_var :: "str option"
  pr_log :: "'f log_port"
  pr_committed :: bool
  pr_args :: "nat + cli"
  pr_read_to_string :: "path \<Rightarrow> str + str"
  pr_parse_request :: "str \<Rightarrow> str + synthesis_request"
  pr_stdin :: "(str + str) list"

datatype exit_status = ClapExit nat | MainReturned "cli_error + unit"

type_synonym 'o left_behind = "save_world \<times> 'o"

definition program_env ::
  "('b, 's, 't, 'c) voice_env \<Rightarrow> (('t, 's) loaded_voice, 'z, 'w, 'o) cli_env
     \<Rightarrow> (('t, 's) loaded_voice, 'z, 'w, 'o) cli_env" where
  "program_env env ce = ce\<lparr>ce_backend := voice_backend env, ce_source := voice_source env\<rparr>"

definition left_by ::
  "(('m, 'o) cli_state \<times> (cli_error + unit)) option \<Rightarrow> ('o left_behind \<times> exit_status) option" where
  "left_by run = map_option (\<lambda>(s, r). ((cs_disk s, cs_out s), MainReturned r)) run"

definition run_requests ::
  "(('t, 's) loaded_voice, 'z, 'w, 'o) cli_env \<Rightarrow> 'f process_start \<Rightarrow> cli \<Rightarrow> synthesis_config
     \<Rightarrow> (('t, 's) loaded_voice, 'o) cli_state \<Rightarrow> ((('t, 's) loaded_voice, 'o) cli_state \<times> (cli_error + unit)) option" where
  "run_requests ce pr c dflt s =
     (case cl_input_file c of
        Some input_path \<Rightarrow> synthesize_from_file ce c (pr_read_to_string pr) input_path dflt s
      | None \<Rightarrow> synthesize_from_stdin_forever ce (cl_output_file c) dflt (pr_parse_request pr) (pr_stdin pr) s)"

definition cli_main ::
  "('b, 's, 't, 'c) voice_env \<Rightarrow> (('t, 's) loaded_voice, 'z, 'w, 'o) cli_env \<Rightarrow> 'f process_start
     \<Rightarrow> 'o left_behind \<Rightarrow> ('o left_behind \<times> exit_status) option" where
  "cli_main env ce pr world =
     (case enable_logging (pr_log pr) (pr_log_var pr) of
        (_, Inl e) \<Rightarrow> Some (world, MainReturned (Inl e))
      | (_, Inr _) \<Rightarrow>
     (case ort_commit_result (pr_committed pr) of
        Inl e \<Rightarrow> Some (world, MainReturned (Inl e))
      | Inr _ \<Rightarrow>
     (case pr_args pr of
        Inl code \<Rightarrow> Some (world, ClapExit code)
      | Inr c \<Rightarrow>
     (case build_synthesizer env (cl_config c) of
        Inl e \<Rightarrow> Some (world, MainReturned (Inl e))
      | Inr v \<Rightarrow>
     (case resolve_default_synthesis_config (voice_backend env) v of
        Inl e \<Rightarrow> Some (world, MainReturned (Inl (CliDengjen e)))
      | Inr dflt \<Rightarrow>
          left_by (run_requests (program_env env ce) pr c dflt
            \<lparr>cs_voice = v, cs_disk = fst world, cs_out = snd world\<rparr>))))))"

subsection \<open>A session is a run for each line\<close>

text \<open>
  One program after the other over the same disk and output, until one does not end well. A
  last run without a line stands for the end of the input.
\<close>

fun one_by_one ::
  "('l list \<Rightarrow> 'w \<Rightarrow> ('w \<times> exit_status) option) \<Rightarrow> 'l list \<Rightarrow> 'w \<Rightarrow> ('w \<times> exit_status) option" where
  "one_by_one run [] w = run [] w"
| "one_by_one run (l # ls) w =
     (case run [l] w of
        Some (w', MainReturned (Inr _)) \<Rightarrow> one_by_one run ls w'
      | other \<Rightarrow> other)"

text \<open>Whether the speaker of a request is settled: named, or not carried over by the voice.\<close>

fun speaker_settled :: "synthesis_config \<Rightarrow> synthesis_request \<Rightarrow> ('t, 's) loaded_voice \<Rightarrow> bool" where
  "speaker_settled dflt rq (PiperVoice m) = (rq_speaker_id rq \<noteq> None \<or> speaker dflt \<noteq> None)"
| "speaker_settled dflt rq v = True"

lemma settled_speaker_after:
  "speaker_settled dflt rq v \<Longrightarrow> speaker_after (as_synthesis_config rq dflt) (with_settings d v) =
     speaker (as_synthesis_config rq dflt)"
  by (cases v rule: voice_fallback.cases) (auto simp: as_synthesis_config_def split: option.splits)

lemma settled_set_fallback:
  assumes "speaker_settled dflt rq v"
  shows "voice_set_fallback (as_synthesis_config rq dflt) (with_settings d v) =
    voice_set_fallback (as_synthesis_config rq dflt) v"
proof -
  have "speaker_after (as_synthesis_config rq dflt) v = speaker (as_synthesis_config rq dflt)"
    using settled_speaker_after [OF assms, of "voice_fallback v"] by simp
  then show ?thesis by (simp add: set_fallback_settings settled_speaker_after [OF assms])
qed

lemma set_fallback_with_settings: "voice_set_fallback c v = Inr w \<Longrightarrow> \<exists>d. w = with_settings d v"
  by (auto simp: set_fallback_settings split: if_splits)

lemma as_loaded_settings: "\<exists>d. v = with_settings d v"
  by (rule exI [of _ "voice_fallback v"]) simp

text \<open>A request on a voice with other settings.\<close>

lemma process_settled:
  assumes "be_set_fallback (ce_backend ce) = voice_set_fallback" "speaker_settled dflt rq v0"
  shows "left_by (process_synthesis_request ce None dflt rq (s\<lparr>cs_voice := with_settings d v0\<rparr>)) =
    left_by (process_synthesis_request ce None dflt rq (s\<lparr>cs_voice := v0\<rparr>))"
  unfolding process_synthesis_request_def left_by_def
  by (simp add: assms(1) settled_set_fallback [OF assms(2)] option.map_comp comp_def case_prod_unfold
      split: sum.split)

lemma process_keeps_settings:
  assumes "be_set_fallback (ce_backend ce) = voice_set_fallback"
    "process_synthesis_request ce p dflt rq s = Some (s', r)" "cs_voice s = with_settings d v0"
  shows "\<exists>d'. cs_voice s' = with_settings d' v0"
  using assms
  by (auto simp: process_synthesis_request_def split: sum.splits option.splits prod.splits
      dest!: set_fallback_with_settings)

lemma left_by_simps [simp]:
  "left_by None = None" "left_by (Some (s, r)) = Some ((cs_disk s, cs_out s), MainReturned r)"
  by (simp_all add: left_by_def)

definition session_from ::
  "(('t, 's) loaded_voice, 'z, 'w, 'o) cli_env \<Rightarrow> synthesis_config \<Rightarrow> (str \<Rightarrow> str + synthesis_request)
     \<Rightarrow> ('t, 's) loaded_voice \<Rightarrow> str list \<Rightarrow> 'o left_behind \<Rightarrow> ('o left_behind \<times> exit_status) option" where
  "session_from ce dflt parse v lines world =
     left_by (synthesize_from_stdin_forever ce None dflt parse (map Inr lines)
       \<lparr>cs_voice = v, cs_disk = fst world, cs_out = snd world\<rparr>)"

lemma session_of_nothing:
  "left_by (synthesize_from_stdin ce None dflt parse n [] s) = Some ((cs_disk s, cs_out s), MainReturned (Inr ()))"
  by (subst synthesize_from_stdin.simps) (simp add: read_synthesis_request_def left_by_def)

lemma session_of_line:
  "left_by (synthesize_from_stdin ce None dflt parse n (Inr l # input) s) =
     (case parse l of
        Inl _ \<Rightarrow> left_by (synthesize_from_stdin ce None dflt parse (Suc n) input s)
      | Inr rq \<Rightarrow>
          (case process_synthesis_request ce None dflt rq s of
             None \<Rightarrow> None
           | Some (s', Inl e) \<Rightarrow> left_by (Some (s', Inl e))
           | Some (s', Inr _) \<Rightarrow> left_by (synthesize_from_stdin ce None dflt parse (Suc n) input s')))"
  by (subst synthesize_from_stdin.simps)
    (simp add: read_synthesis_request_def left_by_def split: sum.split option.split)

lemma session_from_line:
  "session_from ce dflt parse v0 [l] world =
     (case parse l of
        Inl _ \<Rightarrow> Some (world, MainReturned (Inr ()))
      | Inr rq \<Rightarrow> left_by (process_synthesis_request ce None dflt rq
          \<lparr>cs_voice = v0, cs_disk = fst world, cs_out = snd world\<rparr>))"
  unfolding session_from_def synthesize_from_stdin_forever_def list.map session_of_line
  by (simp only: session_of_nothing, cases "parse l")
    (auto simp: left_by_def split: option.split sum.split)

lemma session_one_by_one:
  assumes "be_set_fallback (ce_backend ce) = voice_set_fallback"
    "\<And>l rq. l \<in> set lines \<Longrightarrow> parse l = Inr rq \<Longrightarrow> speaker_settled dflt rq v0"
    "cs_voice s = with_settings d v0"
  shows "left_by (synthesize_from_stdin ce None dflt parse n (map Inr lines) s) =
    one_by_one (session_from ce dflt parse v0) lines (cs_disk s, cs_out s)"
  using assms(2,3)
proof (induction lines arbitrary: n s d)
  case Nil
  then show ?case by (simp add: session_of_nothing session_from_def synthesize_from_stdin_forever_def)
next
  case (Cons l ls)
  let ?s0 = "\<lparr>cs_voice = v0, cs_disk = cs_disk s, cs_out = cs_out s\<rparr>"
  have s: "s = s\<lparr>cs_voice := with_settings d v0\<rparr>" "?s0 = s\<lparr>cs_voice := v0\<rparr>"
    using Cons.prems(2) by (cases s; simp)+
  have settled: "speaker_settled dflt rq v0" if "l' \<in> set ls" "parse l' = Inr rq" for l' rq
    using Cons.prems(1) [of l'] that by simp
  have IH: "left_by (synthesize_from_stdin ce None dflt parse (Suc n) (map Inr ls) s1) =
      one_by_one (session_from ce dflt parse v0) ls (cs_disk s1, cs_out s1)" if "cs_voice s1 = with_settings d1 v0" for s1 d1
    by (rule Cons.IH [OF settled that])
  show ?case
  proof (cases "parse l")
    case (Inl e)
    with IH [OF Cons.prems(2)] show ?thesis by (simp add: session_of_line session_from_line)
  next
    case (Inr rq)
    let ?run = "process_synthesis_request ce None dflt rq"
    have same: "left_by (?run s) = left_by (?run ?s0)"
      using process_settled [OF assms(1) Cons.prems(1) [OF _ Inr], where s = s and d = d] unfolding s(1) [symmetric] s(2) by simp
    show ?thesis
    proof (cases "?run s")
      case None
      with same have "?run ?s0 = None" by (simp add: left_by_def)
      with None Inr show ?thesis by (simp add: session_of_line session_from_line)
    next
      case (Some sr)
      obtain s' r where sr: "sr = (s', r)" by (cases sr)
      obtain t where t: "?run ?s0 = Some (t, r)" "cs_disk t = cs_disk s'" "cs_out t = cs_out s'"
        using same Some sr by (cases "?run ?s0") (auto simp: left_by_def)
      obtain d' where d': "cs_voice s' = with_settings d' v0"
        using process_keeps_settings [OF assms(1) Some [unfolded sr] Cons.prems(2)] ..
      with IH [OF d'] Some sr t Inr show ?thesis
        by (cases r) (simp_all add: session_of_line session_from_line)
    qed
  qed
qed

lemma program_env_simps [simp]:
  "ce_backend (program_env env ce) = voice_backend env" "ce_source (program_env env ce) = voice_source env"
  "ce_pool (program_env env ce) = ce_pool ce" "ce_writer (program_env env ce) = ce_writer ce"
  "ce_default_batch_size (program_env env ce) = ce_default_batch_size ce"
  by (simp_all add: program_env_def)

lemma voice_backend_simps [simp]:
  "be_model (voice_backend env) = voice_methods env" "be_set_fallback (voice_backend env) = voice_set_fallback"
  "be_default (voice_backend env) v = Inr (voice_default v)"
  by (simp_all add: voice_backend_def)

definition default_config :: "('t, 's) loaded_voice \<Rightarrow> synthesis_config" where
  "default_config v = unwrap_or default_synthesis_config (voice_default v)"

lemma resolved_default [simp]:
  "resolve_default_synthesis_config (voice_backend env) v = Inr (default_config v)"
  by (simp add: resolve_default_synthesis_config_def default_config_def)

text \<open>What comes before the first request, and the program as its session.\<close>

definition startup ::
  "('b, 's, 't, 'c) voice_env \<Rightarrow> 'f process_start \<Rightarrow> cli \<Rightarrow> cli_error + ('t, 's) loaded_voice" where
  "startup env pr c =
     res_bind (snd (enable_logging (pr_log pr) (pr_log_var pr))) (\<lambda>_.
     res_bind (ort_commit_result (pr_committed pr)) (\<lambda>_. build_synthesizer env (cl_config c)))"

lemma cli_main_runs:
  assumes "pr_args pr = Inr c"
  shows "cli_main env ce pr world =
    (case startup env pr c of
       Inl e \<Rightarrow> Some (world, MainReturned (Inl e))
     | Inr v \<Rightarrow> left_by (run_requests (program_env env ce) pr c (default_config v)
         \<lparr>cs_voice = v, cs_disk = fst world, cs_out = snd world\<rparr>))"
  by (simp add: cli_main_def startup_def assms split: prod.split sum.split)

lemma one_by_one_stuck:
  "(\<And>ls. run ls w = Some (w, MainReturned (Inl e))) \<Longrightarrow> one_by_one run ls w = Some (w, MainReturned (Inl e))"
  by (cases ls) simp_all

text \<open>
  \<^bold>\<open>C7\<close>: a session of the command line tool that reads its requests from standard input and has no output file
  is a run for each line, if every request settles its speaker: it names one, or the voice's default
  config does, or the voice is not a Piper voice. Then one process writes what a process of its own for
  each line would write one after the other, up to the first that fails, and ends as that one does,
  whatever the modes, the settings and the faults of writing are; malformed lines count as lines that
  write nothing. Both conditions are needed: with an output file the session numbers its files, and a
  Piper voice whose config names no default speaker (any single-speaker one) keeps the speaker of an
  earlier request for a later one that names none.
\<close>

theorem session_is_a_run_for_each_line:
  assumes "pr_args pr = Inr c" "cl_input_file c = None" "cl_output_file c = None"
    "\<And>v l rq. load_any_voice env (cl_config c) = Inr v \<Longrightarrow> l \<in> set lines \<Longrightarrow> pr_parse_request pr l = Inr rq \<Longrightarrow>
      speaker_settled (default_config v) rq v"
  shows "cli_main env ce (pr\<lparr>pr_stdin := map Inr lines\<rparr>) world =
    one_by_one (\<lambda>ls. cli_main env ce (pr\<lparr>pr_stdin := map Inr ls\<rparr>)) lines world"
proof -
  have run: "cli_main env ce (pr\<lparr>pr_stdin := map Inr ls\<rparr>) w =
    (case startup env pr c of
       Inl e \<Rightarrow> Some (w, MainReturned (Inl e))
     | Inr v \<Rightarrow> session_from (program_env env ce) (default_config v) (pr_parse_request pr) v ls w)" for ls w
    using assms(1-3)
    by (simp add: cli_main_runs [of _ c] startup_def run_requests_def session_from_def split: sum.split)
  show ?thesis
  proof (cases "startup env pr c")
    case (Inr v)
    then have loaded: "load_any_voice env (cl_config c) = Inr v"
      by (auto simp: startup_def build_synthesizer_def cli_load_voice_def synthesizer_new_def res_conv)
    obtain d where d: "v = with_settings d v" using as_loaded_settings ..
    have "session_from (program_env env ce) (default_config v) (pr_parse_request pr) v lines world =
        one_by_one (session_from (program_env env ce) (default_config v) (pr_parse_request pr) v) lines world"
      using session_one_by_one [of "program_env env ce" lines "pr_parse_request pr" "default_config v" v
          "\<lparr>cs_voice = v, cs_disk = fst world, cs_out = snd world\<rparr>" d 1] assms(4) [OF loaded] d
      by (simp add: session_from_def synthesize_from_stdin_forever_def)
    then show ?thesis unfolding run Inr by simp
  next
    case (Inl e)
    then show ?thesis by (simp add: run one_by_one_stuck)
  qed
qed

text \<open>A run over finite input always ends, and one that does not get as far as a voice leaves everything as it was.\<close>

lemma cli_main_ends:
  assumes "ce_pool ce = Inr ()" "0 < ce_default_batch_size ce"
  shows "\<exists>world' st. cli_main env ce pr world = Some (world', st)"
proof (cases "pr_args pr")
  case (Inl code)
  then show ?thesis by (simp add: cli_main_def split: prod.split sum.split)
next
  case (Inr c)
  have run: "\<exists>s' r. run_requests (program_env env ce) pr c dflt s = Some (s', r)" for dflt s
    using session_ends [of "program_env env ce"] process_answers [of "program_env env ce"] assms
    by (simp add: run_requests_def synthesize_from_file_def synthesize_from_stdin_forever_def
        split: option.split sum.split)
  then show ?thesis by (force simp: cli_main_runs [OF Inr] left_by_def split: sum.split)
qed

lemma startup_failure_changes_nothing:
  "pr_args pr = Inr c \<Longrightarrow> startup env pr c = Inl e \<Longrightarrow>
     cli_main env ce pr world = Some (world, MainReturned (Inl e))"
  by (simp add: cli_main_runs)

definition demo_program_env :: "((unit, unit) loaded_voice, nat, unit, byte list) cli_env" where
  "demo_program_env =
     \<lparr>ce_backend = voice_backend demo_voice_env, ce_sonic = silent_sonic, ce_sin32 = (\<lambda>x. x),
      ce_source = voice_source demo_voice_env, ce_ahead = (\<lambda>_. 0), ce_pool = Inr (), ce_default_batch_size = 4,
      ce_riff = silent_riff, ce_io = ce_io demo_cli_env, ce_pid = 1, ce_writer = buffer_writer\<rparr>"

definition demo_cli :: cli where
  "demo_cli = \<lparr>cl_config = lit ''v/c.json'', cl_input_file = None, cl_output_file = None, cl_mode = None,
     cl_speaker_id = None, cl_length_scale = None, cl_noise_scale = None, cl_noise_w = None, cl_rate = None,
     cl_pitch = None, cl_volume = None, cl_silence = None, cl_chunk_size = None, cl_chunk_padding = None,
     cl_batch_size = None, cl_param = []\<rparr>"

definition demo_start :: "unit process_start" where
  "demo_start = \<lparr>pr_log_var = Some (lit ''=''), pr_log = \<lparr>lg_parse = (\<lambda>_. Inl (lit ''bad'')), lg_info = (), lg_install = Inr\<rparr>,
     pr_committed = True, pr_args = Inr demo_cli, pr_read_to_string = Inl,
     pr_parse_request = (\<lambda>l. if l = [] then Inl (lit ''EOF'') else Inr (plain_request\<lparr>rq_text := l\<rparr>)), pr_stdin = []\<rparr>"

theorem session_is_a_run_for_each_line_witness:
  "(\<exists>m. startup demo_voice_env demo_start demo_cli = Inr (KokoroVoice m :: (unit, unit) loaded_voice)) \<and>
   cli_main demo_voice_env demo_program_env (demo_start\<lparr>pr_stdin := map Inr [lit ''ab'', [], lit ''a'']\<rparr>)
       (\<lparr>files = Map.empty, temp_counter = 0\<rparr>, []) =
     one_by_one (\<lambda>ls. cli_main demo_voice_env demo_program_env (demo_start\<lparr>pr_stdin := map Inr ls\<rparr>))
       [lit ''ab'', [], lit ''a'']
       (\<lparr>files = Map.empty, temp_counter = 0\<rparr>, [])"
proof
  obtain m where m: "load_any_voice demo_voice_env (lit ''v/c.json'') = Inr (KokoroVoice m :: (unit, unit) loaded_voice)"
    using demo_voice_loads by blast
  then show "\<exists>m. startup demo_voice_env demo_start demo_cli = Inr (KokoroVoice m :: (unit, unit) loaded_voice)"
    by (simp add: startup_def enable_logging_def log_filter_def demo_start_def demo_cli_def build_synthesizer_def
        cli_load_voice_def synthesizer_new_def
        ort_commit_result_def)
  show "cli_main demo_voice_env demo_program_env (demo_start\<lparr>pr_stdin := map Inr [lit ''ab'', [], lit ''a'']\<rparr>)
       (\<lparr>files = Map.empty, temp_counter = 0\<rparr>, []) =
     one_by_one (\<lambda>ls. cli_main demo_voice_env demo_program_env (demo_start\<lparr>pr_stdin := map Inr ls\<rparr>))
       [lit ''ab'', [], lit ''a'']
       (\<lparr>files = Map.empty, temp_counter = 0\<rparr>, [])"
    by (rule session_is_a_run_for_each_line [where c = demo_cli]) (use m in \<open>auto simp: demo_start_def demo_cli_def\<close>)
qed

subsection \<open>The server program\<close>

text \<open>
  The process up to the point where it serves; from there on \<open>grpc_step\<close> tells what its state can
  become. The environment variables are one function. A commit of the runtime that fails is logged and no
  more. Printing panics when standard output is closed, flushing reports an error.
\<close>

record ('f, 'l) server_start =
  sp_env :: "str \<Rightarrow> str option"
  sp_log :: "'f log_port"
  sp_committed :: bool
  sp_bind :: "nat \<Rightarrow> str + 'l"
  sp_local_port :: "'l \<Rightarrow> str + nat"
  sp_stdout_open :: bool
  sp_flush :: "str + unit"

datatype ('l, 'm) server_outcome =
    ServerFailed str
  | ServerPanicked
  | Serving 'l "'m service" nat

definition LOG_VAR :: str where "LOG_VAR = lit ''DENGJEN_GRPC''"
definition PORT_VAR :: str where "PORT_VAR = lit ''DENGJEN_GRPC_SERVER_PORT''"

definition grpc_main :: "('f, 'l) server_start \<Rightarrow> str list \<times> ('l, 'm) server_outcome" where
  "grpc_main sp =
     (case setup_logging (sp_log sp) (sp_env sp LOG_VAR) of
        (_, Inl e) \<Rightarrow> ([], ServerFailed e)
      | (_, Inr _) \<Rightarrow>
     (case sp_bind sp (resolve_listen_port (sp_env sp PORT_VAR)) of
        Inl e \<Rightarrow> ([], ServerFailed e)
      | Inr listener \<Rightarrow>
     (case sp_local_port sp listener of
        Inl e \<Rightarrow> ([], ServerFailed e)
      | Inr bound_port \<Rightarrow>
          if \<not> sp_stdout_open sp then ([], ServerPanicked)
          else case sp_flush sp of
            Inl e \<Rightarrow> ([listening_announcement bound_port], ServerFailed e)
          | Inr _ \<Rightarrow>
              (case limits_from_lookup (sp_env sp) of caps \<Rightarrow>
                 ([listening_announcement bound_port],
                  case start_service caps of
                    None \<Rightarrow> ServerPanicked
                  | Some sv \<Rightarrow> Serving listener sv (max_message_bytes caps))))))"

lemma show_nat_value: "foldl (\<lambda>n c. 10 * n + (c - 48)) k (show_nat n) = k * 10 ^ length (show_nat n) + n"
proof (induction n arbitrary: k rule: show_nat.induct)
  case (1 n)
  show ?case
  proof (cases "n < 10")
    case True
    then show ?thesis by (subst (1 2) show_nat.simps) simp
  next
    case False
    have s: "show_nat n = show_nat (n div 10) @ [48 + n mod 10]" using False by (subst show_nat.simps) simp
    show ?thesis unfolding s using 1 [OF False, of k] by (simp add: algebra_simps)
  qed
qed

lemma show_nat_parses: "n \<le> usize_max \<Longrightarrow> parse_usize (show_nat n) = Some n"
proof -
  assume n: "n \<le> usize_max"
  have ds: "list_all is_ascii_digit (show_nat n)" "first_of (show_nat n) \<noteq> Some 43" "show_nat n \<noteq> []"
    using show_nat_digits [of n] by (cases "show_nat n"; force simp: list_all_iff is_ascii_digit_def)+
  with n show_nat_value [of 0 n] show ?thesis by (simp add: parse_usize_def)
qed

text \<open>
  The line on standard output is what a client needs to find the server: cutting off its prefix
  and parsing the rest gives the bound port, before the first request is accepted, whatever the port asked for and
  whether or not the runtime was committed. The server starts with all its permits and no voice.
\<close>

theorem server_announces_its_port:
  assumes "grpc_main sp = (out, Serving listener sv cap)" "sp_local_port sp listener = Inr port" "port < 65536"
  shows "\<exists>line. out = [line] \<and> take (length (listening_announcement 0) - 1) line = lit ''DENGJEN_GRPC_LISTENING port='' \<and>
    parse_usize (drop (length (listening_announcement 0) - 1) line) = Some port \<and>
    sv = with_limits (limits_from_lookup (sp_env sp)) \<and> cap = max_message_bytes (limits_from_lookup (sp_env sp))"
proof -
  have "out = [listening_announcement port]" "start_service (limits_from_lookup (sp_env sp)) = Some sv"
    "cap = max_message_bytes (limits_from_lookup (sp_env sp))"
    using assms(1,2) by (auto simp: grpc_main_def Let_def split: prod.splits sum.splits if_splits option.splits)
  moreover have "show_nat 0 = [48]" by (subst show_nat.simps) simp
  moreover have "parse_usize (show_nat port) = Some port" using assms(3) by (intro show_nat_parses) (simp add: usize_max_def)
  ultimately show ?thesis by (auto simp: listening_announcement_def start_service_def split: if_splits)
qed

end
