(* ===== verification/Capi.thy ===== *)
theory Capi
  imports ConfigStore Runtime Piper Kokoro Melo Synthesizer
begin

section \<open>The C interface\<close>

text \<open>
  \<^verbatim>\<open>crates/frontends/capi/src/lib.rs\<close>: error codes, the parameters and configs that cross the
  boundary, the getters and setters of a voice, the events of a synthesis, the cancellation slot and
  the configuration of the runtime library. A pointer is an option whose None is the null pointer, a C
  string an option whose None is a null or ill-formed one, and the error a call leaves behind is an
  option whose None is success. The workers of nonblocking calls and the unloading of voices are in
  the next theory. The theorems show which events a caller sees, that parameters and speakers survive
  the boundary, which synthesis a cancellation reaches and that a reported library path is the one used.
\<close>

subsection \<open>Errors\<close>

definition INVALID_SYNTHESIS_MODE :: int where "INVALID_SYNTHESIS_MODE = 16"
definition FAILED_TO_LOAD_RESOURCE :: int where "FAILED_TO_LOAD_RESOURCE = 17"
definition PHONEMIZATION_ERROR :: int where "PHONEMIZATION_ERROR = 18"
definition OPERATION_ERROR :: int where "OPERATION_ERROR = 19"
definition INVALID_UTF8_SEQUENCE :: int where "INVALID_UTF8_SEQUENCE = 20"
definition UNKNOWN_ERROR :: int where "UNKNOWN_ERROR = 21"
definition NULL_POINTER :: int where "NULL_POINTER = 22"
definition INFERENCE_ERROR :: int where "INFERENCE_ERROR = 23"
definition INVALID_CONFIGURATION :: int where "INVALID_CONFIGURATION = 24"
definition UNSUPPORTED_OPERATION :: int where "UNSUPPORTED_OPERATION = 25"

type_synonym ffi_error = "int \<times> str"
type_synonym 'a ffi_result = "ffi_error + 'a"

definition invalid_utf8 :: ffi_error where
  "invalid_utf8 = (INVALID_UTF8_SEQUENCE, lit ''input string is not valid UTF-8'')"

definition invalid_synthesis_mode :: ffi_error where
  "invalid_synthesis_mode = (INVALID_SYNTHESIS_MODE, lit ''synthesis mode is not a recognized value'')"

definition null_pointer :: "str \<Rightarrow> ffi_error" where
  "null_pointer param = (NULL_POINTER, lit ''parameter '' @ quoted param @ lit '' must not be null'')"

definition ffi_error_of :: "dengjen_error \<Rightarrow> ffi_error" where
  "ffi_error_of e =
     ((case kind e of
         FailedToLoadResource _ \<Rightarrow> FAILED_TO_LOAD_RESOURCE
       | PhonemizationError _ \<Rightarrow> PHONEMIZATION_ERROR
       | InferenceError _ \<Rightarrow> INFERENCE_ERROR
       | InvalidConfiguration _ \<Rightarrow> INVALID_CONFIGURATION
       | UnsupportedOperation _ \<Rightarrow> UNSUPPORTED_OPERATION
       | _ \<Rightarrow> OPERATION_ERROR), message e @ cause_chain e)"

abbreviation ffi_lift :: "'a dengjen_result \<Rightarrow> 'a ffi_result" where
  "ffi_lift \<equiv> res_map_err ffi_error_of"

text \<open>\<^verbatim>\<open>call_with_result\<close>: the value or its default, and the error for the out parameter.\<close>

definition call_with_result :: "'a \<Rightarrow> 'a ffi_result \<Rightarrow> 'a \<times> ffi_error option" where
  "call_with_result dflt r = (case r of Inr x \<Rightarrow> (x, None) | Inl e \<Rightarrow> (dflt, Some e))"

definition require_ref :: "'a option \<Rightarrow> str \<Rightarrow> 'a ffi_result" where
  "require_ref p param = ok_or (null_pointer param) p"

subsection \<open>Parameters\<close>

record synthesis_params =
  sp_struct_size :: nat
  sp_mode :: int
  sp_rate :: nat
  sp_volume :: nat
  sp_pitch :: nat
  sp_appended_silence_ms :: nat
  sp_has_callback :: bool
  sp_nonblocking :: nat

text \<open>
  The first layout ends after the last field, which on the supported 64-bit targets is at byte 40:
  an accepted struct has every field of it. Fields that later layouts append do not exist yet.
\<close>

definition DENGJEN_ABI_VERSION :: nat where "DENGJEN_ABI_VERSION = 1"
definition libdengjenAbiVersion :: nat where "libdengjenAbiVersion = DENGJEN_ABI_VERSION"
definition SYNTHESIS_PARAMS_V1_SIZE :: nat where "SYNTHESIS_PARAMS_V1_SIZE = 40"

definition read_params :: "synthesis_params option \<Rightarrow> synthesis_params ffi_result" where
  "read_params p =
     (case p of
        None \<Rightarrow> Inl (null_pointer (lit ''params''))
      | Some ps \<Rightarrow>
          if sp_struct_size ps < SYNTHESIS_PARAMS_V1_SIZE
          then Inl (INVALID_CONFIGURATION,
            lit ''params.struct_size is '' @ show_nat (sp_struct_size ps) @ lit '', but at least ''
            @ show_nat SYNTHESIS_PARAMS_V1_SIZE
            @ lit '' bytes are required; set it to sizeof(SynthesisParams)'')
          else Inr ps)"

definition as_synth_output_config :: "synthesis_params \<Rightarrow> audio_output_config" where
  "as_synth_output_config ps =
     \<lparr>rate = Some (sp_rate ps), volume = Some (sp_volume ps), pitch = Some (sp_pitch ps),
      appended_silence_ms = Some (sp_appended_silence_ms ps)\<rparr>"

definition PIPER_SYNTH_CONFIG_NO_SPEAKER :: nat where "PIPER_SYNTH_CONFIG_NO_SPEAKER = 4294967295"

record ffi_piper_config =
  fp_speaker :: nat
  fp_length_scale :: f32
  fp_noise_scale :: f32
  fp_noise_w :: f32

definition as_piper_synth_config :: "ffi_piper_config \<Rightarrow> piper_synthesis_config" where
  "as_piper_synth_config c =
     \<lparr>ps_speaker = (if fp_speaker c \<noteq> PIPER_SYNTH_CONFIG_NO_SPEAKER then Some (int (fp_speaker c)) else None),
      ps_length_scale = fp_length_scale c, ps_noise_scale = fp_noise_scale c, ps_noise_w = fp_noise_w c\<rparr>"

text \<open>\<^verbatim>\<open>sid as u32\<close> keeps the low 32 bits.\<close>

definition of_piper_synth_config :: "piper_synthesis_config \<Rightarrow> ffi_piper_config" where
  "of_piper_synth_config c =
     \<lparr>fp_speaker = (case ps_speaker c of None \<Rightarrow> PIPER_SYNTH_CONFIG_NO_SPEAKER
                    | Some sid \<Rightarrow> nat (sid mod 4294967296)),
      fp_length_scale = ps_length_scale c, fp_noise_scale = ps_noise_scale c, fp_noise_w = ps_noise_w c\<rparr>"

record ffi_audio_info =
  fa_sample_rate :: nat
  fa_num_channels :: nat
  fa_sample_width :: nat

subsection \<open>Getters and setters\<close>

definition u32_of :: "nat \<Rightarrow> nat" where "u32_of n = n mod 4294967296"

text \<open>
  The value a call writes through a pointer of its caller is part of its result; None is memory
  that was left untouched.
\<close>

definition libdengjenGetAudioInfo ::
  "'m backend \<Rightarrow> 'm option \<Rightarrow> unit option \<Rightarrow> ffi_audio_info option \<times> ffi_error option" where
  "libdengjenGetAudioInfo be voice info_ptr =
     call_with_result None
       (res_bind (require_ref voice (lit ''voice_ptr'')) (\<lambda>m.
        res_bind (require_ref info_ptr (lit ''audio_info_ptr'')) (\<lambda>_.
        res_map (\<lambda>i. Some \<lparr>fa_sample_rate = u32_of (sample_rate i), fa_num_channels = u32_of (num_channels i),
                      fa_sample_width = u32_of (sample_width i)\<rparr>)
          (ffi_lift (audio_output_info (be_model be m))))))"

definition libdengjenGetPiperDefaultSynthConfig ::
  "'m backend \<Rightarrow> 'm option \<Rightarrow> ffi_piper_config option \<times> ffi_error option" where
  "libdengjenGetPiperDefaultSynthConfig be voice =
     call_with_result None
       (res_bind (require_ref voice (lit ''voice_ptr'')) (\<lambda>m.
        res_bind (ffi_lift (be_default be m)) (\<lambda>dflt.
        res_map (\<lambda>c. Some (of_piper_synth_config (piper_of_synthesis_config c)))
          (ok_or (INVALID_CONFIGURATION, lit ''voice has no default Piper synthesis config to return'') dflt))))"

definition libdengjenSetPiperSynthConfig ::
  "'m backend \<Rightarrow> 'm option \<Rightarrow> ffi_piper_config \<Rightarrow> 'm option \<times> ffi_error option" where
  "libdengjenSetPiperSynthConfig be voice c =
     call_with_result voice
       (res_bind (require_ref voice (lit ''voice_ptr'')) (\<lambda>m.
        res_map Some (ffi_lift (be_set_fallback be (piper_to_synthesis_config (as_piper_synth_config c)) m))))"

definition libdengjenSetSynthesisParameter ::
  "'m backend \<Rightarrow> 'm option \<Rightarrow> str option \<Rightarrow> f32 \<Rightarrow> 'm option \<times> ffi_error option" where
  "libdengjenSetSynthesisParameter be voice key v =
     call_with_result voice
       (res_bind (require_ref voice (lit ''voice_ptr'')) (\<lambda>m.
        res_bind (ok_or invalid_utf8 key) (\<lambda>k.
        res_bind (ffi_lift (be_fallback be m)) (\<lambda>fallback.
        case unwrap_or default_synthesis_config fallback of c \<Rightarrow>
          res_map Some (ffi_lift (be_set_fallback be (c\<lparr>parameters := (parameters c)(k \<mapsto> v)\<rparr>) m))))))"

definition libdengjenGetSynthesisParameter ::
  "'m backend \<Rightarrow> 'm option \<Rightarrow> str option \<Rightarrow> unit option \<Rightarrow> f32 option \<times> ffi_error option" where
  "libdengjenGetSynthesisParameter be voice key out_value_ptr =
     call_with_result None
       (res_bind (require_ref voice (lit ''voice_ptr'')) (\<lambda>m.
        res_bind (require_ref out_value_ptr (lit ''out_value_ptr'')) (\<lambda>_.
        res_bind (ok_or invalid_utf8 key) (\<lambda>k.
        res_map (\<lambda>fallback. parameters (unwrap_or default_synthesis_config fallback) k)
          (ffi_lift (be_fallback be m))))))"

subsection \<open>What survives the boundary\<close>

context config_store
begin

lemma c_parameter_roundtrip:
  assumes "be_fallback be = (\<lambda>m. Inr (get_cfg m))" "be_set_fallback be = set_cfg" "valid m" "n \<in> names"
  shows "\<exists>m'. libdengjenSetSynthesisParameter be (Some m) (Some n) v = (Some m', None) \<and> valid m' \<and>
    libdengjenGetSynthesisParameter be (Some m') (Some n) (Some ()) = (Some v, None)"
proof -
  from update_succeeds [OF assms(3,4), of v] obtain m' c' where m':
    "update_parameter get_cfg set_cfg n v m = Inr m'" "valid m'" "get_cfg m' = Some c'" "parameters c' n = Some v"
    by blast
  then show ?thesis
    by (simp add: libdengjenSetSynthesisParameter_def libdengjenGetSynthesisParameter_def call_with_result_def
        require_ref_def assms(1,2) update_parameter_def)
qed

end

definition speaker_ok :: "('m \<Rightarrow> int \<Rightarrow> bool) \<Rightarrow> ('m \<Rightarrow> synthesis_config option) \<Rightarrow> 'm \<Rightarrow> bool" where
  "speaker_ok known get_cfg m = (case get_cfg m of None \<Rightarrow> True | Some c \<Rightarrow> speaker_known (known m) c)"

lemma config_store_valid_iff:
  "config_store get_cfg set_cfg known names \<Longrightarrow> config_store.valid get_cfg known m \<longleftrightarrow> speaker_ok known get_cfg m"
  by (auto simp: config_store.valid_def speaker_ok_def split: option.split)

text \<open>
  \<^bold>\<open>C40\<close>: as long as the speaker in force is one the voice has, or none is in force, a parameter set through
  the C interface is accepted and read back: by Piper for its three scales and no other name, by
  Kokoro and MeloTTS for every name. For Kokoro this is more than the documentation of the interface
  says, which has it that a Kokoro voice takes no synthesis parameters.
\<close>

theorem c_parameters_read_back:
  assumes "speaker_ok (\<lambda>v sid. pv_speaker_map v sid \<noteq> None) piper_get_fallback p" "n \<in> piper_names"
    "speaker_ok (\<lambda>v sid. map_of (kk_speaker_map v) sid \<noteq> None) kokoro_get_fallback k"
    "speaker_ok (\<lambda>v sid. mv_speaker_map v sid \<noteq> None) melo_get_fallback w"
  shows "(\<exists>p'. libdengjenSetSynthesisParameter (store_backend mp piper_get_default piper_get_fallback piper_set_fallback)
        (Some p) (Some n) x = (Some p', None) \<and>
      libdengjenGetSynthesisParameter (store_backend mp piper_get_default piper_get_fallback piper_set_fallback)
        (Some p') (Some n) (Some ()) = (Some x, None)) \<and>
    (\<exists>k'. libdengjenSetSynthesisParameter (store_backend mk kokoro_get_default kokoro_get_fallback kokoro_set_fallback)
        (Some k) (Some name) x = (Some k', None) \<and>
      libdengjenGetSynthesisParameter (store_backend mk kokoro_get_default kokoro_get_fallback kokoro_set_fallback)
        (Some k') (Some name) (Some ()) = (Some x, None)) \<and>
    (\<exists>w'. libdengjenSetSynthesisParameter (store_backend mw melo_get_default melo_get_fallback melo_set_fallback)
        (Some w) (Some name) x = (Some w', None) \<and>
      libdengjenGetSynthesisParameter (store_backend mw melo_get_default melo_get_fallback melo_set_fallback)
        (Some w') (Some name) (Some ()) = (Some x, None))"
proof (intro conjI)
  show "\<exists>p'. libdengjenSetSynthesisParameter (store_backend mp piper_get_default piper_get_fallback piper_set_fallback)
        (Some p) (Some n) x = (Some p', None) \<and>
      libdengjenGetSynthesisParameter (store_backend mp piper_get_default piper_get_fallback piper_set_fallback)
        (Some p') (Some n) (Some ()) = (Some x, None)"
    using piper_store.c_parameter_roundtrip
      [of "store_backend mp piper_get_default piper_get_fallback piper_set_fallback" p n x] assms(1,2)
      config_store_valid_iff [OF piper_store.config_store_axioms, of p]
    by (fastforce simp: fun_eq_iff)
  show "\<exists>k'. libdengjenSetSynthesisParameter (store_backend mk kokoro_get_default kokoro_get_fallback kokoro_set_fallback)
        (Some k) (Some name) x = (Some k', None) \<and>
      libdengjenGetSynthesisParameter (store_backend mk kokoro_get_default kokoro_get_fallback kokoro_set_fallback)
        (Some k') (Some name) (Some ()) = (Some x, None)"
    using kokoro_store.c_parameter_roundtrip
      [of "store_backend mk kokoro_get_default kokoro_get_fallback kokoro_set_fallback" k name x] assms(3)
      config_store_valid_iff [OF kokoro_store.config_store_axioms, of k]
    by (fastforce simp: fun_eq_iff)
  show "\<exists>w'. libdengjenSetSynthesisParameter (store_backend mw melo_get_default melo_get_fallback melo_set_fallback)
        (Some w) (Some name) x = (Some w', None) \<and>
      libdengjenGetSynthesisParameter (store_backend mw melo_get_default melo_get_fallback melo_set_fallback)
        (Some w') (Some name) (Some ()) = (Some x, None)"
    using melo_store.c_parameter_roundtrip
      [of "store_backend mw melo_get_default melo_get_fallback melo_set_fallback" w name x] assms(4)
      config_store_valid_iff [OF melo_store.config_store_axioms, of w]
    by (fastforce simp: fun_eq_iff)
qed

definition tiny_piper :: piper_voice where
  "tiny_piper = piper_voice_of demo_config (factory_synthesis_config demo_config)"

definition tiny_kokoro :: kokoro_voice where
  "tiny_kokoro = \<lparr>kk_vocab = \<lparr>vc_map = [], vc_bos_id = 0, vc_max_token_chars = 0\<rparr>, kk_styles = Map.empty,
     kk_sample_rate = 24000, kk_default_voice = lit ''af_heart'', kk_speaker_map = [(0, lit ''af_heart'')],
     kk_synth_config = \<lparr>speaker = Some 0, parameters = Map.empty\<rparr>\<rparr>"

definition tiny_melo :: "unit melo_voice" where
  "tiny_melo = melo_voice_of (EspeakBackend (lit ''en-us''))
     \<lparr>ml_sample_rate = 44100, ml_phonemizer = EspeakPhonemizer (lit ''en-us''), ml_phone_id_map = [], ml_tone_id_map = [],
      ml_speaker_id_map = [], ml_default_speaker_id = None,
      ml_inference = \<lparr>mi_noise_scale = f_lit 1, mi_length_scale = f_lit 1, mi_noise_scale_w = f_lit 1\<rparr>,
      ml_model_path = lit ''m.onnx''\<rparr>"

theorem c_parameters_read_back_witness:
  "\<exists>k'. libdengjenSetSynthesisParameter
        (store_backend (\<lambda>_. two_speaker_model) kokoro_get_default kokoro_get_fallback kokoro_set_fallback)
        (Some tiny_kokoro) (Some (lit ''knob'')) (f_lit 2) = (Some k', None) \<and>
     libdengjenGetSynthesisParameter
        (store_backend (\<lambda>_. two_speaker_model) kokoro_get_default kokoro_get_fallback kokoro_set_fallback)
        (Some k') (Some (lit ''knob'')) (Some ()) = (Some (f_lit 2), None)"
proof -
  have p: "speaker_ok (\<lambda>v sid. pv_speaker_map v sid \<noteq> None) piper_get_fallback tiny_piper"
    by (simp add: speaker_ok_def speaker_known_def tiny_piper_def piper_get_fallback_def piper_to_synthesis_config_def
        piper_voice_of_def factory_synthesis_config_def demo_config_def)
  have k: "speaker_ok (\<lambda>v sid. map_of (kk_speaker_map v) sid \<noteq> None) kokoro_get_fallback tiny_kokoro"
    by (simp add: speaker_ok_def speaker_known_def tiny_kokoro_def kokoro_get_fallback_def)
  have w: "speaker_ok (\<lambda>v sid. mv_speaker_map v sid \<noteq> None) melo_get_fallback tiny_melo"
    by (simp add: speaker_ok_def tiny_melo_def melo_voice_of_def melo_get_fallback_def)
  have n: "NOISE_W \<in> piper_names" by (simp add: piper_names_def)
  show ?thesis
    using c_parameters_read_back [OF p n k w, where name = "lit ''knob''" and mk = "\<lambda>_. two_speaker_model"] by blast
qed

text \<open>
  A speaker id of the C interface is 32 bits wide and its largest value stands for no speaker, so
  that a default config survives exactly when its speaker fits.
\<close>

lemma speaker_id_bounds:
  "as_piper_synth_config (of_piper_synth_config c) = c \<longleftrightarrow>
     (case ps_speaker c of None \<Rightarrow> True | Some sid \<Rightarrow> 0 \<le> sid \<and> sid < int PIPER_SYNTH_CONFIG_NO_SPEAKER)"
proof (cases "ps_speaker c")
  case None
  then show ?thesis
    by (cases c) (simp add: as_piper_synth_config_def of_piper_synth_config_def PIPER_SYNTH_CONFIG_NO_SPEAKER_def)
next
  case (Some sid)
  have bounds: "0 \<le> sid mod 4294967296" "sid mod 4294967296 < 4294967296" by simp_all
  moreover have "nat (sid mod 4294967296) = 4294967295 \<longleftrightarrow> sid mod 4294967296 = 4294967295" by auto
  moreover have "sid mod 4294967296 = sid \<longleftrightarrow> 0 \<le> sid \<and> sid < 4294967296"
    using bounds mod_pos_pos_trivial [of sid 4294967296] by metis
  ultimately show ?thesis
    using Some
    by (cases c) (auto simp: as_piper_synth_config_def of_piper_synth_config_def PIPER_SYNTH_CONFIG_NO_SPEAKER_def)
qed

lemma negative_speaker_becomes_another:
  "ps_speaker (as_piper_synth_config (of_piper_synth_config (c\<lparr>ps_speaker := Some (- 2)\<rparr>))) = Some 4294967294"
  "ps_speaker (as_piper_synth_config (of_piper_synth_config (c\<lparr>ps_speaker := Some (- 1)\<rparr>))) = None"
  by (simp_all add: as_piper_synth_config_def of_piper_synth_config_def PIPER_SYNTH_CONFIG_NO_SPEAKER_def)

subsection \<open>The cancellation slot\<close>

text \<open>
  What the calls on one voice share: the slot with the token of the latest realtime synthesis, the
  tokens cancelled so far, the closing flag that unloading sets, and the state of the caller. Tokens
  are numbered as they are made.
\<close>

record 'u call_state =
  ca_slot :: "nat option"
  ca_cancelled :: "nat set"
  ca_next_token :: nat
  ca_closing :: bool
  ca_user :: 'u

definition cancel_slot :: "'u call_state \<Rightarrow> 'u call_state" where
  "cancel_slot c =
     (case ca_slot c of None \<Rightarrow> c | Some t \<Rightarrow> c\<lparr>ca_cancelled := insert t (ca_cancelled c)\<rparr>)"

definition begin_realtime :: "'u call_state \<Rightarrow> nat \<times> 'u call_state" where
  "begin_realtime c =
     (ca_next_token c, c\<lparr>ca_slot := Some (ca_next_token c), ca_next_token := Suc (ca_next_token c)\<rparr>)"

definition drop_slot_guard :: "nat \<Rightarrow> 'u call_state \<Rightarrow> 'u call_state" where
  "drop_slot_guard t c = (if ca_slot c = Some t then c\<lparr>ca_slot := None\<rparr> else c)"

text \<open>The numbered tokens of the slot keep the contract of a cancellation token.\<close>

interpretation slot_tokens: cancellation begin_realtime
    "\<lambda>t c. c\<lparr>ca_cancelled := insert t (ca_cancelled c)\<rparr>" "\<lambda>t c. t \<in> ca_cancelled c"
    "\<lambda>t c. t < ca_next_token c" "\<lambda>c. \<forall>t \<in> ca_cancelled c. t < ca_next_token c"
  by unfold_locales (auto simp: begin_realtime_def)

definition libdengjenCancel :: "'u call_state option \<Rightarrow> 'u call_state option \<times> ffi_error option" where
  "libdengjenCancel voice =
     call_with_result voice (res_map (\<lambda>c. Some (cancel_slot c)) (require_ref voice (lit ''voice_ptr'')))"

text \<open>Any interleaving of realtime syntheses that begin and end and of cancellations.\<close>

datatype slot_event = Begins | Ends nat | Cancels

fun slot_run :: "slot_event list \<Rightarrow> 'u call_state \<Rightarrow> 'u call_state" where
  "slot_run [] c = c"
| "slot_run (Begins # es) c = slot_run es (snd (begin_realtime c))"
| "slot_run (Ends t # es) c = slot_run es (drop_slot_guard t c)"
| "slot_run (Cancels # es) c = slot_run es (cancel_slot c)"

definition fresh_slot :: "'u \<Rightarrow> 'u call_state" where
  "fresh_slot u = \<lparr>ca_slot = None, ca_cancelled = {}, ca_next_token = 0, ca_closing = False, ca_user = u\<rparr>"

lemma slot_run_append: "slot_run (es @ fs) c = slot_run fs (slot_run es c)"
  by (induction es c rule: slot_run.induct) simp_all

lemma slot_run_snoc:
  "slot_run (es @ [e]) c = slot_run [e] (slot_run es c)"
  by (simp add: slot_run_append)

definition begun :: "slot_event list \<Rightarrow> nat" where
  "begun es = length (filter (\<lambda>e. e = Begins) es)"

fun ended_since :: "nat \<Rightarrow> slot_event list \<Rightarrow> bool" where
  "ended_since t [] = False"
| "ended_since t (e # es) = (e = Ends t \<or> ended_since t es)"

text \<open>What happened since the latest realtime synthesis began, or everything if none did.\<close>

definition since_latest :: "slot_event list \<Rightarrow> slot_event list" where
  "since_latest es = rev (takeWhile (\<lambda>e. e \<noteq> Begins) (rev es))"

lemma begun_snoc [simp]: "begun (es @ [e]) = (if e = Begins then Suc (begun es) else begun es)"
  by (simp add: begun_def)

lemma since_latest_snoc [simp]:
  "since_latest (es @ [e]) = (if e = Begins then [] else since_latest es @ [e])"
  by (simp add: since_latest_def)

lemma ended_since_snoc [simp]: "ended_since t (es @ [e]) \<longleftrightarrow> ended_since t es \<or> e = Ends t"
  by (induction es) auto

lemma slot_holds_latest:
  "ca_next_token (slot_run es (fresh_slot u)) = begun es \<and>
   ca_slot (slot_run es (fresh_slot u)) =
     (if begun es = 0 \<or> ended_since (begun es - 1) (since_latest es) then None else Some (begun es - 1))"
proof (induction es rule: rev_induct)
  case Nil
  then show ?case by (simp add: fresh_slot_def begun_def)
next
  case (snoc e es)
  then show ?case
    by (cases e) (auto simp: slot_run_append begin_realtime_def drop_slot_guard_def cancel_slot_def split: option.split)
qed

text \<open>
  \<^bold>\<open>C39\<close>: in every interleaving of realtime syntheses and cancellations on a voice, the slot holds
  exactly the token of the synthesis begun last, as long as it has not ended: a cancellation reaches
  that synthesis alone, and none that has ended or that was begun earlier.
\<close>

theorem cancel_reaches_latest:
  "ca_cancelled (cancel_slot (slot_run es (fresh_slot u))) - ca_cancelled (slot_run es (fresh_slot u)) \<subseteq>
     (if begun es = 0 \<or> ended_since (begun es - 1) (since_latest es) then {} else {begun es - 1}) \<and>
   (0 < begun es \<and> \<not> ended_since (begun es - 1) (since_latest es) \<longleftrightarrow>
     ca_slot (slot_run es (fresh_slot u)) = Some (begun es - 1)) \<and>
   (case ca_slot (slot_run es (fresh_slot u)) of
      None \<Rightarrow> cancel_slot (slot_run es (fresh_slot u)) = slot_run es (fresh_slot u)
    | Some t \<Rightarrow> t \<in> ca_cancelled (cancel_slot (slot_run es (fresh_slot u))))"
  using slot_holds_latest [of es u] by (auto simp: cancel_slot_def)

subsection \<open>The events of a synthesis\<close>

datatype synth_event = SpeechEvent "byte list" | ErrorEvent ffi_error | FinishedEvent

text \<open>
  The caller: what its callback does with an event and what it answers, and what other threads do to
  the shared state while the synthesis runs.
\<close>

record 'u caller =
  cb_callback :: "synth_event \<Rightarrow> 'u call_state \<Rightarrow> 'u call_state \<times> nat"
  cb_elapse :: "'u call_state \<Rightarrow> 'u call_state"

type_synonym 'u outcome = "'u call_state \<times> synth_event list"

definition last_event :: "'u caller \<Rightarrow> synth_event \<Rightarrow> 'u call_state \<Rightarrow> 'u outcome" where
  "last_event cb ev c = (fst (cb_callback cb ev c), [ev])"

text \<open>
  A realtime stream ends when its token is cancelled; the other modes have none. Its items come from a
  producer that needs a thread of the pool: while that has not been \<open>served\<close> one, a receive waits, and
  if it never is, the call never returns, which is the value None.
\<close>

definition stream_cancelled :: "nat option \<Rightarrow> 'u call_state \<Rightarrow> bool" where
  "stream_cancelled token c = (case token of None \<Rightarrow> False | Some t \<Rightarrow> t \<in> ca_cancelled c)"

partial_function (option) iterate_stream ::
  "bool \<Rightarrow> ('s \<Rightarrow> (samples dengjen_result \<times> 's) option) \<Rightarrow> nat option \<Rightarrow> 'u caller \<Rightarrow> 's \<Rightarrow> 'u call_state
     \<Rightarrow> 'u outcome option" where
  "iterate_stream served nxt token cb s c =
     (let c1 = cb_elapse cb c in
      if stream_cancelled token c1 then Some (last_event cb FinishedEvent c1)
      else if \<not> served then None
      else case nxt s of
          None \<Rightarrow> Some (last_event cb FinishedEvent c1)
        | Some (item, s') \<Rightarrow>
            (let c2 = cb_elapse cb c1 in
             if ca_closing c2 then Some (last_event cb FinishedEvent c2)
             else case item of
                 Inl e \<Rightarrow> Some (last_event cb (ErrorEvent (ffi_error_of e)) c2)
               | Inr xs \<Rightarrow>
                   (case cb_callback cb (SpeechEvent (as_wave_bytes xs)) c2 of
                      (c3, code) \<Rightarrow>
                        if code \<noteq> 0 then Some (c3, [SpeechEvent (as_wave_bytes xs)])
                        else Option.bind (iterate_stream served nxt token cb s' c3)
                          (\<lambda>(c4, events). Some (c4, SpeechEvent (as_wave_bytes xs) # events)))))"

text \<open>The same over the list of items.\<close>

fun deliver :: "nat option \<Rightarrow> 'u caller \<Rightarrow> samples dengjen_result list \<Rightarrow> 'u call_state \<Rightarrow> 'u outcome" where
  "deliver token cb [] c = last_event cb FinishedEvent (cb_elapse cb c)"
| "deliver token cb (item # items) c =
     (let c1 = cb_elapse cb c in
      if stream_cancelled token c1 then last_event cb FinishedEvent c1
      else let c2 = cb_elapse cb c1 in
        if ca_closing c2 then last_event cb FinishedEvent c2
        else case item of
            Inl e \<Rightarrow> last_event cb (ErrorEvent (ffi_error_of e)) c2
          | Inr xs \<Rightarrow>
              (case cb_callback cb (SpeechEvent (as_wave_bytes xs)) c2 of
                 (c3, code) \<Rightarrow>
                   if code \<noteq> 0 then (c3, [SpeechEvent (as_wave_bytes xs)])
                   else (case deliver token cb items c3 of
                     (c4, events) \<Rightarrow> (c4, SpeechEvent (as_wave_bytes xs) # events))))"

lemma iterate_stream_items:
  fixes nxt :: "'s \<Rightarrow> (samples dengjen_result \<times> 's) option"
  assumes stream: "audio_stream nxt rem sinv" and "sinv s"
  shows "iterate_stream True nxt token cb s c = Some (deliver token cb (rem s) c)"
  using assms(2)
proof (induction "rem s" arbitrary: s c)
  case Nil
  have "nxt s = None"
    using audio_stream.yields [OF stream Nil.prems] Nil.hyps by (cases "nxt s") force+
  then show ?case using Nil.hyps [symmetric] by (subst iterate_stream.simps) (simp add: Let_def)
next
  case (Cons x xs)
  obtain s' where s': "nxt s = Some (x, s')" "rem s' = xs" "sinv s'"
    using audio_stream.yields [OF stream Cons.prems] audio_stream.ends [OF stream Cons.prems] Cons.hyps(2)
    by (cases "nxt s") force+
  note IH = Cons.hyps(1) [OF s'(2) [symmetric] s'(3), unfolded s'(2)]
  show ?case
    unfolding Cons.hyps(2) [symmetric]
    by (subst iterate_stream.simps; cases x) (simp_all add: s'(1) IH Let_def split: prod.split)
qed

lemma iterate_stream_unserved:
  "iterate_stream False nxt token cb s c =
     (if stream_cancelled token (cb_elapse cb c) then Some (last_event cb FinishedEvent (cb_elapse cb c)) else None)"
  by (subst iterate_stream.simps) (simp add: Let_def)

definition SYNTH_MODE_LAZY :: int where "SYNTH_MODE_LAZY = 0"
definition SYNTH_MODE_PARALLEL :: int where "SYNTH_MODE_PARALLEL = 1"
definition SYNTH_MODE_REALTIME :: int where "SYNTH_MODE_REALTIME = 2"
definition SYNTH_MODE_BATCHED :: int where "SYNTH_MODE_BATCHED = 3"

definition REALTIME_CHUNK_SIZE :: nat where "REALTIME_CHUNK_SIZE = 72"
definition REALTIME_CHUNK_PADDING :: nat where "REALTIME_CHUNK_PADDING = 3"

text \<open>
  What the calls use of the process. \<open>pe_producer_runs\<close> tells whether the producer of this call's realtime
  stream is given a thread of the pool; \<open>CapiLifecycle\<close> shows a process in which no producer ever is.
\<close>

record ('m, 's, 'w) capi_env =
  pe_backend :: "'m backend"
  pe_sonic :: "'s sonic"
  pe_sin32 :: "f32 \<Rightarrow> f32"
  pe_source :: "'m \<Rightarrow> str \<Rightarrow> nat \<Rightarrow> nat \<Rightarrow> chunk_source"
  pe_ahead :: "rt_state \<Rightarrow> nat"
  pe_pool :: "unit dengjen_result"
  pe_producer_runs :: bool
  pe_default_batch_size :: nat
  pe_riff :: "'w riff"
  pe_io :: io_faults
  pe_pid :: nat

definition capi_provider :: "('m, 's, 'w) capi_env \<Rightarrow> 'm \<Rightarrow> str \<Rightarrow> synthesis_params \<Rightarrow> 's task_provider" where
  "capi_provider env m text ps =
     \<lparr>model = be_model (pe_backend env) m, text_input = text,
      output_config = Some (as_synth_output_config ps), sonic_port = pe_sonic env, sin32 = pe_sin32 env\<rparr>"

definition synth_mode_of :: "nat \<Rightarrow> int \<Rightarrow> stream_mode option" where
  "synth_mode_of default_size mode =
     (if mode = SYNTH_MODE_LAZY then Some ModeLazy
      else if mode = SYNTH_MODE_PARALLEL then Some ModeParallel
      else if mode = SYNTH_MODE_BATCHED then Some (ModeBatched default_size)
      else if mode = SYNTH_MODE_REALTIME then Some (ModeRealtime REALTIME_CHUNK_SIZE REALTIME_CHUNK_PADDING)
      else None)"

definition do_synthesize ::
  "('m, 's, 'w) capi_env \<Rightarrow> 'm \<Rightarrow> str \<Rightarrow> 'u caller \<Rightarrow> synthesis_params \<Rightarrow> 'u call_state
     \<Rightarrow> ('u outcome \<times> unit ffi_result) option" where
  "do_synthesize env m text cb ps c =
     (case synth_mode_of (pe_default_batch_size env) (sp_mode ps) of
        None \<Rightarrow> Some ((c, []), Inl invalid_synthesis_mode)
      | Some mode \<Rightarrow>
          (case (if sp_mode ps = SYNTH_MODE_REALTIME then map_prod Some id (begin_realtime c) else (None, c)) of
             (token, c1) \<Rightarrow>
               map_option (\<lambda>((c2, events), r). ((case token of None \<Rightarrow> c2 | Some t \<Rightarrow> drop_slot_guard t c2, events), r))
                 (case synthesize_samples (pe_pool env) (pe_source env m) (capi_provider env m text ps) mode of
                    Inl e \<Rightarrow> Some ((c1, []), Inl (ffi_error_of e))
                  | Inr st \<Rightarrow> map_option (\<lambda>out. (out, Inr ()))
                      (iterate_stream (token = None \<or> pe_producer_runs env) (samples_next (pe_pool env) (pe_ahead env))
                           token cb st c1))))"

text \<open>
  What a worker of a nonblocking call runs once a thread has taken it up: an error of the synthesis
  becomes its last event. A
  panic of the synthesis, which it catches, is one more error and is the argument \<open>panicked\<close>.
\<close>

definition speak_worker ::
  "('m, 's, 'w) capi_env \<Rightarrow> 'm \<Rightarrow> str \<Rightarrow> 'u caller \<Rightarrow> synthesis_params \<Rightarrow> str option \<Rightarrow> 'u call_state \<Rightarrow> 'u outcome option" where
  "speak_worker env m text cb ps panicked c =
     Option.bind (case panicked of
         Some msg \<Rightarrow> Some ((c, []), Inl (ffi_error_of (InferenceError (lit ''synthesis worker panicked: '' @ msg))))
       | None \<Rightarrow> do_synthesize env m text cb ps c)
       (\<lambda>((c1, events), r). Some (case r of
          Inr _ \<Rightarrow> (c1, events)
        | Inl e \<Rightarrow> (case last_event cb (ErrorEvent e) c1 of (c2, ev) \<Rightarrow> (c2, events @ ev))))"

text \<open>
  \<^verbatim>\<open>_synthesize\<close>: refused, run to its end in the calling thread, or handed to the pool with the voice
  counted as in flight.
\<close>

datatype 'u speak_result =
    Refused ffi_error
  | RanBlocking "('u outcome \<times> unit ffi_result) option"
  | WorkerSpawned str

definition synthesize_call ::
  "('m, 's, 'w) capi_env \<Rightarrow> 'm \<Rightarrow> str option \<Rightarrow> 'u caller \<Rightarrow> synthesis_params \<Rightarrow> 'u call_state \<Rightarrow> 'u speak_result" where
  "synthesize_call env m text_ptr cb ps c =
     (case text_ptr of
        None \<Rightarrow> Refused invalid_utf8
      | Some text \<Rightarrow>
          if \<not> sp_has_callback ps then Refused (null_pointer (lit ''params.callback''))
          else if sp_nonblocking ps = 0 then RanBlocking (do_synthesize env m text cb ps c)
          else case pe_pool env of
              Inl e \<Rightarrow> Refused (ffi_error_of e)
            | Inr _ \<Rightarrow> WorkerSpawned text)"

definition libdengjenSpeak ::
  "('m, 's, 'w) capi_env \<Rightarrow> 'm option \<Rightarrow> str option \<Rightarrow> 'u caller \<Rightarrow> synthesis_params option \<Rightarrow> 'u call_state
     \<Rightarrow> 'u speak_result" where
  "libdengjenSpeak env voice text_ptr cb params_ptr c =
     (case res_bind (require_ref voice (lit ''voice_ptr'')) (\<lambda>m. res_map (\<lambda>ps. (m, ps)) (read_params params_ptr)) of
        Inl e \<Rightarrow> Refused e
      | Inr (m, ps) \<Rightarrow> synthesize_call env m text_ptr cb ps c)"

definition synthesize_to_file_call ::
  "('m, 's, 'w) capi_env \<Rightarrow> 'm \<Rightarrow> str option \<Rightarrow> synthesis_params \<Rightarrow> str option \<Rightarrow> save_world
     \<Rightarrow> save_world \<times> unit ffi_result" where
  "synthesize_to_file_call env m text_ptr ps filename_ptr disk =
     (case (text_ptr, filename_ptr) of
        (Some text, Some filename) \<Rightarrow>
          (case synthesize_to_file (pe_pool env) (pe_riff env) (pe_io env) (pe_pid env) filename
                  (capi_provider env m text ps) disk of
             (disk', r) \<Rightarrow> (disk', ffi_lift r))
      | _ \<Rightarrow> (disk, Inl invalid_utf8))"

definition libdengjenSpeakToFile ::
  "('m, 's, 'w) capi_env \<Rightarrow> 'm option \<Rightarrow> str option \<Rightarrow> synthesis_params option \<Rightarrow> str option \<Rightarrow> save_world
     \<Rightarrow> save_world \<times> nat \<times> ffi_error option" where
  "libdengjenSpeakToFile env voice text_ptr params_ptr filename_ptr disk =
     (case res_bind (require_ref voice (lit ''voice_ptr'')) (\<lambda>m. res_map (\<lambda>ps. (m, ps)) (read_params params_ptr)) of
        Inl e \<Rightarrow> (disk, 0, Some e)
      | Inr (m, ps) \<Rightarrow>
          (case synthesize_to_file_call env m text_ptr ps filename_ptr disk of
             (disk', r) \<Rightarrow> (disk', call_with_result 0 (res_map (\<lambda>_. 1) r))))"

subsection \<open>What a caller sees\<close>

lemma synth_mode_ok: "synth_mode_of d i = Some mode \<Longrightarrow> 0 < d \<Longrightarrow> mode_ok mode"
  by (auto simp: synth_mode_of_def split: if_splits)

definition is_speech :: "synth_event \<Rightarrow> bool" where
  "is_speech ev = (case ev of SpeechEvent _ \<Rightarrow> True | _ \<Rightarrow> False)"

text \<open>
  The events of a delivery: the speech of the first items, and then one last event or none. The
  last event is the error of the next item, or the end; there is none only when the caller declined.
\<close>

lemma deliver_events:
  "deliver token cb items c = (c', events) \<Longrightarrow>
     \<exists>spoken tail. events = map (\<lambda>xs. SpeechEvent (as_wave_bytes xs)) spoken @ tail \<and>
       map Inr spoken = take (length spoken) items \<and>
       (tail = [FinishedEvent] \<or>
        (\<exists>e. tail = [ErrorEvent (ffi_error_of e)] \<and> length spoken < length items \<and> items ! length spoken = Inl e) \<or>
        tail = [] \<and> spoken \<noteq> [])"
proof (induction token cb items c arbitrary: c' events rule: deliver.induct)
  case (1 token cb c)
  then show ?case by (intro exI [of _ "[]"] exI [of _ "[FinishedEvent]"]) (simp add: last_event_def)
next
  case (2 token cb item items c)
  let ?c1 = "cb_elapse cb c" and ?c2 = "cb_elapse cb (cb_elapse cb c)"
  consider (stop) "stream_cancelled token ?c1 \<or> ca_closing ?c2"
    | (err) e where "\<not> stream_cancelled token ?c1" "\<not> ca_closing ?c2" "item = Inl e"
    | (ok) xs where "\<not> stream_cancelled token ?c1" "\<not> ca_closing ?c2" "item = Inr xs"
    by (cases item) auto
  then show ?case
  proof cases
    case stop
    with 2(2) have "events = [FinishedEvent]" by (auto simp: last_event_def Let_def split: if_splits)
    then show ?thesis by (intro exI [of _ "[]"] exI [of _ "[FinishedEvent]"]) simp
  next
    case err
    with 2(2) have "events = [ErrorEvent (ffi_error_of e)]" by (simp add: last_event_def Let_def)
    with err show ?thesis by (intro exI [of _ "[]"] exI [of _ "[ErrorEvent (ffi_error_of e)]"]) simp
  next
    case ok
    obtain c3 code where cb: "cb_callback cb (SpeechEvent (as_wave_bytes xs)) ?c2 = (c3, code)"
      by (cases "cb_callback cb (SpeechEvent (as_wave_bytes xs)) ?c2")
    show ?thesis
    proof (cases "code = 0")
      case False
      with 2(2) ok cb have "events = [SpeechEvent (as_wave_bytes xs)]" by (simp add: Let_def)
      with ok show ?thesis by (intro exI [of _ "[xs]"] exI [of _ "[]"]) simp
    next
      case True
      obtain c4 rest where rest: "deliver token cb items c3 = (c4, rest)" by (cases "deliver token cb items c3")
      with True 2(2) ok cb have ev: "events = SpeechEvent (as_wave_bytes xs) # rest" by (simp add: Let_def)
      have IH: "\<exists>spoken tail. rest = map (\<lambda>xs. SpeechEvent (as_wave_bytes xs)) spoken @ tail \<and>
         map Inr spoken = take (length spoken) items \<and>
         (tail = [FinishedEvent] \<or>
          (\<exists>e. tail = [ErrorEvent (ffi_error_of e)] \<and> length spoken < length items \<and> items ! length spoken = Inl e) \<or>
          tail = [] \<and> spoken \<noteq> [])"
        using 2(1) [OF refl _ refl _ ok(3) cb [symmetric] _ rest] ok True by simp
      then obtain spoken tail where "rest = map (\<lambda>xs. SpeechEvent (as_wave_bytes xs)) spoken @ tail"
         "map Inr spoken = take (length spoken) items"
         "tail = [FinishedEvent] \<or>
          (\<exists>e. tail = [ErrorEvent (ffi_error_of e)] \<and> length spoken < length items \<and> items ! length spoken = Inl e) \<or>
          tail = [] \<and> spoken \<noteq> []" by blast
      with ev ok show ?thesis by (intro exI [of _ "xs # spoken"] exI [of _ tail]) auto
    qed
  qed
qed

lemma synth_mode_realtime:
  "synth_mode_of d i = Some mode \<Longrightarrow> i = SYNTH_MODE_REALTIME \<longleftrightarrow> (\<exists>n pad. mode = ModeRealtime n pad)"
  by (auto simp: synth_mode_of_def SYNTH_MODE_LAZY_def SYNTH_MODE_PARALLEL_def SYNTH_MODE_BATCHED_def
      SYNTH_MODE_REALTIME_def split: if_splits)

lemma do_synthesize_items:
  assumes "pe_pool env = Inr ()" "0 < pe_default_batch_size env"
    "synth_mode_of (pe_default_batch_size env) (sp_mode ps) = Some mode"
    "sp_mode ps = SYNTH_MODE_REALTIME \<Longrightarrow> pe_producer_runs env"
  shows "\<exists>token c1 c2. do_synthesize env m input cb ps c =
    (case mode_items (pe_source env m) (capi_provider env m input ps) mode of
       Inl e \<Rightarrow> Some ((c2, []), Inl (ffi_error_of e))
     | Inr items \<Rightarrow> Some ((c2, snd (deliver token cb items c1)), Inr ()))"
proof -
  obtain token c1 where t: "(if sp_mode ps = SYNTH_MODE_REALTIME then map_prod Some id (begin_realtime c) else (None, c)) = (token, c1)"
    by (cases "if sp_mode ps = SYNTH_MODE_REALTIME then map_prod Some id (begin_realtime c) else (None, c)")
  have served: "(token = None \<or> pe_producer_runs env) = True"
    using t assms(4) by (auto split: if_splits)
  note items = synthesize_samples_items [OF synth_mode_ok [OF assms(3,2)],
      where source = "pe_source env m" and p = "capi_provider env m input ps"]
  show ?thesis
  proof (cases "synthesize_samples (Inr ()) (pe_source env m) (capi_provider env m input ps) mode")
    case (Inl e)
    then have "mode_items (pe_source env m) (capi_provider env m input ps) mode = Inl e"
      using items(1) by simp
    then show ?thesis by (simp add: do_synthesize_def assms(1,3) t Inl)
  next
    case (Inr st)
    have "iterate_stream True (samples_next (Inr ()) (pe_ahead env)) token cb st c1 =
        Some (deliver token cb (samples_remaining (Inr ()) st) c1)"
      by (rule iterate_stream_items [OF chunks.audio_stream_axioms items(2) [OF Inr]])
    moreover have "mode_items (pe_source env m) (capi_provider env m input ps) mode = Inr (samples_remaining (Inr ()) st)"
      using items(1) by (simp add: Inr)
    moreover obtain c2 events where "deliver token cb (samples_remaining (Inr ()) st) c1 = (c2, events)"
      by (cases "deliver token cb (samples_remaining (Inr ()) st) c1")
    ultimately show ?thesis
      by (intro exI [of _ token] exI [of _ c1] exI [of _ "case token of None \<Rightarrow> c2 | Some t \<Rightarrow> drop_slot_guard t c2"])
         (simp add: do_synthesize_def assms(1,3) t Inr served)
  qed
qed

text \<open>A realtime call whose producer never gets a thread: an error at its start, a cancellation, or nothing.\<close>

lemma do_synthesize_unserved:
  assumes "pe_pool env = Inr ()" "0 < pe_default_batch_size env"
    "synth_mode_of (pe_default_batch_size env) (sp_mode ps) = Some mode"
    "sp_mode ps = SYNTH_MODE_REALTIME" "\<not> pe_producer_runs env"
  shows "\<exists>c2. do_synthesize env m input cb ps c =
    (case mode_items (pe_source env m) (capi_provider env m input ps) mode of
       Inl e \<Rightarrow> Some ((c2, []), Inl (ffi_error_of e))
     | Inr items \<Rightarrow>
         if ca_next_token c \<in> ca_cancelled (cb_elapse cb (snd (begin_realtime c)))
         then Some ((c2, [FinishedEvent]), Inr ()) else None)"
proof -
  note items = synthesize_samples_items [OF synth_mode_ok [OF assms(3,2)],
      where source = "pe_source env m" and p = "capi_provider env m input ps"]
  have token: "begin_realtime c = (ca_next_token c, snd (begin_realtime c))"
    by (simp add: begin_realtime_def)
  show ?thesis
  proof (cases "synthesize_samples (Inr ()) (pe_source env m) (capi_provider env m input ps) mode")
    case (Inl e)
    then have "mode_items (pe_source env m) (capi_provider env m input ps) mode = Inl e"
      using items(1) by simp
    then show ?thesis by (subst do_synthesize_def, subst token) (simp add: assms(1,4) assms(3) [unfolded assms(4)] Inl)
  next
    case (Inr st)
    have "mode_items (pe_source env m) (capi_provider env m input ps) mode = Inr (samples_remaining (Inr ()) st)"
      using items(1) by (simp add: Inr)
    then show ?thesis
      by (subst do_synthesize_def, subst token)
         (simp add: assms(1,4,5) assms(3) [unfolded assms(4)] Inr iterate_stream_unserved stream_cancelled_def last_event_def)
  qed
qed

text \<open>What the caller may see of a request, by the items it should deliver.\<close>

definition events_fit :: "samples dengjen_result list dengjen_result \<Rightarrow> synth_event list \<Rightarrow> bool" where
  "events_fit expected events \<longleftrightarrow>
     (\<exists>spoken tail. events = map (\<lambda>xs. SpeechEvent (as_wave_bytes xs)) spoken @ tail \<and>
        (case expected of
           Inl e \<Rightarrow> spoken = [] \<and> tail = [ErrorEvent (ffi_error_of e)]
         | Inr items \<Rightarrow> map Inr spoken = take (length spoken) items \<and>
            (tail = [FinishedEvent] \<or>
             (\<exists>e. tail = [ErrorEvent (ffi_error_of e)] \<and> length spoken < length items \<and> items ! length spoken = Inl e) \<or>
             tail = [] \<and> spoken \<noteq> [])))"

lemma error_fits: "events_fit (Inl e) [ErrorEvent (ffi_error_of e)]"
  by (simp add: events_fit_def)

lemma end_fits: "events_fit (Inr items) [FinishedEvent]"
  unfolding events_fit_def by (intro exI [of _ "[]"] exI [of _ "[FinishedEvent]"]) simp

lemma delivered_fits: "events_fit (Inr items) (snd (deliver token cb items c))"
proof -
  obtain c' events where "deliver token cb items c = (c', events)" by (cases "deliver token cb items c")
  from deliver_events [OF this] this show ?thesis unfolding events_fit_def by auto
qed


text \<open>A caller who takes everything and is not interrupted gets every item, and the end or the error.\<close>

lemma deliver_undisturbed:
  assumes "\<And>ev c. cb_callback cb ev c = (c, 0)" "\<And>c. cb_elapse cb c = c"
    "\<not> stream_cancelled token c" "\<not> ca_closing c"
  shows "snd (deliver token cb items c) =
    map (\<lambda>r. SpeechEvent (case r of Inr xs \<Rightarrow> as_wave_bytes xs | Inl _ \<Rightarrow> [])) (takeWhile (\<lambda>r. \<exists>xs. r = Inr xs) items) @
    [case find_map (\<lambda>r. case r of Inl e \<Rightarrow> Some e | Inr _ \<Rightarrow> None) items of
       None \<Rightarrow> FinishedEvent | Some e \<Rightarrow> ErrorEvent (ffi_error_of e)]"
proof (induction items)
  case (Cons r rs)
  show ?case
  proof (cases r)
    case (Inl e)
    then show ?thesis using assms by (simp add: last_event_def)
  next
    case (Inr xs)
    obtain c' events where "deliver token cb rs c = (c', events)" by (cases "deliver token cb rs c")
    with Cons Inr assms show ?thesis by simp
  qed
qed (simp add: last_event_def)

definition demo_capi_env :: "(unit, nat, unit) capi_env" where
  "demo_capi_env = \<lparr>pe_backend = store_backend (\<lambda>_. two_speaker_model\<lparr>phonemize_text := \<lambda>t. Inr [t, t]\<rparr>) (\<lambda>_. None)
       (\<lambda>_. None) (\<lambda>_ _. Inr ()),
     pe_sonic = silent_sonic, pe_sin32 = (\<lambda>x. x), pe_source = (\<lambda>_ _ _ _. SourceItems [] None), pe_ahead = (\<lambda>_. 0),
     pe_pool = Inr (), pe_producer_runs = True, pe_default_batch_size = 4,
     pe_riff = \<lparr>riff_new = (\<lambda>_ _ _. Some ()), riff_write_sample = (\<lambda>_ _. Some ()), riff_sync_header = (\<lambda>_. Some [])\<rparr>,
     pe_io = \<lparr>create_fault = None, write_fault = None, rename_fault = None, remove_fails = False\<rparr>, pe_pid = 1\<rparr>"

definition realtime_params :: synthesis_params where
  "realtime_params = \<lparr>sp_struct_size = 40, sp_mode = 2, sp_rate = 10, sp_volume = 100, sp_pitch = 50,
     sp_appended_silence_ms = 0, sp_has_callback = True, sp_nonblocking = 1\<rparr>"


subsection \<open>The runtime library\<close>

text \<open>
  The two once-cells: the path of the library and the result of initializing the environment. The
  last component records the path the environment was initialized from. Each operation holds the
  configuration lock, so that a run of the process is a sequence of them.
\<close>

record ort_state =
  ort_dylib_path :: "path option"
  init_ort :: "(str + unit) option"
  loaded_from :: "path option option"

definition committed_or_error :: "bool \<Rightarrow> str + unit" where
  "committed_or_error committed = (if committed then Inr () else Inl (lit ''Failed to initialize onnxruntime''))"

definition commit_ort_environment :: "(path \<Rightarrow> str option) \<Rightarrow> bool \<Rightarrow> path option \<Rightarrow> str + unit" where
  "commit_ort_environment load_fails commits p =
     (case (case p of None \<Rightarrow> None | Some q \<Rightarrow> map_option (\<lambda>why.
              lit ''Failed to load onnxruntime from '' @ quoted q @ lit '': '' @ why) (load_fails q)) of
        Some msg \<Rightarrow> Inl msg
      | None \<Rightarrow> committed_or_error commits)"

definition init_ort_environment ::
  "(path \<Rightarrow> str option) \<Rightarrow> bool \<Rightarrow> ort_state \<Rightarrow> ort_state \<times> unit dengjen_result" where
  "init_ort_environment load_fails commits s =
     (case init_ort s of
        Some r \<Rightarrow> (s, res_map_err OperationError r)
      | None \<Rightarrow>
          (case commit_ort_environment load_fails commits (ort_dylib_path s) of
             r \<Rightarrow> (s\<lparr>init_ort := Some r, loaded_from := Some (ort_dylib_path s)\<rparr>, res_map_err OperationError r)))"

definition set_ort_dylib_path :: "str option \<Rightarrow> ort_state \<Rightarrow> ort_state \<times> unit ffi_result" where
  "set_ort_dylib_path path_ptr s =
     (case path_ptr of
        None \<Rightarrow> (s, Inl (null_pointer (lit ''path_ptr'')))
      | Some p \<Rightarrow>
          (case ort_dylib_path s of
             Some current \<Rightarrow>
               (s, if current = p then Inr ()
                   else Inl (OPERATION_ERROR, lit ''the onnxruntime path is already set to '' @ quoted current))
           | None \<Rightarrow>
               if init_ort s \<noteq> None then
                 (s, Inl (OPERATION_ERROR,
                   lit ''onnxruntime is already initialized; set its path before loading a voice''))
               else (s\<lparr>ort_dylib_path := Some p\<rparr>, Inr ())))"

definition libdengjenSetOrtDylibPath :: "str option \<Rightarrow> ort_state \<Rightarrow> ort_state \<times> (unit \<times> ffi_error option)" where
  "libdengjenSetOrtDylibPath path_ptr s =
     (case set_ort_dylib_path path_ptr s of (s', r) \<Rightarrow> (s', call_with_result () r))"

text \<open>No error is written exactly if the path is now the one in force.\<close>

lemma set_path_reports:
  "libdengjenSetOrtDylibPath path_ptr s = (s', (), err) \<Longrightarrow>
     err = None \<longleftrightarrow> path_ptr \<noteq> None \<and> ort_dylib_path s' = path_ptr"
  by (auto simp: libdengjenSetOrtDylibPath_def set_ort_dylib_path_def call_with_result_def
      split: option.splits if_splits)

datatype ort_operation = SetPath "str option" | Initialize bool

fun ort_run :: "(path \<Rightarrow> str option) \<Rightarrow> ort_operation list \<Rightarrow> ort_state \<Rightarrow> ort_state" where
  "ort_run lf [] s = s"
| "ort_run lf (SetPath p # ops) s = ort_run lf ops (fst (set_ort_dylib_path p s))"
| "ort_run lf (Initialize b # ops) s = ort_run lf ops (fst (init_ort_environment lf b s))"

definition ort_start :: ort_state where
  "ort_start = \<lparr>ort_dylib_path = None, init_ort = None, loaded_from = None\<rparr>"

definition ort_ok :: "ort_state \<Rightarrow> bool" where
  "ort_ok s \<longleftrightarrow>
     (case loaded_from s of None \<Rightarrow> init_ort s = None | Some p \<Rightarrow> init_ort s \<noteq> None \<and> p = ort_dylib_path s)"

lemma ort_run_ok: "ort_ok s \<Longrightarrow> ort_ok (ort_run lf ops s)"
proof (induction lf ops s rule: ort_run.induct)
  case (2 lf p ops s)
  have "ort_ok (fst (set_ort_dylib_path p s))"
    using 2(2) by (auto simp: ort_ok_def set_ort_dylib_path_def split: option.splits)
  then show ?case using 2(1) by simp
next
  case (3 lf b ops s)
  have "ort_ok (fst (init_ort_environment lf b s))"
    using 3(2) by (auto simp: ort_ok_def init_ort_environment_def Let_def split: option.splits)
  then show ?case using 3(1) by simp
qed simp

lemma ort_path_kept: "ort_dylib_path s = Some p \<Longrightarrow> ort_dylib_path (ort_run lf ops s) = Some p"
  by (induction lf ops s rule: ort_run.induct)
     (auto simp: set_ort_dylib_path_def init_ort_environment_def Let_def split: option.splits)

text \<open>
  Once a call that sets the library path has reported success, every initialization of
  the runtime, before or after later calls of either kind, has loaded that very path, and no later call
  changes it; after an initialization a different path is always refused.
\<close>

theorem reported_path_is_loaded:
  assumes "set_ort_dylib_path (Some p) (ort_run lf ops ort_start) = (s, Inr ())"
  shows "ort_dylib_path (ort_run lf later s) = Some p \<and>
    (loaded_from (ort_run lf later s) = None \<or> loaded_from (ort_run lf later s) = Some (Some p)) \<and>
    (set_ort_dylib_path (Some q) (ort_run lf later s) = (ort_run lf later s, Inr ()) \<longleftrightarrow> q = p)"
proof -
  have ok: "ort_ok (ort_run lf ops ort_start)" by (rule ort_run_ok) (simp add: ort_ok_def ort_start_def)
  then have "ort_ok s" and p: "ort_dylib_path s = Some p"
    using assms by (auto simp: set_ort_dylib_path_def ort_ok_def split: option.splits if_splits)
  with ort_run_ok have "ort_ok (ort_run lf later s)" by blast
  with ort_path_kept [OF p] show ?thesis
    by (auto simp: ort_ok_def set_ort_dylib_path_def split: option.splits)
qed

theorem reported_path_is_loaded_witness:
  "loaded_from (ort_run (\<lambda>_. None) [SetPath (Some (lit ''/b.so'')), Initialize True]
       (fst (set_ort_dylib_path (Some (lit ''/a.so'')) ort_start))) = Some (Some (lit ''/a.so''))"
proof -
  have "set_ort_dylib_path (Some (lit ''/a.so'')) (ort_run (\<lambda>_. None) [] ort_start)
      = (ort_start\<lparr>ort_dylib_path := Some (lit ''/a.so'')\<rparr>, Inr ())"
    by (simp add: set_ort_dylib_path_def ort_start_def)
  from reported_path_is_loaded [OF this, of "[SetPath (Some (lit ''/b.so'')), Initialize True]"]
  show ?thesis
    by (simp add: set_ort_dylib_path_def ort_start_def init_ort_environment_def)
qed

text \<open>The voice loader of the interface: the runtime first, then the path, then the voice.\<close>

definition capi_load_voice ::
  "(path \<Rightarrow> str option) \<Rightarrow> bool \<Rightarrow> (path \<Rightarrow> 'm dengjen_result) \<Rightarrow> str option \<Rightarrow> ort_state \<Rightarrow> ort_state \<times> 'm ffi_result" where
  "capi_load_voice load_fails commits load config_path_ptr s =
     (case init_ort_environment load_fails commits s of
        (s', Inl e) \<Rightarrow> (s', Inl (ffi_error_of e))
      | (s', Inr _) \<Rightarrow>
          (s', res_bind (ok_or invalid_utf8 config_path_ptr) (\<lambda>p. ffi_lift (load p))))"

end
