(* ===== verification/CapiLifecycle.thy ===== *)
theory CapiLifecycle
  imports Capi
begin

section \<open>Nonblocking calls and the unloading of voices\<close>

text \<open>
  The workers of nonblocking calls in \<^verbatim>\<open>crates/frontends/capi/src/lib.rs\<close> (\<^verbatim>\<open>_synthesize\<close>,
  \<^verbatim>\<open>iterate_stream\<close>, \<^verbatim>\<open>InFlight\<close>, the drop of a voice) as a step relation over one process: the pool of
  \<open>P\<close> threads that runs them and the producers of realtime streams, the counters and closing flags
  of the voices, and the unload calls that wait. The guarantee of \<^verbatim>\<open>libdengjenUnloadDengjenVoice\<close> is
  shown in every interleaving, and two ways in which a program can wait forever: callbacks that unload each
  other's voices, and as many realtime calls as the pool has threads. A rayon thread that runs another
  job while it waits for a parallel map is not modelled.
\<close>

subsection \<open>State\<close>

text \<open>
  Where a worker stands between two actions on what it shares. It has got an item (\<open>Holding\<close>) before
  it looks at the closing flag; past that look it builds the event (\<open>Delivering\<close>), and only then calls
  back.
\<close>

datatype phase =
    Queued
  | Running
  | Receiving
  | Holding "samples dengjen_result"
  | Delivering synth_event
  | Calling synth_event
  | Exited

datatype producer = NoProducer | ProducerQueued | Producing | ProducerDone

record job =
  jb_voice :: nat
  jb_realtime :: bool
  jb_fails :: "ffi_error option"
  jb_items :: "samples dengjen_result list"
  jb_phase :: phase
  jb_ready :: nat
  jb_producer :: producer
  jb_cancelled :: bool

text \<open>
  A waiting unload call is the worker whose callback made it, if any, and the voice it unloads. The
  log holds the events in the order in which callbacks began.
\<close>

record process =
  pr_jobs :: "job list"
  pr_running :: "nat \<Rightarrow> nat"
  pr_closing :: "nat set"
  pr_waiting :: "(nat option \<times> nat) list"
  pr_unloaded :: "nat set"
  pr_log :: "(nat \<times> synth_event) list"

definition new_job :: "nat \<Rightarrow> bool \<Rightarrow> ffi_error option \<Rightarrow> samples dengjen_result list \<Rightarrow> job" where
  "new_job v rt fails items =
     \<lparr>jb_voice = v, jb_realtime = rt, jb_fails = fails, jb_items = items, jb_phase = Queued, jb_ready = 0,
      jb_producer = NoProducer, jb_cancelled = False\<rparr>"

text \<open>The threads of the pool that a call keeps busy.\<close>

definition occupies :: "job \<Rightarrow> nat" where
  "occupies j =
     (case jb_phase j of Queued \<Rightarrow> 0 | Exited \<Rightarrow> 0 | _ \<Rightarrow> 1)
     + (if jb_producer j = Producing then 1 else 0)"

definition busy_threads :: "process \<Rightarrow> nat" where
  "busy_threads s = sum_list (map occupies (pr_jobs s))"

definition set_job :: "nat \<Rightarrow> job \<Rightarrow> process \<Rightarrow> process" where
  "set_job w j s = s\<lparr>pr_jobs := (pr_jobs s)[w := j]\<rparr>"

definition enter :: "nat \<Rightarrow> process \<Rightarrow> process" where
  "enter v s = s\<lparr>pr_running := (pr_running s)(v := Suc (pr_running s v))\<rparr>"

definition leave :: "nat \<Rightarrow> process \<Rightarrow> process" where
  "leave v s = s\<lparr>pr_running := (pr_running s)(v := pr_running s v - 1)\<rparr>"

definition call_back :: "nat \<Rightarrow> synth_event \<Rightarrow> job \<Rightarrow> process \<Rightarrow> process" where
  "call_back w ev j s = (set_job w (j\<lparr>jb_phase := Calling ev\<rparr>) s)\<lparr>pr_log := pr_log s @ [(w, ev)]\<rparr>"

definition is_job :: "process \<Rightarrow> nat \<Rightarrow> job \<Rightarrow> bool" where
  "is_job s w j \<longleftrightarrow> w < length (pr_jobs s) \<and> pr_jobs s ! w = j"

subsection \<open>Steps of one call\<close>

text \<open>
  \<^verbatim>\<open>iterate_stream\<close>: the next item, or the end of the stream; then the closing flag, then the item.
\<close>

definition get_item :: "job \<Rightarrow> job" where
  "get_item j =
     (case jb_items j of
        [] \<Rightarrow> j\<lparr>jb_phase := Delivering FinishedEvent\<rparr>
      | item # items \<Rightarrow> j\<lparr>jb_items := items, jb_ready := jb_ready j - 1, jb_phase := Holding item\<rparr>)"

definition handle_item :: "bool \<Rightarrow> samples dengjen_result \<Rightarrow> job \<Rightarrow> job" where
  "handle_item closing item j =
     j\<lparr>jb_phase := Delivering
         (if closing then FinishedEvent
          else case item of
              Inl e \<Rightarrow> ErrorEvent (ffi_error_of e)
            | Inr xs \<Rightarrow> SpeechEvent (as_wave_bytes xs))\<rparr>"

text \<open>A worker starts when a thread is free; a request that cannot be opened is reported at once.\<close>

definition start_job :: "job \<Rightarrow> job" where
  "start_job j =
     (case jb_fails j of
        Some e \<Rightarrow> j\<lparr>jb_phase := Delivering (ErrorEvent e)\<rparr>
      | None \<Rightarrow> j\<lparr>jb_phase := Running,
          jb_producer := (if jb_realtime j then ProducerQueued else NoProducer)\<rparr>)"

text \<open>Only a realtime stream looks at its token and then waits for its producer.\<close>

definition advance :: "job \<Rightarrow> job" where
  "advance j =
     (if \<not> jb_realtime j then get_item j
      else if jb_cancelled j then j\<lparr>jb_phase := Delivering FinishedEvent\<rparr>
      else j\<lparr>jb_phase := Receiving\<rparr>)"

text \<open>
  One atomic action of a call, its producer or whoever cancels it, in a process where a thread is free
  or not and the voice is closing or not.
\<close>

inductive job_step :: "bool \<Rightarrow> bool \<Rightarrow> job \<Rightarrow> job \<Rightarrow> bool" for closing free where
  job_starts: "free \<Longrightarrow> jb_phase j = Queued \<Longrightarrow> job_step closing free j (start_job j)"
| producer_starts: "free \<Longrightarrow> jb_producer j = ProducerQueued \<Longrightarrow>
    job_step closing free j (j\<lparr>jb_producer := Producing\<rparr>)"
| produces: "jb_producer j = Producing \<Longrightarrow> jb_ready j < length (jb_items j) \<Longrightarrow>
    job_step closing free j (j\<lparr>jb_ready := Suc (jb_ready j)\<rparr>)"
| producer_ends: "jb_producer j = Producing \<Longrightarrow>
    jb_ready j = length (jb_items j) \<or> jb_cancelled j \<or> jb_phase j = Exited \<Longrightarrow>
    job_step closing free j (j\<lparr>jb_producer := ProducerDone\<rparr>)"
| advances: "jb_phase j = Running \<Longrightarrow> job_step closing free j (advance j)"
| receives: "jb_phase j = Receiving \<Longrightarrow> 0 < jb_ready j \<Longrightarrow> job_step closing free j (get_item j)"
| disconnects: "jb_phase j = Receiving \<Longrightarrow> jb_ready j = 0 \<Longrightarrow> jb_producer j = ProducerDone \<Longrightarrow>
    job_step closing free j (j\<lparr>jb_phase := Delivering FinishedEvent\<rparr>)"
| checks: "jb_phase j = Holding item \<Longrightarrow> job_step closing free j (handle_item closing item j)"
| cancels: "jb_realtime j \<Longrightarrow> job_step closing free j (j\<lparr>jb_cancelled := True\<rparr>)"

definition callback_returned :: "nat \<Rightarrow> job \<Rightarrow> synth_event \<Rightarrow> nat \<Rightarrow> process \<Rightarrow> process" where
  "callback_returned w j ev code s =
     (if is_speech ev \<and> code = 0 then set_job w (j\<lparr>jb_phase := Running\<rparr>) s
      else leave (jb_voice j) (set_job w (j\<lparr>jb_phase := Exited\<rparr>) s))"

subsection \<open>Steps of the process\<close>

text \<open>
  A voice may be used until a call unloads it, which is the contract of the interface. A callback
  that waits in an unload call does not return.
\<close>

inductive lf_step :: "nat \<Rightarrow> process \<Rightarrow> process \<Rightarrow> bool" for P where
  speak: "v \<notin> pr_closing s \<Longrightarrow>
    lf_step P s ((enter v s)\<lparr>pr_jobs := pr_jobs s @ [new_job v rt fails items]\<rparr>)"
| own_step: "is_job s w j \<Longrightarrow> job_step (jb_voice j \<in> pr_closing s) (busy_threads s < P) j j' \<Longrightarrow>
    lf_step P s (set_job w j' s)"
| delivers: "is_job s w j \<Longrightarrow> jb_phase j = Delivering ev \<Longrightarrow> lf_step P s (call_back w ev j s)"
| returns: "is_job s w j \<Longrightarrow> jb_phase j = Calling ev \<Longrightarrow> Some w \<notin> fst ` set (pr_waiting s) \<Longrightarrow>
    lf_step P s (callback_returned w j ev code s)"
| unload_own: "is_job s w j \<Longrightarrow> jb_phase j = Calling ev \<Longrightarrow> Some w \<notin> fst ` set (pr_waiting s) \<Longrightarrow>
    jb_voice j \<notin> pr_closing s \<Longrightarrow>
    lf_step P s (s\<lparr>pr_closing := insert (jb_voice j) (pr_closing s)\<rparr>)"
| unload_begins: "caller = None \<or>
      (\<exists>w j ev. caller = Some w \<and> is_job s w j \<and> jb_phase j = Calling ev \<and> jb_voice j \<noteq> v \<and>
         Some w \<notin> fst ` set (pr_waiting s)) \<Longrightarrow> v \<notin> pr_closing s \<Longrightarrow>
    lf_step P s (s\<lparr>pr_closing := insert v (pr_closing s), pr_waiting := (caller, v) # pr_waiting s\<rparr>)"
| unload_returns: "pr_waiting s = before @ (caller, v) # after \<Longrightarrow> pr_running s v = 0 \<Longrightarrow>
    lf_step P s (s\<lparr>pr_waiting := before @ after, pr_unloaded := insert v (pr_unloaded s)\<rparr>)"

inductive_cases job_stepE: "job_step closing free j j'"

definition process_start :: process where
  "process_start = \<lparr>pr_jobs = [], pr_running = (\<lambda>_. 0), pr_closing = {}, pr_waiting = [], pr_unloaded = {}, pr_log = []\<rparr>"

subsection \<open>The counters count\<close>

definition job_sum :: "(job \<Rightarrow> nat) \<Rightarrow> process \<Rightarrow> nat" where
  "job_sum f s = sum_list (map f (pr_jobs s))"

definition in_flight :: "nat \<Rightarrow> job \<Rightarrow> nat" where
  "in_flight v j = (if jb_voice j = v \<and> jb_phase j \<noteq> Exited then 1 else 0)"

lemma busy_job_sum: "busy_threads s = job_sum occupies s"
  by (simp add: busy_threads_def job_sum_def)

lemma process_upd [simp]:
  "pr_running (set_job w j s) = pr_running s" "pr_closing (set_job w j s) = pr_closing s"
  "pr_waiting (set_job w j s) = pr_waiting s" "pr_unloaded (set_job w j s) = pr_unloaded s"
  "pr_log (set_job w j s) = pr_log s" "pr_jobs (set_job w j s) = (pr_jobs s)[w := j]"
  "pr_jobs (enter v s) = pr_jobs s" "pr_closing (enter v s) = pr_closing s" "pr_waiting (enter v s) = pr_waiting s"
  "pr_unloaded (enter v s) = pr_unloaded s" "pr_log (enter v s) = pr_log s"
  "pr_jobs (leave v s) = pr_jobs s" "pr_closing (leave v s) = pr_closing s" "pr_waiting (leave v s) = pr_waiting s"
  "pr_unloaded (leave v s) = pr_unloaded s" "pr_log (leave v s) = pr_log s"
  by (simp_all add: set_job_def enter_def leave_def)

lemma call_back_upd [simp]:
  "pr_running (call_back w ev j s) = pr_running s" "pr_closing (call_back w ev j s) = pr_closing s"
  "pr_waiting (call_back w ev j s) = pr_waiting s" "pr_unloaded (call_back w ev j s) = pr_unloaded s"
  "pr_log (call_back w ev j s) = pr_log s @ [(w, ev)]"
  "pr_jobs (call_back w ev j s) = (pr_jobs s)[w := j\<lparr>jb_phase := Calling ev\<rparr>]"
  by (simp_all add: call_back_def)

lemma job_sum_update:
  assumes "is_job s w j" "pr_jobs s' = (pr_jobs s)[w := j']"
  shows "job_sum f s' + f j = job_sum f s + f j'"
proof -
  have w: "w < length (map f (pr_jobs s))" and j: "map f (pr_jobs s) ! w = f j"
    using assms(1) by (auto simp: is_job_def)
  have "f j \<le> sum_list (map f (pr_jobs s))" using elem_le_sum_list [OF w] j by simp
  then show ?thesis
    using sum_list_update [OF w, of "f j'"] j by (simp add: job_sum_def assms(2) map_update)
qed

lemma in_flight_witness: "is_job s w j \<Longrightarrow> jb_phase j \<noteq> Exited \<Longrightarrow> 0 < job_sum (in_flight (jb_voice j)) s"
proof -
  assume j: "is_job s w j" "jb_phase j \<noteq> Exited"
  then have "w < length (map (in_flight (jb_voice j)) (pr_jobs s))"
    "map (in_flight (jb_voice j)) (pr_jobs s) ! w = 1"
    by (auto simp: is_job_def in_flight_def)
  from elem_le_sum_list [OF this(1)] this(2) show ?thesis by (simp add: job_sum_def)
qed

text \<open>Every step of a worker changes one job, which keeps its voice.\<close>

definition changes_job :: "nat \<Rightarrow> job \<Rightarrow> job \<Rightarrow> process \<Rightarrow> process \<Rightarrow> bool" where
  "changes_job w j j' s s' \<longleftrightarrow> is_job s w j \<and> pr_jobs s' = (pr_jobs s)[w := j'] \<and> jb_voice j' = jb_voice j \<and>
     pr_closing s' = pr_closing s \<and> pr_waiting s' = pr_waiting s \<and> pr_unloaded s' = pr_unloaded s"

lemma set_job_changes_job:
  "is_job s w j \<Longrightarrow> jb_voice j' = jb_voice j \<Longrightarrow> changes_job w j j' s (set_job w j' s)"
  by (simp add: changes_job_def)

lemma call_back_changes_job:
  "is_job s w j \<Longrightarrow> changes_job w j (j\<lparr>jb_phase := Calling ev\<rparr>) s (call_back w ev j s)"
  by (simp add: changes_job_def)

lemma get_item_keeps [simp]:
  "jb_voice (get_item j) = jb_voice j" "jb_realtime (get_item j) = jb_realtime j"
  "jb_producer (get_item j) = jb_producer j"
  "jb_phase (get_item j) = (case jb_items j of [] \<Rightarrow> Delivering FinishedEvent | item # _ \<Rightarrow> Holding item)"
  by (simp_all add: get_item_def split: list.split)

lemmas job_action_defs = start_job_def advance_def handle_item_def

lemma job_step_voice: "job_step c f j j' \<Longrightarrow> jb_voice j' = jb_voice j"
  by (induction rule: job_step.induct) (auto simp: job_action_defs split: option.split)

lemma job_step_exited: "job_step c f j j' \<Longrightarrow> jb_phase j' = Exited \<longleftrightarrow> jb_phase j = Exited"
  by (induction rule: job_step.induct) (auto simp: job_action_defs split: option.split list.split)

lemma job_step_calling: "job_step c f j j' \<Longrightarrow> jb_phase j' = Calling ev \<longleftrightarrow> jb_phase j = Calling ev"
  by (induction rule: job_step.induct) (auto simp: job_action_defs split: option.split list.split)

lemma job_step_occupies: "job_step c f j j' \<Longrightarrow> occupies j' \<le> occupies j + (if f then 1 else 0)"
  by (induction rule: job_step.induct)
     (auto simp: job_action_defs occupies_def split: option.split list.split)

definition lf_ok :: "nat \<Rightarrow> process \<Rightarrow> bool" where
  "lf_ok P s \<longleftrightarrow>
     (\<forall>v. pr_running s v = job_sum (in_flight v) s) \<and>
     (\<forall>v \<in> pr_unloaded s. v \<in> pr_closing s \<and> pr_running s v = 0) \<and>
     (\<forall>cv \<in> set (pr_waiting s). snd cv \<in> pr_closing s) \<and>
     busy_threads s \<le> P"

lemma lf_ok_job_change:
  assumes "changes_job w j j' s s'" "lf_ok P s" "pr_running s' = pr_running s"
    "jb_phase j \<noteq> Exited \<longleftrightarrow> jb_phase j' \<noteq> Exited" "busy_threads s + occupies j' \<le> P + occupies j"
  shows "lf_ok P s'"
proof -
  have j: "is_job s w j" and jobs: "pr_jobs s' = (pr_jobs s)[w := j']" and v: "jb_voice j' = jb_voice j"
    and rest: "pr_closing s' = pr_closing s" "pr_waiting s' = pr_waiting s" "pr_unloaded s' = pr_unloaded s"
    using assms(1) by (auto simp: changes_job_def)
  have "in_flight u j' = in_flight u j" for u using v assms(4) by (simp add: in_flight_def)
  then have sums: "job_sum (in_flight u) s' = job_sum (in_flight u) s" for u
    using job_sum_update [OF j jobs, of "in_flight u"] by simp
  have busy: "busy_threads s' \<le> P"
    using job_sum_update [OF j jobs, of occupies] assms(5) by (simp add: busy_job_sum)
  show ?thesis using assms(2) busy unfolding lf_ok_def assms(3) rest sums by blast
qed

lemma lf_ok_step:
  assumes "lf_step P s s'" "lf_ok P s"
  shows "lf_ok P s'"
  using assms(1)
proof cases
  case (speak v rt fails items)
  let ?j = "new_job v rt fails items"
  have "in_flight u ?j = (if u = v then 1 else 0)" for u by (simp add: in_flight_def new_job_def)
  moreover have "occupies ?j = 0" by (simp add: occupies_def new_job_def)
  ultimately show ?thesis
    using assms(2) speak by (auto simp: lf_ok_def job_sum_def busy_job_sum enter_def)
next
  case (own_step w j j')
  note j = job_step_voice [OF own_step(3)] job_step_exited [OF own_step(3)] job_step_occupies [OF own_step(3)]
  have "changes_job w j j' s s'" using own_step j by (simp add: changes_job_def)
  then show ?thesis
    by (rule lf_ok_job_change [OF _ assms(2)])
       (use own_step(1) j assms(2) in \<open>auto simp: lf_ok_def split: if_splits\<close>)
next
  case (delivers w j ev)
  have "changes_job w j (j\<lparr>jb_phase := Calling ev\<rparr>) s s'"
    using delivers by (simp add: call_back_changes_job)
  then show ?thesis
    by (rule lf_ok_job_change [OF _ assms(2)])
       (use delivers assms(2) in \<open>auto simp: occupies_def lf_ok_def\<close>)
next
  case (returns w j ev code)
  show ?thesis
  proof (cases "is_speech ev \<and> code = 0")
    case True
    have "changes_job w j (j\<lparr>jb_phase := Running\<rparr>) s s'"
      using returns True by (simp add: changes_job_def callback_returned_def)
    then show ?thesis
      by (rule lf_ok_job_change [OF _ assms(2)])
         (use returns True assms(2) in \<open>auto simp: callback_returned_def occupies_def lf_ok_def\<close>)
  next
    case False
    let ?j = "j\<lparr>jb_phase := Exited\<rparr>"
    have s': "s' = leave (jb_voice j) (set_job w ?j s)" using returns(1) False by (simp add: callback_returned_def)
    note sums = job_sum_update [of s w j s' ?j, OF returns(2)]
    have "job_sum (in_flight u) s' + in_flight u j = job_sum (in_flight u) s" for u
      using sums [of "in_flight u"] by (simp add: s' in_flight_def)
    moreover have "in_flight u j = (if u = jb_voice j then 1 else 0)" for u
      using returns(3) by (simp add: in_flight_def)
    ultimately have count: "job_sum (in_flight u) s' = job_sum (in_flight u) s - (if u = jb_voice j then 1 else 0)" for u
      by (metis add_diff_cancel_right')
    have busy: "busy_threads s' \<le> busy_threads s"
      using sums [of occupies] returns(3) by (simp add: s' busy_job_sum occupies_def)
    have "pr_running s' u = job_sum (in_flight u) s'" for u
      using assms(2) count [of u] by (simp add: s' leave_def lf_ok_def)
    moreover have "pr_running s' u = 0" if "u \<in> pr_unloaded s" for u
    proof -
      have "pr_running s u = 0" using assms(2) that unfolding lf_ok_def by blast
      then show ?thesis by (auto simp: s' leave_def set_job_def)
    qed
    ultimately show ?thesis using assms(2) busy by (auto simp: lf_ok_def s')
  qed
next
  case (unload_own w j ev)
  then show ?thesis using assms(2) by (auto simp: lf_ok_def job_sum_def busy_threads_def)
next
  case (unload_begins caller v)
  then show ?thesis using assms(2) by (auto simp: lf_ok_def job_sum_def busy_threads_def)
next
  case (unload_returns before caller v after)
  then show ?thesis using assms(2) by (auto simp: lf_ok_def job_sum_def busy_threads_def)
qed

lemma lf_ok_reachable:
  "(lf_step P)\<^sup>*\<^sup>* s s' \<Longrightarrow> lf_ok P s \<Longrightarrow> lf_ok P s'"
  by (induction rule: rtranclp_induct) (auto intro: lf_ok_step)

lemma lf_ok_start: "lf_ok P process_start"
  by (simp add: lf_ok_def process_start_def job_sum_def busy_threads_def)

subsection \<open>The guarantee of unloading\<close>

lemma closing_kept: "lf_step P s s' \<Longrightarrow> pr_closing s \<subseteq> pr_closing s'"
  by (induction rule: lf_step.induct) (auto simp: callback_returned_def)

lemma unloaded_kept: "lf_step P s s' \<Longrightarrow> pr_unloaded s \<subseteq> pr_unloaded s'"
  by (induction rule: lf_step.induct) (auto simp: callback_returned_def)

lemma kept_reachable: "(lf_step P)\<^sup>*\<^sup>* s s' \<Longrightarrow> pr_closing s \<subseteq> pr_closing s' \<and> pr_unloaded s \<subseteq> pr_unloaded s'"
  by (induction rule: rtranclp_induct) (auto dest: closing_kept unloaded_kept)

definition voice_silent :: "nat \<Rightarrow> process \<Rightarrow> bool" where
  "voice_silent v s = list_all (\<lambda>j. jb_voice j = v \<longrightarrow> jb_phase j = Exited) (pr_jobs s)"

lemma no_flight_silent: "job_sum (in_flight v) s = 0 \<Longrightarrow> voice_silent v s"
proof -
  assume "job_sum (in_flight v) s = 0"
  then have zero: "in_flight v j = 0" if "j \<in> set (pr_jobs s)" for j
    using that by (simp add: job_sum_def)
  have "jb_voice j = v \<longrightarrow> jb_phase j = Exited" if "j \<in> set (pr_jobs s)" for j
    using zero [OF that] by (simp add: in_flight_def split: if_splits)
  then show ?thesis by (simp add: voice_silent_def list_all_iff)
qed

lemma unloaded_silent:
  assumes "(lf_step P)\<^sup>*\<^sup>* process_start s" "v \<in> pr_unloaded s"
  shows "voice_silent v s"
proof (rule no_flight_silent)
  have "lf_ok P s" by (rule lf_ok_reachable [OF assms(1) lf_ok_start])
  with assms(2) show "job_sum (in_flight v) s = 0" unfolding lf_ok_def by metis
qed

text \<open>
  \<^bold>\<open>C13\<close>: once an unload call made outside the callbacks of a voice has returned, no worker of that
  voice is running a callback, and none ever will: from then on all of its workers have ended, in
  every interleaving of calls, cancellations and unloads on all voices.
\<close>

theorem no_callback_after_unload:
  assumes "(lf_step P)\<^sup>*\<^sup>* process_start s" "v \<in> pr_unloaded s" "(lf_step P)\<^sup>*\<^sup>* s s'"
  shows "voice_silent v s'"
  using unloaded_silent [OF rtranclp_trans [OF assms(1,3)]] assms(2) kept_reachable [OF assms(3)] by blast

subsection \<open>After the closing flag\<close>

text \<open>What a worker may still deliver once its voice is closing, by where it stands.\<close>

definition at_most_one_last :: "synth_event list \<Rightarrow> bool" where
  "at_most_one_last new \<longleftrightarrow> length new \<le> 1 \<and> list_all (\<lambda>ev. \<not> is_speech ev) new"

definition may_follow :: "synth_event \<Rightarrow> synth_event list \<Rightarrow> bool" where
  "may_follow ev new = (if is_speech ev then at_most_one_last new else new = [])"

fun may_deliver :: "phase \<Rightarrow> synth_event list \<Rightarrow> bool" where
  "may_deliver (Delivering ev) new = (case new of [] \<Rightarrow> True | e # rest \<Rightarrow> e = ev \<and> may_follow ev rest)"
| "may_deliver (Calling ev) new = may_follow ev new"
| "may_deliver Exited new = (new = [])"
| "may_deliver _ new = at_most_one_last new"

definition events_of :: "nat \<Rightarrow> process \<Rightarrow> synth_event list" where
  "events_of w s = map snd (filter (\<lambda>e. fst e = w) (pr_log s))"

lemma is_speech_simps [simp]:
  "is_speech (SpeechEvent bytes)" "\<not> is_speech (ErrorEvent e)" "\<not> is_speech FinishedEvent"
  by (simp_all add: is_speech_def)

lemma may_deliver_nothing [simp]: "may_deliver ph []"
  by (cases ph) (simp_all add: may_follow_def at_most_one_last_def)

lemma may_deliver_last [simp]:
  "may_deliver (Delivering FinishedEvent) new \<Longrightarrow> at_most_one_last new"
  "may_deliver (Delivering (ErrorEvent e)) new \<Longrightarrow> at_most_one_last new"
  by (auto simp: may_follow_def at_most_one_last_def split: list.splits)

lemma job_step_closing:
  "job_step True f j j' \<Longrightarrow> may_deliver (jb_phase j') new \<Longrightarrow> may_deliver (jb_phase j) new"
  by (induction rule: job_step.induct)
     (auto simp: job_action_defs split: option.splits list.splits if_splits
       simp del: may_deliver.simps(1))

text \<open>The events of a worker between two states, and what it may deliver after them.\<close>

definition delivers_between :: "nat \<Rightarrow> job \<Rightarrow> process \<Rightarrow> process \<Rightarrow> bool" where
  "delivers_between w j s s' \<longleftrightarrow>
     (\<exists>j' new. is_job s' w j' \<and> jb_voice j' = jb_voice j \<and> events_of w s' = events_of w s @ new \<and>
        (\<forall>later. may_deliver (jb_phase j') later \<longrightarrow> may_deliver (jb_phase j) (new @ later)))"

lemma delivers_betweenI:
  assumes "is_job s w j" "pr_jobs s' = (pr_jobs s)[u := i']" "is_job s u i" "jb_voice i' = jb_voice i"
    "pr_log s' = pr_log s @ map (Pair u) new"
    "\<And>later. may_deliver (jb_phase i') later \<Longrightarrow> may_deliver (jb_phase i) (new @ later)"
  shows "delivers_between w j s s'"
proof (cases "u = w")
  case True
  with assms(1,3) have "i = j" by (simp add: is_job_def)
  moreover have "filter (\<lambda>e. fst e = w) (map (Pair w) new) = map (Pair w) new"
    by (simp add: filter_map comp_def)
  then have "events_of w s' = events_of w s @ new" using assms(5) True by (simp add: events_of_def comp_def)
  ultimately show ?thesis
    using assms True unfolding delivers_between_def
    by (intro exI [of _ i'] exI [of _ new]) (simp add: is_job_def)
next
  case False
  have "filter (\<lambda>e. fst e = w) (map (Pair u) new) = []" using False by (simp add: filter_map comp_def)
  then have "events_of w s' = events_of w s" using assms(5) by (simp add: events_of_def)
  with assms False show ?thesis
    unfolding delivers_between_def by (intro exI [of _ j] exI [of _ "[]"]) (simp add: is_job_def)
qed

lemma delivers_between_idle:
  "is_job s w j \<Longrightarrow> is_job s' w j \<Longrightarrow> pr_log s' = pr_log s \<Longrightarrow> delivers_between w j s s'"
  unfolding delivers_between_def by (intro exI [of _ j] exI [of _ "[]"]) (simp add: events_of_def)

lemma closing_step:
  assumes "lf_step P s s'" "is_job s w j" "jb_voice j \<in> pr_closing s"
  shows "delivers_between w j s s'"
  using assms(1)
proof cases
  case (speak u rt fails items)
  then show ?thesis
    using assms(2) by (intro delivers_between_idle) (auto simp: is_job_def nth_append)
next
  case (own_step u i i')
  show ?thesis
  proof (cases "u = w")
    case True
    then have "i = j" using own_step(2) assms(2) by (simp add: is_job_def)
    with own_step assms True show ?thesis
      by (intro delivers_betweenI [OF assms(2), of s' u i' i "[]"])
         (auto simp: job_step_voice intro: job_step_closing)
  next
    case False
    with own_step assms(2) show ?thesis by (intro delivers_between_idle) (simp_all add: is_job_def)
  qed
next
  case (delivers u i ev)
  then show ?thesis
    by (intro delivers_betweenI [OF assms(2), of s' u "i\<lparr>jb_phase := Calling ev\<rparr>" i "[ev]"]) simp_all
next
  case (returns u i ev code)
  show ?thesis
  proof (cases "is_speech ev \<and> code = 0")
    case True
    with returns show ?thesis
      by (intro delivers_betweenI [OF assms(2), of s' u "i\<lparr>jb_phase := Running\<rparr>" i "[]"])
         (simp_all add: callback_returned_def may_follow_def)
  next
    case False
    with returns show ?thesis
      by (intro delivers_betweenI [OF assms(2), of s' u "i\<lparr>jb_phase := Exited\<rparr>" i "[]"])
         (auto simp: callback_returned_def may_follow_def at_most_one_last_def)
  qed
qed (use assms(2) in \<open>auto intro!: delivers_between_idle simp: is_job_def\<close>)

lemma closing_reachable:
  assumes "(lf_step P)\<^sup>*\<^sup>* s s'" "is_job s w j" "jb_voice j \<in> pr_closing s"
  shows "delivers_between w j s s' \<and> jb_voice j \<in> pr_closing s'"
  using assms(1)
proof (induction rule: rtranclp_induct)
  case base
  then show ?case using assms(2,3) by (simp add: delivers_between_idle)
next
  case (step y z)
  then obtain i new where i: "is_job y w i" "jb_voice i = jb_voice j" "events_of w y = events_of w s @ new"
    "\<And>later. may_deliver (jb_phase i) later \<Longrightarrow> may_deliver (jb_phase j) (new @ later)"
    by (auto simp: delivers_between_def)
  with closing_step [OF step(2) i(1)] step obtain k more where
    "is_job z w k" "jb_voice k = jb_voice i" "events_of w z = events_of w y @ more"
    "\<And>later. may_deliver (jb_phase k) later \<Longrightarrow> may_deliver (jb_phase i) (more @ later)"
    by (auto simp: delivers_between_def)
  with i have "delivers_between w j s z"
    unfolding delivers_between_def by (intro exI [of _ k] exI [of _ "new @ more"]) simp
  moreover have "jb_voice j \<in> pr_closing z" using step closing_kept by blast
  ultimately show ?case ..
qed

lemma may_deliver_forms:
  "may_deliver ph new \<Longrightarrow> at_most_one_last new \<or>
     (\<exists>bytes final. ph = Delivering (SpeechEvent bytes) \<and> new = SpeechEvent bytes # final \<and> at_most_one_last final)"
proof (cases ph)
  case (Delivering ev)
  assume "may_deliver ph new"
  with Delivering show ?thesis
    by (cases ev; cases new) (auto simp: may_follow_def at_most_one_last_def)
qed (auto simp: may_follow_def at_most_one_last_def split: if_splits)

text \<open>
  \<^bold>\<open>C20\<close>: once a voice is being unloaded, by whomever, each of its workers delivers at most one more
  event, which is not speech. The only exception is a worker that had already looked at the closing
  flag and was building a speech event: it delivers that event first. So also a callback that unloads its
  own voice, which does not wait, is called for no more audio of its call, and at most once more.
\<close>

theorem at_most_one_event_after_closing:
  assumes "is_job s w j" "jb_voice j \<in> pr_closing s" "(lf_step P)\<^sup>*\<^sup>* s s'"
  shows "\<exists>new final. events_of w s' = events_of w s @ new \<and>
    (new = final \<or> (\<exists>bytes. jb_phase j = Delivering (SpeechEvent bytes) \<and> new = SpeechEvent bytes # final)) \<and>
    length final \<le> 1 \<and> list_all (\<lambda>ev. \<not> is_speech ev) final"
proof -
  from closing_reachable [OF assms(3,1,2)] obtain j' :: job and new where new: "events_of w s' = events_of w s @ new"
    "\<forall>later. may_deliver (jb_phase j') later \<longrightarrow> may_deliver (jb_phase j) (new @ later)"
    unfolding delivers_between_def by blast
  from new(2) [rule_format, of "[]"] have "may_deliver (jb_phase j) new" by simp
  from may_deliver_forms [OF this] new(1) show ?thesis by (auto simp: at_most_one_last_def)
qed

lemma reach_step: "(lf_step P)\<^sup>*\<^sup>* s t \<Longrightarrow> lf_step P t u \<Longrightarrow> (lf_step P)\<^sup>*\<^sup>* s u"
  by (rule rtranclp.rtrancl_into_rtrancl)

text \<open>A request that could not be opened, reported, and its voice unloaded.\<close>

definition failed_job :: job where
  "failed_job = (new_job 0 False (Some invalid_utf8) [])\<lparr>jb_phase := Exited\<rparr>"

definition failed_then_unloaded :: process where
  "failed_then_unloaded = \<lparr>pr_jobs = [failed_job], pr_running = (\<lambda>_. 0), pr_closing = {0}, pr_waiting = [],
     pr_unloaded = {0}, pr_log = [(0, ErrorEvent invalid_utf8)]\<rparr>"

lemma failed_then_unloaded_reachable: "(lf_step 4)\<^sup>*\<^sup>* process_start failed_then_unloaded"
proof -
  let ?q = "new_job 0 False (Some invalid_utf8) []"
  let ?d = "?q\<lparr>jb_phase := Delivering (ErrorEvent invalid_utf8)\<rparr>"
  let ?c = "?q\<lparr>jb_phase := Calling (ErrorEvent invalid_utf8)\<rparr>"
  let ?s1 = "\<lparr>pr_jobs = [?q], pr_running = (\<lambda>_. 0)(0 := 1), pr_closing = {}, pr_waiting = [], pr_unloaded = {}, pr_log = []\<rparr>"
  let ?s2 = "?s1\<lparr>pr_jobs := [?d]\<rparr>"
  let ?s3 = "?s1\<lparr>pr_jobs := [?c], pr_log := [(0, ErrorEvent invalid_utf8)]\<rparr>"
  let ?s4 = "?s3\<lparr>pr_jobs := [failed_job], pr_running := (\<lambda>_. 0)\<rparr>"
  let ?s5 = "?s4\<lparr>pr_closing := {0}, pr_waiting := [(None, 0)]\<rparr>"
  have j1: "is_job ?s1 0 ?q" and j2: "is_job ?s2 0 ?d" and j3: "is_job ?s3 0 ?c" by (simp_all add: is_job_def)
  have "lf_step 4 process_start ?s1"
    using lf_step.speak [of 0 process_start 4 False "Some invalid_utf8" "[]"] by (simp add: process_start_def enter_def)
  moreover have "job_step False True ?q ?d"
    using job_step.job_starts [of True ?q False] by (simp add: start_job_def new_job_def)
  then have "lf_step 4 ?s1 ?s2"
    using lf_step.own_step [OF j1, of 4 ?d]
    by (simp add: set_job_def new_job_def busy_threads_def occupies_def)
  moreover have "lf_step 4 ?s2 ?s3"
    using lf_step.delivers [OF j2, of "ErrorEvent invalid_utf8" 4]
    by (simp add: call_back_def set_job_def)
  moreover have "lf_step 4 ?s3 ?s4"
    using lf_step.returns [OF j3, of "ErrorEvent invalid_utf8" 4 0]
    by (simp add: callback_returned_def leave_def set_job_def failed_job_def new_job_def fun_upd_idem)
  moreover have "lf_step 4 ?s4 ?s5"
    using lf_step.unload_begins [of None ?s4 0 4] by simp
  moreover have "lf_step 4 ?s5 failed_then_unloaded"
    using lf_step.unload_returns [of ?s5 "[]" None 0 "[]" 4] by (simp add: failed_then_unloaded_def)
  ultimately show ?thesis by (meson reach_step rtranclp.rtrancl_refl)
qed

theorem no_callback_after_unload_witness:
  "voice_silent 0 failed_then_unloaded \<and> 0 \<in> pr_unloaded failed_then_unloaded"
  using no_callback_after_unload [OF failed_then_unloaded_reachable, of 0 failed_then_unloaded]
  by (simp add: failed_then_unloaded_def)

text \<open>A worker past its look at the flag when the voice began to close, and the same one calling back.\<close>

definition about_to_speak :: process where
  "about_to_speak = \<lparr>pr_jobs = [(new_job 0 False None [])\<lparr>jb_phase := Delivering (SpeechEvent [])\<rparr>],
     pr_running = (\<lambda>_. 0)(0 := 1), pr_closing = {0}, pr_waiting = [(None, 0)], pr_unloaded = {}, pr_log = []\<rparr>"

lemma spoke_after_closing:
  "(lf_step 4)\<^sup>*\<^sup>* about_to_speak (call_back 0 (SpeechEvent []) (pr_jobs about_to_speak ! 0) about_to_speak)"
  by (intro r_into_rtranclp lf_step.delivers) (simp_all add: about_to_speak_def is_job_def)

theorem at_most_one_event_after_closing_witness:
  "\<exists>new final. events_of 0 (call_back 0 (SpeechEvent []) (pr_jobs about_to_speak ! 0) about_to_speak)
       = events_of 0 about_to_speak @ new \<and>
     (new = final \<or> new = SpeechEvent [] # final) \<and> length final \<le> 1 \<and> list_all (\<lambda>ev. \<not> is_speech ev) final"
  using at_most_one_event_after_closing [OF _ _ spoke_after_closing, of 0 "pr_jobs about_to_speak ! 0"]
  by (auto simp: about_to_speak_def is_job_def new_job_def)

subsection \<open>Too many realtime calls\<close>

text \<open>A worker that waits for a producer which has no thread.\<close>

definition starving :: "nat \<Rightarrow> job \<Rightarrow> bool" where
  "starving v j \<longleftrightarrow> jb_voice j = v \<and> jb_phase j = Receiving \<and> jb_realtime j \<and> jb_ready j = 0 \<and> jb_producer j = ProducerQueued"

definition pool_starved :: "nat \<Rightarrow> nat \<Rightarrow> process \<Rightarrow> bool" where
  "pool_starved v P s \<longleftrightarrow> P \<le> length (pr_jobs s) \<and> list_all (starving v) (take P (pr_jobs s))"

lemma starved_busy: "pool_starved v P s \<Longrightarrow> P \<le> busy_threads s"
proof -
  assume s: "pool_starved v P s"
  have "length xs \<le> sum_list (map occupies xs)" if "list_all (starving v) xs" for xs
    using that by (induction xs) (auto simp: starving_def occupies_def)
  from this [of "take P (pr_jobs s)"] s have "P \<le> sum_list (map occupies (take P (pr_jobs s)))"
    by (simp add: pool_starved_def)
  also have "\<dots> \<le> sum_list (map occupies (take P (pr_jobs s) @ drop P (pr_jobs s)))" by (simp only: map_append sum_list_append le_add1)
  finally show ?thesis by (simp add: busy_threads_def)
qed

lemma starved_job: "pool_starved v P s \<Longrightarrow> w < P \<Longrightarrow> is_job s w j \<Longrightarrow> starving v j"
  by (auto simp: pool_starved_def is_job_def list_all_length)

lemma starved_update:
  assumes "pool_starved v P s" "pr_jobs s' = (pr_jobs s)[w := j']" "w < P \<Longrightarrow> starving v j'"
  shows "pool_starved v P s'"
  using assms by (cases "w < length (pr_jobs s)") (auto simp: pool_starved_def list_all_length nth_list_update)

lemma starving_step: "job_step c False j j' \<Longrightarrow> starving v j \<Longrightarrow> starving v j'"
  by (induction rule: job_step.induct) (simp_all add: starving_def)

lemma starved_step:
  assumes "lf_step P s s'" "pool_starved v P s"
  shows "pool_starved v P s'"
  using assms(1)
proof cases
  case (speak v rt fails items)
  then show ?thesis using assms(2) by (simp add: pool_starved_def)
next
  case (own_step w j j')
  then have "job_step (jb_voice j \<in> pr_closing s) False j j'" using starved_busy [OF assms(2)] by simp
  with own_step starved_job [OF assms(2) _ own_step(2)] show ?thesis
    by (intro starved_update [OF assms(2), of s' w j']) (auto intro: starving_step)
next
  case (delivers w j ev)
  then have "\<not> starving v j" by (simp add: starving_def)
  with starved_job [OF assms(2) _ delivers(2)] show ?thesis
    by (intro starved_update [OF assms(2)]) (auto simp: delivers(1))
next
  case (returns w j ev code)
  then have "\<not> starving v j" by (simp add: starving_def)
  with starved_job [OF assms(2) _ returns(2)] have w: "\<not> w < P" by blast
  then show ?thesis
    unfolding returns(1) callback_returned_def using starved_update [OF assms(2)] by simp
qed (use assms(2) in \<open>auto simp: pool_starved_def\<close>)

definition starving_job :: "nat \<Rightarrow> samples dengjen_result list \<Rightarrow> job" where
  "starving_job v items = (new_job v True None items)\<lparr>jb_phase := Receiving, jb_producer := ProducerQueued\<rparr>"

definition k_starving :: "nat \<Rightarrow> samples dengjen_result list \<Rightarrow> nat \<Rightarrow> process" where
  "k_starving v items k = \<lparr>pr_jobs = replicate k (starving_job v items), pr_running = (\<lambda>_. 0)(v := k), pr_closing = {},
     pr_waiting = [], pr_unloaded = {}, pr_log = []\<rparr>"

lemma k_starving_reachable: "k \<le> P \<Longrightarrow> (lf_step P)\<^sup>*\<^sup>* process_start (k_starving v items k)"
proof (induction k)
  case 0
  have "k_starving v items 0 = process_start" by (simp add: k_starving_def process_start_def fun_upd_idem)
  then show ?case by simp
next
  case (Suc k)
  let ?s = "k_starving v items k" and ?q = "new_job v True None items"
  let ?r = "?q\<lparr>jb_phase := Running, jb_producer := ProducerQueued\<rparr>"
  let ?s1 = "?s\<lparr>pr_jobs := pr_jobs ?s @ [?q], pr_running := (\<lambda>_. 0)(v := Suc k)\<rparr>"
  let ?s2 = "?s1\<lparr>pr_jobs := pr_jobs ?s @ [?r]\<rparr>"
  have j1: "is_job ?s1 k ?q" and j2: "is_job ?s2 k ?r" by (simp_all add: is_job_def k_starving_def nth_append)
  have "busy_threads ?s1 = k"
    by (simp add: busy_threads_def k_starving_def starving_job_def new_job_def occupies_def sum_list_replicate)
  then have free: "busy_threads ?s1 < P" using Suc.prems by simp
  have upd: "(replicate k x @ [y])[k := z] = replicate k x @ [z]" for x y z :: job
    by (simp add: list_update_append)
  have "lf_step P ?s ?s1"
    using lf_step.speak [of v ?s P True None items] by (simp add: enter_def k_starving_def)
  moreover have "job_step False True ?q ?r"
    using job_step.job_starts [of True ?q False] by (simp add: start_job_def new_job_def)
  then have "lf_step P ?s1 ?s2"
    using lf_step.own_step [OF j1, of P ?r] free by (simp add: set_job_def k_starving_def upd)
  moreover have "job_step False f ?r (starving_job v items)" for f
    using job_step.advances [of ?r False f] by (simp add: advance_def new_job_def starving_job_def)
  then have "lf_step P ?s2 (k_starving v items (Suc k))"
    using lf_step.own_step [OF j2, of P "starving_job v items"]
    by (simp add: set_job_def k_starving_def upd replicate_append_same flip: replicate_Suc)
  ultimately show ?case using Suc by (meson reach_step Suc_leD)
qed

text \<open>
  \<^bold>\<open>C18\<close>: a program that has as many nonblocking realtime calls in flight as the pool has threads can
  reach a state from which none of them ever delivers an event again, whatever it cancels, and from
  which unloading their voice never returns: every thread waits for a producer that waits for a thread.
\<close>

theorem realtime_calls_can_starve:
  assumes "0 < P"
  shows "\<exists>s. (lf_step P)\<^sup>*\<^sup>* process_start s \<and> length (pr_jobs s) = P \<and> pr_log s = [] \<and>
    list_all (\<lambda>j. jb_voice j = v \<and> jb_items j = items) (pr_jobs s) \<and>
    (\<nexists>s'. (lf_step P)\<^sup>*\<^sup>* s s' \<and> (v \<in> pr_unloaded s' \<or> \<not> list_all (starving v) (take P (pr_jobs s'))))"
proof (intro exI conjI notI)
  let ?s = "k_starving v items P"
  show reach: "(lf_step P)\<^sup>*\<^sup>* process_start ?s" by (rule k_starving_reachable) simp
  show "length (pr_jobs ?s) = P" "pr_log ?s = []" by (simp_all add: k_starving_def)
  show "list_all (\<lambda>j. jb_voice j = v \<and> jb_items j = items) (pr_jobs ?s)"
    by (simp add: k_starving_def list_all_length starving_job_def new_job_def)
  have starved: "pool_starved v P ?s"
    by (simp add: pool_starved_def k_starving_def list_all_length starving_def starving_job_def new_job_def)
  assume "\<exists>s'. (lf_step P)\<^sup>*\<^sup>* ?s s' \<and> (v \<in> pr_unloaded s' \<or> \<not> list_all (starving v) (take P (pr_jobs s')))"
  then obtain s' where s': "(lf_step P)\<^sup>*\<^sup>* ?s s'" "v \<in> pr_unloaded s' \<or> \<not> list_all (starving v) (take P (pr_jobs s'))"
    by blast
  have starved': "pool_starved v P s'"
    using s'(1) by (induction rule: rtranclp_induct) (auto intro: starved starved_step)
  then have len: "0 < length (pr_jobs s')" using assms by (auto simp: pool_starved_def)
  have "starving v (pr_jobs s' ! 0)"
    by (rule starved_job [OF starved' assms]) (use len in \<open>simp add: is_job_def\<close>)
  with len have "\<not> voice_silent v s'" by (auto simp: voice_silent_def list_all_length starving_def)
  with unloaded_silent [OF rtranclp_trans [OF reach s'(1)]] s'(2) starved'
  show False by (auto simp: pool_starved_def)
qed

theorem realtime_calls_can_starve_witness:
  "\<exists>s. (lf_step 4)\<^sup>*\<^sup>* process_start s \<and> length (pr_jobs s) = 4 \<and>
     (\<nexists>s'. (lf_step 4)\<^sup>*\<^sup>* s s' \<and> (7 \<in> pr_unloaded s' \<or> \<not> list_all (starving 7) (take 4 (pr_jobs s'))))"
  using realtime_calls_can_starve [of 4 7 "[Inr [f_lit 1]]"] by auto

subsection \<open>Callbacks that unload each other's voices\<close>

definition calls_back :: "nat \<Rightarrow> nat \<Rightarrow> process \<Rightarrow> bool" where
  "calls_back w v s \<longleftrightarrow>
     w < length (pr_jobs s) \<and> jb_voice (pr_jobs s ! w) = v \<and> (\<exists>ev. jb_phase (pr_jobs s ! w) = Calling ev)"

definition unloads_crosswise :: "nat \<Rightarrow> nat \<Rightarrow> nat \<Rightarrow> nat \<Rightarrow> process \<Rightarrow> bool" where
  "unloads_crosswise w v w' v' s \<longleftrightarrow> calls_back w v s \<and> calls_back w' v' s \<and>
     (Some w, v') \<in> set (pr_waiting s) \<and> (Some w', v) \<in> set (pr_waiting s)"

text \<open>A worker whose callback waits in an unload call stays there until its voice has drained.\<close>

lemma waiting_callback_step:
  assumes "lf_step P s s'" "calls_back w v s" "Some w \<in> fst ` set (pr_waiting s)"
  shows "calls_back w v s'"
  using assms(1)
proof cases
  case (speak u rt fails items)
  then show ?thesis using assms(2) by (auto simp: calls_back_def nth_append)
next
  case (own_step u j j')
  show ?thesis
  proof (cases "u = w")
    case True
    with own_step assms(2) obtain ev where "jb_phase j = Calling ev" "jb_voice j = v" "w < length (pr_jobs s)"
      by (auto simp: calls_back_def is_job_def)
    with job_step_calling [OF own_step(3)] job_step_voice [OF own_step(3)] True own_step(1) show ?thesis
      by (auto simp: calls_back_def)
  next
    case False
    with assms(2) own_step(1) show ?thesis by (auto simp: calls_back_def)
  qed
next
  case (delivers u j ev)
  have "u \<noteq> w" using delivers(2,3) assms(2) by (auto simp: calls_back_def is_job_def)
  then show ?thesis using delivers(1) assms(2) by (auto simp: calls_back_def)
next
  case (returns u j ev code)
  have "u \<noteq> w" using returns(4) assms(3) by blast
  then show ?thesis using returns(1) assms(2) by (auto simp: calls_back_def callback_returned_def)
qed (use assms(2) in \<open>auto simp: calls_back_def\<close>)

lemma waiting_kept:
  assumes "lf_step P s s'" "cv \<in> set (pr_waiting s)" "pr_running s (snd cv) \<noteq> 0"
  shows "cv \<in> set (pr_waiting s')"
  using assms(1)
proof cases
  case (returns u j ev code)
  then show ?thesis using assms(2) by (simp add: callback_returned_def)
next
  case (unload_returns before caller v after)
  then show ?thesis using assms(2,3) by auto
qed (use assms(2) in auto)

lemma calls_back_running: "lf_ok P s \<Longrightarrow> calls_back w v s \<Longrightarrow> pr_running s v \<noteq> 0"
proof -
  assume ok: "lf_ok P s" and c: "calls_back w v s"
  have "0 < job_sum (in_flight (jb_voice (pr_jobs s ! w))) s"
    by (rule in_flight_witness) (use c in \<open>auto simp: calls_back_def is_job_def\<close>)
  moreover have "pr_running s v = job_sum (in_flight v) s" using ok unfolding lf_ok_def by blast
  ultimately show ?thesis using c by (simp add: calls_back_def)
qed

lemma crosswise_step:
  assumes "lf_step P s s'" "lf_ok P s" "unloads_crosswise w v w' v' s"
  shows "unloads_crosswise w v w' v' s'"
proof -
  have c: "calls_back w v s" "calls_back w' v' s" "(Some w, v') \<in> set (pr_waiting s)" "(Some w', v) \<in> set (pr_waiting s)"
    using assms(3) by (simp_all add: unloads_crosswise_def)
  then have "Some w \<in> fst ` set (pr_waiting s)" "Some w' \<in> fst ` set (pr_waiting s)" by force+
  with c waiting_callback_step [OF assms(1)] waiting_kept [OF assms(1)] calls_back_running [OF assms(2)]
  show ?thesis by (simp add: unloads_crosswise_def)
qed

text \<open>
  \<^bold>\<open>C21\<close>: when the callbacks of two voices each unload the other voice, neither unload call ever
  returns: in no later state has either voice been drained, and both callbacks are still waiting.
\<close>

theorem crosswise_unloads_wait_forever:
  assumes "(lf_step P)\<^sup>*\<^sup>* process_start s" "unloads_crosswise w v w' v' s" "(lf_step P)\<^sup>*\<^sup>* s s'"
  shows "unloads_crosswise w v w' v' s' \<and> v \<notin> pr_unloaded s' \<and> v' \<notin> pr_unloaded s'"
proof -
  have ok: "lf_ok P s" by (rule lf_ok_reachable [OF assms(1) lf_ok_start])
  have "unloads_crosswise w v w' v' s' \<and> lf_ok P s'"
    using assms(3)
    by (induction rule: rtranclp_induct) (auto intro: assms(2) ok crosswise_step lf_ok_step)
  then have x: "unloads_crosswise w v w' v' s'" "lf_ok P s'" by simp_all
  then have "pr_running s' v \<noteq> 0" "pr_running s' v' \<noteq> 0"
    using calls_back_running by (auto simp: unloads_crosswise_def)
  with x show ?thesis unfolding lf_ok_def by metis
qed

definition speaking_job :: "nat \<Rightarrow> job" where
  "speaking_job v = (new_job v False None [])\<lparr>jb_phase := Calling (SpeechEvent [])\<rparr>"

definition crossed :: process where
  "crossed = \<lparr>pr_jobs = [speaking_job 0, speaking_job 1], pr_running = (\<lambda>_. 0)(0 := 1, 1 := 1), pr_closing = {0, 1},
     pr_waiting = [(Some 1, 0), (Some 0, 1)], pr_unloaded = {}, pr_log = [(0, SpeechEvent []), (1, SpeechEvent [])]\<rparr>"

lemma speak_next:
  assumes "pr_closing s = {}" "busy_threads s < P" "length (pr_jobs s) = w" "pr_running s v = 0"
  shows "(lf_step P)\<^sup>*\<^sup>* s (s\<lparr>pr_running := (pr_running s)(v := 1), pr_jobs := pr_jobs s @ [speaking_job v],
    pr_log := pr_log s @ [(w, SpeechEvent [])]\<rparr>)"
proof -
  let ?q = "new_job v False None [Inr []]"
  let ?r = "?q\<lparr>jb_phase := Running\<rparr>"
  let ?h = "(new_job v False None [])\<lparr>jb_phase := Holding (Inr [])\<rparr>"
  let ?d = "(new_job v False None [])\<lparr>jb_phase := Delivering (SpeechEvent [])\<rparr>"
  let ?s0 = "s\<lparr>pr_running := (pr_running s)(v := 1)\<rparr>"
  let ?at = "\<lambda>j. ?s0\<lparr>pr_jobs := pr_jobs s @ [j]\<rparr>"
  have at: "is_job (?at j) w j" for j using assms(3) by (auto simp: is_job_def nth_append)
  have upd: "set_job w j' (?at j) = ?at j'" for j j'
    using assms(3) by (simp add: set_job_def list_update_append)
  have own: "lf_step P (?at j) (?at j')"
    if "job_step False (busy_threads (?at j) < P) j j'" for j j'
    using lf_step.own_step [OF at [of j], of P j', unfolded upd] that assms(1) by simp
  have "busy_threads (?at ?q) < P" using assms(2) by (simp add: busy_threads_def new_job_def occupies_def)
  then have "lf_step P (?at ?q) (?at ?r)"
    using job_step.job_starts [of True ?q False] by (intro own) (simp add: start_job_def new_job_def)
  moreover have "lf_step P s (?at ?q)"
    using lf_step.speak [of v s P False None "[Inr []]"] assms(1,4) by (simp add: enter_def)
  moreover have "job_step False f ?r ?h" for f
    using job_step.advances [of ?r False f] by (simp add: advance_def get_item_def new_job_def)
  then have "lf_step P (?at ?r) (?at ?h)" by (rule own)
  moreover have "as_wave_bytes [] = []" by (simp add: as_wave_bytes_def to_i16_vec_def)
  then have "job_step False f ?h ?d" for f
    using job_step.checks [of ?h "Inr []" False f] by (simp add: handle_item_def)
  then have "lf_step P (?at ?h) (?at ?d)" by (rule own)
  moreover have "lf_step P (?at ?d) ((?at (speaking_job v))\<lparr>pr_log := pr_log s @ [(w, SpeechEvent [])]\<rparr>)"
    using lf_step.delivers [OF at [of ?d], of "SpeechEvent []" P, unfolded call_back_def upd]
    by (simp add: speaking_job_def)
  ultimately have "(lf_step P)\<^sup>*\<^sup>* s ((?at (speaking_job v))\<lparr>pr_log := pr_log s @ [(w, SpeechEvent [])]\<rparr>)"
    by (meson converse_rtranclp_into_rtranclp rtranclp.rtrancl_refl)
  then show ?thesis by simp
qed

lemma crossed_reachable: "(lf_step 4)\<^sup>*\<^sup>* process_start crossed"
proof -
  let ?a = "process_start\<lparr>pr_jobs := [speaking_job 0], pr_running := (\<lambda>_. 0)(0 := 1), pr_log := [(0, SpeechEvent [])]\<rparr>"
  let ?b = "?a\<lparr>pr_jobs := [speaking_job 0, speaking_job 1], pr_running := (\<lambda>_. 0)(0 := 1, 1 := 1),
    pr_log := [(0, SpeechEvent []), (1, SpeechEvent [])]\<rparr>"
  let ?c = "?b\<lparr>pr_closing := {1}, pr_waiting := [(Some 0, 1)]\<rparr>"
  have "(lf_step 4)\<^sup>*\<^sup>* process_start ?a"
    using speak_next [of process_start 4 0 0] by (simp add: process_start_def busy_threads_def)
  moreover have "busy_threads ?a = 1"
    by (simp add: busy_threads_def speaking_job_def new_job_def occupies_def)
  then have "(lf_step 4)\<^sup>*\<^sup>* ?a ?b" using speak_next [of ?a 4 1 1] by (simp add: process_start_def)
  moreover have "lf_step 4 ?b ?c"
    using lf_step.unload_begins [of "Some 0" ?b 1 4]
    by (simp add: process_start_def is_job_def speaking_job_def new_job_def)
  moreover have "lf_step 4 ?c crossed"
    using lf_step.unload_begins [of "Some 1" ?c 0 4]
    by (simp add: process_start_def is_job_def speaking_job_def new_job_def crossed_def insert_commute)
  ultimately show ?thesis by (meson rtranclp_trans reach_step)
qed

theorem crosswise_unloads_wait_forever_witness:
  "unloads_crosswise 0 0 1 1 crossed \<and> 0 \<notin> pr_unloaded crossed \<and> 1 \<notin> pr_unloaded crossed"
  by (rule crosswise_unloads_wait_forever [OF crossed_reachable])
     (simp_all add: unloads_crosswise_def calls_back_def crossed_def speaking_job_def new_job_def)

subsection \<open>With a thread to spare, everything drains\<close>

fun goes_on :: "phase \<Rightarrow> bool" where
  "goes_on Running = True"
| "goes_on Receiving = True"
| "goes_on (Holding item) = True"
| "goes_on (Delivering ev) = is_speech ev"
| "goes_on (Calling ev) = is_speech ev"
| "goes_on _ = False"

definition job_wf :: "job \<Rightarrow> bool" where
  "job_wf j \<longleftrightarrow> jb_ready j \<le> length (jb_items j) \<and>
     (\<not> jb_realtime j \<longrightarrow> jb_producer j = NoProducer \<and> jb_ready j = 0) \<and>
     (jb_phase j = Queued \<longrightarrow> jb_producer j = NoProducer \<and> jb_ready j = 0) \<and>
     (jb_phase j = Receiving \<longrightarrow> jb_realtime j) \<and>
     (jb_realtime j \<and> goes_on (jb_phase j) \<longrightarrow> jb_producer j \<noteq> NoProducer)"

definition all_wf :: "process \<Rightarrow> bool" where
  "all_wf s = list_all job_wf (pr_jobs s)"

lemma all_wf_job: "all_wf s \<Longrightarrow> is_job s w j \<Longrightarrow> job_wf j"
  by (auto simp: all_wf_def is_job_def list_all_length)

lemma all_wf_change: "all_wf s \<Longrightarrow> pr_jobs s' = (pr_jobs s)[w := j'] \<Longrightarrow> job_wf j' \<Longrightarrow> all_wf s'"
  by (cases "w < length (pr_jobs s)") (auto simp: all_wf_def list_all_length nth_list_update)

text \<open>Every action but a cancellation makes a call lighter.\<close>

fun phase_weight :: "phase \<Rightarrow> nat \<Rightarrow> nat" where
  "phase_weight Exited n = 0"
| "phase_weight (Calling ev) n = (if is_speech ev then 6 * n + 5 else 1)"
| "phase_weight (Delivering ev) n = (if is_speech ev then 6 * n + 6 else 2)"
| "phase_weight (Holding item) n = 6 * n + 7"
| "phase_weight Receiving n = 6 * n + 3"
| "phase_weight Running n = 6 * n + 4"
| "phase_weight Queued n = 7 * n + 9"

fun producer_weight :: "producer \<Rightarrow> nat \<Rightarrow> nat \<Rightarrow> nat" where
  "producer_weight ProducerQueued n ready = n + 2"
| "producer_weight Producing n ready = n - ready + 1"
| "producer_weight _ n ready = 0"

definition job_weight :: "job \<Rightarrow> nat" where
  "job_weight j = phase_weight (jb_phase j) (length (jb_items j))
     + producer_weight (jb_producer j) (length (jb_items j)) (jb_ready j)"

definition live_realtime :: "job \<Rightarrow> nat" where
  "live_realtime j = (if jb_realtime j \<and> jb_phase j \<noteq> Exited then 1 else 0)"

lemma get_item_weight:
  assumes "job_wf j" "jb_phase j = Running \<and> \<not> jb_realtime j \<or> jb_phase j = Receiving \<and> 0 < jb_ready j"
  shows "job_weight (get_item j) < job_weight j \<and> job_wf (get_item j)"
proof (cases "jb_items j")
  case Nil
  with assms show ?thesis by (auto simp: get_item_def job_weight_def job_wf_def)
next
  case (Cons x xs)
  with assms show ?thesis
    by (cases "jb_producer j") (auto simp: get_item_def job_weight_def job_wf_def)
qed

lemma job_step_lighter:
  "job_step c f j j' \<Longrightarrow> job_wf j \<Longrightarrow> j' = j\<lparr>jb_cancelled := True\<rparr> \<or> job_weight j' < job_weight j"
proof (induction rule: job_step.induct)
  case (job_starts j)
  then show ?case by (auto simp: start_job_def job_weight_def job_wf_def split: option.split)
next
  case (advances j)
  then show ?case using get_item_weight [of j] by (auto simp: advance_def job_weight_def)
next
  case (receives j)
  then show ?case using get_item_weight [of j] by auto
next
  case (checks j item)
  then show ?case by (auto simp: handle_item_def job_weight_def split: sum.split)
qed (auto simp: job_weight_def job_wf_def)

lemma job_step_wf: "job_step c f j j' \<Longrightarrow> job_wf j \<Longrightarrow> job_wf j'"
proof (induction rule: job_step.induct)
  case (job_starts j)
  then show ?case by (auto simp: start_job_def job_wf_def split: option.split)
next
  case (advances j)
  then show ?case using get_item_weight [of j] by (auto simp: advance_def job_wf_def)
next
  case (receives j)
  then show ?case using get_item_weight [of j] by auto
next
  case (checks j item)
  then show ?case by (auto simp: handle_item_def job_wf_def)
qed (auto simp: job_wf_def)

lemma job_step_realtime: "job_step c f j j' \<Longrightarrow> live_realtime j' = live_realtime j"
  by (induction rule: job_step.induct)
     (auto simp: live_realtime_def job_action_defs split: option.split list.split)

text \<open>A step that makes one call lighter.\<close>

definition moves :: "process \<Rightarrow> process \<Rightarrow> bool" where
  "moves s s' \<longleftrightarrow> (\<exists>w j j'. changes_job w j j' s s' \<and> job_wf j' \<and> job_weight j' < job_weight j \<and>
     live_realtime j' \<le> live_realtime j)"

lemma moves_own:
  assumes "all_wf s" "is_job s w j" "job_step (jb_voice j \<in> pr_closing s) (busy_threads s < P) j j'"
    "jb_cancelled j' = jb_cancelled j \<Longrightarrow> j' \<noteq> j\<lparr>jb_cancelled := True\<rparr>" "jb_cancelled j' = jb_cancelled j"
  shows "lf_step P s (set_job w j' s) \<and> moves s (set_job w j' s)"
proof -
  have "job_wf j" using assms(1,2) by (rule all_wf_job)
  with job_step_lighter [OF assms(3)] job_step_wf [OF assms(3)] assms(4,5)
  have "job_wf j'" "job_weight j' < job_weight j" by auto
  then show ?thesis
    using assms(2,3) job_step_voice [OF assms(3)] job_step_realtime [OF assms(3)]
    unfolding moves_def by (blast intro: lf_step.own_step set_job_changes_job order.refl eq_refl)
qed

lemma moves_deliver:
  assumes "all_wf s" "is_job s w j" "jb_phase j = Delivering ev"
  shows "lf_step P s (call_back w ev j s) \<and> moves s (call_back w ev j s)"
proof -
  let ?j = "j\<lparr>jb_phase := Calling ev\<rparr>"
  have "job_wf ?j" "job_weight ?j < job_weight j" "live_realtime ?j \<le> live_realtime j"
    using all_wf_job [OF assms(1,2)] assms(3) by (auto simp: job_wf_def job_weight_def live_realtime_def)
  then show ?thesis
    unfolding moves_def using lf_step.delivers [OF assms(2,3)] call_back_changes_job [OF assms(2), of ev] by blast
qed

lemma moves_exit:
  assumes "all_wf s" "is_job s w j" "jb_phase j = Calling ev"
  shows "moves s (callback_returned w j ev 1 s)"
proof -
  let ?j = "j\<lparr>jb_phase := Exited\<rparr>"
  have "job_wf ?j" "job_weight ?j < job_weight j" "live_realtime ?j \<le> live_realtime j"
    using all_wf_job [OF assms(1,2)] assms(3) by (auto simp: job_wf_def job_weight_def live_realtime_def)
  moreover have "changes_job w j ?j s (callback_returned w j ev 1 s)"
    using assms(2) by (simp add: changes_job_def callback_returned_def)
  ultimately show ?thesis unfolding moves_def by blast
qed

lemma moves_wf: "moves s s' \<Longrightarrow> all_wf s \<Longrightarrow> all_wf s'"
  by (auto simp: moves_def changes_job_def intro: all_wf_change)

lemma all_wf_step:
  assumes "lf_step P s s'" "all_wf s"
  shows "all_wf s'"
  using assms(1)
proof cases
  case (speak v rt fails items)
  then show ?thesis using assms(2) by (simp add: all_wf_def job_wf_def new_job_def)
next
  case (own_step w j j')
  with all_wf_job [OF assms(2) own_step(2)] show ?thesis
    by (intro all_wf_change [OF assms(2), of s' w j']) (auto intro: job_step_wf)
next
  case (delivers w j ev)
  then show ?thesis using moves_wf moves_deliver assms(2) by blast
next
  case (returns w j ev code)
  note j = all_wf_job [OF assms(2) returns(2)]
  show ?thesis
  proof (cases "is_speech ev \<and> code = 0")
    case True
    then have "job_wf (j\<lparr>jb_phase := Running\<rparr>)" using j returns(3) by (simp add: job_wf_def)
    then show ?thesis
      using True by (intro all_wf_change [OF assms(2)]) (simp_all add: returns(1) callback_returned_def)
  next
    case False
    have "job_wf (j\<lparr>jb_phase := Exited\<rparr>)" using j by (simp add: job_wf_def)
    then show ?thesis
      using False by (intro all_wf_change [OF assms(2), of _ w]) (auto simp: returns(1) callback_returned_def)
  qed
qed (use assms(2) in \<open>simp_all add: all_wf_def\<close>)

lemma all_wf_reachable: "(lf_step P)\<^sup>*\<^sup>* process_start s \<Longrightarrow> all_wf s"
proof (induction rule: rtranclp_induct)
  case base
  show ?case by (simp add: all_wf_def process_start_def)
next
  case (step y z)
  then show ?case by (blast intro: all_wf_step)
qed

lemma moves_lighter:
  assumes "moves s s'"
  shows "job_sum job_weight s' < job_sum job_weight s \<and> job_sum live_realtime s' \<le> job_sum live_realtime s \<and>
    pr_waiting s' = pr_waiting s"
proof -
  from assms obtain w j j' where c: "changes_job w j j' s s'" "job_weight j' < job_weight j"
    "live_realtime j' \<le> live_realtime j" by (auto simp: moves_def)
  then have j: "is_job s w j" "pr_jobs s' = (pr_jobs s)[w := j']" by (simp_all add: changes_job_def)
  from c job_sum_update [OF j, of job_weight] job_sum_update [OF j, of live_realtime]
  show ?thesis by (simp add: changes_job_def)
qed

definition at_rest :: "job \<Rightarrow> bool" where
  "at_rest j \<longleftrightarrow> jb_producer j \<noteq> Producing \<and> jb_phase j \<in> {Queued, Receiving, Exited}"

lemma at_restI:
  assumes "jb_producer j \<noteq> Producing" "jb_phase j \<noteq> Running" "\<And>item. jb_phase j \<noteq> Holding item"
    "\<And>ev. jb_phase j \<noteq> Delivering ev" "\<And>ev. jb_phase j \<noteq> Calling ev"
  shows "at_rest j"
  using assms by (cases "jb_phase j") (auto simp: at_rest_def)

lemma quiet_pool_has_thread:
  assumes "all_wf s" "job_sum live_realtime s < P" "\<And>w j. is_job s w j \<Longrightarrow> at_rest j"
  shows "busy_threads s < P"
proof -
  have "occupies j \<le> live_realtime j" if "j \<in> set (pr_jobs s)" for j
  proof -
    from that obtain w where w: "is_job s w j" by (auto simp: in_set_conv_nth is_job_def)
    from assms(3) [OF w] all_wf_job [OF assms(1) w] show ?thesis
      by (auto simp: at_rest_def occupies_def live_realtime_def job_wf_def)
  qed
  then have "job_sum occupies s \<le> job_sum live_realtime s" unfolding job_sum_def by (rule sum_list_mono)
  with assms(2) show ?thesis by (simp add: busy_job_sum)
qed

text \<open>A worker that runs, holds an item, builds an event or is in a callback, and a producer, can move.\<close>

lemma busy_move:
  assumes "all_wf s" "\<And>cv. cv \<in> set (pr_waiting s) \<Longrightarrow> fst cv = None" "is_job s w j" "\<not> at_rest j"
  shows "\<exists>s'. lf_step P s s' \<and> moves s s'"
proof -
  have free: "Some w \<notin> fst ` set (pr_waiting s)" using assms(2) by force
  note own = moves_own [OF assms(1,3), of P]
  consider "jb_producer j = Producing" | "jb_phase j = Running" | item where "jb_phase j = Holding item"
    | ev where "jb_phase j = Delivering ev" | ev where "jb_phase j = Calling ev"
    using assms(4) at_restI by blast
  then show ?thesis
  proof cases
    case 1
    have "jb_ready j \<le> length (jb_items j)" using all_wf_job [OF assms(1,3)] by (simp add: job_wf_def)
    then consider (more) "jb_ready j < length (jb_items j)" | (finished) "jb_ready j = length (jb_items j)" by linarith
    then show ?thesis
    proof cases
      case more
      show ?thesis
        by (rule exI, rule own [OF job_step.produces [OF 1 more]]) (cases j; simp)+
    next
      case finished
      show ?thesis
        by (rule exI, rule own [OF job_step.producer_ends [OF 1 disjI1 [OF finished]]]) (use 1 in \<open>cases j; simp\<close>)+
    qed
  next
    case 2
    show ?thesis
      by (rule exI, rule own [OF job_step.advances [OF 2]])
         (use 2 in \<open>cases j; simp add: advance_def get_item_def split: list.split\<close>)+
  next
    case 3
    show ?thesis
      by (rule exI, rule own [OF job_step.checks [OF 3]]) (use 3 in \<open>cases j; simp add: handle_item_def\<close>)+
  next
    case 4
    with moves_deliver [OF assms(1,3)] show ?thesis by blast
  next
    case 5
    with lf_step.returns [OF assms(3) 5 free, of P 1] moves_exit [OF assms(1,3) 5] show ?thesis by blast
  qed
qed

text \<open>Unless everything has ended, some worker or producer can move.\<close>

lemma some_move:
  assumes "all_wf s" "job_sum live_realtime s < P" "\<And>cv. cv \<in> set (pr_waiting s) \<Longrightarrow> fst cv = None"
    "is_job s w j" "jb_phase j \<noteq> Exited"
  shows "\<exists>s'. lf_step P s s' \<and> moves s s'"
proof (cases "\<forall>w j. is_job s w j \<longrightarrow> at_rest j")
  case False
  then show ?thesis using busy_move [OF assms(1,3)] by blast
next
  case True
  then have thread: "busy_threads s < P" using quiet_pool_has_thread [OF assms(1,2)] by blast
  have rest: "at_rest j" using True assms(4) by blast
  note own = moves_own [OF assms(1,4), of P]
  from rest assms(5) consider (queued) "jb_phase j = Queued" | (receiving) "jb_phase j = Receiving"
    by (auto simp: at_rest_def)
  then show ?thesis
  proof cases
    case queued
    show ?thesis
      by (rule exI, rule own [OF job_step.job_starts [OF thread queued]])
         (use queued in \<open>cases j; simp add: start_job_def split: option.split\<close>)+
  next
    case receiving
    have "jb_producer j \<noteq> NoProducer" using all_wf_job [OF assms(1,4)] receiving by (auto simp: job_wf_def)
    with rest consider (queue) "jb_producer j = ProducerQueued" | (item) "0 < jb_ready j"
      | (disconnected) "jb_producer j = ProducerDone" "jb_ready j = 0"
      by (cases "jb_producer j") (auto simp: at_rest_def)
    then show ?thesis
    proof cases
      case queue
      show ?thesis
        by (rule exI, rule own [OF job_step.producer_starts [OF thread queue]]) (use queue in \<open>cases j; simp\<close>)+
    next
      case item
      show ?thesis
        by (rule exI, rule own [OF job_step.receives [OF receiving item]])
           (use receiving in \<open>cases j; simp add: get_item_def split: list.split\<close>)+
    next
      case disconnected
      show ?thesis
        by (rule exI, rule own [OF job_step.disconnects [OF receiving disconnected(2,1)]])
           (use receiving in \<open>cases j; simp\<close>)+
    qed
  qed
qed

lemma all_drain:
  assumes "all_wf s" "job_sum live_realtime s < P" "\<And>cv. cv \<in> set (pr_waiting s) \<Longrightarrow> fst cv = None"
  shows "\<exists>s'. (lf_step P)\<^sup>*\<^sup>* s s' \<and> list_all (\<lambda>j. jb_phase j = Exited) (pr_jobs s') \<and> pr_waiting s' = pr_waiting s"
  using assms
proof (induction "job_sum job_weight s" arbitrary: s rule: less_induct)
  case less
  show ?case
  proof (cases "list_all (\<lambda>j. jb_phase j = Exited) (pr_jobs s)")
    case True
    then show ?thesis by blast
  next
    case False
    then obtain w where w: "is_job s w (pr_jobs s ! w)" "jb_phase (pr_jobs s ! w) \<noteq> Exited"
      by (auto simp: list_all_length is_job_def)
    from some_move [OF less.prems w] obtain t where t: "lf_step P s t" "moves s t" by blast
    note m = moves_lighter [OF t(2)]
    have "\<exists>s'. (lf_step P)\<^sup>*\<^sup>* t s' \<and> list_all (\<lambda>j. jb_phase j = Exited) (pr_jobs s') \<and> pr_waiting s' = pr_waiting t"
      by (rule less.hyps) (use m less.prems moves_wf [OF t(2)] in auto)
    then show ?thesis using t(1) m by (metis converse_rtranclp_into_rtranclp)
  qed
qed

text \<open>
  \<^bold>\<open>C19\<close>: as long as fewer realtime calls are in flight than the pool has threads, and no callback
  waits in an unload call, unloading cannot hang: from every such state the process can run until every
  worker has ended, and then the unload call of a waiting thread returns.
\<close>

theorem unloading_can_finish:
  assumes "(lf_step P)\<^sup>*\<^sup>* process_start s" "job_sum live_realtime s < P"
    "list_all (\<lambda>cv. fst cv = None) (pr_waiting s)" "(None, v) \<in> set (pr_waiting s)"
  shows "\<exists>s'. (lf_step P)\<^sup>*\<^sup>* s s' \<and> v \<in> pr_unloaded s' \<and> list_all (\<lambda>j. jb_phase j = Exited) (pr_jobs s')"
proof -
  obtain t where t: "(lf_step P)\<^sup>*\<^sup>* s t" "list_all (\<lambda>j. jb_phase j = Exited) (pr_jobs t)" "pr_waiting t = pr_waiting s"
    using all_drain [OF all_wf_reachable [OF assms(1)] assms(2)] assms(3) by (auto simp: list_all_iff)
  have "lf_ok P t" by (rule lf_ok_reachable [OF rtranclp_trans [OF assms(1) t(1)] lf_ok_start])
  then have "pr_running t v = job_sum (in_flight v) t" unfolding lf_ok_def by blast
  moreover have "in_flight v j = 0" if "j \<in> set (pr_jobs t)" for j
    using t(2) that by (simp add: in_flight_def list_all_iff)
  then have "map (in_flight v) (pr_jobs t) = map (\<lambda>_. 0) (pr_jobs t)" by (rule map_cong [OF refl])
  then have "job_sum (in_flight v) t = 0" unfolding job_sum_def by (metis sum_list_0)
  ultimately have zero: "pr_running t v = 0" by simp
  from assms(4) t(3) obtain before after where "pr_waiting t = before @ (None, v) # after"
    by (metis split_list)
  note last = reach_step [OF t(1) lf_step.unload_returns [OF this zero]]
  show ?thesis by (rule exI, rule conjI, rule last) (simp add: t(2))
qed

theorem unloading_can_finish_witness:
  "\<exists>s'. (lf_step 4)\<^sup>*\<^sup>*
       ((k_starving 0 [Inr [f_lit 1]] 3)\<lparr>pr_closing := {0}, pr_waiting := [(None, 0)]\<rparr>) s' \<and> 0 \<in> pr_unloaded s'"
proof -
  let ?s = "k_starving 0 [Inr [f_lit 1]] 3"
  let ?t = "?s\<lparr>pr_closing := {0}, pr_waiting := [(None, 0)]\<rparr>"
  have "lf_step 4 ?s ?t" using lf_step.unload_begins [of None ?s 0 4] by (simp add: k_starving_def)
  then have reach: "(lf_step 4)\<^sup>*\<^sup>* process_start ?t" by (rule reach_step [OF k_starving_reachable, rotated]) simp
  have "job_sum live_realtime ?t < 4"
    by (simp add: job_sum_def k_starving_def live_realtime_def starving_job_def new_job_def sum_list_replicate)
  from unloading_can_finish [OF reach this, of 0] show ?thesis by auto
qed

end
