(* ===== verification/Stt.thy ===== *)
theory Stt
  imports Capi
begin

section \<open>Speech recognition and its C interface\<close>

text \<open>
  \<^verbatim>\<open>crates/stt/src/lib.rs\<close> and \<^verbatim>\<open>crates/frontends/capi-stt/src/lib.rs\<close>. The recognizer behind the
  interface (the sherpa-onnx package), the SHA-256 function (the sha2 package) and the disk are
  arguments. The engine aborts the process on a stream shorter than 25 ms and on a corrupt model
  instead of reporting an error, so a call is a \<open>run\<close>: it aborts, reads memory its caller does not own,
  or returns. The theorems show that the checksum lets only the expected model file reach the engine, that
  the validation keeps recognition from aborting, that the caller's structs are read within their declared
  size, and what every call reports.
\<close>

subsection \<open>Runs\<close>

datatype 'a run = Aborts | BadRead | Returns 'a

primrec run_bind :: "'a run \<Rightarrow> ('a \<Rightarrow> 'b run) \<Rightarrow> 'b run" where
  "run_bind Aborts f = Aborts"
| "run_bind BadRead f = BadRead"
| "run_bind (Returns x) f = f x"

text \<open>The question mark operator inside a run.\<close>

definition run_try :: "'e + 'a \<Rightarrow> ('a \<Rightarrow> ('e + 'b) run) \<Rightarrow> ('e + 'b) run" where
  "run_try r f = (case r of Inl e \<Rightarrow> Returns (Inl e) | Inr x \<Rightarrow> f x)"

lemma run_try_simps [simp]: "run_try (Inl e) f = Returns (Inl e)" "run_try (Inr x) f = f x"
  by (simp_all add: run_try_def)

lemma run_bind_Returns: "run_bind r f = Returns y \<longleftrightarrow> (\<exists>x. r = Returns x \<and> f x = Returns y)"
  by (cases r) auto

subsection \<open>Errors and audio checks\<close>

datatype stt_error =
    MissingModelFile path | ModelLoad path | Unreadable path | ChecksumMismatch path
  | InvalidAudio str | Decode

fun display_stt_error :: "stt_error \<Rightarrow> str" where
  "display_stt_error (MissingModelFile p) = lit ''model file not found: '' @ p"
| "display_stt_error (ModelLoad dir) = lit ''failed to load the model in '' @ dir"
| "display_stt_error (Unreadable p) = lit ''cannot read '' @ p"
| "display_stt_error (ChecksumMismatch p) = lit ''checksum mismatch for '' @ p"
| "display_stt_error (InvalidAudio reason) = lit ''invalid audio: '' @ reason"
| "display_stt_error Decode = lit ''recognition produced no result''"

definition MODEL_FILE :: str where "MODEL_FILE = lit ''model.int8.onnx''"
definition TOKENS_FILE :: str where "TOKENS_FILE = lit ''tokens.txt''"
definition MODEL_RATE :: int where "MODEL_RATE = 16000"
definition MIN_MODEL_SAMPLES :: int where "MIN_MODEL_SAMPLES = 400"

record recognizer_config =
  num_threads :: int

definition default_recognizer_config :: recognizer_config where
  "default_recognizer_config = \<lparr>num_threads = 2\<rparr>"

text \<open>
  A length above \<^verbatim>\<open>i32::MAX\<close> is refused, so the product below fits an \<^verbatim>\<open>i64\<close>; both operands of the
  division are positive.
\<close>

definition validate_len :: "nat \<Rightarrow> int \<Rightarrow> stt_error + unit" where
  "validate_len len sample_hz =
     (if len > 2147483647 then Inl (InvalidAudio (lit ''too many samples''))
      else if len = 0 then Inl (InvalidAudio (lit ''no samples''))
      else if sample_hz \<le> 0 then Inl (InvalidAudio (lit ''sample rate must be positive''))
      else if int len * MODEL_RATE div sample_hz < MIN_MODEL_SAMPLES
      then Inl (InvalidAudio (lit ''shorter than 25 ms''))
      else Inr ())"

definition validate :: "samples \<Rightarrow> int \<Rightarrow> stt_error + unit" where
  "validate sig sample_hz = validate_len (length sig) sample_hz"

subsection \<open>The checksum\<close>

definition hex_nibble :: "nat \<Rightarrow> uchar" where
  "hex_nibble n = (if n < 10 then 48 + n else 87 + n)"

definition hex :: "nat list \<Rightarrow> str" where
  "hex bytes = fold (\<lambda>b out. out @ [hex_nibble (b div 16), hex_nibble (b mod 16)]) bytes []"

text \<open>
  What the disk answers: whether a path is a file, and for a file that opens the results of the
  successive reads, None for an error and an empty one for its end.
\<close>

record stt_disk =
  is_file :: "path \<Rightarrow> bool"
  file_reads :: "path \<Rightarrow> nat list option list option"

fun hash_reads :: "nat list \<Rightarrow> nat list option list \<Rightarrow> nat list option" where
  "hash_reads hashed [] = Some hashed"
| "hash_reads hashed (None # reads) = None"
| "hash_reads hashed (Some buf # reads) =
     (if buf = [] then Some hashed else hash_reads (hashed @ buf) reads)"

text \<open>The hasher digests the concatenation of what it is given.\<close>

definition sha256_hex :: "(nat list \<Rightarrow> nat list) \<Rightarrow> stt_disk \<Rightarrow> path \<Rightarrow> str option" where
  "sha256_hex sha disk p =
     (case file_reads disk p of
        None \<Rightarrow> None
      | Some reads \<Rightarrow> (case hash_reads [] reads of None \<Rightarrow> None | Some bytes \<Rightarrow> Some (hex (sha bytes))))"

definition to_ascii_lowercase :: "uchar \<Rightarrow> uchar" where
  "to_ascii_lowercase c = (if is_ascii_uppercase c then c + 32 else c)"

definition eq_ignore_ascii_case :: "str \<Rightarrow> str \<Rightarrow> bool" where
  "eq_ignore_ascii_case a b \<longleftrightarrow> map to_ascii_lowercase a = map to_ascii_lowercase b"

definition verify_model :: "(nat list \<Rightarrow> nat list) \<Rightarrow> stt_disk \<Rightarrow> path \<Rightarrow> str \<Rightarrow> stt_error + unit" where
  "verify_model sha disk model_dir expected_sha256 =
     (let p = path_join model_dir MODEL_FILE in
      res_bind (ok_or (Unreadable p) (sha256_hex sha disk p)) (\<lambda>actual.
        if eq_ignore_ascii_case actual (trim_text expected_sha256) then Inr ()
        else Inl (ChecksumMismatch p)))"

subsection \<open>The recognizer\<close>

definition require_file :: "stt_disk \<Rightarrow> path \<Rightarrow> str \<Rightarrow> stt_error + str" where
  "require_file disk dir name =
     (let p = path_join dir name in if is_file disk p then Inr p else Inl (MissingModelFile p))"

text \<open>The fields of the engine's configuration that the code sets; the others keep their defaults.\<close>

record offline_config =
  oc_model :: str
  oc_tokens :: str
  oc_num_threads :: int

record 'h stt_engine =
  eng_create :: "stt_disk \<Rightarrow> offline_config \<Rightarrow> 'h option run"
  eng_transcribe :: "'h \<Rightarrow> int \<Rightarrow> samples \<Rightarrow> str option run"

definition recognizer_new ::
  "'h stt_engine \<Rightarrow> stt_disk \<Rightarrow> path \<Rightarrow> recognizer_config \<Rightarrow> (stt_error + 'h) run" where
  "recognizer_new eng disk model_dir config =
     run_try (require_file disk model_dir MODEL_FILE) (\<lambda>model.
     run_try (require_file disk model_dir TOKENS_FILE) (\<lambda>tokens.
     run_bind (eng_create eng disk
         \<lparr>oc_model = model, oc_tokens = tokens, oc_num_threads = num_threads config\<rparr>) (\<lambda>h.
       Returns (ok_or (ModelLoad model_dir) h))))"

definition recognize :: "'h stt_engine \<Rightarrow> 'h \<Rightarrow> samples \<Rightarrow> int \<Rightarrow> (stt_error + str) run" where
  "recognize eng h sig sample_hz =
     run_try (validate sig sample_hz) (\<lambda>_.
       run_bind (eng_transcribe eng h sample_hz sig) (\<lambda>r. Returns (ok_or Decode r)))"

subsection \<open>The C interface\<close>

definition STT_INVALID_UTF8_SEQUENCE :: int where "STT_INVALID_UTF8_SEQUENCE = 20"
definition STT_NULL_POINTER :: int where "STT_NULL_POINTER = 22"
definition STT_INVALID_CONFIGURATION :: int where "STT_INVALID_CONFIGURATION = 24"
definition MISSING_MODEL_FILE :: int where "MISSING_MODEL_FILE = 40"
definition UNREADABLE_MODEL_FILE :: int where "UNREADABLE_MODEL_FILE = 41"
definition CHECKSUM_MISMATCH :: int where "CHECKSUM_MISMATCH = 42"
definition MODEL_LOAD_FAILED :: int where "MODEL_LOAD_FAILED = 43"
definition INVALID_AUDIO :: int where "INVALID_AUDIO = 44"
definition DECODE_FAILED :: int where "DECODE_FAILED = 45"

definition STT_ABI_VERSION :: nat where "STT_ABI_VERSION = 1"
definition libdengjenSttAbiVersion :: nat where "libdengjenSttAbiVersion = STT_ABI_VERSION"
definition DEFAULT_NUM_THREADS :: int where "DEFAULT_NUM_THREADS = 2"

definition stt_null_pointer :: "str \<Rightarrow> ffi_error" where
  "stt_null_pointer param_name =
     (STT_NULL_POINTER, lit ''parameter '' @ quoted param_name @ lit '' must not be null'')"

definition stt_ffi_error :: "stt_error \<Rightarrow> ffi_error" where
  "stt_ffi_error e =
     ((case e of
         MissingModelFile _ \<Rightarrow> MISSING_MODEL_FILE
       | Unreadable _ \<Rightarrow> UNREADABLE_MODEL_FILE
       | ChecksumMismatch _ \<Rightarrow> CHECKSUM_MISMATCH
       | ModelLoad _ \<Rightarrow> MODEL_LOAD_FAILED
       | InvalidAudio _ \<Rightarrow> INVALID_AUDIO
       | Decode \<Rightarrow> DECODE_FAILED), display_stt_error e)"

text \<open>A C string is null, ill-formed (\<open>Some None\<close>) or a text.\<close>

definition required_str :: "str option option \<Rightarrow> str \<Rightarrow> str ffi_result" where
  "required_str p param_name =
     (case p of
        None \<Rightarrow> Inl (stt_null_pointer param_name)
      | Some None \<Rightarrow>
          Inl (STT_INVALID_UTF8_SEQUENCE,
            lit ''parameter '' @ quoted param_name @ lit '' is not valid UTF-8'')
      | Some (Some s) \<Rightarrow> Inr s)"

text \<open>
  A config pointer is null or points to the bytes the caller owns there (little-endian). Fields are at
  offsets 0 (\<^verbatim>\<open>struct_size\<close>, \<^verbatim>\<open>u32\<close>) and 4 (\<^verbatim>\<open>num_threads\<close>, \<^verbatim>\<open>i32\<close>); a read past them is a \<open>BadRead\<close>.
\<close>

definition STT_CONFIG_V1_SIZE :: nat where "STT_CONFIG_V1_SIZE = 8"

definition read_u32 :: "nat list \<Rightarrow> nat \<Rightarrow> nat run" where
  "read_u32 mem off =
     (if off + 4 \<le> length mem
      then Returns (mem ! off + 256 * mem ! (off + 1) + 65536 * mem ! (off + 2)
                    + 16777216 * mem ! (off + 3))
      else BadRead)"

definition read_i32 :: "nat list \<Rightarrow> nat \<Rightarrow> int run" where
  "read_i32 mem off =
     run_bind (read_u32 mem off) (\<lambda>n. Returns (if n < 2147483648 then int n else int n - 4294967296))"

definition read_config :: "nat list option \<Rightarrow> recognizer_config ffi_result run" where
  "read_config config_ptr =
     (case config_ptr of
        None \<Rightarrow> Returns (Inr \<lparr>num_threads = DEFAULT_NUM_THREADS\<rparr>)
      | Some mem \<Rightarrow>
          run_bind (read_u32 mem 0) (\<lambda>declared.
            if declared < STT_CONFIG_V1_SIZE
            then Returns (Inl (STT_INVALID_CONFIGURATION,
              lit ''config.struct_size is '' @ show_nat declared @ lit '', but at least ''
              @ show_nat STT_CONFIG_V1_SIZE
              @ lit '' bytes are required; set it to sizeof(SttConfig)''))
            else run_bind (read_i32 mem 4) (\<lambda>threads.
              if threads < 1
              then Returns (Inl (STT_INVALID_CONFIGURATION,
                lit ''config.num_threads is '' @ show_int threads @ lit '', but it must be at least 1''))
              else Returns (Inr \<lparr>num_threads = threads\<rparr>))))"

definition stt_load ::
  "(nat list \<Rightarrow> nat list) \<Rightarrow> 'h stt_engine \<Rightarrow> stt_disk \<Rightarrow> str option option \<Rightarrow> nat list option
     \<Rightarrow> str option option \<Rightarrow> 'h ffi_result run" where
  "stt_load sha eng disk model_dir_ptr config_ptr expected_sha256_ptr =
     run_try (required_str model_dir_ptr (lit ''model_dir'')) (\<lambda>model_dir.
     run_try (required_str expected_sha256_ptr (lit ''expected_sha256'')) (\<lambda>expected_sha256.
     run_bind (read_config config_ptr) (\<lambda>config_result.
     run_try config_result (\<lambda>config.
     run_try (res_map_err stt_ffi_error (verify_model sha disk model_dir expected_sha256)) (\<lambda>_.
     run_bind (recognizer_new eng disk model_dir config) (\<lambda>r.
       Returns (res_map_err stt_ffi_error r)))))))"

definition libdengjenSttLoad ::
  "(nat list \<Rightarrow> nat list) \<Rightarrow> 'h stt_engine \<Rightarrow> stt_disk \<Rightarrow> str option option \<Rightarrow> nat list option
     \<Rightarrow> str option option \<Rightarrow> ('h option \<times> ffi_error option) run" where
  "libdengjenSttLoad sha eng disk model_dir config expected_sha256 =
     run_bind (stt_load sha eng disk model_dir config expected_sha256) (\<lambda>r.
       Returns (call_with_result None (res_map Some r)))"

text \<open>The samples pointer is null or points to the floats the caller owns there.\<close>

definition sample_slice :: "samples option \<Rightarrow> nat \<Rightarrow> samples ffi_result run" where
  "sample_slice ptr len =
     (if len = 0 then Returns (Inr [])
      else case ptr of
        None \<Rightarrow> Returns (Inl (stt_null_pointer (lit ''samples'')))
      | Some mem \<Rightarrow> if len \<le> length mem then Returns (Inr (take len mem)) else BadRead)"

definition libdengjenSttRecognize ::
  "'h stt_engine \<Rightarrow> 'h option \<Rightarrow> samples option \<Rightarrow> nat \<Rightarrow> int \<Rightarrow> (str option \<times> ffi_error option) run" where
  "libdengjenSttRecognize eng recognizer sig len sample_hz =
     run_bind
       (run_try (ok_or (stt_null_pointer (lit ''recognizer'')) recognizer) (\<lambda>h.
        run_bind (sample_slice sig len) (\<lambda>s.
        run_try s (\<lambda>s.
        run_bind (recognize eng h s sample_hz) (\<lambda>r. Returns (res_map_err stt_ffi_error r))))))
       (\<lambda>r. Returns (call_with_result None (res_map Some r)))"

subsection \<open>What is accepted\<close>

lemma le_div_pos_iff: "0 < (b::int) \<Longrightarrow> k \<le> a div b \<longleftrightarrow> k * b \<le> a"
proof
  assume b: "0 < b" and "k \<le> a div b"
  then have "k * b \<le> a div b * b" by simp
  also have "\<dots> \<le> a" using b by (simp add: minus_mod_eq_div_mult [symmetric])
  finally show "k * b \<le> a" .
next
  assume b: "0 < b" and "k * b \<le> a"
  then have "k * b div b \<le> a div b" by (intro zdiv_mono1)
  with b show "k \<le> a div b" by simp
qed

text \<open>Rounding in the resampled length loses nothing: 25 ms are a fortieth of the rate.\<close>

lemma validate_len_ok:
  "validate_len len hz = Inr () \<longleftrightarrow> 0 < len \<and> len \<le> 2147483647 \<and> 0 < hz \<and> hz \<le> 40 * int len"
  using le_div_pos_iff [of hz 400 "int len * 16000"]
  by (auto simp: validate_len_def MODEL_RATE_def MIN_MODEL_SAMPLES_def)

lemma validate_len_error: "validate_len len hz \<noteq> Inr () \<Longrightarrow> \<exists>reason. validate_len len hz = Inl (InvalidAudio reason)"
  by (simp add: validate_len_def split: if_splits)

subsection \<open>The checksum\<close>

lemma fold_snoc_concat: "fold (\<lambda>b out. out @ f b) bs acc = acc @ concat (map f bs)"
  by (induction bs arbitrary: acc) auto

lemma hex_conv: "hex bs = concat (map (\<lambda>b. [hex_nibble (b div 16), hex_nibble (b mod 16)]) bs)"
  using fold_snoc_concat [of "\<lambda>b. [hex_nibble (b div 16), hex_nibble (b mod 16)]" bs "[]"]
  by (simp add: hex_def)

definition hex_value :: "uchar \<Rightarrow> nat" where
  "hex_value c = (if c < 58 then c - 48 else c - 87)"

fun unhex :: "str \<Rightarrow> nat list" where
  "unhex (a # b # s) = (16 * hex_value a + hex_value b) # unhex s"
| "unhex s = []"

lemma hex_nibble_value: "n < 16 \<Longrightarrow> hex_value (hex_nibble n) = n"
  by (auto simp: hex_value_def hex_nibble_def)

lemma byte_digits: "b < 256 \<Longrightarrow> b div 16 < 16 \<and> b mod 16 < (16::nat)"
  by (simp add: less_mult_imp_div_less)

lemma unhex_hex: "list_all (\<lambda>b. b < 256) bs \<Longrightarrow> unhex (hex bs) = bs"
proof (induction bs)
  case (Cons b bs)
  then show ?case using byte_digits [of b] by (simp add: hex_conv hex_nibble_value)
qed (simp add: hex_conv)

lemma hex_lower: "list_all (\<lambda>b. b < 256) bs \<Longrightarrow> map to_ascii_lowercase (hex bs) = hex bs"
proof (induction bs)
  case (Cons b bs)
  then show ?case using byte_digits [of b]
    by (auto simp: hex_conv to_ascii_lowercase_def is_ascii_uppercase_def hex_nibble_def)
qed (simp add: hex_conv)

lemma hex_inj: "list_all (\<lambda>b. b < 256) as \<Longrightarrow> list_all (\<lambda>b. b < 256) bs \<Longrightarrow> hex as = hex bs \<longleftrightarrow> as = bs"
  using unhex_hex by metis

text \<open>The content of the model file of a directory, when it can be read to its end.\<close>

definition model_content :: "stt_disk \<Rightarrow> path \<Rightarrow> nat list option" where
  "model_content disk dir = Option.bind (file_reads disk (path_join dir MODEL_FILE)) (hash_reads [])"

lemma sha256_hex_content:
  "sha256_hex sha disk (path_join dir MODEL_FILE) = map_option (\<lambda>c. hex (sha c)) (model_content disk dir)"
  by (auto simp: sha256_hex_def model_content_def split: option.splits)

lemma hash_reads_good: "list_all (\<lambda>r. r \<noteq> []) bufs \<Longrightarrow> hash_reads acc (map Some bufs) = Some (acc @ concat bufs)"
  by (induction bufs arbitrary: acc) auto

lemma verify_model_conv:
  assumes "\<And>c. list_all (\<lambda>b. b < 256) (sha c)" "list_all (\<lambda>b. b < 256) d"
    and "map to_ascii_lowercase (trim_text expected) = hex d"
  shows "verify_model sha disk dir expected =
    (case model_content disk dir of
       None \<Rightarrow> Inl (Unreadable (path_join dir MODEL_FILE))
     | Some c \<Rightarrow> if sha c = d then Inr () else Inl (ChecksumMismatch (path_join dir MODEL_FILE)))"
  using assms(3) hex_inj [OF assms(1) assms(2)]
  by (auto simp: verify_model_def Let_def sha256_hex_content eq_ignore_ascii_case_def hex_lower [OF assms(1)]
      split: option.splits)

text \<open>
  A model is accepted exactly if its file can be read to the end and its digest is the
  one whose hexadecimal rendering, in either case and with surrounding spaces, was expected. How the
  reads split the file does not matter.
\<close>

theorem checksum_pins_model:
  assumes digest: "\<And>c. list_all (\<lambda>b. b < 256) (sha c)"
    and expected: "list_all (\<lambda>b. b < 256) d" "map to_ascii_lowercase (trim_text expected) = hex d"
    and reads: "file_reads disk (path_join dir MODEL_FILE) =
      Some (map Some bufs @ (if fails then [None] else []))" "list_all (\<lambda>r. r \<noteq> []) bufs"
  shows "verify_model sha disk dir expected =
    (if fails then Inl (Unreadable (path_join dir MODEL_FILE))
     else if sha (concat bufs) = d then Inr ()
     else Inl (ChecksumMismatch (path_join dir MODEL_FILE)))"
proof -
  have "hash_reads acc (map Some bufs @ (if fails then [None] else [])) =
      (if fails then None else Some (acc @ concat bufs))" for acc
    using reads(2) by (induction bufs arbitrary: acc) auto
  then show ?thesis
    by (simp add: verify_model_conv [OF digest expected] model_content_def reads(1))
qed

text \<open>A stand-in for the digest, as concrete instance: one byte, the sum of the file.\<close>

definition sum_digest :: "nat list \<Rightarrow> nat list" where
  "sum_digest c = [sum_list c mod 256]"

definition small_disk :: stt_disk where
  "small_disk =
     \<lparr>is_file = (\<lambda>_. True),
      file_reads = (\<lambda>p. if p = lit ''m/model.int8.onnx'' then Some [Some [100, 80], Some [30]] else None)\<rparr>"

lemma path_join_m: "path_join (lit ''m'') MODEL_FILE = lit ''m/model.int8.onnx''"
  by code_simp

theorem checksum_pins_model_witness:
  "verify_model sum_digest small_disk (lit ''m'') (lit '' D2 '') = Inr ()"
  by (subst checksum_pins_model [where d = "[210]" and bufs = "[[100, 80], [30]]" and fails = False])
    (simp_all add: sum_digest_def small_disk_def path_join_m [simplified] hex_conv hex_nibble_def trim_text_def
      trim_start_def trim_end_def is_whitespace_def to_ascii_lowercase_def is_ascii_uppercase_def)

subsection \<open>Loading\<close>

text \<open>
  The contract of a config pointer: null, or the \<^verbatim>\<open>struct_size\<close> field is there and does not exceed
  the bytes behind the pointer. Memory holds bytes.
\<close>

definition truthful_config :: "nat list option \<Rightarrow> bool" where
  "truthful_config p = (case p of None \<Rightarrow> True | Some mem \<Rightarrow>
     (case read_u32 mem 0 of Returns declared \<Rightarrow> declared \<le> length mem | _ \<Rightarrow> False))"

lemma read_config_truthful:
  assumes "truthful_config p"
  obtains e where "read_config p = Returns (Inl (STT_INVALID_CONFIGURATION, e))"
  | c where "read_config p = Returns (Inr c)" "1 \<le> num_threads c"
proof (cases p)
  case None
  then show ?thesis using that(2) by (simp add: read_config_def DEFAULT_NUM_THREADS_def)
next
  case (Some mem)
  then obtain declared where d: "read_u32 mem 0 = Returns declared" "declared \<le> length mem"
    using assms by (auto simp: truthful_config_def split: run.splits)
  show ?thesis
  proof (cases "declared < STT_CONFIG_V1_SIZE")
    case True
    with Some d(1) show ?thesis by (intro that(1)) (simp add: read_config_def)
  next
    case False
    then have "8 \<le> length mem" using d(2) by (simp add: STT_CONFIG_V1_SIZE_def)
    then obtain threads where "read_i32 mem 4 = Returns threads"
      by (simp add: read_i32_def read_u32_def)
    with Some d(1) False that show ?thesis
      by (cases "threads < 1") (auto simp: read_config_def)
  qed
qed

lemma required_str_cases:
  obtains e where "required_str p n = Inl e" | s where "required_str p n = Inr s" "p = Some (Some s)"
  by (cases "required_str p n") (auto simp: required_str_def split: option.splits)

text \<open>The outcomes of a load: an error, or the recognizer the engine created for a checked model.\<close>

definition load_outcome ::
  "'h stt_engine \<Rightarrow> stt_disk \<Rightarrow> path \<Rightarrow> (nat list \<Rightarrow> nat list) \<Rightarrow> nat list
     \<Rightarrow> 'h option \<times> ffi_error option \<Rightarrow> bool" where
  "load_outcome eng disk dir sha d r \<longleftrightarrow>
     (case r of
        (None, Some _) \<Rightarrow> True
      | (Some h, None) \<Rightarrow>
          map_option sha (model_content disk dir) = Some d \<and>
          (\<exists>threads \<ge> 1. eng_create eng disk
             \<lparr>oc_model = path_join dir MODEL_FILE, oc_tokens = path_join dir TOKENS_FILE,
              oc_num_threads = threads\<rparr> = Returns (Some h))
      | _ \<Rightarrow> False)"

lemma load_outcome_error [simp]: "load_outcome eng disk dir sha d (None, Some e)"
  by (simp add: load_outcome_def)

text \<open>What the engine is asked for, and when: both files are there and the model has the digest.\<close>

definition engine_asked :: "stt_disk \<Rightarrow> path \<Rightarrow> (nat list \<Rightarrow> nat list) \<Rightarrow> nat list \<Rightarrow> offline_config \<Rightarrow> bool" where
  "engine_asked disk dir sha d c \<longleftrightarrow>
     map_option sha (model_content disk dir) = Some d \<and>
     is_file disk (path_join dir MODEL_FILE) \<and> is_file disk (path_join dir TOKENS_FILE) \<and>
     oc_model c = path_join dir MODEL_FILE \<and> oc_tokens c = path_join dir TOKENS_FILE \<and> 1 \<le> oc_num_threads c"

lemma recognizer_new_cases:
  obtains e where "recognizer_new eng disk dir c = Returns (Inl e)"
  | r where "is_file disk (path_join dir MODEL_FILE)" "is_file disk (path_join dir TOKENS_FILE)"
      "eng_create eng disk \<lparr>oc_model = path_join dir MODEL_FILE, oc_tokens = path_join dir TOKENS_FILE,
         oc_num_threads = num_threads c\<rparr> = r"
      "recognizer_new eng disk dir c = run_bind r (\<lambda>h. Returns (ok_or (ModelLoad dir) h))"
proof (cases "is_file disk (path_join dir MODEL_FILE) \<and> is_file disk (path_join dir TOKENS_FILE)")
  case True
  then show ?thesis by (intro that(2)) (auto simp: recognizer_new_def require_file_def)
next
  case False
  then show ?thesis
    using that(1) [of "MissingModelFile (path_join dir MODEL_FILE)"]
      that(1) [of "MissingModelFile (path_join dir TOKENS_FILE)"]
    by (cases "is_file disk (path_join dir MODEL_FILE)") (simp_all add: recognizer_new_def require_file_def)
qed

text \<open>
  \<^bold>\<open>C25\<close>: loading a recognizer with a config struct as long as it says, and the expected digest in hex.
  If it returns, it reports an error or hands out the recognizer the engine created from a model
  file that has the digest, with at least one thread. It ends otherwise, aborted or having read memory that is
  not the caller's, only when the engine itself does so on exactly such a file, with its tokens file
  present: no other file, and no config, brings the process down. The disk does not change meanwhile.
\<close>

theorem stt_load_guards_the_engine:
  assumes digest: "\<And>c. list_all (\<lambda>b. b < 256) (sha c)"
    and expected: "list_all (\<lambda>b. b < 256) d" "map to_ascii_lowercase (trim_text expected) = hex d"
    and config: "truthful_config config_ptr"
  shows "case libdengjenSttLoad sha eng disk (Some (Some dir)) config_ptr (Some (Some expected)) of
      Returns r \<Rightarrow> load_outcome eng disk dir sha d r
    | Aborts \<Rightarrow> \<exists>c. engine_asked disk dir sha d c \<and> eng_create eng disk c = Aborts
    | BadRead \<Rightarrow> \<exists>c. engine_asked disk dir sha d c \<and> eng_create eng disk c = BadRead"
  using config
proof (cases rule: read_config_truthful)
  case (1 e)
  then show ?thesis
    by (simp add: libdengjenSttLoad_def stt_load_def required_str_def call_with_result_def)
next
  case (2 c)
  note loads = libdengjenSttLoad_def stt_load_def required_str_def call_with_result_def 2(1)
    verify_model_conv [OF digest expected]
  show ?thesis
  proof (cases "map_option sha (model_content disk dir) = Some d")
    case True
    then obtain m where m: "model_content disk dir = Some m" "sha m = d" by auto
    show ?thesis
    proof (cases rule: recognizer_new_cases [of eng disk dir c])
      case (1 e)
      then show ?thesis by (simp add: loads m)
    next
      case created: (2 r)
      let ?c = "\<lparr>oc_model = path_join dir MODEL_FILE, oc_tokens = path_join dir TOKENS_FILE, oc_num_threads = num_threads c\<rparr>"
      have asked: "engine_asked disk dir sha d ?c"
        using True created(1,2) 2(2) by (simp add: engine_asked_def)
      show ?thesis
      proof (cases r)
        case Aborts
        with asked created show ?thesis by (simp add: loads m) blast
      next
        case BadRead
        with asked created show ?thesis by (simp add: loads m) blast
      next
        case (Returns h)
        with created m 2(2) show ?thesis by (cases h) (auto simp: loads load_outcome_def)
      qed
    qed
  next
    case False
    then show ?thesis by (auto simp: loads split: option.splits)
  qed
qed

definition demo_stt_engine :: "nat stt_engine" where
  "demo_stt_engine =
     \<lparr>eng_create = (\<lambda>disk c. if oc_model c = lit ''m/model.int8.onnx'' \<and> 1 \<le> oc_num_threads c
        then Returns (Some 7) else if oc_model c = lit ''m/model.int8.onnx'' then Returns None else Aborts),
      eng_transcribe = (\<lambda>h hz s. if hz \<le> 40 * int (length s) then Returns (Some (lit ''hi'')) else Aborts)\<rparr>"

theorem stt_load_guards_the_engine_witness:
  "case libdengjenSttLoad sum_digest demo_stt_engine small_disk (Some (Some (lit ''m'')))
      (Some [8, 0, 0, 0, 4, 0, 0, 0]) (Some (Some (lit '' D2 ''))) of
    Returns r \<Rightarrow> load_outcome demo_stt_engine small_disk (lit ''m'') sum_digest [210] r
  | Aborts \<Rightarrow> \<exists>c. engine_asked small_disk (lit ''m'') sum_digest [210] c \<and> eng_create demo_stt_engine small_disk c = Aborts
  | BadRead \<Rightarrow> \<exists>c. engine_asked small_disk (lit ''m'') sum_digest [210] c \<and> eng_create demo_stt_engine small_disk c = BadRead"
  by (rule stt_load_guards_the_engine)
    (simp_all add: sum_digest_def hex_conv hex_nibble_def
      trim_text_def trim_start_def trim_end_def is_whitespace_def to_ascii_lowercase_def is_ascii_uppercase_def
      truthful_config_def read_u32_def)

text \<open>The checksum is what keeps the process alive: an unchecked file would reach the engine.\<close>

lemma unchecked_model_aborts:
  "recognizer_new demo_stt_engine small_disk (lit ''other'') default_recognizer_config = Aborts"
  by code_simp

subsection \<open>Recognizing\<close>

text \<open>What a caller is told, in the order the code checks.\<close>

definition recognize_answer ::
  "'h option \<Rightarrow> samples option \<Rightarrow> nat \<Rightarrow> int \<Rightarrow> ('h \<Rightarrow> samples \<Rightarrow> str option) \<Rightarrow> str option \<times> int option" where
  "recognize_answer recognizer sig len hz heard =
     (case recognizer of
        None \<Rightarrow> (None, Some STT_NULL_POINTER)
      | Some h \<Rightarrow>
          if len \<noteq> 0 \<and> sig = None then (None, Some STT_NULL_POINTER)
          else if 0 < len \<and> len \<le> 2147483647 \<and> 0 < hz \<and> hz \<le> 40 * int len
          then (case heard h (take len (unwrap_or [] sig)) of
                  None \<Rightarrow> (None, Some DECODE_FAILED) | Some t \<Rightarrow> (Some t, None))
          else (None, Some INVALID_AUDIO))"

text \<open>
  \<^bold>\<open>C26\<close>: suppose the engine does not abort on at least 25 ms of audio at a positive rate, and that
  a samples pointer that is not null has the floats the caller promises. Then recognition never aborts,
  never reads past them, and answers with the engine's text or the error code of the first check that
  fails. Other audio never reaches the engine.
\<close>

theorem recognition_never_aborts:
  assumes engine: "\<And>h s. 0 < hz \<Longrightarrow> 0 < length s \<Longrightarrow> hz \<le> 40 * int (length s) \<Longrightarrow>
      eng_transcribe eng h hz s = Returns (heard h s)"
    and slice: "case sig of None \<Rightarrow> True | Some mem \<Rightarrow> len \<le> length mem"
  shows "\<exists>t e. libdengjenSttRecognize eng recognizer sig len hz = Returns (t, e) \<and>
    (t, map_option fst e) = recognize_answer recognizer sig len hz heard"
proof (cases recognizer)
  case None
  then show ?thesis
    by (simp add: libdengjenSttRecognize_def call_with_result_def recognize_answer_def stt_null_pointer_def)
next
  case (Some h)
  note calls = libdengjenSttRecognize_def call_with_result_def recognize_answer_def Some
    recognize_def validate_def
  show ?thesis
  proof (cases "len \<noteq> 0 \<and> sig = None")
    case True
    then show ?thesis by (simp add: calls sample_slice_def stt_null_pointer_def)
  next
    case present: False
    define s where "s = take len (unwrap_or [] sig)"
    have len: "length s = len" using slice present by (cases sig) (auto simp: s_def)
    have slice_s: "sample_slice sig len = Returns (Inr s)"
      using slice present by (cases sig) (auto simp: sample_slice_def s_def)
    show ?thesis
    proof (cases "validate_len len hz = Inr ()")
      case True
      then have c: "0 < len" "len \<le> 2147483647" "0 < hz" "hz \<le> 40 * int len"
        by (simp_all add: validate_len_ok)
      then have "eng_transcribe eng h hz s = Returns (heard h s)"
        using engine [of s h] len by simp
      with c present show ?thesis
        by (cases "heard h s")
          (auto simp: calls slice_s len True s_def [symmetric] stt_ffi_error_def)
    next
      case False
      then obtain reason where "validate_len len hz = Inl (InvalidAudio reason)"
        using validate_len_error by blast
      with False present show ?thesis
        by (auto simp: calls slice_s len validate_len_ok [symmetric]
            stt_ffi_error_def)
    qed
  qed
qed

theorem recognition_never_aborts_witness:
  "\<exists>t e. libdengjenSttRecognize demo_stt_engine (Some 7) (Some (replicate 3 (f_lit 1))) 3 120 = Returns (t, e) \<and>
    (t, map_option fst e) = recognize_answer (Some (7::nat)) (Some (replicate 3 (f_lit 1))) 3 120
      (\<lambda>_ _. Some (lit ''hi''))"
  by (rule recognition_never_aborts) (simp_all add: demo_stt_engine_def)

end
