(* ===== verification/Handles.thy ===== *)
theory Handles
  imports Capi Stt
begin

section \<open>Memory handed across the C interfaces\<close>

text \<open>
  \<^verbatim>\<open>crates/frontends/capi/src/lib.rs\<close> and \<^verbatim>\<open>crates/frontends/capi-stt/src/lib.rs\<close>: what the libraries
  allocate for their caller (events with their bytes and errors, messages, texts, configs, voices and
  recognizers) and the functions that take it back. \<open>Capi\<close> and \<open>Stt\<close> compute what a call answers; this
  theory puts those answers into memory and follows the pointers until they are freed. Memory maps the
  addresses in use to what was allocated there; address 0 is null. A release of anything that is not
  there is undefined behaviour, the value None. A string with an interior NUL cannot cross as a C string:
  \<^verbatim>\<open>rust_string_to_c\<close> panics on it, a call reports the panic as its error, and an event with such a
  message is never delivered. \<open>host_run\<close> is a caller that makes any calls, takes any
  events and gives back what it holds in any order.
\<close>

subsection \<open>Memory\<close>

record extern_error =
  ee_code :: int
  ee_message :: nat

datatype ('m, 'h) block =
    BytesBox "byte list"
  | CString str
  | ErrorBox extern_error
  | VoiceBox 'm
  | ConfigBox ffi_piper_config
  | RecognizerBox 'h

type_synonym ('m, 'h) memory = "nat \<Rightarrow> ('m, 'h) block option"

text \<open>
  The allocator and the functions of \<^verbatim>\<open>ffi_support\<close>: \<^verbatim>\<open>rust_string_to_c\<close>, \<^verbatim>\<open>destroy_c_string\<close>, and
  what \<^verbatim>\<open>implement_into_ffi_by_pointer!\<close> and \<^verbatim>\<open>define_box_destructor!\<close> generate. The conversion of a
  string is None when it panics; \<open>fp_panic\<close> is the code and the message that \<^verbatim>\<open>call_with_result\<close>
  reports for a panic it caught.
\<close>

record ('m, 'h) ffi_port =
  fp_alloc :: "('m, 'h) memory \<Rightarrow> nat"
  fp_string_to_c :: "str \<Rightarrow> ('m, 'h) memory \<Rightarrow> (nat \<times> ('m, 'h) memory) option"
  fp_destroy_string :: "nat \<Rightarrow> ('m, 'h) memory \<Rightarrow> ('m, 'h) memory option"
  fp_into_pointer :: "('m, 'h) block \<Rightarrow> ('m, 'h) memory \<Rightarrow> nat \<times> ('m, 'h) memory"
  fp_destroy_box :: "nat \<Rightarrow> ('m, 'h) memory \<Rightarrow> ('m, 'h) memory option"
  fp_panic :: ffi_error

definition puts_at_fresh ::
  "('m, 'h) block \<Rightarrow> ('m, 'h) memory \<Rightarrow> nat \<times> ('m, 'h) memory \<Rightarrow> bool" where
  "puts_at_fresh b h r \<longleftrightarrow> (\<exists>p. 1 < p \<and> p \<notin> dom h \<and> r = (p, h(p \<mapsto> b)))"

definition is_boxed :: "('m, 'h) block \<Rightarrow> bool" where
  "is_boxed b = (case b of VoiceBox _ \<Rightarrow> True | ConfigBox _ \<Rightarrow> True | RecognizerBox _ \<Rightarrow> True | _ \<Rightarrow> False)"

text \<open>
  Their documented behaviour: an allocation takes an unused address, its destructor frees it; a string
  is converted unless it has an interior NUL, on which the conversion panics; the message of that
  panic, which prints the error, has none.
\<close>

definition ffi_documented :: "('m, 'h) ffi_port \<Rightarrow> bool" where
  "ffi_documented fp \<longleftrightarrow>
     (\<forall>h. finite (dom h) \<longrightarrow>
        1 < fp_alloc fp h \<and> fp_alloc fp h \<notin> dom h \<and>
        (\<forall>s. if 0 \<in> set s then fp_string_to_c fp s h = None
             else \<exists>r. fp_string_to_c fp s h = Some r \<and> puts_at_fresh (CString s) h r) \<and>
        (\<forall>b. puts_at_fresh b h (fp_into_pointer fp b h))) \<and>
     (\<forall>h p s. h p = Some (CString s) \<longrightarrow> fp_destroy_string fp p h = Some (h(p := None))) \<and>
     (\<forall>h p b. h p = Some b \<longrightarrow> is_boxed b \<longrightarrow> fp_destroy_box fp p h = Some (h(p := None))) \<and>
     0 \<notin> set (snd (fp_panic fp))"

text \<open>\<^verbatim>\<open>Box::into_raw\<close>, \<^verbatim>\<open>Box::from_raw\<close> of an error, and of a slice by address and length.\<close>

definition box_into_raw :: "('m, 'h) ffi_port \<Rightarrow> ('m, 'h) block \<Rightarrow> ('m, 'h) memory \<Rightarrow> nat \<times> ('m, 'h) memory" where
  "box_into_raw fp b h = (fp_alloc fp h, h(fp_alloc fp h \<mapsto> b))"

definition take_error_box :: "nat \<Rightarrow> ('m, 'h) memory \<Rightarrow> (extern_error \<times> ('m, 'h) memory) option" where
  "take_error_box p h = (case h p of Some (ErrorBox e) \<Rightarrow> Some (e, h(p := None)) | _ \<Rightarrow> None)"

definition drop_slice :: "nat \<Rightarrow> nat \<Rightarrow> ('m, 'h) memory \<Rightarrow> ('m, 'h) memory option" where
  "drop_slice p len h =
     (if p = 0 then None
      else if len = 0 then Some h
      else case h p of
          Some (BytesBox bytes) \<Rightarrow> if length bytes = len then Some (h(p := None)) else None
        | _ \<Rightarrow> None)"

subsection \<open>Events\<close>

definition SYNTH_EVENT_SPEECH :: int where "SYNTH_EVENT_SPEECH = 0"
definition SYNTH_EVENT_FINISHED :: int where "SYNTH_EVENT_FINISHED = 1"
definition SYNTH_EVENT_ERROR :: int where "SYNTH_EVENT_ERROR = 2"

record synthesis_event =
  se_event_type :: int
  se_error_ptr :: nat
  se_len :: int
  se_data :: nat

text \<open>
  A box of no bytes allocates nothing: its address is the dangling one of \<^verbatim>\<open>u8\<close>, which is 1. A length
  is at most \<^verbatim>\<open>isize::MAX\<close>, so the casts to \<^verbatim>\<open>i64\<close> and back keep it.
\<close>

definition leak_bytes ::
  "('m, 'h) ffi_port \<Rightarrow> byte list \<Rightarrow> ('m, 'h) memory \<Rightarrow> (int \<times> nat) \<times> ('m, 'h) memory" where
  "leak_bytes fp bytes h =
     (if bytes = [] then ((0, 1), h)
      else case box_into_raw fp (BytesBox bytes) h of (p, h') \<Rightarrow> ((int (length bytes), p), h'))"

definition new_error ::
  "('m, 'h) ffi_port \<Rightarrow> ffi_error \<Rightarrow> ('m, 'h) memory \<Rightarrow> (extern_error \<times> ('m, 'h) memory) option" where
  "new_error fp e h =
     map_option (\<lambda>(p, h'). (\<lparr>ee_code = fst e, ee_message = p\<rparr>, h')) (fp_string_to_c fp (snd e) h)"

definition with_speech ::
  "('m, 'h) ffi_port \<Rightarrow> byte list \<Rightarrow> ('m, 'h) memory \<Rightarrow> synthesis_event \<times> ('m, 'h) memory" where
  "with_speech fp speech h =
     (case leak_bytes fp speech h of
        ((len, p), h') \<Rightarrow>
          (\<lparr>se_event_type = SYNTH_EVENT_SPEECH, se_error_ptr = 0, se_len = len, se_data = p\<rparr>, h'))"

definition with_error ::
  "('m, 'h) ffi_port \<Rightarrow> ffi_error \<Rightarrow> ('m, 'h) memory \<Rightarrow> (synthesis_event \<times> ('m, 'h) memory) option" where
  "with_error fp e h =
     (case leak_bytes fp [] h of
        ((len, p), h1) \<Rightarrow>
          map_option (\<lambda>(err, h2).
               case box_into_raw fp (ErrorBox err) h2 of
                  (q, h3) \<Rightarrow>
                    (\<lparr>se_event_type = SYNTH_EVENT_ERROR, se_error_ptr = q, se_len = len, se_data = p\<rparr>, h3))
            (new_error fp e h1))"

definition with_finished ::
  "('m, 'h) ffi_port \<Rightarrow> ('m, 'h) memory \<Rightarrow> synthesis_event \<times> ('m, 'h) memory" where
  "with_finished fp h =
     (case leak_bytes fp [] h of
        ((len, p), h') \<Rightarrow>
          (\<lparr>se_event_type = SYNTH_EVENT_FINISHED, se_error_ptr = 0, se_len = len, se_data = p\<rparr>, h'))"

text \<open>The event that a callback is handed, None when building it panics.\<close>

fun make_event ::
  "('m, 'h) ffi_port \<Rightarrow> synth_event \<Rightarrow> ('m, 'h) memory \<Rightarrow> (synthesis_event \<times> ('m, 'h) memory) option" where
  "make_event fp (SpeechEvent speech) h = Some (with_speech fp speech h)"
| "make_event fp (ErrorEvent e) h = with_error fp e h"
| "make_event fp FinishedEvent h = Some (with_finished fp h)"

text \<open>What the receiver reads of an event.\<close>

definition read_event :: "('m, 'h) memory \<Rightarrow> synthesis_event \<Rightarrow> synth_event option" where
  "read_event h ev =
     (if se_event_type ev = SYNTH_EVENT_SPEECH then
        (if se_len ev = 0 then Some (SpeechEvent [])
         else case h (se_data ev) of
             Some (BytesBox bytes) \<Rightarrow> Some (SpeechEvent (take (nat (se_len ev)) bytes))
           | _ \<Rightarrow> None)
      else if se_event_type ev = SYNTH_EVENT_FINISHED then Some FinishedEvent
      else case h (se_error_ptr ev) of
          Some (ErrorBox e) \<Rightarrow>
            (case h (ee_message e) of Some (CString msg) \<Rightarrow> Some (ErrorEvent (ee_code e, msg)) | _ \<Rightarrow> None)
        | _ \<Rightarrow> None)"

subsection \<open>Release\<close>

definition libdengjenFreeString :: "('m, 'h) ffi_port \<Rightarrow> nat \<Rightarrow> ('m, 'h) memory \<Rightarrow> ('m, 'h) memory option" where
  "libdengjenFreeString fp string_ptr h = fp_destroy_string fp string_ptr h"

definition libdengjenFreePiperSynthConfig ::
  "('m, 'h) ffi_port \<Rightarrow> nat \<Rightarrow> ('m, 'h) memory \<Rightarrow> ('m, 'h) memory option" where
  "libdengjenFreePiperSynthConfig fp synth_config h = fp_destroy_box fp synth_config h"

text \<open>The memory of a voice; what its drop waits for first is in \<open>CapiLifecycle\<close>.\<close>

definition libdengjenUnloadDengjenVoice ::
  "('m, 'h) ffi_port \<Rightarrow> nat \<Rightarrow> ('m, 'h) memory \<Rightarrow> ('m, 'h) memory option" where
  "libdengjenUnloadDengjenVoice fp voice_ptr h = fp_destroy_box fp voice_ptr h"

text \<open>\<^verbatim>\<open>manually_release\<close> of an error destroys its message.\<close>

definition libdengjenFreeSynthesisEvent ::
  "('m, 'h) ffi_port \<Rightarrow> synthesis_event \<Rightarrow> ('m, 'h) memory \<Rightarrow> ('m, 'h) memory option" where
  "libdengjenFreeSynthesisEvent fp event h =
     Option.bind (drop_slice (se_data event) (nat (se_len event)) h) (\<lambda>h.
       if se_error_ptr event = 0 then Some h
       else Option.bind (take_error_box (se_error_ptr event) h) (\<lambda>(e, h).
         fp_destroy_string fp (ee_message e) h))"

definition libdengjenSttFreeString ::
  "('m, 'h) ffi_port \<Rightarrow> nat \<Rightarrow> ('m, 'h) memory \<Rightarrow> ('m, 'h) memory option" where
  "libdengjenSttFreeString fp string_ptr h = fp_destroy_string fp string_ptr h"

definition libdengjenSttUnload ::
  "('m, 'h) ffi_port \<Rightarrow> nat \<Rightarrow> ('m, 'h) memory \<Rightarrow> ('m, 'h) memory option" where
  "libdengjenSttUnload fp recognizer h = fp_destroy_box fp recognizer h"

subsection \<open>Calls\<close>

text \<open>\<^verbatim>\<open>libdengjenLoadVoiceFromConfigPath\<close>, as an answer still to be put into memory.\<close>

definition libdengjenLoadVoiceFromConfigPath ::
  "(path \<Rightarrow> str option) \<Rightarrow> bool \<Rightarrow> (path \<Rightarrow> 'm dengjen_result) \<Rightarrow> str option \<Rightarrow> ort_state
     \<Rightarrow> ort_state \<times> ('m option \<times> ffi_error option)" where
  "libdengjenLoadVoiceFromConfigPath load_fails commits load config_path_ptr s =
     (case capi_load_voice load_fails commits load config_path_ptr s of
        (s', r) \<Rightarrow> (s', call_with_result None (res_map Some r)))"

text \<open>
  What a call with an answer \<open>x\<close> and an error leaves: a pointer, null without an answer, or the error in
  the caller's \<^verbatim>\<open>out_error\<close>, whose message is the caller's to free. Both are made inside the
  \<^verbatim>\<open>catch_unwind\<close> of \<^verbatim>\<open>call_with_result\<close>, so that a panic of the conversion (None) becomes the error of the
  call.
\<close>

definition answer_pointer ::
  "('a \<Rightarrow> ('m, 'h) memory \<Rightarrow> (nat \<times> ('m, 'h) memory) option) \<Rightarrow> 'a option \<Rightarrow> ('m, 'h) memory
     \<Rightarrow> (nat \<times> ('m, 'h) memory) option" where
  "answer_pointer into x h = (case x of None \<Rightarrow> Some (0, h) | Some a \<Rightarrow> into a h)"

definition call_outcome ::
  "('m, 'h) ffi_port \<Rightarrow> ('a \<Rightarrow> ('m, 'h) memory \<Rightarrow> (nat \<times> ('m, 'h) memory) option)
     \<Rightarrow> 'a option \<times> ffi_error option \<Rightarrow> ('m, 'h) memory \<Rightarrow> (extern_error \<times> nat \<times> ('m, 'h) memory) option" where
  "call_outcome fp into answer h =
     (case snd answer of
        None \<Rightarrow>
          map_option (\<lambda>(p, h'). (\<lparr>ee_code = 0, ee_message = 0\<rparr>, p, h')) (answer_pointer into (fst answer) h)
      | Some e \<Rightarrow> map_option (\<lambda>(err, h'). (err, 0, h')) (new_error fp e h))"

definition out_error ::
  "('m, 'h) ffi_port \<Rightarrow> ('a \<Rightarrow> ('m, 'h) memory \<Rightarrow> (nat \<times> ('m, 'h) memory) option)
     \<Rightarrow> 'a option \<times> ffi_error option \<Rightarrow> ('m, 'h) memory \<Rightarrow> (extern_error \<times> nat \<times> ('m, 'h) memory) option" where
  "out_error fp into answer h =
     (case call_outcome fp into answer h of
        None \<Rightarrow> map_option (\<lambda>(err, h'). (err, 0, h')) (new_error fp (fp_panic fp) h)
      | Some r \<Rightarrow> Some r)"

datatype handle =
    EventHandle synthesis_event
  | MessageHandle nat
  | VoiceHandle nat
  | ConfigHandle nat
  | RecognizerHandle nat
  | SttTextHandle nat

fun give_back :: "('m, 'h) ffi_port \<Rightarrow> handle \<Rightarrow> ('m, 'h) memory \<Rightarrow> ('m, 'h) memory option" where
  "give_back fp (EventHandle ev) h = libdengjenFreeSynthesisEvent fp ev h"
| "give_back fp (MessageHandle p) h = libdengjenFreeString fp p h"
| "give_back fp (VoiceHandle p) h = libdengjenUnloadDengjenVoice fp p h"
| "give_back fp (ConfigHandle p) h = libdengjenFreePiperSynthConfig fp p h"
| "give_back fp (RecognizerHandle p) h = libdengjenSttUnload fp p h"
| "give_back fp (SttTextHandle p) h = libdengjenSttFreeString fp p h"

text \<open>
  The answers of \<open>Capi\<close> and \<open>Stt\<close> that allocate, an event delivered, any other call (its error alone),
  and giving back the handle at a position.
\<close>

datatype ('m, 'h) host_op =
    LoadVoice "'m option \<times> ffi_error option"
  | GetDefaultConfig "ffi_piper_config option \<times> ffi_error option"
  | LoadRecognizer "'h option \<times> ffi_error option"
  | Recognize "str option \<times> ffi_error option"
  | OtherCall "ffi_error option"
  | Receive synth_event
  | GiveBack nat

record ('m, 'h) host =
  mem :: "('m, 'h) memory"
  holds :: "handle list"

definition pointer_handle :: "(nat \<Rightarrow> handle) \<Rightarrow> nat \<Rightarrow> handle list" where
  "pointer_handle mk p = (if p = 0 then [] else [mk p])"

definition call_answers ::
  "('m, 'h) ffi_port \<Rightarrow> (nat \<Rightarrow> handle) \<Rightarrow> ('a \<Rightarrow> ('m, 'h) memory \<Rightarrow> (nat \<times> ('m, 'h) memory) option)
     \<Rightarrow> 'a option \<times> ffi_error option \<Rightarrow> ('m, 'h) host \<Rightarrow> ('m, 'h) host option" where
  "call_answers fp mk into answer w =
     map_option (\<lambda>(e, p, h).
         \<lparr>mem = h, holds = pointer_handle MessageHandle (ee_message e) @ pointer_handle mk p @ holds w\<rparr>)
       (out_error fp into answer (mem w))"

definition into_pointer ::
  "('m, 'h) ffi_port \<Rightarrow> ('a \<Rightarrow> ('m, 'h) block) \<Rightarrow> 'a \<Rightarrow> ('m, 'h) memory \<Rightarrow> (nat \<times> ('m, 'h) memory) option" where
  "into_pointer fp box a h = Some (fp_into_pointer fp (box a) h)"

text \<open>An event that cannot be built is not delivered: the caller's state stays as it was.\<close>

fun host_step :: "('m, 'h) ffi_port \<Rightarrow> ('m, 'h) host_op \<Rightarrow> ('m, 'h) host \<Rightarrow> ('m, 'h) host option" where
  "host_step fp (LoadVoice answer) w = call_answers fp VoiceHandle (into_pointer fp VoiceBox) answer w"
| "host_step fp (GetDefaultConfig answer) w = call_answers fp ConfigHandle (into_pointer fp ConfigBox) answer w"
| "host_step fp (LoadRecognizer answer) w = call_answers fp RecognizerHandle (into_pointer fp RecognizerBox) answer w"
| "host_step fp (Recognize answer) w = call_answers fp SttTextHandle (fp_string_to_c fp) answer w"
| "host_step fp (OtherCall err) w = call_answers fp VoiceHandle (into_pointer fp VoiceBox) (None, err) w"
| "host_step fp (Receive ev) w =
     (case make_event fp ev (mem w) of
        None \<Rightarrow> Some w
      | Some (e, h) \<Rightarrow> Some \<lparr>mem = h, holds = EventHandle e # holds w\<rparr>)"
| "host_step fp (GiveBack i) w =
     (if i < length (holds w)
      then map_option (\<lambda>h. \<lparr>mem = h, holds = take i (holds w) @ drop (Suc i) (holds w)\<rparr>)
             (give_back fp (holds w ! i) (mem w))
      else Some w)"

fun host_run :: "('m, 'h) ffi_port \<Rightarrow> ('m, 'h) host_op list \<Rightarrow> ('m, 'h) host \<Rightarrow> ('m, 'h) host option" where
  "host_run fp [] w = Some w"
| "host_run fp (op # ops) w = Option.bind (host_step fp op w) (host_run fp ops)"

subsection \<open>Who owns what\<close>

text \<open>The memory a handle stands for, and a list of handles, each with memory of its own.\<close>

definition owns_bytes :: "nat \<Rightarrow> int \<Rightarrow> ('m, 'h) memory \<Rightarrow> bool" where
  "owns_bytes p n m \<longleftrightarrow> p \<noteq> 0 \<and>
     (if n = 0 then m = Map.empty else \<exists>bytes. n = int (length bytes) \<and> m = [p \<mapsto> BytesBox bytes])"

definition owns_error :: "nat \<Rightarrow> ('m, 'h) memory \<Rightarrow> bool" where
  "owns_error p m \<longleftrightarrow>
     (if p = 0 then m = Map.empty
      else \<exists>e s. ee_message e \<noteq> p \<and> m = [ee_message e \<mapsto> CString s, p \<mapsto> ErrorBox e])"

fun owns :: "handle \<Rightarrow> ('m, 'h) memory \<Rightarrow> bool" where
  "owns (EventHandle ev) m \<longleftrightarrow>
     (\<exists>a b. m = a ++ b \<and> dom a \<inter> dom b = {} \<and> owns_bytes (se_data ev) (se_len ev) a \<and> owns_error (se_error_ptr ev) b)"
| "owns (MessageHandle p) m \<longleftrightarrow> (\<exists>s. m = [p \<mapsto> CString s])"
| "owns (VoiceHandle p) m \<longleftrightarrow> (\<exists>v. m = [p \<mapsto> VoiceBox v])"
| "owns (ConfigHandle p) m \<longleftrightarrow> (\<exists>c. m = [p \<mapsto> ConfigBox c])"
| "owns (RecognizerHandle p) m \<longleftrightarrow> (\<exists>r. m = [p \<mapsto> RecognizerBox r])"
| "owns (SttTextHandle p) m \<longleftrightarrow> (\<exists>s. m = [p \<mapsto> CString s])"

fun owned :: "handle list \<Rightarrow> ('m, 'h) memory \<Rightarrow> bool" where
  "owned [] m \<longleftrightarrow> m = Map.empty"
| "owned (x # xs) m \<longleftrightarrow> (\<exists>a b. m = a ++ b \<and> dom a \<inter> dom b = {} \<and> owns x a \<and> owned xs b)"

lemma fresh_pointer:
  assumes "puts_at_fresh b h r"
  obtains p where "r = (p, [p \<mapsto> b] ++ h)" "1 < p" "p \<notin> dom h"
proof -
  from assms obtain p where p: "1 < p" "p \<notin> dom h" "r = (p, h(p \<mapsto> b))" unfolding puts_at_fresh_def by blast
  then have "h(p \<mapsto> b) = [p \<mapsto> b] ++ h" by (auto simp: map_add_def domIff split: option.split)
  with p that show ?thesis by simp
qed

lemma documented:
  assumes "ffi_documented fp" "finite (dom h)"
  shows "fp_string_to_c fp s h = Some r \<Longrightarrow> 0 \<notin> set s \<and> puts_at_fresh (CString s) h r"
    "puts_at_fresh b h (fp_into_pointer fp b h)" "puts_at_fresh b h (box_into_raw fp b h)"
    "fp_string_to_c fp s h = None \<longleftrightarrow> 0 \<in> set s" "0 \<notin> set (snd (fp_panic fp))"
proof -
  have s: "if 0 \<in> set s then fp_string_to_c fp s h = None
      else \<exists>r. fp_string_to_c fp s h = Some r \<and> puts_at_fresh (CString s) h r"
    using assms unfolding ffi_documented_def by blast
  then show "fp_string_to_c fp s h = Some r \<Longrightarrow> 0 \<notin> set s \<and> puts_at_fresh (CString s) h r"
    "fp_string_to_c fp s h = None \<longleftrightarrow> 0 \<in> set s" by (auto split: if_splits)
  show "puts_at_fresh b h (fp_into_pointer fp b h)" "puts_at_fresh b h (box_into_raw fp b h)"
    "0 \<notin> set (snd (fp_panic fp))"
    using assms by (auto simp: ffi_documented_def puts_at_fresh_def box_into_raw_def)
qed

lemma destroyed:
  assumes "ffi_documented fp" "p \<notin> dom b"
  shows "fp_destroy_string fp p ([p \<mapsto> CString s] ++ b) = Some b"
    and "is_boxed x \<Longrightarrow> fp_destroy_box fp p ([p \<mapsto> x] ++ b) = Some b"
proof -
  have b: "([p \<mapsto> x] ++ b) p = Some x" "([p \<mapsto> x] ++ b)(p := None) = b" for x
    using assms(2) by (auto simp: map_add_def domIff split: option.split)
  show "fp_destroy_string fp p ([p \<mapsto> CString s] ++ b) = Some b"
    "is_boxed x \<Longrightarrow> fp_destroy_box fp p ([p \<mapsto> x] ++ b) = Some b"
    using assms(1) b unfolding ffi_documented_def by metis+
qed

lemma bytes_dropped:
  assumes "owns_bytes p n a" "dom a \<inter> dom b = {}"
  shows "drop_slice p (nat n) (a ++ b) = Some b"
proof (cases "n = 0")
  case False
  with assms obtain bytes where "n = int (length bytes)" "a = [p \<mapsto> BytesBox bytes]" "p \<noteq> 0" "bytes \<noteq> []" "p \<notin> dom b"
    by (auto simp: owns_bytes_def)
  then show ?thesis by (auto simp: drop_slice_def map_add_def domIff split: option.splits)
qed (use assms in \<open>simp add: owns_bytes_def drop_slice_def\<close>)

lemma error_dropped:
  assumes "ffi_documented fp" "owns_error p a" "dom a \<inter> dom b = {}" "p \<noteq> 0"
  shows "Option.bind (take_error_box p (a ++ b)) (\<lambda>(e, h). fp_destroy_string fp (ee_message e) h) = Some b"
proof -
  from assms obtain e s where a: "ee_message e \<noteq> p" "a = [ee_message e \<mapsto> CString s, p \<mapsto> ErrorBox e]"
    by (auto simp: owns_error_def)
  with assms(3) have q: "p \<notin> dom b" "ee_message e \<notin> dom b" by auto
  have "take_error_box p (a ++ b) = Some (e, [ee_message e \<mapsto> CString s] ++ b)"
    using a q by (auto simp: take_error_box_def map_add_def domIff split: option.splits)
  with destroyed(1) [OF assms(1) q(2)] show ?thesis by simp
qed

lemma given_back:
  assumes "ffi_documented fp" "owns x a" "dom a \<inter> dom b = {}"
  shows "give_back fp x (a ++ b) = Some b"
proof (cases x)
  case (EventHandle ev)
  with assms(2) obtain c d where a: "a = c ++ d" "dom c \<inter> dom d = {}" "owns_bytes (se_data ev) (se_len ev) c"
    "owns_error (se_error_ptr ev) d" by auto
  then have dis: "dom c \<inter> dom (d ++ b) = {}" "dom d \<inter> dom b = {}" using assms(3) by auto
  have "drop_slice (se_data ev) (nat (se_len ev)) (a ++ b) = Some (d ++ b)"
    using bytes_dropped [OF a(3) dis(1)] a(1) by simp
  then show ?thesis
    using error_dropped [OF assms(1) a(4) dis(2)] a(4) EventHandle
    by (auto simp: libdengjenFreeSynthesisEvent_def owns_error_def)
qed (use assms destroyed [OF assms(1)] in
  \<open>auto simp: libdengjenFreeString_def libdengjenUnloadDengjenVoice_def libdengjenFreePiperSynthConfig_def
     libdengjenSttUnload_def libdengjenSttFreeString_def is_boxed_def\<close>)

lemma owned_one_of:
  "owned hs m \<Longrightarrow> i < length hs \<Longrightarrow>
     \<exists>a b. m = a ++ b \<and> dom a \<inter> dom b = {} \<and> owns (hs ! i) a \<and> owned (take i hs @ drop (Suc i) hs) b"
proof (induction hs arbitrary: m i)
  case (Cons x xs)
  then obtain a b where m: "m = a ++ b" "dom a \<inter> dom b = {}" "owns x a" "owned xs b" by auto
  show ?case
  proof (cases i)
    case 0
    with m show ?thesis by auto
  next
    case (Suc j)
    with Cons.prems(2) Cons.IH [OF m(4), of j] obtain c d where b: "b = c ++ d" "dom c \<inter> dom d = {}"
      "owns (xs ! j) c" "owned (take j xs @ drop (Suc j) xs) d" by auto
    have dis: "dom a \<inter> dom c = {}" "dom c \<inter> dom (a ++ d) = {}" "dom a \<inter> dom d = {}" using m(2) b(1,2) by auto
    have "m = c ++ (a ++ d)" using m(1) b(1) map_add_comm [OF dis(1)] by simp
    with Suc m(3) b(3,4) dis(2,3) show ?thesis by (intro exI [of _ c] exI [of _ "a ++ d"]) auto
  qed
qed simp

lemma owned_append:
  "owned xs a \<Longrightarrow> owned ys b \<Longrightarrow> dom a \<inter> dom b = {} \<Longrightarrow> owned (xs @ ys) (a ++ b)"
proof (induction xs arbitrary: a)
  case (Cons x xs)
  then obtain c d where a: "a = c ++ d" "dom c \<inter> dom d = {}" "owns x c" "owned xs d" by auto
  with Cons.prems(3) have dis: "dom d \<inter> dom b = {}" "dom c \<inter> dom (d ++ b) = {}" by auto
  from Cons.IH [OF a(4) Cons.prems(2) dis(1)] a dis(2) show ?case
    unfolding append_Cons owned.simps by (intro exI [of _ c] exI [of _ "d ++ b"]) simp
qed simp

subsection \<open>What the calls leave\<close>

text \<open>New handles, their memory, and everything else as it was.\<close>

definition grows :: "('m, 'h) memory \<Rightarrow> ('m, 'h) memory \<Rightarrow> handle list \<Rightarrow> bool" where
  "grows h h' hs \<longleftrightarrow> (\<exists>a. h' = a ++ h \<and> dom a \<inter> dom h = {} \<and> finite (dom a) \<and> owned hs a)"

lemma grows_nothing: "grows h h []"
  by (simp add: grows_def)

lemma grows_more:
  assumes "grows h h1 xs" "grows h1 h2 ys"
  shows "grows h h2 (ys @ xs)"
proof -
  from assms obtain a b where h: "h1 = a ++ h" "dom a \<inter> dom h = {}" "finite (dom a)" "owned xs a"
    "h2 = b ++ h1" "dom b \<inter> dom h1 = {}" "finite (dom b)" "owned ys b" unfolding grows_def by blast
  then have "dom b \<inter> dom a = {}" by auto
  from owned_append [OF h(8,4) this] h show ?thesis unfolding grows_def by (intro exI [of _ "b ++ a"]) auto
qed

lemma grows_finite: "grows h h' hs \<Longrightarrow> finite (dom h) \<Longrightarrow> finite (dom h')"
  by (auto simp: grows_def)

lemma pointer_grows:
  assumes "puts_at_fresh b h (p, h')" "\<And>p. owns (mk p) [p \<mapsto> b]"
  shows "grows h h' (pointer_handle mk p)"
proof -
  obtain q where "(p, h') = (q, [q \<mapsto> b] ++ h)" "1 < q" "q \<notin> dom h" using fresh_pointer [OF assms(1)] by blast
  with assms(2) show ?thesis
    unfolding grows_def by (intro exI [of _ "[q \<mapsto> b]"]) (auto simp: pointer_handle_def)
qed

lemma error_grows:
  assumes "ffi_documented fp" "finite (dom h)" "new_error fp err h = Some (e, h')"
  shows "grows h h' (pointer_handle MessageHandle (ee_message e))"
proof -
  from assms(3) have "fp_string_to_c fp (snd err) h = Some (ee_message e, h')"
    by (auto simp: new_error_def)
  with documented(1) [OF assms(1,2)] show ?thesis
    using pointer_grows [of "CString (snd err)" h "ee_message e" h' MessageHandle] by auto
qed

lemma panic_reported:
  assumes "ffi_documented fp" "finite (dom h)"
  shows "\<exists>e h'. new_error fp (fp_panic fp) h = Some (e, h')"
proof -
  have "fp_string_to_c fp (snd (fp_panic fp)) h \<noteq> None" using documented(4,5) [OF assms] by blast
  then show ?thesis by (auto simp: new_error_def)
qed

text \<open>A call leaves what its handles stand for: an answer, an error, or the report of a panic.\<close>

lemma outcome_grows:
  assumes "ffi_documented fp" "finite (dom h)" "call_outcome fp into answer h = Some (e, p, h')"
    "\<And>a r. into a h = Some r \<Longrightarrow> puts_at_fresh (box a) h r" "\<And>p a. owns (mk p) [p \<mapsto> box a]"
  shows "grows h h' (pointer_handle MessageHandle (ee_message e) @ pointer_handle mk p)"
proof (cases "snd answer")
  case None
  with assms(3) have e: "answer_pointer into (fst answer) h = Some (p, h')" "ee_message e = 0"
    by (auto simp: call_outcome_def)
  show ?thesis
  proof (cases "fst answer")
    case (Some a)
    with e have "into a h = Some (p, h')" by (simp add: answer_pointer_def)
    then have "puts_at_fresh (box a) h (p, h')" by (rule assms(4))
    from pointer_grows [OF this assms(5)] e(2) show ?thesis by (simp add: pointer_handle_def)
  qed (use e in \<open>auto simp: answer_pointer_def pointer_handle_def grows_nothing\<close>)
next
  case (Some er)
  with assms(3) have "new_error fp er h = Some (e, h')" "p = 0" by (auto simp: call_outcome_def)
  with error_grows [OF assms(1,2), of er e h'] show ?thesis by (simp add: pointer_handle_def)
qed

lemma call_grows:
  assumes "ffi_documented fp" "finite (dom (mem w))"
    "\<And>a h r. finite (dom h) \<Longrightarrow> into a h = Some r \<Longrightarrow> puts_at_fresh (box a) h r" "\<And>p a. owns (mk p) [p \<mapsto> box a]"
  shows "\<exists>w' hs. call_answers fp mk into answer w = Some w' \<and> grows (mem w) (mem w') hs \<and> holds w' = hs @ holds w"
proof (cases "call_outcome fp into answer (mem w)")
  case None
  obtain e h' where e: "new_error fp (fp_panic fp) (mem w) = Some (e, h')"
    using panic_reported [OF assms(1,2)] by blast
  from error_grows [OF assms(1,2) e] None e show ?thesis
    by (auto simp: call_answers_def out_error_def pointer_handle_def)
next
  case (Some r)
  obtain e p h' where r: "r = (e, p, h')" by (cases r)
  from outcome_grows [where box = box and mk = mk, OF assms(1,2) Some [unfolded r] assms(3) [OF assms(2)] assms(4)] Some r show ?thesis
    by (auto simp: call_answers_def out_error_def)
qed

lemma event_grows:
  assumes fp: "ffi_documented fp" and fin: "finite (dom h)" and ev: "make_event fp ev h = Some (e, h')"
  shows "grows h h' [EventHandle e] \<and> read_event h' e = Some ev"
proof (cases ev)
  case (SpeechEvent speech)
  show ?thesis
  proof (cases "speech = []")
    case True
    with SpeechEvent ev show ?thesis
      by (auto simp: with_speech_def leak_bytes_def grows_def owns_bytes_def owns_error_def read_event_def
          SYNTH_EVENT_SPEECH_def)
  next
    case False
    obtain p where "box_into_raw fp (BytesBox speech) h = (p, [p \<mapsto> BytesBox speech] ++ h)" "1 < p" "p \<notin> dom h"
      using fresh_pointer [OF documented(3) [OF fp fin]] by metis
    then have m: "e = \<lparr>se_event_type = SYNTH_EVENT_SPEECH, se_error_ptr = 0, se_len = int (length speech), se_data = p\<rparr>"
      "h' = [p \<mapsto> BytesBox speech] ++ h" "1 < p" "p \<notin> dom h"
      using SpeechEvent ev False by (auto simp: with_speech_def leak_bytes_def)
    have "owns (EventHandle e) [p \<mapsto> BytesBox speech]"
      using m False by (auto simp: owns_bytes_def owns_error_def)
    then have "grows h h' [EventHandle e]"
      unfolding grows_def using m by (intro exI [of _ "[p \<mapsto> BytesBox speech]"]) auto
    moreover have "h' p = Some (BytesBox speech)" using m by (auto simp: map_add_def domIff split: option.split)
    ultimately show ?thesis using m(1) SpeechEvent False by (simp add: read_event_def SYNTH_EVENT_SPEECH_def)
  qed
next
  case (ErrorEvent er)
  from ev ErrorEvent obtain r where r: "fp_string_to_c fp (snd er) h = Some r"
    by (auto simp: with_error_def new_error_def leak_bytes_def)
  then have "puts_at_fresh (CString (snd er)) h r" using documented(1) [OF fp fin] by blast
  then obtain p where "r = (p, [p \<mapsto> CString (snd er)] ++ h)" "1 < p" "p \<notin> dom h" by (rule fresh_pointer)
  with r have p: "fp_string_to_c fp (snd er) h = Some (p, [p \<mapsto> CString (snd er)] ++ h)" "1 < p" "p \<notin> dom h" by simp_all
  let ?e = "\<lparr>ee_code = fst er, ee_message = p\<rparr>"
  have "finite (dom ([p \<mapsto> CString (snd er)] ++ h))" using fin by simp
  from fresh_pointer [OF documented(3) [OF fp this, of "ErrorBox ?e"]] obtain q where
    q: "box_into_raw fp (ErrorBox ?e) ([p \<mapsto> CString (snd er)] ++ h) =
        (q, [q \<mapsto> ErrorBox ?e] ++ ([p \<mapsto> CString (snd er)] ++ h))"
      "1 < q" "q \<notin> dom ([p \<mapsto> CString (snd er)] ++ h)" by blast
  let ?m = "[p \<mapsto> CString (snd er), q \<mapsto> ErrorBox ?e]"
  have "q \<noteq> p" "h q = None" using q(3) by (auto simp: map_add_def domIff split: option.splits)
  then have "[q \<mapsto> ErrorBox ?e] ++ ([p \<mapsto> CString (snd er)] ++ h) = ?m ++ h"
    by (intro ext) (auto simp: map_add_def domIff split: option.split)
  then have m: "e = \<lparr>se_event_type = SYNTH_EVENT_ERROR, se_error_ptr = q, se_len = 0, se_data = 1\<rparr>" "h' = ?m ++ h"
    using ev ErrorEvent p(1) q(1) by (auto simp: with_error_def leak_bytes_def new_error_def)
  have "owns (EventHandle e) ?m"
    using q p m(1)
    by (auto simp: owns_bytes_def owns_error_def intro!: exI [of _ Map.empty] exI [of _ ?m] exI [of _ ?e] exI [of _ "snd er"])
  then have "grows h h' [EventHandle e]"
    unfolding grows_def using p q m(2) by (intro exI [of _ ?m]) auto
  moreover have "read_event h' e = Some ev"
    using p q m ErrorEvent
    by (auto simp: read_event_def SYNTH_EVENT_ERROR_def SYNTH_EVENT_SPEECH_def SYNTH_EVENT_FINISHED_def map_add_def domIff
        split: option.splits)
  ultimately show ?thesis ..
next
  case FinishedEvent
  with ev show ?thesis
    by (auto simp: with_finished_def leak_bytes_def grows_def owns_bytes_def owns_error_def read_event_def
        SYNTH_EVENT_SPEECH_def SYNTH_EVENT_FINISHED_def)
qed

subsection \<open>Nothing leaks\<close>

definition host_inv :: "('m, 'h) memory \<Rightarrow> ('m, 'h) host \<Rightarrow> bool" where
  "host_inv h0 w \<longleftrightarrow> finite (dom (mem w)) \<and>
     (\<exists>m. mem w = m ++ h0 \<and> dom m \<inter> dom h0 = {} \<and> owned (holds w) m)"

lemma host_inv_grows:
  assumes "host_inv h0 w" "grows (mem w) h' hs"
  shows "host_inv h0 \<lparr>mem = h', holds = hs @ holds w\<rparr>"
proof -
  from assms obtain m a where m: "mem w = m ++ h0" "dom m \<inter> dom h0 = {}" "owned (holds w) m" "finite (dom (mem w))"
    and a: "h' = a ++ mem w" "dom a \<inter> dom (mem w) = {}" "finite (dom a)" "owned hs a"
    unfolding host_inv_def grows_def by blast
  then have "dom a \<inter> dom m = {}" by auto
  from owned_append [OF a(4) m(3) this] m a show ?thesis
    unfolding host_inv_def by (auto intro!: exI [of _ "a ++ m"])
qed

lemma host_inv_call:
  assumes "ffi_documented fp" "host_inv h0 w"
    "\<And>a h r. finite (dom h) \<Longrightarrow> into a h = Some r \<Longrightarrow> puts_at_fresh (box a) h r" "\<And>p a. owns (mk p) [p \<mapsto> box a]"
  shows "\<exists>w'. call_answers fp mk into answer w = Some w' \<and> host_inv h0 w'"
proof -
  have "finite (dom (mem w))" using assms(2) by (simp add: host_inv_def)
  from call_grows [where box = box and into = into and mk = mk and answer = answer, OF assms(1) this assms(3,4)]
  obtain w' hs where w': "call_answers fp mk into answer w = Some w'" "grows (mem w) (mem w') hs" "holds w' = hs @ holds w"
    by blast
  from host_inv_grows [OF assms(2) w'(2)] w'(3) have "host_inv h0 w'" by (metis host.surjective old.unit.exhaust)
  with w'(1) show ?thesis by blast
qed

lemma host_inv_box:
  assumes "ffi_documented fp" "host_inv h0 w" "\<And>p a. owns (mk p) [p \<mapsto> box a]"
  shows "\<exists>w'. call_answers fp mk (into_pointer fp box) answer w = Some w' \<and> host_inv h0 w'"
proof (rule host_inv_call [where box = box, OF assms(1,2) _ assms(3)])
  fix a h r
  assume "finite (dom h)" "into_pointer fp box a h = Some r"
  then show "puts_at_fresh (box a) h r" using documented(2) [OF assms(1)] by (auto simp: into_pointer_def)
qed

lemma owns_new:
  "owns (VoiceHandle p) [p \<mapsto> VoiceBox v]" "owns (ConfigHandle p) [p \<mapsto> ConfigBox c]"
  "owns (RecognizerHandle p) [p \<mapsto> RecognizerBox r]" "owns (SttTextHandle p) [p \<mapsto> CString s]"
  by auto

lemma host_step_inv:
  assumes fp: "ffi_documented fp" and inv: "host_inv h0 w"
  shows "\<exists>w'. host_step fp op w = Some w' \<and> host_inv h0 w'"
proof (cases op)
  case (Receive ev)
  show ?thesis
  proof (cases "make_event fp ev (mem w)")
    case (Some r)
    obtain e h where r: "r = (e, h)" by (cases r)
    have "finite (dom (mem w))" using inv by (simp add: host_inv_def)
    from event_grows [OF fp this Some [unfolded r]] host_inv_grows [OF inv, of h "[EventHandle e]"] Receive Some r
    show ?thesis by simp
  qed (use Receive inv in simp)
next
  case (GiveBack i)
  show ?thesis
  proof (cases "i < length (holds w)")
    case True
    from inv obtain m where m: "mem w = m ++ h0" "dom m \<inter> dom h0 = {}" "owned (holds w) m" "finite (dom (mem w))"
      by (auto simp: host_inv_def)
    from owned_one_of [OF m(3) True] obtain a b where a: "m = a ++ b" "dom a \<inter> dom b = {}" "owns (holds w ! i) a"
      "owned (take i (holds w) @ drop (Suc i) (holds w)) b" by blast
    have "dom a \<inter> dom (b ++ h0) = {}" using m(2) a(1,2) by auto
    from given_back [OF fp a(3) this] m(1) a(1) have "give_back fp (holds w ! i) (mem w) = Some (b ++ h0)" by simp
    with GiveBack True m a show ?thesis by (auto simp: host_inv_def)
  qed (use GiveBack inv in simp)
next
  case (LoadVoice answer)
  with host_inv_box [OF fp inv owns_new(1)] show ?thesis by simp
next
  case (GetDefaultConfig answer)
  with host_inv_box [OF fp inv owns_new(2)] show ?thesis by simp
next
  case (LoadRecognizer answer)
  with host_inv_box [OF fp inv owns_new(3)] show ?thesis by simp
next
  case (Recognize answer)
  have "\<exists>w'. call_answers fp SttTextHandle (fp_string_to_c fp) answer w = Some w' \<and> host_inv h0 w'"
    by (rule host_inv_call [OF fp inv _ owns_new(4)]) (use documented(1) [OF fp] in blast)
  with Recognize show ?thesis by simp
next
  case (OtherCall err)
  with host_inv_box [OF fp inv owns_new(1)] show ?thesis by simp
qed

lemma host_run_inv:
  "ffi_documented fp \<Longrightarrow> host_inv h0 w \<Longrightarrow> \<exists>w'. host_run fp ops w = Some w' \<and> host_inv h0 w'"
proof (induction ops arbitrary: w)
  case (Cons op ops)
  from host_step_inv [OF Cons.prems, of op] obtain w1 where "host_step fp op w = Some w1" "host_inv h0 w1" by blast
  with Cons.IH [OF Cons.prems(1)] show ?case by simp
qed simp

text \<open>
  \<^bold>\<open>C11\<close>: the memory of both C interfaces is the caller's to give back, and giving it back is enough.
  Whatever calls a caller makes, whatever texts and messages they answer with, whatever events it takes, and in whatever order it gives back what it
  holds, each handle once and to its own function, no release ever touches memory that is not there;
  memory that was in use before stays as it was; and once nothing is held, everything that the
  libraries allocated is free again.
\<close>

theorem c_handles_leak_nothing:
  assumes "ffi_documented fp" "finite (dom h0)"
  shows "\<exists>w. host_run fp ops \<lparr>mem = h0, holds = []\<rparr> = Some w \<and> (\<forall>p \<in> dom h0. mem w p = h0 p) \<and>
    (holds w = [] \<longrightarrow> mem w = h0)"
proof -
  have "host_inv h0 \<lparr>mem = h0, holds = []\<rparr>" using assms(2) by (simp add: host_inv_def)
  from host_run_inv [OF assms(1) this] obtain w where w: "host_run fp ops \<lparr>mem = h0, holds = []\<rparr> = Some w" "host_inv h0 w"
    by blast
  then show ?thesis
    by (auto simp: host_inv_def map_add_def domIff intro!: exI [of _ w] split: option.split)
qed

text \<open>An allocator that takes the first address above all others.\<close>

definition next_address :: "('m, 'h) memory \<Rightarrow> nat" where
  "next_address h = Suc (Max (insert 1 (dom h)))"

definition demo_port :: "('m, 'h) ffi_port" where
  "demo_port =
     \<lparr>fp_alloc = next_address,
      fp_string_to_c = (\<lambda>s h. if 0 \<in> set s then None else Some (next_address h, h(next_address h \<mapsto> CString s))),
      fp_destroy_string = (\<lambda>p h. case h p of Some (CString _) \<Rightarrow> Some (h(p := None)) | _ \<Rightarrow> None),
      fp_into_pointer = (\<lambda>b h. (next_address h, h(next_address h \<mapsto> b))),
      fp_destroy_box = (\<lambda>p h. case h p of Some b \<Rightarrow> if is_boxed b then Some (h(p := None)) else None | _ \<Rightarrow> None),
      fp_panic = (-1, lit ''panic'')\<rparr>"

lemma next_address_unused: "finite (dom h) \<Longrightarrow> 1 < next_address h \<and> next_address h \<notin> dom h"
proof
  assume f: "finite (dom h)"
  then have "1 \<le> Max (insert 1 (dom h))" by (intro Max_ge) auto
  then show "1 < next_address h" by (simp add: next_address_def)
  show "next_address h \<notin> dom h"
  proof
    assume "next_address h \<in> dom h"
    with f have "next_address h \<le> Max (insert 1 (dom h))" by (intro Max_ge) auto
    then show False by (simp add: next_address_def)
  qed
qed

lemma demo_port_documented: "ffi_documented demo_port"
  unfolding ffi_documented_def demo_port_def puts_at_fresh_def using next_address_unused by auto

theorem c_handles_leak_nothing_witness:
  "\<exists>w. host_run (demo_port :: (unit, unit) ffi_port)
       [Receive (SpeechEvent [1, 2]), Receive (ErrorEvent (19, lit ''no'')), GiveBack 1, GiveBack 0]
       \<lparr>mem = Map.empty, holds = []\<rparr> = Some w \<and> mem w = Map.empty"
proof -
  let ?ops = "[Receive (SpeechEvent [1, 2]), Receive (ErrorEvent (19, lit ''no'')), GiveBack 1, GiveBack 0]
    :: (unit, unit) host_op list"
  obtain w where w: "host_run (demo_port :: (unit, unit) ffi_port) ?ops \<lparr>mem = Map.empty, holds = []\<rparr> = Some w"
    "holds w = [] \<longrightarrow> mem w = Map.empty"
    using c_handles_leak_nothing [OF demo_port_documented, of Map.empty ?ops] by auto
  have "0 \<notin> set (lit ''no'')" by simp
  then have "holds w = []"
    using w(1) by (auto simp: Option.bind_eq_Some_conv with_error_def new_error_def demo_port_def split: prod.splits)
  with w show ?thesis by blast
qed

text \<open>
  An event is read as what was sent, and freeing it restores the memory exactly. The rule is sharp: a
  speech event freed twice is undefined behaviour; only an event without bytes or error may be freed
  again.
\<close>

lemma event_round_trip:
  assumes "ffi_documented fp" "finite (dom h)" "make_event fp ev h = Some (e, h')"
  shows "read_event h' e = Some ev \<and> libdengjenFreeSynthesisEvent fp e h' = Some h"
proof -
  from event_grows [OF assms] obtain a where a: "h' = a ++ h" "dom a \<inter> dom h = {}" "owns (EventHandle e) a"
    "read_event h' e = Some ev" unfolding grows_def owned.simps by (metis inf_bot_right map_add_empty dom_empty)
  with given_back [OF assms(1) a(3,2)] show ?thesis by simp
qed

lemma speech_freed_once:
  "libdengjenFreeSynthesisEvent fp ev h = Some h' \<Longrightarrow> se_error_ptr ev = 0 \<Longrightarrow>
     libdengjenFreeSynthesisEvent fp ev h' = (if 0 < se_len ev then None else Some h')"
  by (auto simp: libdengjenFreeSynthesisEvent_def drop_slice_def Option.bind_eq_Some_conv
      split: if_splits option.splits block.splits)

end
