(* ===== verification/Pydengjen.thy ===== *)
theory Pydengjen
  imports Cli Espeak
begin

section \<open>The Python interface\<close>

text \<open>
  \<^verbatim>\<open>crates/frontends/python/src/lib.rs\<close>: exceptions, the settings of a voice, the iterators over the
  audio of a request, phonemization. A method that changes its voice returns the changed voice. The
  interpreter holds its global lock during a setter, so a setter's reads and writes are one step. The
  theorems show that a \<^verbatim>\<open>for\<close> loop over a request ends with the audio of its sentences or with the
  exception of the first one that failed, in every mode, and that a voice's settings read back.
\<close>

subsection \<open>Exceptions\<close>

datatype py_exception =
    PyDengjenException | PyResourceLoadError | PyPhonemizationError | PyInferenceError
  | PyInvalidConfigurationError | PyUnsupportedOperationError

type_synonym py_error = "py_exception \<times> str"
type_synonym 'a py_result = "py_error + 'a"

definition py_err :: "dengjen_error \<Rightarrow> py_error" where
  "py_err e =
     ((case kind e of
         FailedToLoadResource _ \<Rightarrow> PyResourceLoadError
       | PhonemizationError _ \<Rightarrow> PyPhonemizationError
       | InferenceError _ \<Rightarrow> PyInferenceError
       | InvalidConfiguration _ \<Rightarrow> PyInvalidConfigurationError
       | UnsupportedOperation _ \<Rightarrow> PyUnsupportedOperationError
       | _ \<Rightarrow> PyDengjenException), display_error e @ cause_chain e)"

abbreviation py_lift :: "'a dengjen_result \<Rightarrow> 'a py_result" where
  "py_lift \<equiv> res_map_err py_err"

text \<open>Every exception class but the base one names a kind of error; the base class collects the rest.\<close>

fun py_base :: "py_exception \<Rightarrow> py_exception option" where
  "py_base PyDengjenException = None"
| "py_base _ = Some PyDengjenException"

subsection \<open>Iterators\<close>

text \<open>
  One call of \<^verbatim>\<open>__next__\<close>: an item, the end (\<open>Inr None\<close>, which Python sees as \<^verbatim>\<open>StopIteration\<close>) or
  an exception, and the stream afterwards. A loop collects the items until the end or an exception.
\<close>

definition next_detached ::
  "('s \<Rightarrow> ('a dengjen_result \<times> 's) option) \<Rightarrow> 's \<Rightarrow> 'a option py_result \<times> 's" where
  "next_detached next_item s =
     (case next_item s of
        None \<Rightarrow> (Inr None, s)
      | Some (r, s') \<Rightarrow> (res_map Some (py_lift r), s'))"

partial_function (option) py_for ::
  "('s \<Rightarrow> ('a dengjen_result \<times> 's) option) \<Rightarrow> 's \<Rightarrow> 'a list \<Rightarrow> ('a list \<times> py_error option) option" where
  "py_for next_item s seen =
     (case next_detached next_item s of
        (Inl e, s') \<Rightarrow> Some (seen, Some e)
      | (Inr None, s') \<Rightarrow> Some (seen, None)
      | (Inr (Some x), s') \<Rightarrow> py_for next_item s' (seen @ [x]))"

text \<open>What a loop over these results sees.\<close>

fun loop_result :: "'a dengjen_result list \<Rightarrow> 'a list \<Rightarrow> 'a list \<times> py_error option" where
  "loop_result [] seen = (seen, None)"
| "loop_result (Inl e # rs) seen = (seen, Some (py_err e))"
| "loop_result (Inr x # rs) seen = loop_result rs (seen @ [x])"

text \<open>The waveform a loop over a realtime stream receives is the bytes of its samples.\<close>

definition realtime_bytes ::
  "('s \<Rightarrow> (samples dengjen_result \<times> 's) option) \<Rightarrow> 's \<Rightarrow> (byte list dengjen_result \<times> 's) option" where
  "realtime_bytes next_item s = map_option (\<lambda>(r, s'). (res_map as_wave_bytes r, s')) (next_item s)"

subsection \<open>The synthesizer object\<close>

record ('m, 's) py_env =
  py_backend :: "'m backend"
  py_name_to_id :: "'m \<Rightarrow> str \<Rightarrow> int option dengjen_result"
  py_id_to_name :: "'m \<Rightarrow> int \<Rightarrow> str option dengjen_result"
  py_source :: "'m \<Rightarrow> str \<Rightarrow> nat \<Rightarrow> nat \<Rightarrow> chunk_source"
  py_sonic :: "'s sonic"
  py_sin32 :: "f32 \<Rightarrow> f32"
  py_pool :: "unit dengjen_result"
  py_default_batch_size :: nat

definition py_provider ::
  "('m, 's) py_env \<Rightarrow> 'm \<Rightarrow> str \<Rightarrow> audio_output_config option \<Rightarrow> 's task_provider" where
  "py_provider env m s cfg =
     \<lparr>model = be_model (py_backend env) m, text_input = s, output_config = cfg,
      sonic_port = py_sonic env, sin32 = py_sin32 env\<rparr>"

definition py_synthesize_lazy ::
  "('m, 's) py_env \<Rightarrow> 'm \<Rightarrow> str \<Rightarrow> audio_output_config option \<Rightarrow> 's lazy_stream py_result" where
  "py_synthesize_lazy env m s cfg = py_lift (lazy_new (py_provider env m s cfg))"

definition py_synthesize ::
  "('m, 's) py_env \<Rightarrow> 'm \<Rightarrow> str \<Rightarrow> audio_output_config option \<Rightarrow> 's lazy_stream py_result" where
  "py_synthesize env m s cfg = py_synthesize_lazy env m s cfg"

definition py_synthesize_parallel ::
  "('m, 's) py_env \<Rightarrow> 'm \<Rightarrow> str \<Rightarrow> audio_output_config option \<Rightarrow> parallel_stream py_result" where
  "py_synthesize_parallel env m s cfg = py_lift (parallel_new (py_pool env) (py_provider env m s cfg))"

definition py_synthesize_batched ::
  "('m, 's) py_env \<Rightarrow> 'm \<Rightarrow> str \<Rightarrow> audio_output_config option \<Rightarrow> nat option \<Rightarrow> 's batched_stream py_result" where
  "py_synthesize_batched env m s cfg size_opt =
     res_bind
       (case size_opt of
          None \<Rightarrow> Inr (py_default_batch_size env)
        | Some n \<Rightarrow>
            if n = 0
            then Inl (py_err (InvalidConfiguration (lit ''batch_size must be greater than zero'')))
            else Inr n)
       (\<lambda>n. py_lift (batched_new (py_provider env m s cfg) n))"

definition py_synthesize_streamed ::
  "('m, 's) py_env \<Rightarrow> 'm \<Rightarrow> str \<Rightarrow> audio_output_config option \<Rightarrow> nat option \<Rightarrow> nat option
     \<Rightarrow> (rt_request \<times> rt_state) py_result" where
  "py_synthesize_streamed env m s cfg chunk_size chunk_padding =
     py_lift (synthesize_streamed (py_pool env) (py_source env m) (py_provider env m s cfg)
       (unwrap_or 45 chunk_size) (unwrap_or 3 chunk_padding))"

definition py_synthesize_to_file ::
  "('m, 's) py_env \<Rightarrow> 'w riff \<Rightarrow> io_faults \<Rightarrow> nat \<Rightarrow> 'm \<Rightarrow> path \<Rightarrow> str \<Rightarrow> audio_output_config option
     \<Rightarrow> save_world \<Rightarrow> save_world \<times> unit py_result" where
  "py_synthesize_to_file env rf io pid m filename s cfg disk =
     (case synthesize_to_file (py_pool env) rf io pid filename (py_provider env m s cfg) disk of
        (disk', r) \<Rightarrow> (disk', py_lift r))"

definition py_save_to_file ::
  "'w riff \<Rightarrow> io_faults \<Rightarrow> nat \<Rightarrow> path \<Rightarrow> audio \<Rightarrow> save_world \<Rightarrow> save_world \<times> unit py_result" where
  "py_save_to_file rf io pid filename a disk =
     (case save_to_file rf io pid filename a disk of
        (disk', r) \<Rightarrow> (disk', res_map_err (\<lambda>e. py_err (wave_error e)) r))"

subsection \<open>The settings of a voice\<close>

definition generic_config_or_err :: "('m, 's) py_env \<Rightarrow> 'm \<Rightarrow> synthesis_config py_result" where
  "generic_config_or_err env m =
     res_bind (py_lift (be_fallback (py_backend env) m)) (\<lambda>c.
       ok_or (py_err (InvalidConfiguration
         (lit ''this model has no Piper synthesis config to read or update''))) c)"

definition piper_config_or_err :: "('m, 's) py_env \<Rightarrow> 'm \<Rightarrow> piper_synthesis_config py_result" where
  "piper_config_or_err env m = res_map piper_of_synthesis_config (generic_config_or_err env m)"

definition current_speaker_id :: "('m, 's) py_env \<Rightarrow> 'm \<Rightarrow> int option py_result" where
  "current_speaker_id env m =
     res_map (\<lambda>c. Option.bind c (\<lambda>c. ps_speaker (piper_of_synthesis_config c)))
       (py_lift (be_fallback (py_backend env) m))"

definition py_get_speaker :: "('m, 's) py_env \<Rightarrow> 'm \<Rightarrow> str option py_result" where
  "py_get_speaker env m =
     res_bind (current_speaker_id env m) (\<lambda>sid.
       case sid of None \<Rightarrow> Inr None | Some sid \<Rightarrow> py_lift (py_id_to_name env m sid))"

definition py_set_speaker :: "('m, 's) py_env \<Rightarrow> str \<Rightarrow> 'm \<Rightarrow> 'm py_result" where
  "py_set_speaker env name m =
     res_bind (py_lift (py_name_to_id env m name)) (\<lambda>sid.
       case sid of
         None \<Rightarrow> Inl (py_err (OperationError (lit ''no speaker named '' @ [39] @ name @ [39])))
       | Some sid \<Rightarrow>
           res_bind (generic_config_or_err env m) (\<lambda>c.
             py_lift (be_set_fallback (py_backend env) (c\<lparr>speaker := Some sid\<rparr>) m)))"

record piper_scales =
  sc_length_scale :: f32
  sc_noise_scale :: f32
  sc_noise_w :: f32

definition py_get_scales :: "('m, 's) py_env \<Rightarrow> 'm \<Rightarrow> piper_scales py_result" where
  "py_get_scales env m =
     res_map (\<lambda>c. \<lparr>sc_length_scale = ps_length_scale c, sc_noise_scale = ps_noise_scale c,
                   sc_noise_w = ps_noise_w c\<rparr>)
       (piper_config_or_err env m)"

definition py_set_scales :: "('m, 's) py_env \<Rightarrow> piper_scales \<Rightarrow> 'm \<Rightarrow> 'm py_result" where
  "py_set_scales env sc m =
     res_bind (generic_config_or_err env m) (\<lambda>c.
       py_lift (be_set_fallback (py_backend env)
         (c\<lparr>parameters := (parameters c)(LENGTH_SCALE \<mapsto> sc_length_scale sc,
              NOISE_SCALE \<mapsto> sc_noise_scale sc, NOISE_W \<mapsto> sc_noise_w sc)\<rparr>) m))"

definition py_set_parameters :: "('m, 's) py_env \<Rightarrow> (str \<Rightarrow> f32 option) \<Rightarrow> 'm \<Rightarrow> 'm py_result" where
  "py_set_parameters env ps m =
     res_bind (py_lift (be_fallback (py_backend env) m)) (\<lambda>fallback.
       case unwrap_or default_synthesis_config fallback of c \<Rightarrow>
         py_lift (be_set_fallback (py_backend env) (c\<lparr>parameters := parameters c ++ ps\<rparr>) m))"

definition py_get_parameters :: "('m, 's) py_env \<Rightarrow> 'm \<Rightarrow> (str \<Rightarrow> f32 option) py_result" where
  "py_get_parameters env m =
     res_map (\<lambda>fallback. parameters (unwrap_or default_synthesis_config fallback))
       (py_lift (be_fallback (py_backend env) m))"

text \<open>The object's own getters hand the model's answers on.\<close>

definition py_language :: "('m, 's) py_env \<Rightarrow> 'm \<Rightarrow> str option py_result" where
  "py_language env m = py_lift (get_language (be_model (py_backend env) m))"

definition py_speakers :: "('m, 's) py_env \<Rightarrow> 'm \<Rightarrow> (int \<times> str) list option py_result" where
  "py_speakers env m = py_lift (get_speakers (be_model (py_backend env) m))"

definition py_audio_output_info :: "('m, 's) py_env \<Rightarrow> 'm \<Rightarrow> audio_info py_result" where
  "py_audio_output_info env m = py_lift (audio_output_info (be_model (py_backend env) m))"

subsection \<open>Loading and phonemizing\<close>

text \<open>The spelling of a backend selects its loader.\<close>

definition py_load_voice ::
  "(model_type \<Rightarrow> path \<Rightarrow> 'm dengjen_result) \<Rightarrow> (path \<Rightarrow> str + str) \<Rightarrow> (str \<Rightarrow> str + json)
     \<Rightarrow> path \<Rightarrow> 'm py_result" where
  "py_load_voice loaders read_file parse config_path =
     py_lift (load_voice_with read_file parse config_path loaders)"

definition py_should_diacritize :: "bool \<Rightarrow> str \<Rightarrow> bool option \<Rightarrow> bool" where
  "py_should_diacritize tashkeel_enabled language use_tashkeel =
     (if \<not> tashkeel_enabled then False
      else if language \<noteq> lit ''ar'' then False
      else unwrap_or True use_tashkeel)"

definition py_diacritize_text ::
  "(str + 't) \<Rightarrow> ('t \<Rightarrow> str \<Rightarrow> str + str) \<Rightarrow> str \<Rightarrow> str py_result" where
  "py_diacritize_text engine tashkeel s =
     res_bind (res_map_err (\<lambda>msg. (PyDengjenException, msg)) engine) (\<lambda>e.
       res_map_err (\<lambda>msg. (PyDengjenException, msg)) (tashkeel e s))"

definition phonemize_text_py ::
  "bool \<Rightarrow> (str + 't) \<Rightarrow> ('t \<Rightarrow> str \<Rightarrow> str + str) \<Rightarrow> 'c espeak \<Rightarrow> str \<Rightarrow> str \<Rightarrow> uchar option
     \<Rightarrow> bool option \<Rightarrow> bool option \<Rightarrow> bool option \<Rightarrow> str list py_result option" where
  "phonemize_text_py tashkeel_enabled engine tashkeel es s language separator remove_flags remove_stress use_tashkeel =
     (case (if py_should_diacritize tashkeel_enabled language use_tashkeel
            then py_diacritize_text engine tashkeel s else Inr s) of
        Inl e \<Rightarrow> Some (Inl e)
      | Inr s' \<Rightarrow>
          map_option (res_map_err (\<lambda>e. py_err (PhonemizationError (display_espeak_error e))))
            (text_to_phonemes es s' language separator (unwrap_or True remove_flags)
              (unwrap_or False remove_stress)))"

subsection \<open>Value objects\<close>

text \<open>The objects Python makes and the getters of those it receives.\<close>

definition py_audio_output_config ::
  "nat option \<Rightarrow> nat option \<Rightarrow> nat option \<Rightarrow> nat option \<Rightarrow> audio_output_config" where
  "py_audio_output_config r v p silence_ms =
     \<lparr>rate = r, volume = v, pitch = p, appended_silence_ms = silence_ms\<rparr>"

definition py_piper_scales :: "f32 \<Rightarrow> f32 \<Rightarrow> f32 \<Rightarrow> piper_scales" where
  "py_piper_scales length_scale noise_scale noise_w =
     \<lparr>sc_length_scale = length_scale, sc_noise_scale = noise_scale, sc_noise_w = noise_w\<rparr>"

definition py_info_sample_rate :: "audio_info \<Rightarrow> nat" where "py_info_sample_rate i = sample_rate i"
definition py_info_num_channels :: "audio_info \<Rightarrow> nat" where "py_info_num_channels i = num_channels i"
definition py_info_sample_width :: "audio_info \<Rightarrow> nat" where "py_info_sample_width i = sample_width i"

definition py_wave_bytes :: "audio \<Rightarrow> byte list" where "py_wave_bytes a = as_wave_bytes (samples a)"
definition py_wave_sample_rate :: "audio \<Rightarrow> nat" where "py_wave_sample_rate a = sample_rate (info a)"
definition py_wave_num_channels :: "audio \<Rightarrow> nat" where "py_wave_num_channels a = num_channels (info a)"
definition py_wave_sample_width :: "audio \<Rightarrow> nat" where "py_wave_sample_width a = sample_width (info a)"
definition py_wave_inference_ms :: "audio \<Rightarrow> f32 option" where "py_wave_inference_ms a = inference_ms a"
definition py_wave_duration_ms :: "audio \<Rightarrow> f32" where "py_wave_duration_ms a = duration_ms a"
definition py_wave_real_time_factor :: "audio \<Rightarrow> f32 option" where
  "py_wave_real_time_factor a = real_time_factor a"

text \<open>\<^verbatim>\<open>__next__\<close> of the stream objects; a realtime one turns its samples into bytes.\<close>

definition lazy_speech_next :: "'s lazy_stream \<Rightarrow> audio option py_result \<times> 's lazy_stream" where
  "lazy_speech_next s = next_detached lazy_next s"

definition parallel_speech_next :: "parallel_stream \<Rightarrow> audio option py_result \<times> parallel_stream" where
  "parallel_speech_next s = next_detached parallel_next s"

definition batched_speech_next ::
  "unit dengjen_result \<Rightarrow> 's batched_stream \<Rightarrow> audio option py_result \<times> 's batched_stream" where
  "batched_speech_next pool s = next_detached (batched_next pool) s"

subsection \<open>What a loop sees\<close>

lemma py_for_items:
  fixes nxt :: "'s \<Rightarrow> ('a dengjen_result \<times> 's) option"
  assumes stream: "audio_stream nxt rem sinv" and "sinv s"
  shows "py_for nxt s seen = Some (loop_result (rem s) seen)"
  using assms(2)
proof (induction "rem s" arbitrary: s seen)
  case Nil
  have "nxt s = None"
    using audio_stream.yields [OF stream Nil.prems] Nil.hyps by (cases "nxt s") force+
  then show ?case
    using Nil.hyps [symmetric] by (subst py_for.simps) (simp add: next_detached_def)
next
  case (Cons x xs)
  obtain s' where s': "nxt s = Some (x, s')" "rem s' = xs" "sinv s'"
    using audio_stream.yields [OF stream Cons.prems] audio_stream.ends [OF stream Cons.prems] Cons.hyps(2)
    by (cases "nxt s") force+
  note IH = Cons.hyps(1) [OF s'(2) [symmetric] s'(3), unfolded s'(2)]
  show ?case
    unfolding Cons.hyps(2) [symmetric]
    by (subst py_for.simps; cases x) (simp_all add: next_detached_def s'(1) IH)
qed

lemma loop_result_all: "collect_map f xs = Inr ys \<Longrightarrow> loop_result (map f xs) seen = (seen @ ys, None)"
  by (induction xs arbitrary: seen ys) (auto split: sum.splits)

lemma loop_result_error: "collect_map f xs = Inl e \<Longrightarrow> snd (loop_result (map f xs) seen) = Some (py_err e)"
  by (induction xs arbitrary: seen) (auto split: sum.splits)

text \<open>A request as Python runs it: make the stream, loop over it.\<close>

definition loop_over ::
  "('s \<Rightarrow> ('a dengjen_result \<times> 's) option) \<Rightarrow> 's py_result \<Rightarrow> ('a list \<times> py_error option) option" where
  "loop_over next_item stream = (case stream of Inl e \<Rightarrow> Some ([], Some e) | Inr s \<Rightarrow> py_for next_item s [])"

definition loop_spec :: "'s task_provider \<Rightarrow> audio list \<times> py_error option" where
  "loop_spec p =
     (case get_phonemes p of
        Inl e \<Rightarrow> ([], Some (py_err e))
      | Inr sentences \<Rightarrow> loop_result (map (process_one_sentence p) sentences) [])"

lemma lazy_loop: "loop_over lazy_next (py_synthesize env m s cfg) = Some (loop_spec (py_provider env m s cfg))"
  by (cases "get_phonemes (py_provider env m s cfg)")
    (simp_all add: loop_over_def py_synthesize_def py_synthesize_lazy_def lazy_new_def loop_spec_def
      py_for_items [OF lazy.audio_stream_axioms TrueI] lazy_remaining_def)

lemma parallel_loop:
  "py_pool env = Inr () \<Longrightarrow>
     loop_over parallel_next (py_synthesize_parallel env m s cfg) = Some (loop_spec (py_provider env m s cfg))"
  by (cases "get_phonemes (py_provider env m s cfg)")
    (simp_all add: loop_over_def py_synthesize_parallel_def parallel_new_def loop_spec_def
      py_for_items [OF parallel.audio_stream_axioms TrueI])

lemma batched_loop:
  assumes "py_pool env = Inr ()" "0 < py_default_batch_size env" "size_opt \<noteq> Some 0"
  shows "loop_over (batched_next (py_pool env)) (py_synthesize_batched env m s cfg size_opt) =
    Some (loop_spec (py_provider env m s cfg))"
  using assms
  by (cases "get_phonemes (py_provider env m s cfg)"; cases size_opt)
    (auto simp: loop_over_def py_synthesize_batched_def batched_new_def loop_spec_def
      py_for_items [OF batched.audio_stream_axioms] batched_remaining_def)

text \<open>
  A loop over a request ends in every mode. It receives the audio of each sentence in
  order up to the first that fails, and then the exception for that failure; if none fails it receives
  all of them and no exception. The lazy, parallel and batched modes agree, whatever the batch size.
\<close>

theorem python_loops_agree:
  assumes "py_pool env = Inr ()" "0 < py_default_batch_size env" "size_opt \<noteq> Some 0"
  shows "loop_over lazy_next (py_synthesize env m s cfg) = Some (loop_spec (py_provider env m s cfg)) \<and>
    loop_over parallel_next (py_synthesize_parallel env m s cfg) = Some (loop_spec (py_provider env m s cfg)) \<and>
    loop_over (batched_next (py_pool env)) (py_synthesize_batched env m s cfg size_opt) =
      Some (loop_spec (py_provider env m s cfg)) \<and>
    (case get_phonemes (py_provider env m s cfg) of
       Inl e \<Rightarrow> loop_spec (py_provider env m s cfg) = ([], Some (py_err e))
     | Inr sentences \<Rightarrow>
         (case collect_map (process_one_sentence (py_provider env m s cfg)) sentences of
            Inr ys \<Rightarrow> loop_spec (py_provider env m s cfg) = (ys, None)
          | Inl e \<Rightarrow> snd (loop_spec (py_provider env m s cfg)) = Some (py_err e)))"
  by (simp only: lazy_loop parallel_loop [OF assms(1)] batched_loop [OF assms])
    (simp add: loop_spec_def loop_result_all loop_result_error split: sum.split)

subsection \<open>Settings read back\<close>

text \<open>A Piper voice behind the interface: it finds names in its config and ids in its speaker map.\<close>

definition piper_py_env ::
  "(piper_voice \<Rightarrow> dengjen_model) \<Rightarrow> (piper_voice \<Rightarrow> str \<Rightarrow> nat \<Rightarrow> nat \<Rightarrow> chunk_source) \<Rightarrow> 's sonic
     \<Rightarrow> (f32 \<Rightarrow> f32) \<Rightarrow> (piper_voice, 's) py_env" where
  "piper_py_env model_of source_of sonic sn =
     \<lparr>py_backend = store_backend model_of piper_get_default piper_get_fallback piper_set_fallback,
      py_name_to_id = (\<lambda>v name. Inr (piper_speaker_name_to_id v name)),
      py_id_to_name = (\<lambda>v sid. Inr (pv_speaker_map v sid)),
      py_source = source_of, py_sonic = sonic, py_sin32 = sn, py_pool = Inr (), py_default_batch_size = 4\<rparr>"

lemma piper_py_generic:
  "generic_config_or_err (piper_py_env mo so sn si) v = Inr (piper_to_synthesis_config (pv_synth_config v))"
  by (simp add: generic_config_or_err_def piper_py_env_def piper_get_fallback_def)

lemma piper_py_set_speaker:
  assumes "piper_speaker_name_to_id v name = Some sid" "pv_speaker_map v sid \<noteq> None"
  shows "py_set_speaker (piper_py_env mo so sn si) name v =
    Inr (v\<lparr>pv_synth_config := (pv_synth_config v)\<lparr>ps_speaker := Some sid\<rparr>\<rparr>)"
  using assms piper_py_generic [of mo so sn si v]
  by (simp add: py_set_speaker_def)
    (simp add: piper_py_env_def piper_set_fallback_def do_set_default_synth_config_def
      piper_of_synthesis_config_def piper_to_synthesis_config_def)

lemma piper_py_set_scales:
  assumes "speaker_in_force_known v"
  shows "py_set_scales (piper_py_env mo so sn si) sc v =
    Inr (v\<lparr>pv_synth_config := (pv_synth_config v)\<lparr>ps_length_scale := sc_length_scale sc,
        ps_noise_scale := sc_noise_scale sc, ps_noise_w := sc_noise_w sc\<rparr>\<rparr>)"
  using assms piper_py_generic [of mo so sn si v]
  by (cases "ps_speaker (pv_synth_config v)"; simp add: py_set_scales_def;
      simp add: piper_py_env_def piper_set_fallback_def do_set_default_synth_config_def
        piper_of_synthesis_config_def piper_to_synthesis_config_def speaker_in_force_known_def)

text \<open>
  A Piper voice takes a speaker it knows by name and any scales, in either order with
  the same result. Afterwards the scales read back as given, and the speaker reads back as a name of
  the chosen id, the given one where ids are not shared. An unknown name raises.
\<close>

theorem python_settings_read_back:
  assumes v: "v = piper_voice_of cfg sc0"
    and ok: "speaker_in_force_known v"
    and name: "map_of (mc_speaker_id_map cfg) name = Some sid" "name' \<notin> fst ` set (mc_speaker_id_map cfg)"
    and env: "env = piper_py_env mo so sn si"
  shows "\<exists>v1 v2 v3 n. py_set_speaker env name v = Inr v1 \<and> py_set_scales env sc v1 = Inr v2 \<and>
    py_set_scales env sc v = Inr v3 \<and> py_set_speaker env name v3 = Inr v2 \<and>
    py_get_scales env v2 = Inr sc \<and> py_get_speaker env v2 = Inr (Some n) \<and>
    (n, sid) \<in> set (mc_speaker_id_map cfg) \<and>
    (distinct (map snd (mc_speaker_id_map cfg)) \<longrightarrow> n = name) \<and>
    fst (projl (py_set_speaker env name' v)) = PyDengjenException"
proof -
  have named: "piper_speaker_name_to_id v name = Some sid"
    using name(1) by (simp add: v piper_speaker_name_to_id_def piper_voice_of_def)
  then obtain n where n: "pv_speaker_map v sid = Some n"
    using piper_named_speaker_known v by blast
  then have entry: "(n, sid) \<in> set (mc_speaker_id_map cfg)"
    by (auto simp: v piper_voice_of_def reversed_mapping_def dest!: map_of_SomeD)
  have unique: "n = name" if "distinct (map snd (mc_speaker_id_map cfg))"
    using that entry map_of_SomeD [OF name(1)]
    by (metis distinct_map inj_onD prod.inject snd_conv)
  define v1 where "v1 = v\<lparr>pv_synth_config := (pv_synth_config v)\<lparr>ps_speaker := Some sid\<rparr>\<rparr>"
  define v2 where "v2 = v1\<lparr>pv_synth_config := (pv_synth_config v1)\<lparr>ps_length_scale := sc_length_scale sc,
      ps_noise_scale := sc_noise_scale sc, ps_noise_w := sc_noise_w sc\<rparr>\<rparr>"
  define v3 where "v3 = v\<lparr>pv_synth_config := (pv_synth_config v)\<lparr>ps_length_scale := sc_length_scale sc,
      ps_noise_scale := sc_noise_scale sc, ps_noise_w := sc_noise_w sc\<rparr>\<rparr>"
  have s1: "py_set_speaker env name v = Inr v1"
    using piper_py_set_speaker [OF named] n by (simp add: env v1_def)
  have s2: "py_set_scales env sc v1 = Inr v2"
    unfolding env v2_def by (rule piper_py_set_scales) (simp add: speaker_in_force_known_def v1_def n)
  have s3: "py_set_scales env sc v = Inr v3"
    unfolding env v3_def by (rule piper_py_set_scales [OF ok])
  have "py_set_speaker env name v3 = Inr (v3\<lparr>pv_synth_config := (pv_synth_config v3)\<lparr>ps_speaker := Some sid\<rparr>\<rparr>)"
    unfolding env by (rule piper_py_set_speaker) (use named n in \<open>simp_all add: v3_def piper_speaker_name_to_id_def\<close>)
  then have s4: "py_set_speaker env name v3 = Inr v2" by (simp add: v1_def v2_def v3_def)
  have g: "py_get_scales env v2 = Inr sc"
    by (cases sc) (simp add: py_get_scales_def piper_config_or_err_def env piper_py_generic
        piper_config_roundtrip v2_def)
  have sp: "py_get_speaker env v2 = Inr (Some n)"
    using n by (simp add: py_get_speaker_def current_speaker_id_def env piper_py_env_def piper_get_fallback_def
        piper_config_roundtrip v1_def v2_def)
  have bad: "fst (projl (py_set_speaker env name' v)) = PyDengjenException"
    using name(2) by (simp add: py_set_speaker_def env piper_py_env_def piper_speaker_name_to_id_def v
        piper_voice_of_def map_of_eq_None_iff [symmetric] py_err_def)
  from s1 s2 s3 s4 g sp entry unique bad show ?thesis by blast
qed

definition demo_py_env :: "(piper_voice, nat) py_env" where
  "demo_py_env = piper_py_env (\<lambda>_. two_speaker_model) (\<lambda>_ _ _ _. SourceItems [] None) silent_sonic (\<lambda>x. x)"

theorem python_settings_read_back_witness:
  "\<exists>v1 v2. py_set_speaker demo_py_env (fst (hd (mc_speaker_id_map duo_config)))
       (piper_voice_of duo_config (factory_synthesis_config duo_config)) = Inr v1 \<and>
     py_set_scales demo_py_env \<lparr>sc_length_scale = f_lit 1, sc_noise_scale = f_lit 2, sc_noise_w = f_lit 3\<rparr> v1 = Inr v2 \<and>
     py_get_scales demo_py_env v2 = Inr \<lparr>sc_length_scale = f_lit 1, sc_noise_scale = f_lit 2, sc_noise_w = f_lit 3\<rparr>"
  using python_settings_read_back [OF refl _ _ _ demo_py_env_def, of duo_config "factory_synthesis_config duo_config"
      "fst (hd (mc_speaker_id_map duo_config))" "snd (hd (mc_speaker_id_map duo_config))" "lit ''zoe''"
      "\<lparr>sc_length_scale = f_lit 1, sc_noise_scale = f_lit 2, sc_noise_w = f_lit 3\<rparr>"] demo_speaker_known
  by (simp add: demo_cli_state_def duo_config_def demo_config_def) blast

theorem python_loops_agree_witness:
  "loop_over (batched_next (Inr ())) (py_synthesize_batched demo_py_env
       (piper_voice_of duo_config (factory_synthesis_config duo_config)) (lit ''hello'') None (Some 3)) =
   loop_over lazy_next (py_synthesize demo_py_env
       (piper_voice_of duo_config (factory_synthesis_config duo_config)) (lit ''hello'') None)"
  using python_loops_agree [of demo_py_env "Some 3" "piper_voice_of duo_config (factory_synthesis_config duo_config)"
      "lit ''hello''" None]
  by (simp add: demo_py_env_def piper_py_env_def)

end
