(* ===== verification/Spec2Isabelle.thy ===== *)
theory Spec2Isabelle
  imports SharedVoice Programs CapiLifecycle Handles Pydengjen
begin

text \<open>
  A model of the dengjen text-to-speech engine, the Rust code under \<^verbatim>\<open>crates/\<close>.

  \<^bold>\<open>The program.\<close> A text goes through a front end (command line, C, gRPC, Python) to the
  synthesizer (\<^verbatim>\<open>dengjen/synth\<close>), which asks a model backend (Piper, Kokoro or MeloTTS, behind the
  trait \<^verbatim>\<open>DengjenModel\<close>) for phoneme sentences and for the audio of each sentence, shapes that audio
  (rate, volume, pitch, silence) and delivers it lazily, in parallel, in batches or in real time
  from a worker. Phonemes come from eSpeak-ng, a Hebrew, a Mandarin or a Japanese phonemizer. Beside it
  stands a small speech recognizer with its own C interface. Calls go downwards only; shared
  state is the synthesis config of a voice, the channel between a realtime worker and its consumer,
  the in-flight counts and cancellation slot of a C voice, the voice table and permits of the server,
  eSpeak-ng's current voice behind its lock, and the memory handed to C callers.

  \<^bold>\<open>Theories.\<close> In the order of the calls, lowest first:
  \<^item> \<open>Prelude\<close>: texts as lists of code points, results as sums, machine integers, lists.
  \<^item> \<open>F32\<close>: IEEE single precision as sign-magnitude rationals with one rounding to nearest
    even per operation; NaN, infinities and signed zeros are values.
  \<^item> \<open>Errors\<close> (\<^verbatim>\<open>dengjen/core/src/lib.rs\<close>), \<open>Paths\<close> (\<^verbatim>\<open>core/src/confined_path.rs\<close>,
    \<^verbatim>\<open>dengjen/core/src/config_path.rs\<close>), \<open>ModelApi\<close> and \<open>ConfigStore\<close> (the trait
    \<^verbatim>\<open>DengjenModel\<close> and what front ends rely on in a backend's config).
  \<^item> \<open>Runtime\<close> (\<^verbatim>\<open>core/src/{cancellation,lib,ort_providers}.rs\<close>): cancellation tokens, locks that
    ignore poisoning, panic messages, inference sessions.
  \<^item> \<open>Samples\<close> and \<open>WaveWriter\<close>: \<^verbatim>\<open>audio/ops\<close>, PCM conversion, windows, trimming and atomic saving.
  \<^item> \<open>Synth\<close>, \<open>Realtime\<close>, \<open>Synthesizer\<close>: \<^verbatim>\<open>dengjen/synth/src/lib.rs\<close> and \<^verbatim>\<open>model_type.rs\<close>.
  \<^item> \<open>Greedy\<close>: the longest-match scanner that three tokenizers share, against an inductive reference.
  \<^item> \<open>Piper\<close>, \<open>PiperStreaming\<close>, \<open>Kokoro\<close>, \<open>KokoroJa\<close>, \<open>Melo\<close>: \<^verbatim>\<open>dengjen/models\<close>.
  \<^item> \<open>Espeak\<close> and \<open>EspeakShared\<close> (one call, and threads that share the library), \<open>HebrewIpa\<close>, \<open>Nakdimon\<close>, \<open>PinyinNumbers\<close>, \<open>G2pw\<close>, \<open>Pinyin\<close>: \<^verbatim>\<open>text\<close>.
  \<^item> \<open>Voices\<close>, \<open>VoiceFiles\<close>, \<open>VoiceStates\<close>, \<open>SharedVoice\<close>: the constructors and trait methods of the three
    backends put together, what loading reads, what config changes do, and one voice under many threads.
  \<^item> \<open>Cli\<close>, \<open>Capi\<close>, \<open>CapiLifecycle\<close>, \<open>Grpc\<close>, \<open>Pydengjen\<close>: \<^verbatim>\<open>frontends\<close>; \<open>Handles\<close>: what the two C
    interfaces allocate and free; \<open>Programs\<close>: the two executables from \<^verbatim>\<open>main\<close> on.
  \<^item> \<open>Stt\<close>: \<^verbatim>\<open>stt\<close> and \<^verbatim>\<open>frontends/capi-stt\<close>.
  \<^item> this theory: what spans the front ends.

  \<^bold>\<open>Correspondence.\<close> A struct is a record, an enum a datatype, a Rust function a definition of
  the same name where the name is free, \<^verbatim>\<open>Result\<close> a sum with the error on the left, \<^verbatim>\<open>usize\<close> a
  natural number with saturation, checks and wrap-around written out. A method on \<^verbatim>\<open>&mut self\<close>
  returns the changed record. A loop that might not end is a \<^theory_text>\<open>partial_function (option)\<close> whose
  None is not returning; theorems about such a function prove that it returns. Concurrency is a step
  relation: \<open>rt_step\<close> (worker, consumer, canceller of a realtime stream), \<open>grpc_step\<close> (handlers and
  loads of the server), \<open>lf_step\<close> (calls, workers, producers, cancellations and unloads of the C
  interface; \<open>job_step\<close> is what one call does), \<open>espeak_step\<close> (threads that phonemize) and \<open>shared_step\<close> (threads that speak with a voice and
  set its config), each step being what the code does under one lock or one atomic operation: reading
  a flag, waiting on a channel and calling back are steps of their own.

  \<^bold>\<open>Interfaces.\<close> Five locales state what one part relies on in another: \<open>audio_stream\<close> and
  \<open>result_stream\<close> (an iterator delivers exactly what remains; its laws are proved for the lazy,
  parallel, batched and realtime streams, for the dispatching stream, the gRPC stream and Kokoro's
  streamer, and used by every front end's consumer loop), \<open>config_store\<close> (a config is accepted exactly
  for a known speaker and reads back; proved for the three backends and for any loaded voice, used by the
  C and command line setters), \<open>cancellation\<close> (a token stays cancelled, its clones with it and no other; proved
  for shared flags and for the slot of a C voice) and \<open>longest_match\<close> (a bound on entry lengths makes the greedy scan the reference
  one; proved for the three vocabularies).

  \<^bold>\<open>What the groups of lemmas show.\<close> The streams: all modes agree, order, completion and
  cancellation in every interleaving. Files: all or nothing. The chunker of streamed Piper voices
  covers a sentence exactly once for positive paddings, and loses audio for padding zero. Tokenizers
  agree with a longest-match reference and split without loss. Phonemizers keep the text they are given:
  clauses, numerals, characters, consonants, syllables, windows around a queried character. Front
  ends: what a caller sees is the specified audio and one final event; settings read back; speakers
  in force are known; server caps hold in every reachable state; a C voice is silent after its unload
  returned, and the schedules in which calls starve or unloads wait forever. Recognition: checks and
  checksum keep the engine from every model file but the expected one. Voices: a loaded voice stays usable, depends on its last
  settings alone and, for two backends, on the directory of its config alone, but for the dictionary a
  Japanese Kokoro voice takes from the environment. Threads: eSpeak-ng calls and one-pass
  sentences are atomic in every interleaving. Memory: what C callers give back is freed, once. Programs: a
  session is a run for each line, and the server announces the port it listens on.

  \<^bold>\<open>Bounds and fuel.\<close> Fuel appears only in the consumers \<open>drain\<close> and \<open>try_collect\<close>, whose count
  is how often the caller asks; the theorems give the count that reaches the end. What a thread pool
  does is explicit where it decides the outcome: in \<open>CapiLifecycle\<close> its threads are counted, and in
  \<open>Capi\<close>, which follows one call, an argument says whether the producer of a realtime stream ever gets one; without
  it the call does not return. Chunk arithmetic is
  proved within frames up to \<open>2 ^ 40\<close>, hop lengths up to \<open>2 ^ 20\<close> and chunk sizes below \<open>2 ^ 62\<close>, which
  keeps every product inside \<^verbatim>\<open>isize\<close>; the numeral theorem covers what the code formats as a numeral.

  \<^bold>\<open>Arguments of the model.\<close> Code that is not in the repository is an argument: ONNX Runtime
  sessions, the sonic time stretcher, eSpeak-ng, the tashkeel and Japanese dictionaries, the RIFF
  encoder, the conversions and the allocator behind \<^verbatim>\<open>ffi_support\<close>, JSON parsing, Unicode normalization and case folding, SHA-256, sherpa-onnx, the
  file system's answers. Hypotheses about them state documented behaviour: an engine answers with
  well-formed tensors, sherpa-onnx does not abort on 25 ms of audio, a string without an interior NUL crosses as a C string.

  \<^bold>\<open>Not modelled.\<close> Log and trace messages; argument parsing by clap, the protobuf encoding and
  the HTTP transport; panics inside callbacks; the pace of threads, apart from their
  order; the conversions of the Python interpreter and its lock; what only declares or re-exports (the
  eSpeak FFI declarations, imports, attributes); build scripts, fuzz targets, benchmarks and the bindings
  for other languages, which contain no logic of the engine.
\<close>

section \<open>One request, four front ends\<close>

text \<open>
  What any front end should make heard of a request: the samples of its sentences up to the first
  that fails, and that failure.
\<close>

definition heard :: "'a dengjen_result list \<Rightarrow> 'a list \<times> dengjen_error option" where
  "heard rs =
     (map projr (takeWhile (\<lambda>r. \<exists>x. r = Inr x) rs),
      find_map (\<lambda>r. case r of Inl e \<Rightarrow> Some e | Inr _ \<Rightarrow> None) rs)"

definition speech_of :: "'s task_provider \<Rightarrow> samples list \<times> dengjen_error option" where
  "speech_of p =
     (case get_phonemes p of
        Inl e \<Rightarrow> ([], Some e)
      | Inr sentences \<Rightarrow> heard (map (\<lambda>sentence. samples_of (process_one_sentence p sentence)) sentences))"

text \<open>How each front end shows it: bytes and a result, events, a loop's items, messages.\<close>

definition shown_by_cli ::
  "byte list \<Rightarrow> samples list \<times> dengjen_error option \<Rightarrow> byte list \<times> (cli_error + unit)" where
  "shown_by_cli out sp =
     (out @ concat (map as_wave_bytes (fst sp)),
      case snd sp of None \<Rightarrow> Inr () | Some e \<Rightarrow> Inl (CliDengjen e))"

definition shown_by_capi :: "samples list \<times> dengjen_error option \<Rightarrow> synth_event list" where
  "shown_by_capi sp =
     map (\<lambda>xs. SpeechEvent (as_wave_bytes xs)) (fst sp) @
     [case snd sp of None \<Rightarrow> FinishedEvent | Some e \<Rightarrow> ErrorEvent (ffi_error_of e)]"

definition shown_by_grpc :: "samples list \<times> dengjen_error option \<Rightarrow> (status + byte list) list" where
  "shown_by_grpc sp =
     map (\<lambda>xs. Inr (as_wave_bytes xs)) (fst sp) @
     (case snd sp of None \<Rightarrow> [] | Some e \<Rightarrow> [Inl (to_status (GrpcDengjenError e))])"

lemma heard_simps [simp]:
  "heard [] = ([], None)"
  "heard (Inl e # rs) = ([], Some e)"
  "heard (Inr x # rs) = (x # fst (heard rs), snd (heard rs))"
  by (simp_all add: heard_def)

lemma samples_of_simps [simp]: "samples_of (Inl e) = Inl e" "samples_of (Inr a) = Inr (samples a)"
  by (simp_all add: samples_of_def)

lemma cli_shows: "write_items buffer_writer items out = shown_by_cli out (heard items)"
proof (induction items arbitrary: out)
  case (Cons r rs)
  then show ?case
    by (cases r) (simp_all add: write_chunk_def buffer_writer_def shown_by_cli_def)
qed (simp add: shown_by_cli_def)

lemma capi_shows:
  assumes "\<And>ev c. cb_callback cb ev c = (c, 0)" "\<And>c. cb_elapse cb c = c" "\<not> stream_cancelled token c"
    "\<not> ca_closing c"
  shows "snd (deliver token cb items c) = shown_by_capi (heard items)"
proof (induction items)
  case (Cons r rs)
  obtain c' events where rest: "deliver token cb rs c = (c', events)" by (cases "deliver token cb rs c")
  with Cons.IH assms show ?case
    by (cases r) (simp_all add: shown_by_capi_def last_event_def)
qed (use assms in \<open>simp add: shown_by_capi_def last_event_def\<close>)

lemma grpc_shows:
  "map (map_sum id ck_audio_bytes) (until_error to_chunk rs) = shown_by_grpc (heard (map samples_of rs))"
proof (induction rs)
  case (Cons r rs)
  then show ?case by (cases r) (simp_all add: shown_by_grpc_def to_chunk_def)
qed (simp add: shown_by_grpc_def)

lemma python_shows:
  "(\<lambda>(ys, e). (map samples ys, e)) (loop_result rs seen) =
     (map samples seen @ fst (heard (map samples_of rs)), map_option py_err (snd (heard (map samples_of rs))))"
proof (induction rs arbitrary: seen)
  case (Cons r rs)
  then show ?case by (cases r) simp_all
qed simp

lemma loop_of_bytes:
  "loop_result (map (res_map as_wave_bytes) rs) seen =
     (seen @ map as_wave_bytes (fst (heard rs)), map_option py_err (snd (heard rs)))"
proof (induction rs arbitrary: seen)
  case (Cons r rs)
  then show ?case by (cases r) simp_all
qed simp

lemma bytes_stream:
  assumes "audio_stream nxt rem sinv"
  shows "audio_stream (realtime_bytes nxt) (\<lambda>s. map (res_map as_wave_bytes) (rem s)) sinv"
proof
  fix s assume "sinv s" "realtime_bytes nxt s = None"
  with audio_stream.ends [OF assms, of s] show "map (res_map as_wave_bytes) (rem s) = []"
    by (simp add: realtime_bytes_def)
next
  fix s s' x assume "sinv s" "realtime_bytes nxt s = Some (x, s')"
  then obtain y where "sinv s" "nxt s = Some (y, s')" "x = res_map as_wave_bytes y"
    by (auto simp: realtime_bytes_def)
  with audio_stream.yields [OF assms, of s y s']
  show "map (res_map as_wave_bytes) (rem s) = x # map (res_map as_wave_bytes) (rem s') \<and> sinv s'" by simp
qed

lemma grpc_sends_bytes: "until_error as_wave_bytes rs = shown_by_grpc (heard rs)"
proof (induction rs)
  case (Cons r rs)
  then show ?case by (cases r) (simp_all add: shown_by_grpc_def)
qed (simp add: shown_by_grpc_def)

fun by_sentence :: "stream_mode \<Rightarrow> bool" where
  "by_sentence (ModeRealtime _ _) = False"
| "by_sentence _ = True"

text \<open>The same for any mode; a realtime request is its chunks, from the sources of its backend.\<close>

definition mode_speech ::
  "(str \<Rightarrow> nat \<Rightarrow> nat \<Rightarrow> chunk_source) \<Rightarrow> 's task_provider \<Rightarrow> stream_mode \<Rightarrow> samples list \<times> dengjen_error option" where
  "mode_speech source p mode = (case mode_items source p mode of Inl e \<Rightarrow> ([], Some e) | Inr items \<Rightarrow> heard items)"

lemma mode_speech_by_sentence: "by_sentence mode \<Longrightarrow> mode_speech source p mode = speech_of p"
  by (cases mode; cases "get_phonemes p") (simp_all add: mode_speech_def speech_of_def)

lemma loop_spec_speech:
  "(\<lambda>(ys, e). (map samples ys, e)) (loop_spec p) = (fst (speech_of p), map_option py_err (snd (speech_of p)))"
  using python_shows [of _ "[]"]
  by (cases "get_phonemes p") (simp_all add: loop_spec_def speech_of_def comp_def)

lemma sent_speech:
  "map (map_sum id ck_audio_bytes) (case get_phonemes p of
      Inl e \<Rightarrow> [Inl (to_status (GrpcDengjenError e))]
    | Inr sentences \<Rightarrow> until_error to_chunk (map (process_one_sentence p) sentences)) = shown_by_grpc (speech_of p)"
  by (cases "get_phonemes p") (simp_all add: grpc_shows speech_of_def comp_def, simp add: shown_by_grpc_def)

lemma cli_mode_shows:
  assumes "ce_pool ce = Inr ()" "0 < ce_default_batch_size ce"
    "stream_mode_of (ce_default_batch_size ce) rq = Inr mode" "ce_writer ce = buffer_writer"
  shows "write_samples_of ce m rq out =
    Some (shown_by_cli out (mode_speech (ce_source ce m) (cli_provider ce m rq) mode))"
  by (cases "mode_items (ce_source ce m) (cli_provider ce m rq) mode")
    (simp_all add: write_samples_of_items [OF assms(1,2)] assms(3,4) cli_shows mode_speech_def shown_by_cli_def)

lemma worker_shows:
  assumes "pe_pool env = Inr ()" "0 < pe_default_batch_size env"
    "synth_mode_of (pe_default_batch_size env) (sp_mode ps) = Some mode"
    "\<And>ev c. cb_callback cb ev c = (c, 0)" "\<And>c. cb_elapse cb c = c" "\<not> ca_closing c"
    "ca_next_token c \<notin> ca_cancelled c" "by_sentence mode \<or> pe_producer_runs env"
  shows "\<exists>c'. speak_worker env m input cb ps None c =
    Some (c', shown_by_capi (mode_speech (pe_source env m) (capi_provider env m input ps) mode))"
proof -
  obtain token c1 where t:
    "(if sp_mode ps = SYNTH_MODE_REALTIME then map_prod Some id (begin_realtime c) else (None, c)) = (token, c1)"
    "\<not> stream_cancelled token c1" "\<not> ca_closing c1"
    using assms(6,7)
    by (cases "sp_mode ps = SYNTH_MODE_REALTIME") (auto simp: begin_realtime_def stream_cancelled_def)
  have "sp_mode ps = SYNTH_MODE_REALTIME \<Longrightarrow> pe_producer_runs env"
    using assms(8) synth_mode_realtime [OF assms(3)] by auto
  then have served: "(token = None \<or> pe_producer_runs env) = True"
    using t(1) by (auto split: if_splits)
  let ?p = "capi_provider env m input ps"
  note items = synthesize_samples_items [OF synth_mode_ok [OF assms(3,2)], where source = "pe_source env m" and p = ?p]
  show ?thesis
  proof (cases "synthesize_samples (Inr ()) (pe_source env m) ?p mode")
    case (Inl e)
    then have "mode_speech (pe_source env m) ?p mode = ([], Some e)"
      by (simp add: mode_speech_def flip: items(1))
    with Inl show ?thesis
      by (simp add: speak_worker_def do_synthesize_def assms(1,3) t(1) last_event_def shown_by_capi_def)
  next
    case (Inr st)
    have run: "iterate_stream True (samples_next (Inr ()) (pe_ahead env)) token cb st c1 =
        Some (deliver token cb (samples_remaining (Inr ()) st) c1)"
      by (rule iterate_stream_items [OF chunks.audio_stream_axioms items(2) [OF Inr]])
    have "mode_speech (pe_source env m) ?p mode = heard (samples_remaining (Inr ()) st)"
      by (simp add: mode_speech_def Inr flip: items(1))
    with capi_shows [OF assms(4,5) t(2,3), of "samples_remaining (Inr ()) st"] run show ?thesis
      by (cases "deliver token cb (samples_remaining (Inr ()) st) c1")
        (simp add: speak_worker_def do_synthesize_def assms(1,3) t(1) Inr served)
  qed
qed

lemma realtime_loop_shows:
  assumes "py_pool ye = Inr ()" "p = py_provider ye m s cfg"
    "chunk = unwrap_or 45 chunk_size" "pad = unwrap_or 3 chunk_padding"
  shows "(case py_synthesize_streamed ye m s cfg chunk_size chunk_padding of
       Inl e \<Rightarrow> Some ([], Some e)
     | Inr (rq, st) \<Rightarrow> py_for (realtime_bytes (rt_next ahead rq)) st []) =
    Some (map as_wave_bytes (fst (mode_speech (py_source ye m) p (ModeRealtime chunk pad))),
      map_option py_err (snd (mode_speech (py_source ye m) p (ModeRealtime chunk pad))))"
proof (cases "synthesize_streamed (Inr ()) (py_source ye m) p chunk pad")
  case (Inl e)
  then have "mode_items (py_source ye m) p (ModeRealtime chunk pad) = Inl e"
    using realtime_items(1) [of "py_source ye m" p chunk pad] by simp
  with Inl show ?thesis
    by (simp add: py_synthesize_streamed_def mode_speech_def assms(1,3,4) flip: assms(2) del: mode_items.simps)
next
  case (Inr st)
  obtain rq rs where st: "st = (rq, rs)" by (cases st)
  have items: "mode_items (py_source ye m) p (ModeRealtime chunk pad) = Inr (rt_remaining rq rs)"
    using realtime_items(1) [of "py_source ye m" p chunk pad] by (simp add: Inr st)
  have "py_for (realtime_bytes (rt_next ahead rq)) rs [] =
      Some (loop_result (map (res_map as_wave_bytes) (rt_remaining rq rs)) [])"
    by (rule py_for_items [OF bytes_stream [OF rt.audio_stream_axioms] realtime_items(2) [OF Inr [unfolded st]]])
  with Inr st items show ?thesis
    by (simp add: py_synthesize_streamed_def mode_speech_def assms(1,3,4) loop_of_bytes flip: assms(2)
        del: mode_items.simps)
qed

text \<open>What a Python loop should see: the audio objects of the sentences, and the exception.\<close>

definition loop_hears :: "'s task_provider \<Rightarrow> (audio list \<times> py_error option) option \<Rightarrow> bool" where
  "loop_hears p r \<longleftrightarrow>
     (\<exists>audios. r = Some (audios, map_option py_err (snd (speech_of p))) \<and> map samples audios = fst (speech_of p))"

lemma loop_spec_hears: "loop_hears p (Some (loop_spec p))"
  using loop_spec_speech [of p] by (cases "loop_spec p") (auto simp: loop_hears_def)

text \<open>
  \<^bold>\<open>C1\<close>: the four front ends refine one specification. For the same voice, text and audio
  settings, in any mode but the realtime one, the command line tool writes the audio of the sentences
  up to the first that fails and ends with its error; the C callback, the Python loops (over a lazy, a
  parallel and a batched stream) and the gRPC
  client receive the same audio and the same failure in their own form, and nothing else. The C caller
  takes every event and does not unload the voice; the client does not hang up.
\<close>

theorem front_ends_refine_speech:
  assumes request: "p = cli_provider ce mc rq" "p = capi_provider pe mp input ps" "p = py_provider ye my s cfg"
    and pools: "ce_pool ce = Inr ()" "pe_pool pe = Inr ()" "py_pool ye = Inr ()"
    and sizes: "0 < ce_default_batch_size ce" "0 < pe_default_batch_size pe" "0 < py_default_batch_size ye"
      "size_opt \<noteq> Some 0" "0 < d"
    and cli_mode: "stream_mode_of (ce_default_batch_size ce) rq = Inr mc_mode" "by_sentence mc_mode"
    and capi_mode: "synth_mode_of (pe_default_batch_size pe) (sp_mode ps) = Some mp_mode" "by_sentence mp_mode"
    and writer: "ce_writer ce = buffer_writer"
    and callback: "\<And>ev c. cb_callback cb ev c = (c, 0)" "\<And>c. cb_elapse cb c = c" "\<not> ca_closing c"
      "ca_next_token c \<notin> ca_cancelled c"
    and rpc: "admit_utterance mode_of d grq sv = Inr (m, out_cfg, gmode, sv')" "length (fst (speech_of p)) < room"
  shows "write_samples_of ce mc rq out = Some (shown_by_cli out (speech_of p)) \<and>
    (\<exists>c'. speak_worker pe mp input cb ps None c = Some (c', shown_by_capi (speech_of p))) \<and>
    loop_hears p (loop_over lazy_next (py_synthesize ye my s cfg)) \<and>
    loop_hears p (loop_over lazy_next (py_synthesize_lazy ye my s cfg)) \<and>
    loop_hears p (loop_over parallel_next (py_synthesize_parallel ye my s cfg)) \<and>
    loop_hears p (loop_over (batched_next (Inr ())) (py_synthesize_batched ye my s cfg size_opt)) \<and>
    (\<exists>msgs. synthesize_utterance_worker (Inr ()) d p gmode (sr_batch_size grq) room = Some msgs \<and>
        map (map_sum id ck_audio_bytes) msgs = shown_by_grpc (speech_of p))"
proof (intro conjI)
  show "write_samples_of ce mc rq out = Some (shown_by_cli out (speech_of p))"
    using cli_mode_shows [OF pools(1) sizes(1) cli_mode(1) writer]
    by (simp add: mode_speech_by_sentence [OF cli_mode(2)] flip: request(1))
  show "\<exists>c'. speak_worker pe mp input cb ps None c = Some (c', shown_by_capi (speech_of p))"
    using worker_shows [where m = mp and input = input, OF pools(2) sizes(2) capi_mode(1) callback disjI1 [OF capi_mode(2)]]
    by (simp add: mode_speech_by_sentence [OF capi_mode(2)] flip: request(2))
  show "loop_hears p (loop_over lazy_next (py_synthesize ye my s cfg))"
    using loop_spec_hears [of p] by (simp add: lazy_loop flip: request(3))
  show "loop_hears p (loop_over lazy_next (py_synthesize_lazy ye my s cfg))"
    using loop_spec_hears [of p] lazy_loop [of ye my s cfg] by (simp add: py_synthesize_def flip: request(3))
  show "loop_hears p (loop_over parallel_next (py_synthesize_parallel ye my s cfg))"
    using loop_spec_hears [of p] by (simp add: parallel_loop [OF pools(3)] flip: request(3))
  show "loop_hears p (loop_over (batched_next (Inr ())) (py_synthesize_batched ye my s cfg size_opt))"
    using loop_spec_hears [of p] batched_loop [OF pools(3) sizes(3,4), of my s cfg]
    by (simp add: pools(3) flip: request(3))
  have "length (shown_by_grpc (speech_of p)) \<le> room"
    using rpc(2) by (simp add: shown_by_grpc_def split: option.split)
  then show "\<exists>msgs. synthesize_utterance_worker (Inr ()) d p gmode (sr_batch_size grq) room = Some msgs \<and>
        map (map_sum id ck_audio_bytes) msgs = shown_by_grpc (speech_of p)"
    using worker_sends [OF admitted_batch_size [OF rpc(1)] sizes(5), where p = p and room = room] sent_speech [of p]
    by (auto simp flip: take_map)
qed

lemma speech_length: "length (fst (heard rs)) \<le> length rs"
  by (simp add: heard_def length_takeWhile_le)

definition demo_voice :: piper_voice where
  "demo_voice = piper_voice_of duo_config (factory_synthesis_config duo_config)"

definition spoken_request :: synthesis_request where
  "spoken_request = plain_request\<lparr>rq_rate := Some 10, rq_volume := Some 100, rq_pitch := Some 50,
     rq_appended_silence_ms := Some 0\<rparr>"

definition quiet_capi_env :: "(unit, nat, unit) capi_env" where
  "quiet_capi_env = demo_capi_env\<lparr>pe_backend := store_backend (\<lambda>_. two_speaker_model) (\<lambda>_. None) (\<lambda>_. None)
     (\<lambda>_ _. Inr ())\<rparr>"

theorem front_ends_refine_speech_witness:
  "\<exists>(p :: nat task_provider) c'. write_samples_of demo_cli_env demo_voice spoken_request [] = Some (shown_by_cli [] (speech_of p)) \<and>
    loop_hears p (loop_over lazy_next (py_synthesize demo_py_env demo_voice (lit ''hi'') (Some (as_audio_output_config spoken_request)))) \<and>
    speak_worker quiet_capi_env () (lit ''hi'') \<lparr>cb_callback = (\<lambda>_ c. (c, 0)), cb_elapse = (\<lambda>c. c)\<rparr>
      (realtime_params\<lparr>sp_mode := 0\<rparr>) None (fresh_slot ()) = Some (c', shown_by_capi (speech_of p))"
proof -
  let ?p = "cli_provider demo_cli_env demo_voice spoken_request"
  let ?cb = "\<lparr>cb_callback = (\<lambda>_ c. (c, 0)), cb_elapse = (\<lambda>c. c)\<rparr> :: unit caller"
  have room: "length (fst (speech_of ?p)) < 512"
    using speech_length [of "[samples_of (process_one_sentence ?p (lit ''hi''))]"]
    by (simp add: speech_of_def get_phonemes_def cli_provider_def demo_cli_env_def two_speaker_model_def
        spoken_request_def plain_request_def)
  have capi: "?p = capi_provider quiet_capi_env () (lit ''hi'') (realtime_params\<lparr>sp_mode := 0\<rparr>)"
    by (simp add: cli_provider_def capi_provider_def demo_cli_env_def quiet_capi_env_def demo_capi_env_def
        spoken_request_def plain_request_def as_audio_output_config_def as_synth_output_config_def realtime_params_def)
  have py: "?p = py_provider demo_py_env demo_voice (lit ''hi'') (Some (as_audio_output_config spoken_request))"
    by (simp add: cli_provider_def py_provider_def demo_cli_env_def demo_py_env_def piper_py_env_def
        spoken_request_def plain_request_def)
  have cli_mode: "stream_mode_of (ce_default_batch_size demo_cli_env) spoken_request = Inr ModeLazy"
    by (simp add: stream_mode_of_def spoken_request_def plain_request_def)
  have capi_mode: "synth_mode_of (pe_default_batch_size quiet_capi_env) (sp_mode (realtime_params\<lparr>sp_mode := 0\<rparr>)) = Some ModeLazy"
    by (simp add: synth_mode_of_def SYNTH_MODE_LAZY_def)
  have envs: "ce_pool demo_cli_env = Inr ()" "pe_pool quiet_capi_env = Inr ()" "py_pool demo_py_env = Inr ()"
    "0 < ce_default_batch_size demo_cli_env" "0 < pe_default_batch_size quiet_capi_env"
    "0 < py_default_batch_size demo_py_env" "ce_writer demo_cli_env = buffer_writer"
    by (simp_all add: demo_cli_env_def quiet_capi_env_def demo_capi_env_def demo_py_env_def piper_py_env_def)
  have cb: "\<And>ev c. cb_callback ?cb ev c = (c, 0)" "\<And>c. cb_elapse ?cb c = c" "\<not> ca_closing (fresh_slot ())"
    "ca_next_token (fresh_slot ()) \<notin> ca_cancelled (fresh_slot ())"
    by (simp_all add: fresh_slot_def)
  have others: "(None :: nat option) \<noteq> Some 0" "0 < (4::nat)" "by_sentence ModeLazy" by simp_all
  note all = front_ends_refine_speech [OF refl capi py envs(1-6) others(1,2) cli_mode others(3) capi_mode others(3)
        envs(7) cb demo_admitted room, of "[]"]
  from conjunct1 [OF conjunct2 [OF all]] obtain c' where
    "speak_worker quiet_capi_env () (lit ''hi'') ?cb (realtime_params\<lparr>sp_mode := 0\<rparr>) None (fresh_slot ()) =
      Some (c', shown_by_capi (speech_of ?p))" by (rule exE)
  with conjunct1 [OF all] conjunct1 [OF conjunct2 [OF conjunct2 [OF all]]] show ?thesis by (intro exI conjI)
qed

subsection \<open>The realtime mode\<close>

text \<open>
  \<^bold>\<open>C2\<close>: in the realtime mode, however far the worker of the stream runs ahead of its consumer,
  every front end shows exactly the shaped chunks of the sentences up to the first failure, a panic of
  the backend included, and that failure; for C, provided that its producer gets a thread of the pool, since
  the call itself may hold the last one. The front ends differ in the size and padding of the chunks
  they ask for alone: what the request says for the command line tool, 72 and 3 for C, 45 and 3 for
  Python unless the call says otherwise, 55 and 3 for gRPC.
\<close>

theorem front_ends_realtime:
  assumes request: "p = cli_provider ce mc rq" "p = capi_provider pe mp input ps" "p = py_provider ye my s cfg"
    and pools: "ce_pool ce = Inr ()" "pe_pool pe = Inr ()" "py_pool ye = Inr ()"
    and sizes: "0 < ce_default_batch_size ce" "0 < pe_default_batch_size pe"
    and modes: "rq_mode rq = Some CliRealtime" "sp_mode ps = SYNTH_MODE_REALTIME"
    and writer: "ce_writer ce = buffer_writer"
    and callback: "\<And>ev c. cb_callback cb ev c = (c, 0)" "\<And>c. cb_elapse cb c = c" "\<not> ca_closing c"
      "ca_next_token c \<notin> ca_cancelled c"
    and room: "length (fst (mode_speech source p (ModeRealtime 55 3))) < room"
  shows "write_samples_of ce mc rq out = Some (shown_by_cli out (mode_speech (ce_source ce mc) p
        (ModeRealtime (unwrap_or 100 (rq_chunk_size rq)) (unwrap_or 3 (rq_chunk_padding rq))))) \<and>
    (pe_producer_runs pe \<longrightarrow> (\<exists>c'. speak_worker pe mp input cb ps None c =
        Some (c', shown_by_capi (mode_speech (pe_source pe mp) p (ModeRealtime 72 3))))) \<and>
    (case py_synthesize_streamed ye my s cfg chunk_size chunk_padding of
       Inl e \<Rightarrow> Some ([], Some e)
     | Inr (rq, st) \<Rightarrow> py_for (realtime_bytes (rt_next ahead rq)) st []) =
      (case mode_speech (py_source ye my) p (ModeRealtime (unwrap_or 45 chunk_size) (unwrap_or 3 chunk_padding)) of
         (chunks, failure) \<Rightarrow> Some (map as_wave_bytes chunks, map_option py_err failure)) \<and>
    synthesize_utterance_realtime_worker (Inr ()) source ahead p room =
      Some (shown_by_grpc (mode_speech source p (ModeRealtime 55 3)))"
proof (intro conjI)
  have cli_mode: "stream_mode_of (ce_default_batch_size ce) rq =
      Inr (ModeRealtime (unwrap_or 100 (rq_chunk_size rq)) (unwrap_or 3 (rq_chunk_padding rq)))"
    by (simp add: stream_mode_of_def modes(1))
  show "write_samples_of ce mc rq out = Some (shown_by_cli out (mode_speech (ce_source ce mc) p
        (ModeRealtime (unwrap_or 100 (rq_chunk_size rq)) (unwrap_or 3 (rq_chunk_padding rq)))))"
    using cli_mode_shows [OF pools(1) sizes(1) cli_mode writer] by (simp flip: request(1))
  have "synth_mode_of (pe_default_batch_size pe) (sp_mode ps) = Some (ModeRealtime 72 3)"
    by (simp add: synth_mode_of_def modes(2) SYNTH_MODE_LAZY_def SYNTH_MODE_PARALLEL_def SYNTH_MODE_BATCHED_def
        SYNTH_MODE_REALTIME_def REALTIME_CHUNK_SIZE_def REALTIME_CHUNK_PADDING_def)
  from worker_shows [where m = mp and input = input, OF pools(2) sizes(2) this callback disjI2]
  show "pe_producer_runs pe \<longrightarrow> (\<exists>c'. speak_worker pe mp input cb ps None c =
        Some (c', shown_by_capi (mode_speech (pe_source pe mp) p (ModeRealtime 72 3))))"
    by (simp flip: request(2))
  show "(case py_synthesize_streamed ye my s cfg chunk_size chunk_padding of
       Inl e \<Rightarrow> Some ([], Some e)
     | Inr (rq, st) \<Rightarrow> py_for (realtime_bytes (rt_next ahead rq)) st []) =
      (case mode_speech (py_source ye my) p (ModeRealtime (unwrap_or 45 chunk_size) (unwrap_or 3 chunk_padding)) of
         (chunks, failure) \<Rightarrow> Some (map as_wave_bytes chunks, map_option py_err failure))"
    using realtime_loop_shows [OF pools(3) request(3) refl refl, where chunk_size = chunk_size and chunk_padding = chunk_padding and ahead = ahead]
    by (simp add: case_prod_unfold)
  have "length (shown_by_grpc (mode_speech source p (ModeRealtime 55 3))) \<le> room"
    using room by (simp add: shown_by_grpc_def split: option.split)
  then show "synthesize_utterance_realtime_worker (Inr ()) source ahead p room =
      Some (shown_by_grpc (mode_speech source p (ModeRealtime 55 3)))"
    unfolding realtime_worker_sends mode_speech_def
    by (cases "mode_items source p (ModeRealtime 55 3)") (simp_all add: grpc_sends_bytes shown_by_grpc_def)
qed

theorem front_ends_realtime_witness:
  "\<exists>(p :: nat task_provider) c'.
     write_samples_of demo_cli_env demo_voice (spoken_request\<lparr>rq_mode := Some CliRealtime\<rparr>) [] =
       Some (shown_by_cli [] (mode_speech (\<lambda>_ _ _. SourceItems [] None) p (ModeRealtime 100 3))) \<and>
     speak_worker quiet_capi_env () (lit ''hi'') \<lparr>cb_callback = (\<lambda>_ c. (c, 0)), cb_elapse = (\<lambda>c. c)\<rparr>
       realtime_params None (fresh_slot ()) =
       Some (c', shown_by_capi (mode_speech (\<lambda>_ _ _. SourceItems [] None) p (ModeRealtime 72 3)))"
proof -
  let ?rq = "spoken_request\<lparr>rq_mode := Some CliRealtime\<rparr>"
  let ?p = "cli_provider demo_cli_env demo_voice ?rq"
  let ?cb = "\<lparr>cb_callback = (\<lambda>_ c. (c, 0)), cb_elapse = (\<lambda>c. c)\<rparr> :: unit caller"
  have capi: "?p = capi_provider quiet_capi_env () (lit ''hi'') realtime_params"
    by (simp add: cli_provider_def capi_provider_def demo_cli_env_def quiet_capi_env_def demo_capi_env_def
        spoken_request_def plain_request_def as_audio_output_config_def as_synth_output_config_def realtime_params_def)
  have py: "?p = py_provider demo_py_env demo_voice (lit ''hi'') (Some (as_audio_output_config ?rq))"
    by (simp add: cli_provider_def py_provider_def demo_cli_env_def demo_py_env_def piper_py_env_def
        spoken_request_def plain_request_def)
  have envs: "ce_pool demo_cli_env = Inr ()" "pe_pool quiet_capi_env = Inr ()" "py_pool demo_py_env = Inr ()"
    "pe_producer_runs quiet_capi_env" "0 < ce_default_batch_size demo_cli_env" "0 < pe_default_batch_size quiet_capi_env"
    "ce_writer demo_cli_env = buffer_writer"
    by (simp_all add: demo_cli_env_def quiet_capi_env_def demo_capi_env_def demo_py_env_def piper_py_env_def)
  have modes: "rq_mode ?rq = Some CliRealtime" "sp_mode realtime_params = SYNTH_MODE_REALTIME"
    by (simp_all add: realtime_params_def SYNTH_MODE_REALTIME_def)
  have cb: "\<And>ev c. cb_callback ?cb ev c = (c, 0)" "\<And>c. cb_elapse ?cb c = c" "\<not> ca_closing (fresh_slot ())"
    "ca_next_token (fresh_slot ()) \<notin> ca_cancelled (fresh_slot ())"
    by (simp_all add: fresh_slot_def)
  have sources: "ce_source demo_cli_env v = (\<lambda>_ _ _. SourceItems [] None)"
    "pe_source quiet_capi_env u = (\<lambda>_ _ _. SourceItems [] None)" for v u
    by (simp_all add: demo_cli_env_def quiet_capi_env_def demo_capi_env_def)
  note all = front_ends_realtime [OF refl capi py envs(1-3,5,6) modes envs(7) cb lessI, of "[]", unfolded sources]
  from mp [OF conjunct1 [OF conjunct2 [OF all]] envs(4)] obtain c' where
    "speak_worker quiet_capi_env () (lit ''hi'') ?cb realtime_params None (fresh_slot ()) =
      Some (c', shown_by_capi (mode_speech (\<lambda>_ _ _. SourceItems [] None) ?p (ModeRealtime 72 3)))" by (rule exE)
  moreover have "rq_chunk_size ?rq = None" "rq_chunk_padding ?rq = None"
    by (simp_all add: spoken_request_def plain_request_def)
  ultimately show ?thesis using conjunct1 [OF all] by (intro exI conjI) simp_all
qed

section \<open>Realtime speech of a Kokoro voice\<close>

lemma next_chunk_size_positive: "0 < base \<Longrightarrow> 0 < next_chunk_size base n"
  by (simp add: next_chunk_size_def usize_sat_add_def usize_max_def MAX_STREAM_CHUNK_SIZE_def)

text \<open>
  A sentence whose audio stays below the bound of a buffer: no vector of single floats is longer.
\<close>

definition speaks_short :: "('b, 's, 't, 'c) voice_env \<Rightarrow> 's kokoro_model \<Rightarrow> str \<Rightarrow> bool" where
  "speaks_short env m sentence = res_all (\<lambda>_. True) (\<lambda>a. length (samples a) \<le> 2 ^ 61) (kokoro_speak env m sentence)"

text \<open>What is delivered of a sentence cut into pieces: each piece shaped, then the appended silence.\<close>

definition shaped_pieces :: "rt_request \<Rightarrow> samples list \<Rightarrow> samples dengjen_result list" where
  "shaped_pieces rq pieces =
     map (rt_shape rq) pieces @ (case rt_silence rq of None \<Rightarrow> [] | Some x \<Rightarrow> [x])"

definition failing_item :: "dengjen_error option \<Rightarrow> samples dengjen_result list" where
  "failing_item failure = (case failure of None \<Rightarrow> [] | Some e \<Rightarrow> [Inl e])"

lemma rt_spec_pieces:
  "open_sentence rq i s = SourceItems (map Inr chunks) None \<Longrightarrow>
     rt_spec rq i (s # ss) = shaped_pieces rq chunks @ rt_spec rq (Suc i) ss"
  by (simp add: shape_chunk_def shaped_pieces_def)

lemma kokoro_spoken_in_pieces:
  assumes rq: "rt_source rq = voice_source env (KokoroVoice m)" "0 < rt_chunk_size rq"
    and short: "list_all (speaks_short env m) ss"
  shows "\<exists>pieces. map concat pieces = fst (heard (map (samples_of \<circ> kokoro_speak env m) ss)) \<and>
    rt_spec rq i ss = concat (map (shaped_pieces rq) pieces) @
      failing_item (snd (heard (map (samples_of \<circ> kokoro_speak env m) ss)))"
  using short
proof (induction ss arbitrary: i)
  case Nil
  show ?case by (intro exI [of _ "[]"]) (simp add: failing_item_def)
next
  case (Cons s ss)
  note opened = next_chunk_size_positive [OF rq(2), of i]
  show ?case
  proof (cases "kokoro_speak env m s")
    case (Inl e)
    with kokoro_source_fails [OF opened Inl] show ?thesis
      by (intro exI [of _ "[]"]) (simp add: open_sentence_def rq failing_item_def)
  next
    case (Inr a)
    with Cons.prems have "length (samples a) \<le> 2 ^ 61" by (simp add: speaks_short_def)
    from kokoro_source_speaks [OF opened Inr this, of "rt_chunk_padding rq"] obtain chunks
      where chunks: "open_sentence rq i s = SourceItems (map Inr chunks) None" "concat chunks = samples a"
      by (auto simp: open_sentence_def rq)
    from Cons.prems have "list_all (speaks_short env m) ss" by simp
    from Cons.IH [OF this, of "Suc i"] obtain pieces where
      "map concat pieces = fst (heard (map (samples_of \<circ> kokoro_speak env m) ss))"
      "rt_spec rq (Suc i) ss = concat (map (shaped_pieces rq) pieces) @
        failing_item (snd (heard (map (samples_of \<circ> kokoro_speak env m) ss)))" by blast
    with rt_spec_pieces [OF chunks(1)] chunks(2) Inr show ?thesis
      by (intro exI [of _ "chunks # pieces"]) (simp add: comp_def)
  qed
qed

lemma heard_pieces:
  "fst (heard (map Inr xs @ rs)) = xs @ fst (heard rs)" "snd (heard (map Inr xs @ rs)) = snd (heard rs)"
  by (induction xs) simp_all

lemma unshaped_heard:
  assumes "rt_shape rq = Inr" "rt_silence rq = None"
  shows "heard (concat (map (shaped_pieces rq) pieces) @ failing_item failure) = (concat pieces, failure)"
proof (induction pieces)
  case Nil
  show ?case by (simp add: failing_item_def split: option.split)
next
  case (Cons ps pieces)
  have "shaped_pieces rq ps = map Inr ps" by (simp add: shaped_pieces_def assms)
  with Cons show ?case by (simp add: prod_eq_iff heard_pieces)
qed

text \<open>What a voice speaks of a request, before any trimming, fading or shaping.\<close>

definition spoken_by_model :: "'u task_provider \<Rightarrow> samples list \<times> dengjen_error option" where
  "spoken_by_model p =
     (case get_phonemes p of
        Inl e \<Rightarrow> ([], Some e)
      | Inr sentences \<Rightarrow> heard (map (samples_of \<circ> speak_one_sentence (model p)) sentences))"

text \<open>
  \<^bold>\<open>C3\<close>: realtime synthesis with a Kokoro voice loses nothing and adds nothing. For a positive
  chunk size, and although the worker asks for larger chunks from sentence to sentence, the items of the request
  are those of a partition: the audio the voice speaks of each sentence, up to the first sentence that
  fails, is cut into consecutive pieces that together are all of it; each piece goes on its own through the
  shaping the output config asks for, each sentence is followed by the silence it asks for, and the
  failure of that first failing sentence comes last. Without an output config the chunks heard in order
  are, sample for sample, what the voice speaks, and the request fails exactly when and as that sentence
  does. The audio of a sentence is below the bound on the length of any vector of samples.
\<close>

theorem kokoro_realtime_is_lossless:
  assumes "model p = kokoro_methods env m" "0 < chunk_size"
    "res_all (\<lambda>_. True) (list_all (speaks_short env m)) (get_phonemes p)"
    "rq = rt_request_of (sonic_port p) (output_config p) (voice_source env (KokoroVoice m)) chunk_size chunk_padding
       (kk_sample_rate (km_voice m)) 1"
  shows "(\<exists>pieces. map concat pieces = fst (spoken_by_model p) \<and>
      mode_speech (voice_source env (KokoroVoice m)) p (ModeRealtime chunk_size chunk_padding) =
        heard (concat (map (shaped_pieces rq) pieces) @ failing_item (snd (spoken_by_model p)))) \<and>
    (output_config p = None \<longrightarrow>
      concat (fst (mode_speech (voice_source env (KokoroVoice m)) p (ModeRealtime chunk_size chunk_padding))) =
        concat (fst (spoken_by_model p)) \<and>
      snd (mode_speech (voice_source env (KokoroVoice m)) p (ModeRealtime chunk_size chunk_padding)) =
        snd (spoken_by_model p))"
proof -
  let ?heard = "mode_speech (voice_source env (KokoroVoice m)) p (ModeRealtime chunk_size chunk_padding)"
  have ex: "\<exists>pieces. map concat pieces = fst (spoken_by_model p) \<and>
      ?heard = heard (concat (map (shaped_pieces rq) pieces) @ failing_item (snd (spoken_by_model p)))"
  proof (cases "get_phonemes p")
    case (Inl e)
    then show ?thesis
      using assms(1)
      by (intro exI [of _ "[]"]) (simp add: mode_speech_def spoken_by_model_def kokoro_methods_def failing_item_def)
  next
    case (Inr sentences)
    have "audio_output_info (model p) = Inr \<lparr>sample_rate = kk_sample_rate (km_voice m), num_channels = 1, sample_width = 2\<rparr>"
      "speak_one_sentence (model p) = kokoro_speak env m"
      using assms(1) by (simp_all add: kokoro_methods_def)
    moreover have "rt_source rq = voice_source env (KokoroVoice m)" "0 < rt_chunk_size rq"
      using assms(2) by (simp_all add: assms(4) rt_request_of_def)
    moreover have "list_all (speaks_short env m) sentences" using assms(3) Inr by simp
    ultimately show ?thesis
      using kokoro_spoken_in_pieces [of rq env m sentences 0] Inr
      by (auto simp: mode_speech_def spoken_by_model_def assms(4))
  qed
  then obtain pieces where pieces: "map concat pieces = fst (spoken_by_model p)"
    "?heard = heard (concat (map (shaped_pieces rq) pieces) @ failing_item (snd (spoken_by_model p)))" by blast
  have "?heard = (concat pieces, snd (spoken_by_model p))" if "output_config p = None"
    unfolding pieces(2) by (rule unshaped_heard) (simp_all add: assms(4) that rt_request_of_def)
  moreover have "concat (concat pieces) = concat (fst (spoken_by_model p))"
    unfolding pieces(1) [symmetric] by (induction pieces) simp_all
  ultimately show ?thesis using ex by simp
qed

text \<open>A concrete voice whose session answers two samples, and a request for one sentence.\<close>

lemma demo_kokoro_speaks_short:
  assumes "length (vocab_tokenize (kk_vocab (km_voice m)) s) \<le> MAX_TOKEN_LEN"
  shows "speaks_short demo_voice_env m s"
  using assms
  by (subst speaks_short_def, unfold kokoro_speak_def synthesize_phonemes_def, subst split_tokens.simps)
    (auto simp: synthesize_token_chunk_def kokoro_run_def demo_env res_all_def new_audio_def res_bind_def
      res_map_def Let_def split: sum.split)

definition demo_task :: "dengjen_model \<Rightarrow> nat task_provider" where
  "demo_task md =
     \<lparr>model = md, text_input = lit ''ab'', output_config = None, sonic_port = silent_sonic, sin32 = id\<rparr>"

theorem kokoro_realtime_is_lossless_witness:
  "\<exists>m. load_any_voice demo_voice_env (lit ''v/c.json'') = Inr (KokoroVoice m) \<and>
     get_phonemes (demo_task (kokoro_methods demo_voice_env m)) = Inr [lit ''ab.''] \<and>
     concat (fst (mode_speech (voice_source demo_voice_env (KokoroVoice m))
         (demo_task (kokoro_methods demo_voice_env m)) (ModeRealtime 1 3))) =
       concat (fst (spoken_by_model (demo_task (kokoro_methods demo_voice_env m))))"
proof -
  obtain m where m: "load_any_voice demo_voice_env (lit ''v/c.json'') = Inr (KokoroVoice m)"
    "kk_speaker_map (km_voice m) = [(0, lit ''af'')]" "kk_default_voice (km_voice m) = lit ''af''"
    using demo_voice_loads by blast
  let ?p = "demo_task (kokoro_methods demo_voice_env m)"
  have "resolve_voice_name (kk_speaker_map (km_voice m)) (kk_default_voice (km_voice m)) (kk_synth_config (km_voice m)) = lit ''af''"
    by (simp add: resolve_voice_name_def m unwrap_or_def split: option.split)
  moreover have "espeak_language_for_voice (lit ''af'') = Inr (lit ''en-US'')" "lit ''en-US'' \<noteq> lit ''ja''" "0 \<notin> set (lit ''en-US'')"
    by code_simp+
  moreover have "espeak_feature demo_voice_env = Some (espeak_port (ve_espeak demo_voice_env) (ve_process demo_voice_env))"
    by (simp add: espeak_feature_def demo_voice_env_def)
  ultimately have p: "get_phonemes ?p = Inr [lit ''ab.'']"
    unfolding get_phonemes_def
    by (simp add: demo_task_def kokoro_methods_def kokoro_phonemize_text_def text_to_kokoro_phonemes_def
        demo_espeak_answers [simplified] demo_ipa [simplified] split: option.split)
  have "length (vocab_tokenize (kk_vocab (km_voice m)) (lit ''ab.'')) \<le> MAX_TOKEN_LEN"
    by (rule order_trans [OF vocab_tokens_no_longer]) (simp add: MAX_TOKEN_LEN_def)
  from demo_kokoro_speaks_short [OF this] p
  have "res_all (\<lambda>_. True) (list_all (speaks_short demo_voice_env m)) (get_phonemes ?p)" by simp
  with m(1) p show ?thesis
    using kokoro_realtime_is_lossless [of ?p demo_voice_env m 1 _ 3] by (simp add: demo_task_def)
qed

section \<open>From the command line to the bytes\<close>

text \<open>The four front ends hand a config path to the same loaders.\<close>

lemma front_ends_load_the_same:
  "cli_load_voice env p = res_map_err CliDengjen (load_any_voice env p)"
  "grpc_load_voice (ve_read env) (ve_parse_json env) (\<lambda>q. res_map PiperVoice (piper_from_config_path env q))
     (\<lambda>q. res_map KokoroVoice (kokoro_from_config_path env q)) (\<lambda>q. res_map MeloVoice (melo_from_config_path env q)) p =
   load_any_voice env p"
  "py_load_voice (\<lambda>mt q. case mt of Piper \<Rightarrow> res_map PiperVoice (piper_from_config_path env q)
       | Kokoro \<Rightarrow> res_map KokoroVoice (kokoro_from_config_path env q)
       | MeloTts \<Rightarrow> res_map MeloVoice (melo_from_config_path env q)) (ve_read env) (ve_parse_json env) p =
   py_lift (load_any_voice env p)"
  by (simp_all add: cli_load_voice_def grpc_load_voice_def py_load_voice_def load_any_voice_def)

text \<open>
  \<^bold>\<open>C8\<close>: the command line program, from its start to its exit: with an input file and standard output
  that takes everything, it leaves behind the audio specified for the text in the mode asked for, spoken by the
  loaded voice after the settings of the request, and ends with the failure of the first sentence that fails,
  or well; settings that the voice refuses, a bad mode and an unreadable file end it before
  anything is written; and the disk stays as it was.
\<close>

theorem program_writes_speech:
  assumes "pr_args pr = Inr c" "startup env pr c = Inr v" "cl_input_file c = Some f" "cl_output_file c = None"
    "ce_pool ce = Inr ()" "0 < ce_default_batch_size ce" "ce_writer ce = buffer_writer"
  shows "cli_main env ce pr (disk, out) =
    (case res_map_err CliIo (pr_read_to_string pr f) of
       Inl e \<Rightarrow> Some ((disk, out), MainReturned (Inl e))
     | Inr text \<Rightarrow>
         (case synthesis_request_from_cli c text of rq \<Rightarrow>
         (case voice_set_fallback (as_synthesis_config rq (default_config v)) v of
            Inl e \<Rightarrow> Some ((disk, out), MainReturned (Inl (CliDengjen e)))
          | Inr w \<Rightarrow>
              (case stream_mode_of (ce_default_batch_size ce) rq of
                 Inl e \<Rightarrow> Some ((disk, out), MainReturned (Inl e))
               | Inr mode \<Rightarrow>
                   (case shown_by_cli out (mode_speech (voice_source env w) (cli_provider (program_env env ce) w rq) mode) of
                      (out', r) \<Rightarrow> Some ((disk, out'), MainReturned r))))))"
proof -
  let ?ce = "program_env env ce"
  have "write_samples_of ?ce w rq out =
      (case stream_mode_of (ce_default_batch_size ce) rq of
         Inl e \<Rightarrow> Some (out, Inl e)
       | Inr mode \<Rightarrow> Some (shown_by_cli out (mode_speech (voice_source env w) (cli_provider ?ce w rq) mode)))" for w rq
    using cli_mode_shows [of ?ce rq _ w out] assms(5-7)
    by (cases "stream_mode_of (ce_default_batch_size ce) rq") (simp_all add: write_samples_of_def)
  then show ?thesis
    by (simp add: cli_main_runs [OF assms(1)] assms(2-4) run_requests_def synthesize_from_file_def
        process_synthesis_request_def Let_def split: sum.split prod.split)
qed

definition demo_file_cli :: cli where
  "demo_file_cli = demo_cli\<lparr>cl_input_file := Some (lit ''t.txt'')\<rparr>"

definition demo_file_start :: "unit process_start" where
  "demo_file_start = demo_start\<lparr>pr_args := Inr demo_file_cli, pr_read_to_string := (\<lambda>_. Inr (lit ''ab''))\<rparr>"

theorem program_writes_speech_witness:
  "\<exists>w out r. cli_main demo_voice_env demo_program_env demo_file_start (\<lparr>files = Map.empty, temp_counter = 0\<rparr>, [7]) =
       Some ((\<lparr>files = Map.empty, temp_counter = 0\<rparr>, out), MainReturned r) \<and>
     (out, r) = shown_by_cli [7] (mode_speech (voice_source demo_voice_env w)
       (cli_provider (program_env demo_voice_env demo_program_env) w (synthesis_request_from_cli demo_file_cli (lit ''ab''))) ModeLazy)"
proof -
  obtain m where m: "load_any_voice demo_voice_env (lit ''v/c.json'') = Inr (KokoroVoice m :: (unit, unit) loaded_voice)"
    "kk_speaker_map (km_voice m) = [(0, lit ''af'')]" using demo_voice_loads by blast
  let ?rq = "synthesis_request_from_cli demo_file_cli (lit ''ab'')"
  have args: "pr_args demo_file_start = Inr demo_file_cli" "cl_input_file demo_file_cli = Some (lit ''t.txt'')"
    "cl_output_file demo_file_cli = None" "pr_read_to_string demo_file_start (lit ''t.txt'') = Inr (lit ''ab'')"
    by (simp_all add: demo_file_start_def demo_file_cli_def demo_cli_def)
  have env: "ce_pool demo_program_env = Inr ()" "0 < ce_default_batch_size demo_program_env" "ce_writer demo_program_env = buffer_writer"
    by (simp_all add: demo_program_env_def)
  have up: "startup demo_voice_env demo_file_start demo_file_cli = Inr (KokoroVoice m)"
    using m(1) by (simp add: startup_def enable_logging_def log_filter_def demo_file_start_def demo_file_cli_def demo_start_def
        demo_cli_def build_synthesizer_def cli_load_voice_def synthesizer_new_def ort_commit_result_def)
  obtain w where w: "voice_set_fallback (as_synthesis_config ?rq (default_config (KokoroVoice m :: (unit, unit) loaded_voice)))
      (KokoroVoice m :: (unit, unit) loaded_voice) = Inr w"
    using m(2) by (simp add: as_synthesis_config_def synthesis_request_from_cli_def demo_file_cli_def demo_cli_def
        default_config_def kokoro_get_default_def kokoro_set_fallback_def)
  have mode: "stream_mode_of n ?rq = Inr ModeLazy" for n
    by (simp add: stream_mode_of_def synthesis_request_from_cli_def demo_file_cli_def demo_cli_def)
  obtain out r where shown: "shown_by_cli [7] (mode_speech (voice_source demo_voice_env w)
      (cli_provider (program_env demo_voice_env demo_program_env) w ?rq) ModeLazy) = (out, r)"
    by (cases "shown_by_cli [7] (mode_speech (voice_source demo_voice_env w)
      (cli_provider (program_env demo_voice_env demo_program_env) w ?rq) ModeLazy)")
  show ?thesis
    by (intro exI [of _ w] exI [of _ out] exI [of _ r] conjI,
      subst program_writes_speech [OF args(1) up args(2,3) env])
      (simp_all only: args(4) res_map_err_simps sum.case Let_def w mode shown prod.case)
qed

end
